(* ===== verification/Prelude.thy ===== *)
theory Prelude
  imports Main "HOL-Library.Sublist" "HOL-Library.Multiset"
begin

text \<open>
  The shared layer of the development: the result type of a Go call, the state-passing
  shape of the model's operations, the loops the source writes as \<open>for ... range\<close>, and
  the functions of the packages \<^verbatim>\<open>strings\<close>, \<^verbatim>\<open>strconv\<close> and \<^verbatim>\<open>fmt\<close> that
  the source calls. A Go string is its sequence of bytes, a \<^typ>\<open>string\<close>.
\<close>

named_theorems go_simps \<open>unfolding a sequence of calls\<close>
named_theorems str_simps \<open>evaluation of the string functions\<close>

section \<open>Results of calls\<close>

text \<open>
  An \<^verbatim>\<open>error\<close> value is either a plain message (\<^verbatim>\<open>fmt.Errorf\<close>, \<^verbatim>\<open>errors.New\<close>) or
  the error of a terminated process, which keeps its exit status. A call returns, returns an error,
  or panics.
\<close>

datatype go_error = ErrorString string | ExitError int string

datatype 'a go_res = Ret 'a | Err go_error | Panic string

type_synonym ('s, 'a) go = "'s \<Rightarrow> 'a go_res \<times> 's"

definition go_ret :: "'a \<Rightarrow> ('s, 'a) go" where
  "go_ret x s = (Ret x, s)"

definition go_err :: "go_error \<Rightarrow> ('s, 'a) go" where
  "go_err e s = (Err e, s)"

definition go_panic :: "string \<Rightarrow> ('s, 'a) go" where
  "go_panic m s = (Panic m, s)"

text \<open>\<open>x, err := m; if err != nil { return err }; f(x)\<close>.\<close>

definition go_bind :: "('s, 'a) go \<Rightarrow> ('a \<Rightarrow> ('s, 'b) go) \<Rightarrow> ('s, 'b) go" where
  "go_bind m f s =
     (case fst (m s) of
        Ret x \<Rightarrow> f x (snd (m s))
      | Err e \<Rightarrow> (Err e, snd (m s))
      | Panic p \<Rightarrow> (Panic p, snd (m s)))"

text \<open>\<open>x, err := m\<close> where the caller goes on whatever \<open>err\<close> is.\<close>

definition go_try :: "('s, 'a) go \<Rightarrow> ('s, go_error + 'a) go" where
  "go_try m s =
     (case fst (m s) of
        Ret x \<Rightarrow> (Ret (Inr x), snd (m s))
      | Err e \<Rightarrow> (Ret (Inl e), snd (m s))
      | Panic p \<Rightarrow> (Panic p, snd (m s)))"

text \<open>\<open>if err != nil { return fmt.Errorf(..., err) }\<close>.\<close>

definition go_wrap :: "(go_error \<Rightarrow> go_error) \<Rightarrow> ('s, 'a) go \<Rightarrow> ('s, 'a) go" where
  "go_wrap w m s =
     (case fst (m s) of
        Ret x \<Rightarrow> (Ret x, snd (m s))
      | Err e \<Rightarrow> (Err (w e), snd (m s))
      | Panic p \<Rightarrow> (Panic p, snd (m s)))"

text \<open>\<open>for _, x := range xs { acc = body(x, acc) }\<close>; an error or a panic of the body leaves
  the loop.\<close>

fun go_fold :: "('x \<Rightarrow> 'a \<Rightarrow> ('s, 'a) go) \<Rightarrow> 'x list \<Rightarrow> 'a \<Rightarrow> ('s, 'a) go" where
  "go_fold body [] acc = go_ret acc"
| "go_fold body (x # xs) acc = go_bind (body x acc) (go_fold body xs)"

definition go_each :: "('x \<Rightarrow> ('s, unit) go) \<Rightarrow> 'x list \<Rightarrow> ('s, unit) go" where
  "go_each body xs = go_fold (\<lambda>x _. body x) xs ()"

definition go_when :: "bool \<Rightarrow> ('s, unit) go \<Rightarrow> ('s, unit) go" where
  "go_when b m = (if b then m else go_ret ())"

text \<open>\<open>err != nil\<close> is only logged.\<close>

definition go_log :: "('s, 'a) go \<Rightarrow> ('s, unit) go" where
  "go_log m = go_bind (go_try m) (\<lambda>_. go_ret ())"

lemmas go_defs = go_ret_def go_err_def go_panic_def go_bind_def go_try_def go_wrap_def
  go_when_def go_log_def go_each_def

declare go_defs [go_simps]

lemma go_bind_ret [simp]: "go_bind (go_ret x) f = f x"
  by (rule ext) (simp add: go_simps)

lemma go_bind_err [simp]: "go_bind (go_err e) f = go_err e"
  by (rule ext) (simp add: go_simps)

lemma go_bind_panic [simp]: "go_bind (go_panic p) f = go_panic p"
  by (rule ext) (simp add: go_simps)

lemma go_bind_assoc: "go_bind (go_bind m f) g = go_bind m (\<lambda>x. go_bind (f x) g)"
  by (rule ext) (simp add: go_simps split: go_res.split)

lemma go_try_ret [simp]: "go_try (go_ret x) = go_ret (Inr x)"
  by (rule ext) (simp add: go_simps)

lemma go_try_err [simp]: "go_try (go_err e) = go_ret (Inl e)"
  by (rule ext) (simp add: go_simps)

lemma go_each_Nil [simp]: "go_each body [] = go_ret ()"
  by (simp add: go_each_def)

lemma go_each_Cons: "go_each body (x # xs) = go_bind (body x) (\<lambda>_. go_each body xs)"
  by (rule ext) (simp add: go_each_def go_bind_def split: go_res.split)

lemma go_fold_append: "go_fold b (xs @ ys) a = go_bind (go_fold b xs a) (go_fold b ys)"
proof (induction xs arbitrary: a)
  case Nil
  show ?case by simp
next
  case (Cons x xs)
  then have "go_fold b (xs @ ys) = (\<lambda>a. go_bind (go_fold b xs a) (go_fold b ys))" by (rule ext)
  then show ?case by (simp add: go_bind_assoc)
qed

subsection \<open>Invariants of the state\<close>

text \<open>
  \<open>keeps I m\<close>: whatever the outcome of \<open>m\<close>, it leaves the state in \<open>I\<close> when it started there.
  The rules follow the combinators, so that the invariant of an operation is the invariant of
  the calls it makes.
\<close>

definition keeps :: "('s \<Rightarrow> bool) \<Rightarrow> ('s, 'a) go \<Rightarrow> bool" where
  "keeps I m \<longleftrightarrow> (\<forall>s. I s \<longrightarrow> I (snd (m s)))"

lemma keepsI: "(\<And>s. I s \<Longrightarrow> I (snd (m s))) \<Longrightarrow> keeps I m"
  by (simp add: keeps_def)

lemma keepsD: "keeps I m \<Longrightarrow> I s \<Longrightarrow> I (snd (m s))"
  by (simp add: keeps_def)

lemma keeps_ret [intro]: "keeps I (go_ret x)"
  and keeps_err [intro]: "keeps I (go_err e)"
  and keeps_panic [intro]: "keeps I (go_panic p)"
  by (auto simp: keeps_def go_simps)

lemma keeps_bind [intro]: "keeps I m \<Longrightarrow> (\<And>x. keeps I (f x)) \<Longrightarrow> keeps I (go_bind m f)"
  by (auto simp: keeps_def go_simps split: go_res.split)

text \<open>The rule for a continuation that depends on what the first call returned.\<close>

lemma keeps_bind_result:
  "keeps I m \<Longrightarrow> (\<And>x s. I s \<Longrightarrow> fst (m s) = Ret x \<Longrightarrow> keeps I (f x)) \<Longrightarrow> keeps I (go_bind m f)"
  by (fastforce simp: keeps_def go_simps split: go_res.split)

lemma keeps_try [intro]: "keeps I m \<Longrightarrow> keeps I (go_try m)"
  and keeps_wrap [intro]: "keeps I m \<Longrightarrow> keeps I (go_wrap w m)"
  by (auto simp: keeps_def go_simps split: go_res.split)

lemma keeps_fold [intro]: "(\<And>x a. keeps I (body x a)) \<Longrightarrow> keeps I (go_fold body xs a)"
  by (induction xs arbitrary: a) auto

lemma keeps_each [intro]: "(\<And>x. x \<in> set xs \<Longrightarrow> keeps I (body x)) \<Longrightarrow> keeps I (go_each body xs)"
  by (induction xs) (auto simp: go_each_Cons)

lemma keeps_when [intro]: "(b \<Longrightarrow> keeps I m) \<Longrightarrow> keeps I (go_when b m)"
  by (auto simp: go_when_def)

lemma keeps_log [intro]: "keeps I m \<Longrightarrow> keeps I (go_log m)"
  by (auto simp: go_log_def)

lemma keeps_if [intro]: "(b \<Longrightarrow> keeps I m) \<Longrightarrow> (\<not> b \<Longrightarrow> keeps I n) \<Longrightarrow> keeps I (if b then m else n)"
  by simp

lemma keeps_case_sum [intro]:
  "(\<And>e. x = Inl e \<Longrightarrow> keeps I (f e)) \<Longrightarrow> (\<And>v. x = Inr v \<Longrightarrow> keeps I (g v)) \<Longrightarrow>
   keeps I (case x of Inl e \<Rightarrow> f e | Inr v \<Rightarrow> g v)"
  by (cases x) auto

lemma keeps_case_option [intro]:
  "(x = None \<Longrightarrow> keeps I f) \<Longrightarrow> (\<And>v. x = Some v \<Longrightarrow> keeps I (g v)) \<Longrightarrow>
   keeps I (case x of None \<Rightarrow> f | Some v \<Rightarrow> g v)"
  by (cases x) auto

lemma pred_option_code [code]: "pred_option P None = True" "pred_option P (Some x) = P x"
  by simp_all

section \<open>Strings\<close>

text \<open>\<^verbatim>\<open>strings.HasPrefix\<close>, \<^verbatim>\<open>strings.HasSuffix\<close>, \<^verbatim>\<open>strings.Contains\<close>.\<close>

definition HasPrefix :: "string \<Rightarrow> string \<Rightarrow> bool" where
  "HasPrefix s p = prefix p s"

definition HasSuffix :: "string \<Rightarrow> string \<Rightarrow> bool" where
  "HasSuffix s p = prefix (rev p) (rev s)"

fun Contains :: "string \<Rightarrow> string \<Rightarrow> bool" where
  "Contains [] sub = (sub = [])"
| "Contains (c # cs) sub = (prefix sub (c # cs) \<or> Contains cs sub)"

lemma Contains_iff: "Contains s sub \<longleftrightarrow> (\<exists>p q. s = p @ sub @ q)"
proof (induction s)
  case Nil
  then show ?case by auto
next
  case (Cons c cs)
  have "(\<exists>p q. c # cs = p @ sub @ q) \<longleftrightarrow> prefix sub (c # cs) \<or> (\<exists>p q. cs = p @ sub @ q)"
    by (auto simp: prefix_def Cons_eq_append_conv)
  with Cons.IH show ?case by simp
qed

lemma Contains_self [simp]: "Contains s s"
  by (metis Contains_iff append_Nil append_Nil2)

lemma Contains_empty [simp]: "Contains s []"
  by (cases s) auto

lemma Contains_appendI1: "Contains s sub \<Longrightarrow> Contains (s @ t) sub"
  by (metis Contains_iff append.assoc)

lemma Contains_appendI2: "Contains t sub \<Longrightarrow> Contains (s @ t) sub"
  by (metis Contains_iff append.assoc)

lemma Contains_length: "Contains s sub \<Longrightarrow> length sub \<le> length s"
  by (auto simp: Contains_iff)

lemma Contains_same_length:
  assumes "length s = length sub"
  shows "Contains s sub \<longleftrightarrow> s = sub"
proof
  assume "Contains s sub"
  then obtain p q where "s = p @ sub @ q" by (auto simp: Contains_iff)
  with assms show "s = sub" by simp
qed simp

lemma Contains_trans: "Contains s t \<Longrightarrow> Contains t u \<Longrightarrow> Contains s u"
  by (metis Contains_iff append.assoc)

text \<open>A substring without the separator character lies on one side of it.\<close>

lemma Contains_sep:
  assumes "c \<notin> set sub"
  shows "Contains (s @ c # t) sub \<longleftrightarrow> Contains s sub \<or> Contains t sub"
proof
  assume "Contains (s @ c # t) sub"
  then obtain p q where pq: "s @ c # t = p @ sub @ q" by (auto simp: Contains_iff)
  then consider us where "s = p @ us" "us @ c # t = sub @ q" | us where "s @ us = p" "c # t = us @ sub @ q"
    by (auto simp: append_eq_append_conv2)
  then show "Contains s sub \<or> Contains t sub"
  proof cases
    case 1
    then consider vs where "us = sub @ vs" | vs where "us @ vs = sub" "c # t = vs @ q"
      by (auto simp: append_eq_append_conv2)
    then show ?thesis
    proof cases
      case a: 1
      with 1 show ?thesis by (auto simp: Contains_iff)
    next
      case b: 2
      with assms have "vs = []" by (cases vs) auto
      with b 1 have "s = p @ sub @ []" by simp
      then show ?thesis using Contains_iff by blast
    qed
  next
    case 2
    show ?thesis
    proof (cases us)
      case Nil
      with 2 assms have "sub = []" by (cases sub) auto
      then show ?thesis by simp
    next
      case (Cons u us')
      with 2 show ?thesis by (auto simp: Contains_iff)
    qed
  qed
next
  assume "Contains s sub \<or> Contains t sub"
  then show "Contains (s @ c # t) sub"
    by (metis Contains_appendI1 Contains_appendI2 append_Cons append_Nil append.assoc)
qed

text \<open>\<^verbatim>\<open>strings.Split\<close> with a non-empty separator (every call of the source has one).\<close>

fun split_from :: "string \<Rightarrow> string \<Rightarrow> string \<Rightarrow> string list" where
  "split_from sep cur [] = [rev cur]"
| "split_from sep cur (c # cs) =
     (if prefix sep (c # cs) then rev cur # split_from sep [] (drop (length sep - 1) cs)
      else split_from sep (c # cur) cs)"

definition Split :: "string \<Rightarrow> string \<Rightarrow> string list" where
  "Split s sep = split_from sep [] s"

text \<open>\<^verbatim>\<open>strings.Join\<close>.\<close>

fun Join :: "string list \<Rightarrow> string \<Rightarrow> string" where
  "Join [] sep = []"
| "Join [s] sep = s"
| "Join (s # t # ss) sep = s @ sep @ Join (t # ss) sep"

lemma split_from_not_Nil [simp]: "split_from sep cur s \<noteq> []"
  by (induction sep cur s rule: split_from.induct) auto

lemma Split_not_Nil [simp]: "Split s sep \<noteq> []"
  by (simp add: Split_def)

lemma Join_Cons: "ss \<noteq> [] \<Longrightarrow> Join (s # ss) sep = s @ sep @ Join ss sep"
  by (cases ss) auto

lemma Join_split_from: "sep \<noteq> [] \<Longrightarrow> Join (split_from sep cur s) sep = rev cur @ s"
proof (induction sep cur s rule: split_from.induct)
  case (1 sep cur)
  then show ?case by simp
next
  case (2 sep cur c cs)
  show ?case
  proof (cases "prefix sep (c # cs)")
    case True
    then obtain rest where r: "c # cs = sep @ rest" by (auto simp: prefix_def)
    with "2.prems" have "drop (length sep - 1) cs = rest"
      by (cases sep) auto
    then have "Join (split_from sep cur (c # cs)) sep = rev cur @ sep @ Join (split_from sep [] rest) sep"
      using True by (simp add: Join_Cons)
    also have "Join (split_from sep [] rest) sep = rest"
      using "2.IH"(1) True "2.prems" \<open>drop (length sep - 1) cs = rest\<close> by simp
    finally show ?thesis using r by simp
  next
    case False
    with 2 show ?thesis by simp
  qed
qed

lemma Join_Split: "sep \<noteq> [] \<Longrightarrow> Join (Split s sep) sep = s"
  by (simp add: Split_def Join_split_from)

lemma split_from_no_sep: "c \<notin> set s \<Longrightarrow> split_from [c] cur s = [rev cur @ s]"
  by (induction s arbitrary: cur) auto

lemma split_from_append:
  "c \<notin> set s \<Longrightarrow> split_from [c] cur (s @ c # t) = (rev cur @ s) # split_from [c] [] t"
  by (induction s arbitrary: cur) auto

lemma Split_no_sep: "c \<notin> set s \<Longrightarrow> Split s [c] = [s]"
  by (simp add: Split_def split_from_no_sep)

lemma Split_append: "c \<notin> set s \<Longrightarrow> Split (s @ c # t) [c] = s # Split t [c]"
  by (simp add: Split_def split_from_append)

lemma Split_Join: "ss \<noteq> [] \<Longrightarrow> \<forall>s \<in> set ss. c \<notin> set s \<Longrightarrow> Split (Join ss [c]) [c] = ss"
  by (induction ss "[c]" rule: Join.induct) (auto simp: Split_no_sep Split_append)

lemma split_from_parts: "s' \<in> set (split_from [c] cur s) \<Longrightarrow> c \<notin> set cur \<Longrightarrow> c \<notin> set s'"
  by (induction s arbitrary: cur) (fastforce split: if_splits)+

lemma Split_parts: "s' \<in> set (Split s [c]) \<Longrightarrow> c \<notin> set s'"
  by (auto simp: Split_def dest: split_from_parts)

text \<open>
  \<^verbatim>\<open>strings.TrimSpace\<close>: the UTF-8 encodings of the code points with the Unicode property
  White Space. UTF-8 is self-synchronising, so matching the encoding at either end of the string is
  what decoding the first or the last rune does.
\<close>

definition space_runes :: "string list" where
  "space_runes =
     [[CHR 0x09], [CHR 0x0A], [CHR 0x0B], [CHR 0x0C], [CHR 0x0D], [CHR 0x20],
      [CHR 0xC2, CHR 0x85], [CHR 0xC2, CHR 0xA0], [CHR 0xE1, CHR 0x9A, CHR 0x80]]
     @ map (\<lambda>b. [CHR 0xE2, CHR 0x80, b])
         [CHR 0x80, CHR 0x81, CHR 0x82, CHR 0x83, CHR 0x84, CHR 0x85, CHR 0x86, CHR 0x87, CHR 0x88,
          CHR 0x89, CHR 0x8A, CHR 0xA8, CHR 0xA9, CHR 0xAF]
     @ [[CHR 0xE2, CHR 0x81, CHR 0x9F], [CHR 0xE3, CHR 0x80, CHR 0x80]]"

fun trim_runes :: "string list \<Rightarrow> string \<Rightarrow> string" where
  "trim_runes ws [] = []"
| "trim_runes ws (c # cs) =
     (case find (\<lambda>w. prefix w (c # cs)) ws of
        None \<Rightarrow> c # cs
      | Some w \<Rightarrow> trim_runes ws (drop (length w - 1) cs))"

definition TrimSpace :: "string \<Rightarrow> string" where
  "TrimSpace s = rev (trim_runes (map rev space_runes) (rev (trim_runes space_runes s)))"

lemma trim_runes_id:
  assumes "\<forall>w \<in> set ws. w \<noteq> [] \<and> hd w \<noteq> c"
  shows "trim_runes ws (c # cs) = c # cs"
proof -
  have "find (\<lambda>w. prefix w (c # cs)) ws = None"
    using assms by (auto simp: find_None_iff prefix_Cons)
  then show ?thesis by simp
qed

lemma trim_runes_stuck: "\<forall>w \<in> set ws. \<not> prefix w s \<Longrightarrow> trim_runes ws s = s"
proof (cases s)
  case (Cons c cs)
  assume "\<forall>w \<in> set ws. \<not> prefix w s"
  then have "find (\<lambda>w. prefix w (c # cs)) ws = None" using Cons by (simp add: find_None_iff)
  then show ?thesis using Cons by simp
qed simp

lemma trim_runes_result: "trim_runes ws s = [] \<or> (\<forall>w \<in> set ws. \<not> prefix w (trim_runes ws s))"
proof (induction ws s rule: trim_runes.induct)
  case (2 ws c cs)
  then show ?case by (auto simp: find_None_iff split: option.split)
qed simp

lemma suffix_trim_runes: "suffix (trim_runes ws s) s"
proof (induction ws s rule: trim_runes.induct)
  case (2 ws c cs)
  then show ?case
    by (auto split: option.split) (meson suffix_ConsI suffix_drop suffix_order.trans)
qed simp

lemma TrimSpace_idem [simp]: "TrimSpace (TrimSpace s) = TrimSpace s"
proof -
  let ?f = "trim_runes space_runes" and ?b = "\<lambda>s. rev (trim_runes (map rev space_runes) (rev s))"
  have t: "TrimSpace s = ?b (?f s)" for s by (simp add: TrimSpace_def)
  have b: "?b (?b x) = ?b x" for x
  proof -
    have "trim_runes ws (trim_runes ws y) = trim_runes ws y" for ws y
      using trim_runes_result[of ws y] trim_runes_stuck[of ws "trim_runes ws y"] by auto
    then show ?thesis by simp
  qed
  have "?f (?b (?f s)) = ?b (?f s)"
  proof (cases "?b (?f s) = []")
    case False
    have "suffix (trim_runes (map rev space_runes) (rev (?f s))) (rev (?f s))" by (rule suffix_trim_runes)
    then have p: "prefix (?b (?f s)) (?f s)" by (simp add: suffix_to_prefix)
    then have "?f s \<noteq> []" using False by auto
    then have "\<forall>w \<in> set space_runes. \<not> prefix w (?f s)" using trim_runes_result by blast
    then have "\<forall>w \<in> set space_runes. \<not> prefix w (?b (?f s))" using p by (meson prefix_order.trans)
    then show ?thesis by (rule trim_runes_stuck)
  qed simp
  then show ?thesis unfolding t by (simp only: b)
qed

text \<open>A byte that neither begins nor ends a white space rune: every printable ASCII byte.\<close>

definition solid :: "char \<Rightarrow> bool" where
  "solid c = (\<forall>w \<in> set space_runes. hd w \<noteq> c \<and> last w \<noteq> c)"

lemma space_runes_not_Nil: "w \<in> set space_runes \<Longrightarrow> w \<noteq> []"
proof -
  have "list_all (\<lambda>w. w \<noteq> []) space_runes" by (simp add: space_runes_def)
  then show "w \<in> set space_runes \<Longrightarrow> w \<noteq> []" by (auto simp: list_all_iff)
qed

lemma TrimSpace_id:
  assumes "s = [] \<or> solid (hd s) \<and> solid (last s)"
  shows "TrimSpace s = s"
proof (cases s)
  case Nil
  then show ?thesis by (simp add: TrimSpace_def)
next
  case (Cons c cs)
  with assms have "solid c" "solid (last s)" by auto
  then have l: "trim_runes space_runes s = s"
    using trim_runes_id[of space_runes c cs] space_runes_not_Nil Cons by (auto simp: solid_def)
  have "rev s = last s # tl (rev s)"
    using Cons by (simp add: hd_rev[symmetric] del: hd_rev)
  moreover have "trim_runes (map rev space_runes) (last s # tl (rev s)) = last s # tl (rev s)"
    using \<open>solid (last s)\<close> space_runes_not_Nil
    by (intro trim_runes_id) (auto simp: solid_def hd_rev)
  ultimately have "trim_runes (map rev space_runes) (rev s) = rev s" by metis
  with l show ?thesis by (simp add: TrimSpace_def)
qed

text \<open>\<^verbatim>\<open>strconv.Itoa\<close>.\<close>

definition digit_char :: "nat \<Rightarrow> char" where
  "digit_char d = char_of (48 + d)"

fun nat_digits :: "nat \<Rightarrow> string" where
  "nat_digits n = (if n < 10 then [digit_char n] else nat_digits (n div 10) @ [digit_char (n mod 10)])"

declare nat_digits.simps [simp del]

definition Itoa :: "int \<Rightarrow> string" where
  "Itoa i = (if i < 0 then CHR ''-'' # nat_digits (nat (- i)) else nat_digits (nat i))"

definition digit_val :: "char \<Rightarrow> nat option" where
  "digit_val c = (let n = of_char c in if 48 \<le> n \<and> n \<le> 57 then Some (n - 48) else None)"

fun digits_val :: "nat \<Rightarrow> string \<Rightarrow> nat option" where
  "digits_val acc [] = Some acc"
| "digits_val acc (c # cs) =
     (case digit_val c of None \<Rightarrow> None | Some d \<Rightarrow> digits_val (10 * acc + d) cs)"

lemma digit_val_char [simp]: "d < 10 \<Longrightarrow> digit_val (digit_char d) = Some d"
  by (simp add: digit_val_def digit_char_def)

lemma digits_val_append:
  "digits_val acc (s @ t) = Option.bind (digits_val acc s) (\<lambda>n. digits_val n t)"
  by (induction s arbitrary: acc) (auto split: option.split)

lemma digits_val_nat_digits: "digits_val 0 (nat_digits n) = Some n"
proof (induction n rule: nat_digits.induct)
  case (1 n)
  show ?case
  proof (cases "n < 10")
    case True
    then show ?thesis by (simp add: nat_digits.simps[of n])
  next
    case False
    with 1 have "digits_val 0 (nat_digits (n div 10)) = Some (n div 10)" by simp
    with False show ?thesis
      by (simp add: nat_digits.simps[of n] digits_val_append)
  qed
qed

lemma nat_digits_inj: "nat_digits m = nat_digits n \<Longrightarrow> m = n"
  by (metis digits_val_nat_digits option.inject)

lemma nat_digits_not_Nil [simp]: "nat_digits n \<noteq> []"
  by (subst nat_digits.simps) simp

lemma digit_val_nat_digits: "c \<in> set (nat_digits n) \<Longrightarrow> digit_val c \<noteq> None"
proof (induction n rule: nat_digits.induct)
  case (1 n)
  then show ?case
    by (cases "n < 10") (auto simp: nat_digits.simps[of n])
qed

lemma Itoa_int [simp]: "Itoa (int n) = nat_digits n"
  by (simp add: Itoa_def)

lemma Itoa_numeral [simp]: "Itoa (numeral k) = nat_digits (numeral k)"
  and Itoa_0 [simp]: "Itoa 0 = nat_digits 0"
  and Itoa_1 [simp]: "Itoa 1 = nat_digits 1"
  by (simp_all add: Itoa_def)

section \<open>Error messages\<close>

text \<open>What \<open>%v\<close> prints of an error.\<close>

fun error_text :: "go_error \<Rightarrow> string" where
  "error_text (ErrorString m) = m"
| "error_text (ExitError n m) = ''exit status '' @ Itoa n @ '': '' @ m"

text \<open>\<open>fmt.Errorf(msg + "%v", err)\<close>.\<close>

definition Errorf_v :: "string \<Rightarrow> go_error \<Rightarrow> go_error" where
  "Errorf_v msg e = ErrorString (msg @ error_text e)"

end
