(* ===== verification/Types.thy ===== *)
theory Types
  imports Prelude
begin

text \<open>
  The data of \<^verbatim>\<open>utils/types.go\<close> and of the Kubernetes objects the code reads. A Go map with
  string keys is an association list in the order in which a \<open>range\<close> loop visits it, and \<open>None\<close>
  where the source may hold a nil map; a missing key reads as the zero value.
\<close>

type_synonym 'v gomap = "(string \<times> 'v) list"

text \<open>\<open>m[k]\<close> of a map with string values, nil or not.\<close>

definition map_get :: "string gomap option \<Rightarrow> string \<Rightarrow> string" where
  "map_get m k =
     (case m of None \<Rightarrow> [] | Some al \<Rightarrow> (case map_of al k of None \<Rightarrow> [] | Some v \<Rightarrow> v))"

text \<open>\<open>m[k] = v\<close>: an existing key keeps its place.\<close>

fun map_put :: "string \<Rightarrow> 'v \<Rightarrow> 'v gomap \<Rightarrow> 'v gomap" where
  "map_put k v [] = [(k, v)]"
| "map_put k v ((k', v') # m) = (if k' = k then (k, v) # m else (k', v') # map_put k v m)"

lemma map_of_map_put: "map_of (map_put k v m) = (map_of m)(k \<mapsto> v)"
  by (induction m rule: map_put.induct) auto

lemma keys_map_put: "fst ` set (map_put k v m) = insert k (fst ` set m)"
  by (simp add: map_of_map_put flip: dom_map_of_conv_image_fst)

lemma distinct_map_put: "distinct (map fst m) \<Longrightarrow> distinct (map fst (map_put k v m))"
  by (induction m rule: map_put.induct) (auto simp: keys_map_put)

section \<open>Kubernetes objects\<close>

record ObjectMeta =
  Name :: string
  Namespace :: string
  ResourceVersion :: string
  Annotations :: "string gomap option"
  Labels :: "string gomap option"

text \<open>\<^verbatim>\<open>networkv1.NetworkPolicy\<close>: the code reads its metadata only.\<close>

record NetworkPolicyObj =
  npMeta :: ObjectMeta

section \<open>utils/types.go\<close>

record LogicalNetworkSpec =
  PhysicalNet :: string
  SubSubnet :: string
  Plugin :: string

record LogicalNetwork =
  lnMeta :: ObjectMeta
  lnSpec :: LogicalNetworkSpec

record SharedStatus =
  shPlugin :: string
  shSubnet :: string
  DedicatedStatus :: bool

record PhysicalNetwork =
  ReferNic :: string
  sharedStatus :: SharedStatus

record PluginInfo =
  PluginName :: string
  IfName :: string
  Subnet :: string
  Refer_nic :: string

end
