(* ===== verification/CacheStore.thy ===== *)
theory CacheStore
  imports Types
begin

text \<open>
  The store behind an informer, of \<^verbatim>\<open>k8s.io/client-go/tools/cache\<close>: the map of objects with its
  indices of \<^verbatim>\<open>thread_safe_store.go\<close>, the keys and the \<^verbatim>\<open>cache\<close> of \<^verbatim>\<open>store.go\<close>, and the listing
  functions of \<^verbatim>\<open>listers.go\<close>. Every operation runs under the store's lock, so it is one step on the
  state. The order in which the runtime visits the keys of a Go map is the argument \<open>visit\<close>.
\<close>

section \<open>Objects\<close>

text \<open>The values of type \<^verbatim>\<open>interface{}\<close> that reach a store or a handler.\<close>

datatype cache_obj =
    ObjLN LogicalNetwork
  | ObjNP NetworkPolicyObj
  | ObjMeta ObjectMeta
  | ExplicitKey string
  | Tombstone string cache_obj  \<comment> \<open>\<open>cache.DeletedFinalStateUnknown\<close>: key and last known object\<close>
  | ObjOther
  | ObjNil

text \<open>\<^verbatim>\<open>meta.Accessor\<close>.\<close>

definition Accessor :: "cache_obj \<Rightarrow> go_error + ObjectMeta" where
  "Accessor obj =
     (case obj of
        ObjLN l \<Rightarrow> Inr (lnMeta l)
      | ObjNP n \<Rightarrow> Inr (npMeta n)
      | ObjMeta m \<Rightarrow> Inr m
      | _ \<Rightarrow> Inl (ErrorString ''object does not implement the Object interfaces''))"

definition namespace_key :: "ObjectMeta \<Rightarrow> string" where
  "namespace_key m = (if Namespace m \<noteq> [] then Namespace m @ ''/'' @ Name m else Name m)"

definition MetaNamespaceKeyFunc :: "cache_obj \<Rightarrow> go_error + string" where
  "MetaNamespaceKeyFunc obj =
     (case obj of
        ExplicitKey key \<Rightarrow> Inr key
      | _ \<Rightarrow> (case Accessor obj of
               Inl e \<Rightarrow> Inl (Errorf_v ''object has no meta: '' e)
             | Inr m \<Rightarrow> Inr (namespace_key m)))"

definition DeletionHandlingMetaNamespaceKeyFunc :: "cache_obj \<Rightarrow> go_error + string" where
  "DeletionHandlingMetaNamespaceKeyFunc obj =
     (case obj of Tombstone key _ \<Rightarrow> Inr key | _ \<Rightarrow> MetaNamespaceKeyFunc obj)"

text \<open>\<^verbatim>\<open>SplitMetaNamespaceKey\<close>, the inverse of the key function.\<close>

definition SplitMetaNamespaceKey :: "string \<Rightarrow> go_error + string \<times> string" where
  "SplitMetaNamespaceKey key =
     (case Split key ''/'' of
        [name] \<Rightarrow> Inr ([], name)
      | [namespace, name] \<Rightarrow> Inr (namespace, name)
      | _ \<Rightarrow> Inl (ErrorString (''unexpected key format: '' @ [CHR 0x22] @ key @ [CHR 0x22])))"

definition NamespaceIndex :: string where "NamespaceIndex = ''namespace''"

definition MetaNamespaceIndexFunc :: "cache_obj \<Rightarrow> go_error + string list" where
  "MetaNamespaceIndexFunc obj =
     (case Accessor obj of
        Inl e \<Rightarrow> Inl (Errorf_v ''object has no meta: '' e)
      | Inr m \<Rightarrow> Inr [Namespace m])"

section \<open>The map and its indices\<close>

text \<open>\<^verbatim>\<open>sets.String\<close> is the list of its members.\<close>

definition set_Insert :: "string \<Rightarrow> string list \<Rightarrow> string list" where
  "set_Insert k s = (if k \<in> set s then s else s @ [k])"

definition set_Delete :: "string \<Rightarrow> string list \<Rightarrow> string list" where
  "set_Delete k s = filter (\<lambda>x. x \<noteq> k) s"

type_synonym index_func = "cache_obj \<Rightarrow> go_error + string list"
type_synonym index_map = "string list gomap"

record threadSafeMap =
  items :: "cache_obj gomap"
  indexers :: "index_func gomap"
  indices :: "index_map gomap"

definition NewThreadSafeStore :: "index_func gomap \<Rightarrow> threadSafeMap" where
  "NewThreadSafeStore ixs = \<lparr>items = [], indexers = ixs, indices = []\<rparr>"

text \<open>\<open>m[k]\<close> of a map with values of an interface type.\<close>

definition item_at :: "cache_obj gomap \<Rightarrow> string \<Rightarrow> cache_obj" where
  "item_at m k = (case map_of m k of None \<Rightarrow> ObjNil | Some obj \<Rightarrow> obj)"

definition index_panic :: "string \<Rightarrow> string \<Rightarrow> go_error \<Rightarrow> string" where
  "index_panic key name e =
     ''unable to calculate an index entry for key '' @ [CHR 0x22] @ key @ [CHR 0x22] @ '' on index '' @ [CHR 0x22]
       @ name @ [CHR 0x22] @ '': '' @ error_text e"

text \<open>The bodies of the loops over the indexers.\<close>

definition deleteFromIndex :: "cache_obj \<Rightarrow> string \<Rightarrow> string \<times> index_func \<Rightarrow> (threadSafeMap, unit) go" where
  "deleteFromIndex obj key = (\<lambda>(name, indexFunc) c.
     case indexFunc obj of
       Inl e \<Rightarrow> (Panic (index_panic key name e), c)
     | Inr indexValues \<Rightarrow>
         (case map_of (indices c) name of
            None \<Rightarrow> (Ret (), c)
          | Some index \<Rightarrow>
              (Ret (), c\<lparr>indices := map_put name
                 (fold (\<lambda>v ix. case map_of ix v of None \<Rightarrow> ix | Some s \<Rightarrow> map_put v (set_Delete key s) ix) indexValues index)
                 (indices c)\<rparr>)))"

definition deleteFromIndices :: "cache_obj \<Rightarrow> string \<Rightarrow> (threadSafeMap, unit) go" where
  "deleteFromIndices obj key c = go_each (deleteFromIndex obj key) (indexers c) c"

definition insertIntoIndex :: "cache_obj \<Rightarrow> string \<Rightarrow> string \<times> index_func \<Rightarrow> (threadSafeMap, unit) go" where
  "insertIntoIndex newObj key = (\<lambda>(name, indexFunc) c.
     case indexFunc newObj of
       Inl e \<Rightarrow> (Panic (index_panic key name e), c)
     | Inr indexValues \<Rightarrow>
         let index = (case map_of (indices c) name of None \<Rightarrow> [] | Some index \<Rightarrow> index) in
         (Ret (), c\<lparr>indices := map_put name
            (fold (\<lambda>v ix. map_put v (set_Insert key (case map_of ix v of None \<Rightarrow> [] | Some s \<Rightarrow> s)) ix) indexValues index)
            (indices c)\<rparr>))"

definition updateIndices :: "cache_obj \<Rightarrow> cache_obj \<Rightarrow> string \<Rightarrow> (threadSafeMap, unit) go" where
  "updateIndices oldObj newObj key =
     go_bind (go_when (oldObj \<noteq> ObjNil) (deleteFromIndices oldObj key)) (\<lambda>_ c.
     go_each (insertIntoIndex newObj key) (indexers c) c)"

text \<open>\<^verbatim>\<open>Add\<close> and \<^verbatim>\<open>Update\<close> have the same body.\<close>

definition tsm_Add :: "string \<Rightarrow> cache_obj \<Rightarrow> (threadSafeMap, unit) go" where
  "tsm_Add key obj c = updateIndices (item_at (items c) key) obj key (c\<lparr>items := map_put key obj (items c)\<rparr>)"

definition tsm_Update :: "string \<Rightarrow> cache_obj \<Rightarrow> (threadSafeMap, unit) go" where
  "tsm_Update key obj c = updateIndices (item_at (items c) key) obj key (c\<lparr>items := map_put key obj (items c)\<rparr>)"

definition tsm_Delete :: "string \<Rightarrow> (threadSafeMap, unit) go" where
  "tsm_Delete key c =
     (case map_of (items c) key of
        None \<Rightarrow> (Ret (), c)
      | Some obj \<Rightarrow>
          go_bind (deleteFromIndices obj key) (\<lambda>_ c'. (Ret (), c'\<lparr>items := filter (\<lambda>(k, _). k \<noteq> key) (items c')\<rparr>)) c)"

definition tsm_Get :: "string \<Rightarrow> threadSafeMap \<Rightarrow> cache_obj option" where
  "tsm_Get key c = map_of (items c) key"

definition tsm_ListKeys :: "(string list \<Rightarrow> string list) \<Rightarrow> threadSafeMap \<Rightarrow> string list" where
  "tsm_ListKeys visit c = visit (map fst (items c))"

definition tsm_List :: "(string list \<Rightarrow> string list) \<Rightarrow> threadSafeMap \<Rightarrow> cache_obj list" where
  "tsm_List visit c = map (item_at (items c)) (visit (map fst (items c)))"

definition tsm_Replace :: "(string list \<Rightarrow> string list) \<Rightarrow> cache_obj gomap \<Rightarrow> (threadSafeMap, unit) go" where
  "tsm_Replace visit its c =
     go_each (\<lambda>key. updateIndices ObjNil (item_at its key) key) (visit (map fst its)) (c\<lparr>items := its, indices := []\<rparr>)"

text \<open>The set of the keys an index holds for a value, empty where the index or the value is missing.\<close>

definition index_set :: "threadSafeMap \<Rightarrow> string \<Rightarrow> string \<Rightarrow> string list" where
  "index_set c name v =
     (case map_of (indices c) name of
        None \<Rightarrow> []
      | Some index \<Rightarrow> (case map_of index v of None \<Rightarrow> [] | Some s \<Rightarrow> s))"

definition no_index :: "string \<Rightarrow> go_error" where
  "no_index name = ErrorString (''Index with name '' @ name @ '' does not exist'')"

definition tsm_Index :: "(string list \<Rightarrow> string list) \<Rightarrow> string \<Rightarrow> cache_obj \<Rightarrow> threadSafeMap \<Rightarrow> go_error + cache_obj list" where
  "tsm_Index visit indexName obj c =
     (case map_of (indexers c) indexName of
        None \<Rightarrow> Inl (no_index indexName)
      | Some indexFunc \<Rightarrow>
          (case indexFunc obj of
             Inl e \<Rightarrow> Inl e
           | Inr indexKeys \<Rightarrow>
               let returnKeySet = fold (\<lambda>v. fold set_Insert (visit (index_set c indexName v))) indexKeys [] in
               Inr (map (item_at (items c)) (visit returnKeySet))))"

section \<open>The cache\<close>

text \<open>\<^verbatim>\<open>KeyError\<close>; the text of the object is left out of the message.\<close>

definition KeyError :: "go_error \<Rightarrow> go_error" where
  "KeyError e = Errorf_v ''couldn't create key for object: '' e"

type_synonym key_func = "cache_obj \<Rightarrow> go_error + string"

definition cache_Add :: "key_func \<Rightarrow> cache_obj \<Rightarrow> (threadSafeMap, unit) go" where
  "cache_Add keyFunc obj = (case keyFunc obj of Inl e \<Rightarrow> go_err (KeyError e) | Inr key \<Rightarrow> tsm_Add key obj)"

definition cache_Update :: "key_func \<Rightarrow> cache_obj \<Rightarrow> (threadSafeMap, unit) go" where
  "cache_Update keyFunc obj = (case keyFunc obj of Inl e \<Rightarrow> go_err (KeyError e) | Inr key \<Rightarrow> tsm_Update key obj)"

definition cache_Delete :: "key_func \<Rightarrow> cache_obj \<Rightarrow> (threadSafeMap, unit) go" where
  "cache_Delete keyFunc obj = (case keyFunc obj of Inl e \<Rightarrow> go_err (KeyError e) | Inr key \<Rightarrow> tsm_Delete key)"

definition cache_GetByKey :: "string \<Rightarrow> threadSafeMap \<Rightarrow> go_error + cache_obj option" where
  "cache_GetByKey key c = Inr (tsm_Get key c)"

definition cache_Get :: "key_func \<Rightarrow> cache_obj \<Rightarrow> threadSafeMap \<Rightarrow> go_error + cache_obj option" where
  "cache_Get keyFunc obj c = (case keyFunc obj of Inl e \<Rightarrow> Inl (KeyError e) | Inr key \<Rightarrow> cache_GetByKey key c)"

fun keyed_items :: "key_func \<Rightarrow> cache_obj list \<Rightarrow> cache_obj gomap \<Rightarrow> go_error + cache_obj gomap" where
  "keyed_items keyFunc [] its = Inr its"
| "keyed_items keyFunc (item # rest) its =
     (case keyFunc item of
        Inl e \<Rightarrow> Inl (KeyError e)
      | Inr key \<Rightarrow> keyed_items keyFunc rest (map_put key item its))"

definition cache_Replace :: "(string list \<Rightarrow> string list) \<Rightarrow> key_func \<Rightarrow> cache_obj list \<Rightarrow> (threadSafeMap, unit) go" where
  "cache_Replace visit keyFunc xs =
     (case keyed_items keyFunc xs [] of Inl e \<Rightarrow> go_err e | Inr its \<Rightarrow> tsm_Replace visit its)"

section \<open>The interface\<close>

text \<open>The Go interface \<^verbatim>\<open>Indexer\<close> over the state of its implementation, and the one implementation.\<close>

record 'c Indexer =
  ix_Add :: "cache_obj \<Rightarrow> ('c, unit) go"
  ix_Update :: "cache_obj \<Rightarrow> ('c, unit) go"
  ix_Delete :: "cache_obj \<Rightarrow> ('c, unit) go"
  ix_List :: "'c \<Rightarrow> cache_obj list"
  ix_ListKeys :: "'c \<Rightarrow> string list"
  ix_Get :: "cache_obj \<Rightarrow> 'c \<Rightarrow> go_error + cache_obj option"
  ix_GetByKey :: "string \<Rightarrow> 'c \<Rightarrow> go_error + cache_obj option"
  ix_Replace :: "cache_obj list \<Rightarrow> ('c, unit) go"
  ix_Index :: "string \<Rightarrow> cache_obj \<Rightarrow> 'c \<Rightarrow> go_error + cache_obj list"

definition cache_ops :: "(string list \<Rightarrow> string list) \<Rightarrow> key_func \<Rightarrow> threadSafeMap Indexer" where
  "cache_ops visit keyFunc =
     \<lparr>ix_Add = cache_Add keyFunc, ix_Update = cache_Update keyFunc, ix_Delete = cache_Delete keyFunc,
      ix_List = tsm_List visit, ix_ListKeys = tsm_ListKeys visit, ix_Get = cache_Get keyFunc, ix_GetByKey = cache_GetByKey,
      ix_Replace = cache_Replace visit keyFunc, ix_Index = tsm_Index visit\<rparr>"

text \<open>\<^verbatim>\<open>NewIndexer\<close>: the operations and the first state.\<close>

definition NewIndexer ::
  "(string list \<Rightarrow> string list) \<Rightarrow> key_func \<Rightarrow> index_func gomap \<Rightarrow> threadSafeMap Indexer \<times> threadSafeMap" where
  "NewIndexer visit keyFunc ixs = (cache_ops visit keyFunc, NewThreadSafeStore ixs)"

section \<open>Listing\<close>

type_synonym selector = "string gomap option \<Rightarrow> bool"

text \<open>The body of the loops: \<open>appendFn\<close> works on the caller's variables, a state of its own.\<close>

definition append_if :: "(ObjectMeta \<Rightarrow> bool) \<Rightarrow> (cache_obj \<Rightarrow> ('a, unit) go) \<Rightarrow> cache_obj \<Rightarrow> ('a, unit) go" where
  "append_if matches appendFn m =
     (case Accessor m of Inl e \<Rightarrow> go_err e | Inr metadata \<Rightarrow> go_when (matches metadata) (appendFn m))"

definition ListAll :: "'c Indexer \<Rightarrow> 'c \<Rightarrow> selector \<Rightarrow> (cache_obj \<Rightarrow> ('a, unit) go) \<Rightarrow> ('a, unit) go" where
  "ListAll ix c selector appendFn = go_each (append_if (\<lambda>m. selector (Labels m)) appendFn) (ix_List ix c)"

definition meta_in :: "string \<Rightarrow> ObjectMeta" where
  "meta_in namespace = \<lparr>Name = [], Namespace = namespace, ResourceVersion = [], Annotations = None, Labels = None\<rparr>"

definition ListAllByNamespace ::
  "'c Indexer \<Rightarrow> 'c \<Rightarrow> string \<Rightarrow> selector \<Rightarrow> (cache_obj \<Rightarrow> ('a, unit) go) \<Rightarrow> ('a, unit) go" where
  "ListAllByNamespace ix c namespace selector appendFn =
     (if namespace = [] then
        go_each (append_if (\<lambda>m. selector (Labels m)) appendFn) (ix_List ix c)
      else
        (case ix_Index ix NamespaceIndex (ObjMeta (meta_in namespace)) c of
           Inl e \<Rightarrow> go_each (append_if (\<lambda>m. Namespace m = namespace \<and> selector (Labels m)) appendFn) (ix_List ix c)
         | Inr its \<Rightarrow> go_each (append_if (\<lambda>m. selector (Labels m)) appendFn) its))"

end
