(* ===== verification/CacheStoreFacts.thy ===== *)
theory CacheStoreFacts
  imports CacheStore
begin

text \<open>
  The store keeps its indices exact: after any successful operation an index holds, for every value, the
  keys of exactly the objects with that value. The laws a client of the store relies on are the locale
  \<open>indexer_laws\<close>, interpreted on the store of the informers.
\<close>

section \<open>Indices\<close>

definition value_set :: "index_map \<Rightarrow> string \<Rightarrow> string list" where
  "value_set ix v = (case map_of ix v of None \<Rightarrow> [] | Some s \<Rightarrow> s)"

definition index_values :: "index_func \<Rightarrow> cache_obj \<Rightarrow> string list" where
  "index_values f obj = (case f obj of Inl _ \<Rightarrow> [] | Inr vs \<Rightarrow> vs)"

lemma set_Insert_simps [simp]:
  "set (set_Insert k s) = insert k (set s)" "distinct s \<Longrightarrow> distinct (set_Insert k s)"
  "set_Insert k (set_Insert k s) = set_Insert k s"
  by (auto simp: set_Insert_def)

lemma set_Delete_simps [simp]:
  "set (set_Delete k s) = set s - {k}" "distinct s \<Longrightarrow> distinct (set_Delete k s)"
  "set_Delete k (set_Delete k s) = set_Delete k s" "set_Delete k [] = []"
  by (auto simp: set_Delete_def)

lemma set_fold_Insert: "set (fold set_Insert ks s) = set ks \<union> set s" "distinct s \<Longrightarrow> distinct (fold set_Insert ks s)"
  by (induction ks arbitrary: s) auto

lemma value_set_delete:
  "value_set (fold (\<lambda>v ix. case map_of ix v of None \<Rightarrow> ix | Some s \<Rightarrow> map_put v (set_Delete key s) ix) vs ix) v
     = (if v \<in> set vs then set_Delete key (value_set ix v) else value_set ix v)"
proof (induction vs arbitrary: ix)
  case (Cons w ws)
  then show ?case by (auto simp: value_set_def map_of_map_put split: option.split)
qed simp

lemma value_set_insert:
  "value_set (fold (\<lambda>v ix. map_put v (set_Insert key (case map_of ix v of None \<Rightarrow> [] | Some s \<Rightarrow> s)) ix) vs ix) v
     = (if v \<in> set vs then set_Insert key (value_set ix v) else value_set ix v)"
proof (induction vs arbitrary: ix)
  case (Cons w ws)
  then show ?case by (auto simp: value_set_def map_of_map_put)
qed simp

lemma index_set_value_set:
  "index_set c name v = (case map_of (indices c) name of None \<Rightarrow> [] | Some ix \<Rightarrow> value_set ix v)"
  by (simp add: index_set_def value_set_def split: option.split)

lemma deleteFromIndex_step:
  assumes "f obj = Inr vs"
  shows "\<exists>c'. deleteFromIndex obj key (name, f) c = (Ret (), c') \<and> items c' = items c \<and> indexers c' = indexers c
    \<and> (\<forall>n v. index_set c' n v = (if n = name \<and> v \<in> set vs then set_Delete key (index_set c n v) else index_set c n v))"
  using assms
  by (auto simp: deleteFromIndex_def index_set_value_set map_of_map_put value_set_delete split: option.split)

lemma insertIntoIndex_step:
  assumes "f obj = Inr vs"
  shows "\<exists>c'. insertIntoIndex obj key (name, f) c = (Ret (), c') \<and> items c' = items c \<and> indexers c' = indexers c
    \<and> (\<forall>n v. index_set c' n v = (if n = name \<and> v \<in> set vs then set_Insert key (index_set c n v) else index_set c n v))"
proof -
  have "value_set [] v = []" for v by (simp add: value_set_def)
  with assms show ?thesis
    by (auto simp: insertIntoIndex_def Let_def index_set_value_set map_of_map_put value_set_insert split: option.split)
qed

text \<open>A loop over the indexers does to every index what its body does to one.\<close>

lemma indexers_loop:
  assumes step: "\<And>name f vs c. f obj = Inr vs \<Longrightarrow>
      \<exists>c'. body (name, f) c = (Ret (), c') \<and> items c' = items c \<and> indexers c' = indexers c
        \<and> (\<forall>n v. index_set c' n v = (if n = name \<and> v \<in> set vs then upd (index_set c n v) else index_set c n v))"
    and "\<forall>(name, f) \<in> set ixs. \<exists>vs. f obj = Inr vs" "distinct (map fst ixs)"
  shows "\<exists>c'. go_each body ixs c = (Ret (), c') \<and> items c' = items c \<and> indexers c' = indexers c
    \<and> (\<forall>n v. index_set c' n v =
         (case map_of ixs n of
            Some f \<Rightarrow> if v \<in> set (index_values f obj) then upd (index_set c n v) else index_set c n v
          | None \<Rightarrow> index_set c n v))"
  using assms(2,3)
proof (induction ixs arbitrary: c)
  case Nil
  show ?case by (simp add: go_ret_def)
next
  case (Cons nf ixs)
  obtain name f where nf: "nf = (name, f)" by (cases nf)
  with Cons.prems obtain vs where vs: "f obj = Inr vs" by auto
  from step[where name = name and f = f and vs = vs and c = c, OF this] obtain c1 where c1: "body (name, f) c = (Ret (), c1)" "items c1 = items c" "indexers c1 = indexers c"
      "\<And>n v. index_set c1 n v = (if n = name \<and> v \<in> set vs then upd (index_set c n v) else index_set c n v)" by blast
  from Cons.IH[of c1] Cons.prems obtain c2 where c2: "go_each body ixs c1 = (Ret (), c2)" "items c2 = items c1" "indexers c2 = indexers c1"
      "\<And>n v. index_set c2 n v = (case map_of ixs n of Some f \<Rightarrow> if v \<in> set (index_values f obj) then upd (index_set c1 n v) else index_set c1 n v
          | None \<Rightarrow> index_set c1 n v)" by auto
  have "map_of ixs name = None" using Cons.prems nf by (simp add: map_of_eq_None_iff)
  moreover have "go_each body (nf # ixs) c = (Ret (), c2)" using c1(1) c2(1) nf by (simp add: go_each_Cons go_bind_def)
  moreover have "index_values f obj = vs" using vs by (simp add: index_values_def)
  ultimately show ?case using c1 c2 nf by (auto split: option.split)
qed

section \<open>The invariant\<close>

text \<open>An object whose index values can be computed.\<close>

definition indexable :: "index_func gomap \<Rightarrow> cache_obj \<Rightarrow> bool" where
  "indexable ixs obj \<longleftrightarrow> obj \<noteq> ObjNil \<and> (\<forall>(name, f) \<in> set ixs. \<exists>vs. f obj = Inr vs)"

text \<open>For every indexer, the entries are exactly those of the objects a lookup function gives.\<close>

definition index_exact :: "threadSafeMap \<Rightarrow> (string \<rightharpoonup> cache_obj) \<Rightarrow> bool" where
  "index_exact c look \<longleftrightarrow>
     (\<forall>name f v. map_of (indexers c) name = Some f \<longrightarrow> distinct (index_set c name v) \<and>
        set (index_set c name v) = {k. \<exists>obj. look k = Some obj \<and> v \<in> set (index_values f obj)})"

definition indexed :: "threadSafeMap \<Rightarrow> bool" where
  "indexed c \<longleftrightarrow> distinct (map fst (items c)) \<and> distinct (map fst (indexers c))
     \<and> (\<forall>k obj. map_of (items c) k = Some obj \<longrightarrow> indexable (indexers c) obj) \<and> index_exact c (map_of (items c))"

lemma indexedD:
  assumes "indexed c"
  shows "distinct (map fst (items c))" "distinct (map fst (indexers c))" "index_exact c (map_of (items c))"
    "map_of (items c) k = Some obj \<Longrightarrow> indexable (indexers c) obj"
  using assms unfolding indexed_def by blast+

lemma indexedI:
  assumes "distinct (map fst (items c))" "distinct (map fst (indexers c))" "index_exact c (map_of (items c))"
    "\<And>k obj. map_of (items c) k = Some obj \<Longrightarrow> indexable (indexers c) obj"
  shows "indexed c"
  using assms unfolding indexed_def by blast

lemma indexed_New: "distinct (map fst ixs) \<Longrightarrow> indexed (NewThreadSafeStore ixs)"
  by (simp add: indexed_def NewThreadSafeStore_def index_exact_def index_set_def)

lemma deleteFromIndices_spec:
  assumes "indexable (indexers c) obj" "distinct (map fst (indexers c))" "index_exact c look" "look key = Some obj"
  shows "\<exists>c'. deleteFromIndices obj key c = (Ret (), c') \<and> items c' = items c \<and> indexers c' = indexers c \<and> index_exact c' (look(key := None))"
proof -
  from assms(1) have ok: "\<forall>(name, f) \<in> set (indexers c). \<exists>vs. f obj = Inr vs" by (simp add: indexable_def)
  have "\<exists>c'. go_each (deleteFromIndex obj key) (indexers c) c = (Ret (), c') \<and> items c' = items c \<and> indexers c' = indexers c
    \<and> (\<forall>n v. index_set c' n v = (case map_of (indexers c) n of
        Some f \<Rightarrow> if v \<in> set (index_values f obj) then set_Delete key (index_set c n v) else index_set c n v | None \<Rightarrow> index_set c n v))"
    by (rule indexers_loop[OF deleteFromIndex_step ok assms(2)])
  then obtain c' where c': "deleteFromIndices obj key c = (Ret (), c')" "items c' = items c" "indexers c' = indexers c"
    "\<And>n v. index_set c' n v = (case map_of (indexers c) n of
        Some f \<Rightarrow> if v \<in> set (index_values f obj) then set_Delete key (index_set c n v) else index_set c n v | None \<Rightarrow> index_set c n v)"
    unfolding deleteFromIndices_def by blast
  have "index_exact c' (look(key := None))"
    using assms(3,4) unfolding index_exact_def c'(3,4) by auto
  with c' show ?thesis by blast
qed

lemma insertIntoIndices_spec:
  assumes "indexable (indexers c) obj" "distinct (map fst (indexers c))" "index_exact c look" "look key = None"
  shows "\<exists>c'. go_each (insertIntoIndex obj key) (indexers c) c = (Ret (), c') \<and> items c' = items c \<and> indexers c' = indexers c
    \<and> index_exact c' (look(key \<mapsto> obj))"
proof -
  from assms(1) have ok: "\<forall>(name, f) \<in> set (indexers c). \<exists>vs. f obj = Inr vs" by (simp add: indexable_def)
  have "\<exists>c'. go_each (insertIntoIndex obj key) (indexers c) c = (Ret (), c') \<and> items c' = items c \<and> indexers c' = indexers c
    \<and> (\<forall>n v. index_set c' n v = (case map_of (indexers c) n of
        Some f \<Rightarrow> if v \<in> set (index_values f obj) then set_Insert key (index_set c n v) else index_set c n v | None \<Rightarrow> index_set c n v))"
    by (rule indexers_loop[OF insertIntoIndex_step ok assms(2)])
  then obtain c' where c': "go_each (insertIntoIndex obj key) (indexers c) c = (Ret (), c')" "items c' = items c" "indexers c' = indexers c"
    "\<And>n v. index_set c' n v = (case map_of (indexers c) n of
        Some f \<Rightarrow> if v \<in> set (index_values f obj) then set_Insert key (index_set c n v) else index_set c n v | None \<Rightarrow> index_set c n v)"
    by blast
  have "index_exact c' (look(key \<mapsto> obj))"
    using assms(3,4) unfolding index_exact_def c'(3,4) by auto
  with c' show ?thesis by blast
qed

text \<open>\<open>updateIndices\<close>, whatever stood under the key before.\<close>

lemma updateIndices_spec:
  assumes new: "indexable (indexers c) obj" and d: "distinct (map fst (indexers c))" and e: "index_exact c look"
    and old: "old = (case look key of None \<Rightarrow> ObjNil | Some o' \<Rightarrow> o')" "\<And>k o'. look k = Some o' \<Longrightarrow> indexable (indexers c) o'"
  shows "\<exists>c'. updateIndices old obj key c = (Ret (), c') \<and> items c' = items c \<and> indexers c' = indexers c \<and> index_exact c' (look(key \<mapsto> obj))"
proof (cases "look key")
  case None
  from insertIntoIndices_spec[OF new d e None] None old(1) show ?thesis
    by (auto simp: updateIndices_def go_when_def go_bind_def go_ret_def)
next
  case (Some o')
  with old have o': "indexable (indexers c) o'" "old = o'" "o' \<noteq> ObjNil" by (auto simp: indexable_def)
  from deleteFromIndices_spec[OF o'(1) d e Some] obtain c1 where
    c1: "deleteFromIndices o' key c = (Ret (), c1)" "items c1 = items c" "indexers c1 = indexers c" "index_exact c1 (look(key := None))" by blast
  have "\<exists>c2. go_each (insertIntoIndex obj key) (indexers c1) c1 = (Ret (), c2) \<and> items c2 = items c1 \<and> indexers c2 = indexers c1
      \<and> index_exact c2 ((look(key := None))(key \<mapsto> obj))"
    by (rule insertIntoIndices_spec) (use new d c1 in simp_all)
  then show ?thesis using c1 o' by (auto simp: updateIndices_def go_when_def go_bind_def)
qed

section \<open>The operations\<close>

lemma map_of_filter_key: "map_of (filter (\<lambda>(k, _). k \<noteq> key) m) = (map_of m)(key := None)"
  by (induction m) auto

lemma item_at_case: "item_at m k = (case map_of m k of None \<Rightarrow> ObjNil | Some o' \<Rightarrow> o')"
  by (simp add: item_at_def)

lemma tsm_Add_spec:
  assumes "indexed c" "indexable (indexers c) obj"
  shows "\<exists>c'. tsm_Add key obj c = (Ret (), c') \<and> indexed c' \<and> indexers c' = indexers c \<and> map_of (items c') = (map_of (items c))(key \<mapsto> obj)"
proof -
  let ?c = "c\<lparr>items := map_put key obj (items c)\<rparr>" and ?look = "map_of (items c)"
  have e: "index_exact ?c ?look" using assms(1) by (simp add: indexed_def index_exact_def index_set_def)
  have "\<exists>c'. updateIndices (item_at (items c) key) obj key ?c = (Ret (), c') \<and> items c' = items ?c \<and> indexers c' = indexers ?c
      \<and> index_exact c' (?look(key \<mapsto> obj))"
    by (rule updateIndices_spec[OF _ _ e]) (use assms(2) indexedD(2,4)[OF assms(1)] in \<open>simp_all add: item_at_case\<close>)
  then obtain c' where c': "tsm_Add key obj c = (Ret (), c')" "items c' = map_put key obj (items c)" "indexers c' = indexers c"
      "index_exact c' (?look(key \<mapsto> obj))" by (auto simp: tsm_Add_def)
  have "indexed c'"
  proof (rule indexedI)
    show "map_of (items c') k = Some x \<Longrightarrow> indexable (indexers c') x" for k x
      using assms(2) indexedD(4)[OF assms(1)] by (simp add: c'(2,3) map_of_map_put split: if_splits)
  qed (use c' indexedD(1,2)[OF assms(1)] in \<open>simp_all add: distinct_map_put map_of_map_put\<close>)
  with c' show ?thesis by (simp add: map_of_map_put)
qed

lemma tsm_Update_eq: "tsm_Update = tsm_Add"
  by (intro ext) (simp add: tsm_Update_def tsm_Add_def)

lemma tsm_Delete_spec:
  assumes "indexed c"
  shows "\<exists>c'. tsm_Delete key c = (Ret (), c') \<and> indexed c' \<and> indexers c' = indexers c \<and> map_of (items c') = (map_of (items c))(key := None)"
proof (cases "map_of (items c) key")
  case None
  then have "(map_of (items c))(key := None) = map_of (items c)" by (rule fun_upd_idem)
  with None assms show ?thesis by (simp add: tsm_Delete_def)
next
  case (Some obj)
  from deleteFromIndices_spec[OF indexedD(4)[OF assms Some] indexedD(2,3)[OF assms] Some] obtain c1 where
    c1: "deleteFromIndices obj key c = (Ret (), c1)" "items c1 = items c" "indexers c1 = indexers c"
      "index_exact c1 ((map_of (items c))(key := None))" by blast
  let ?c = "c1\<lparr>items := filter (\<lambda>(k, _). k \<noteq> key) (items c)\<rparr>"
  have m: "map_of (items ?c) = (map_of (items c))(key := None)" by (simp add: map_of_filter_key)
  have "indexed ?c"
  proof (rule indexedI)
    show "index_exact ?c (map_of (items ?c))" unfolding m using c1(4) by (simp add: index_exact_def index_set_def)
    show "map_of (items ?c) k = Some x \<Longrightarrow> indexable (indexers ?c) x" for k x
      using indexedD(4)[OF assms] unfolding m by (simp add: c1(3) split: if_splits)
  qed (use indexedD(1,2)[OF assms] c1(3) in \<open>simp_all add: distinct_map_filter\<close>)
  moreover have "tsm_Delete key c = (Ret (), ?c)" using Some c1 by (simp add: tsm_Delete_def go_bind_def)
  ultimately show ?thesis using m c1(3) by auto
qed

text \<open>\<open>Replace\<close> rebuilds the indices from nothing.\<close>

lemma Replace_loop:
  assumes "items c = its" "distinct ks" "set ks \<subseteq> fst ` set its" "\<And>k obj. map_of its k = Some obj \<Longrightarrow> indexable (indexers c) obj"
    "distinct (map fst (indexers c))" "index_exact c look" "\<And>k. k \<in> set ks \<Longrightarrow> look k = None"
    "\<And>k obj. look k = Some obj \<Longrightarrow> indexable (indexers c) obj"
  shows "\<exists>c'. go_each (\<lambda>key. updateIndices ObjNil (item_at its key) key) ks c = (Ret (), c') \<and> items c' = its
    \<and> indexers c' = indexers c \<and> index_exact c' (\<lambda>k. if k \<in> set ks then map_of its k else look k)"
  using assms
proof (induction ks arbitrary: c look)
  case Nil
  then show ?case by (simp add: go_ret_def)
next
  case (Cons key ks)
  obtain obj where obj: "map_of its key = Some obj"
    using Cons.prems(3) by (metis insert_subset list.simps(15) map_of_eq_None_iff not_None_eq)
  have "\<exists>c'. updateIndices ObjNil obj key c = (Ret (), c') \<and> items c' = items c \<and> indexers c' = indexers c \<and> index_exact c' (look(key \<mapsto> obj))"
    by (rule updateIndices_spec) (use Cons.prems obj in auto)
  then obtain c1 where c1: "updateIndices ObjNil obj key c = (Ret (), c1)" "items c1 = its" "indexers c1 = indexers c"
      "index_exact c1 (look(key \<mapsto> obj))" using Cons.prems(1) by auto
  have "\<exists>c'. go_each (\<lambda>key. updateIndices ObjNil (item_at its key) key) ks c1 = (Ret (), c') \<and> items c' = its
      \<and> indexers c' = indexers c1 \<and> index_exact c' (\<lambda>k. if k \<in> set ks then map_of its k else (look(key \<mapsto> obj)) k)"
    by (rule Cons.IH[OF c1(2) _ _ _ _ c1(4)]) (use Cons.prems obj c1(3) in \<open>auto split: if_splits\<close>)
  moreover have "(\<lambda>k. if k \<in> set ks then map_of its k else (look(key \<mapsto> obj)) k) = (\<lambda>k. if k \<in> set (key # ks) then map_of its k else look k)"
    using obj by auto
  ultimately show ?case using c1 obj by (auto simp: go_each_Cons go_bind_def item_at_def)
qed

lemma map_of_only_keys: "(\<lambda>k. if k \<in> fst ` set its then map_of its k else None) = map_of its"
  by (rule ext) (metis map_of_eq_None_iff)

lemma tsm_Replace_spec:
  assumes "mset (visit (map fst its)) = mset (map fst its)" "distinct (map fst its)" "distinct (map fst (indexers c))"
    "\<And>k obj. map_of its k = Some obj \<Longrightarrow> indexable (indexers c) obj"
  shows "\<exists>c'. tsm_Replace visit its c = (Ret (), c') \<and> indexed c' \<and> indexers c' = indexers c \<and> items c' = its"
proof -
  let ?c = "c\<lparr>items := its, indices := []\<rparr>" and ?ks = "visit (map fst its)"
  have ks: "set ?ks = fst ` set its" "distinct ?ks"
    using assms(1,2) mset_eq_setD[OF assms(1)] mset_eq_imp_distinct_iff[OF assms(1)] by simp_all
  have "index_exact ?c Map.empty" by (simp add: index_exact_def index_set_def)
  then have "\<exists>c'. tsm_Replace visit its c = (Ret (), c') \<and> items c' = its \<and> indexers c' = indexers ?c
      \<and> index_exact c' (\<lambda>k. if k \<in> set ?ks then map_of its k else Map.empty k)"
    unfolding tsm_Replace_def by (rule Replace_loop[rotated 5]) (use assms ks in simp_all)
  then obtain c' where c': "tsm_Replace visit its c = (Ret (), c')" "items c' = its" "indexers c' = indexers c" "index_exact c' (map_of its)"
    by (auto simp: ks(1) map_of_only_keys)
  then have "indexed c'" using assms(2-4) by (intro indexedI) simp_all
  with c' show ?thesis by blast
qed

lemma tsm_Index_spec:
  assumes "\<And>ks. mset (visit ks) = mset ks" "indexed c" "map_of (indexers c) name = Some f" "f obj = Inr vs"
  shows "\<exists>ks. distinct ks \<and> set ks = {k. \<exists>o'. map_of (items c) k = Some o' \<and> set (index_values f o') \<inter> set vs \<noteq> {}}
    \<and> tsm_Index visit name obj c = Inr (map (item_at (items c)) ks)"
proof -
  have vs: "set (visit ks) = set ks" "distinct (visit ks) = distinct ks" for ks
    using assms(1)[of ks] by (rule mset_eq_setD, rule mset_eq_imp_distinct_iff)
  have "set (fold (\<lambda>v. fold set_Insert (visit (index_set c name v))) ws s) = (\<Union>v \<in> set ws. set (index_set c name v)) \<union> set s"
    and "distinct s \<Longrightarrow> distinct (fold (\<lambda>v. fold set_Insert (visit (index_set c name v))) ws s)" for ws s
    by (induction ws arbitrary: s) (auto simp: set_fold_Insert vs)
  then have f: "set (fold (\<lambda>v. fold set_Insert (visit (index_set c name v))) vs []) = (\<Union>v \<in> set vs. set (index_set c name v))"
    "distinct (fold (\<lambda>v. fold set_Insert (visit (index_set c name v))) vs [])" by simp_all
  have "set (index_set c name v) = {k. \<exists>obj. map_of (items c) k = Some obj \<and> v \<in> set (index_values f obj)}" for v
    using indexedD(3)[OF assms(2)] assms(3) by (simp add: index_exact_def)
  with f show ?thesis
    using assms(3,4) vs by (intro exI[of _ "visit (fold (\<lambda>v. fold set_Insert (visit (index_set c name v))) vs [])"])
      (auto simp: tsm_Index_def Let_def)
qed

section \<open>The laws of the interface\<close>

locale indexer_laws =
  fixes ix :: "'c Indexer" and inv :: "'c \<Rightarrow> bool" and contents :: "'c \<Rightarrow> string \<rightharpoonup> cache_obj"
  assumes contents_key: "inv c \<Longrightarrow> contents c k = Some obj \<Longrightarrow> \<exists>m. Accessor obj = Inr m \<and> namespace_key m = k"
    and Add_law: "inv c \<Longrightarrow> Accessor obj = Inr m \<Longrightarrow>
      \<exists>c'. ix_Add ix obj c = (Ret (), c') \<and> inv c' \<and> contents c' = (contents c)(namespace_key m \<mapsto> obj)"
    and Update_law: "inv c \<Longrightarrow> Accessor obj = Inr m \<Longrightarrow>
      \<exists>c'. ix_Update ix obj c = (Ret (), c') \<and> inv c' \<and> contents c' = (contents c)(namespace_key m \<mapsto> obj)"
    and Delete_law: "inv c \<Longrightarrow> DeletionHandlingMetaNamespaceKeyFunc obj = Inr key \<Longrightarrow>
      \<exists>c'. ix_Delete ix obj c = (Ret (), c') \<and> inv c' \<and> contents c' = (contents c)(key := None)"
    and Replace_law: "inv c \<Longrightarrow> list_all (\<lambda>x. \<exists>m. Accessor x = Inr m) xs \<Longrightarrow>
      \<exists>c'. ix_Replace ix xs c = (Ret (), c') \<and> inv c'
        \<and> contents c' = fold (\<lambda>x f. f(namespace_key (projr (Accessor x)) \<mapsto> x)) xs Map.empty"
    and GetByKey_law: "inv c \<Longrightarrow> ix_GetByKey ix key c = Inr (contents c key)"
    and Get_law: "inv c \<Longrightarrow> Accessor obj = Inr m \<Longrightarrow> ix_Get ix obj c = Inr (contents c (namespace_key m))"
    and List_law: "inv c \<Longrightarrow> \<exists>ks. distinct ks \<and> set ks = dom (contents c) \<and> ix_List ix c = map (\<lambda>k. the (contents c k)) ks"
    and ListKeys_law: "inv c \<Longrightarrow> distinct (ix_ListKeys ix c) \<and> set (ix_ListKeys ix c) = dom (contents c)"
    and Index_law: "inv c \<Longrightarrow> Accessor obj = Inr m \<Longrightarrow>
      \<exists>ks. distinct ks \<and> set ks = {k. \<exists>o' m'. contents c k = Some o' \<and> Accessor o' = Inr m' \<and> Namespace m' = Namespace m}
        \<and> ix_Index ix NamespaceIndex obj c = Inr (map (\<lambda>k. the (contents c k)) ks)"

text \<open>The store of the informers: one indexer, by namespace, and the keys of the objects' metadata.\<close>

definition ns_indexers :: "index_func gomap" where
  "ns_indexers = [(NamespaceIndex, MetaNamespaceIndexFunc)]"

definition store_ok :: "threadSafeMap \<Rightarrow> bool" where
  "store_ok c \<longleftrightarrow> indexed c \<and> indexers c = ns_indexers
     \<and> (\<forall>k obj. map_of (items c) k = Some obj \<longrightarrow> (\<exists>m. Accessor obj = Inr m \<and> namespace_key m = k))"

lemma store_ok_New: "store_ok (NewThreadSafeStore ns_indexers)"
  using indexed_New[of ns_indexers] by (simp add: store_ok_def) (simp add: NewThreadSafeStore_def ns_indexers_def)

lemma indexable_meta: "Accessor obj = Inr m \<Longrightarrow> indexable ns_indexers obj"
  by (auto simp: indexable_def ns_indexers_def MetaNamespaceIndexFunc_def Accessor_def)

lemma keys_of_meta:
  assumes "Accessor obj = Inr m"
  shows "MetaNamespaceKeyFunc obj = Inr (namespace_key m)" "DeletionHandlingMetaNamespaceKeyFunc obj = Inr (namespace_key m)"
  using assms by (auto simp: MetaNamespaceKeyFunc_def DeletionHandlingMetaNamespaceKeyFunc_def Accessor_def split: cache_obj.splits)

lemma keyed_items_meta:
  assumes "list_all (\<lambda>x. \<exists>m. Accessor x = Inr m) xs"
  shows "\<exists>its. keyed_items DeletionHandlingMetaNamespaceKeyFunc xs its0 = Inr its
    \<and> map_of its = fold (\<lambda>x f. f(namespace_key (projr (Accessor x)) \<mapsto> x)) xs (map_of its0)
    \<and> (distinct (map fst its0) \<longrightarrow> distinct (map fst its))"
  using assms
proof (induction xs arbitrary: its0)
  case (Cons x xs)
  then obtain m where m: "Accessor x = Inr m" by auto
  from Cons.IH[of "map_put (namespace_key m) x its0"] Cons.prems show ?case
    by (auto simp: m keys_of_meta(2)[OF m] map_of_map_put distinct_map_put)
qed simp

lemma fold_keyed:
  assumes "list_all (\<lambda>x. \<exists>m. Accessor x = Inr m) xs"
    and "fold (\<lambda>x f. f(namespace_key (projr (Accessor x)) \<mapsto> x)) xs g k = Some obj"
  shows "g k = Some obj \<or> (\<exists>m. Accessor obj = Inr m \<and> namespace_key m = k)"
  using assms
proof (induction xs arbitrary: g)
  case (Cons x xs)
  then obtain m where m: "Accessor x = Inr m" by auto
  from Cons.IH[of "g(namespace_key m \<mapsto> x)"] Cons.prems m show ?case by (auto split: if_splits)
qed simp

text \<open>The order in which the runtime visits the keys of a map is some order of them.\<close>

locale map_order =
  fixes visit :: "string list \<Rightarrow> string list"
  assumes visit_perm: "mset (visit ks) = mset ks"
begin

lemma set_visit: "set (visit ks) = set ks" and distinct_visit: "distinct (visit ks) = distinct ks"
  using visit_perm[of ks] by (rule mset_eq_setD, rule mset_eq_imp_distinct_iff)

lemma store_ListKeys: "store_ok c \<Longrightarrow> distinct (tsm_ListKeys visit c) \<and> set (tsm_ListKeys visit c) = dom (map_of (items c))"
  by (simp add: tsm_ListKeys_def set_visit distinct_visit store_ok_def indexedD(1) dom_map_of_conv_image_fst)

lemma store_Add:
  assumes c: "store_ok c" and m: "Accessor obj = Inr m"
  shows "\<exists>c'. tsm_Add (namespace_key m) obj c = (Ret (), c') \<and> store_ok c' \<and> map_of (items c') = (map_of (items c))(namespace_key m \<mapsto> obj)"
proof -
  have "\<exists>c'. tsm_Add (namespace_key m) obj c = (Ret (), c') \<and> indexed c' \<and> indexers c' = indexers c
      \<and> map_of (items c') = (map_of (items c))(namespace_key m \<mapsto> obj)"
    by (rule tsm_Add_spec) (use c indexable_meta[OF m] in \<open>simp_all add: store_ok_def\<close>)
  with c m show ?thesis by (fastforce simp: store_ok_def)
qed

lemma store_Delete:
  assumes "store_ok c"
  shows "\<exists>c'. tsm_Delete key c = (Ret (), c') \<and> store_ok c' \<and> map_of (items c') = (map_of (items c))(key := None)"
  using tsm_Delete_spec[of c key] assms by (fastforce simp: store_ok_def)

lemma store_Replace:
  assumes c: "store_ok c" and xs: "list_all (\<lambda>x. \<exists>m. Accessor x = Inr m) xs"
  shows "\<exists>c'. cache_Replace visit DeletionHandlingMetaNamespaceKeyFunc xs c = (Ret (), c') \<and> store_ok c'
    \<and> map_of (items c') = fold (\<lambda>x f. f(namespace_key (projr (Accessor x)) \<mapsto> x)) xs Map.empty"
proof -
  let ?f = "fold (\<lambda>x f. f(namespace_key (projr (Accessor x)) \<mapsto> x)) xs Map.empty"
  obtain its where its: "keyed_items DeletionHandlingMetaNamespaceKeyFunc xs [] = Inr its" "map_of its = ?f" "distinct (map fst its)"
    using keyed_items_meta[OF xs, of "[]"] by auto
  have ok: "map_of its k = Some obj \<Longrightarrow> \<exists>m. Accessor obj = Inr m \<and> namespace_key m = k" for k obj
    using fold_keyed[OF xs, of Map.empty k obj] its(2) by simp
  have ixs: "indexers c = ns_indexers" using c by (simp add: store_ok_def)
  then have d: "distinct (map fst (indexers c))" by (simp add: ns_indexers_def)
  have "\<exists>c'. tsm_Replace visit its c = (Ret (), c') \<and> indexed c' \<and> indexers c' = indexers c \<and> items c' = its"
  proof (rule tsm_Replace_spec)
    show "map_of its k = Some obj \<Longrightarrow> indexable (indexers c) obj" for k obj
      unfolding ixs using ok indexable_meta by blast
  qed (rule visit_perm its(3) d)+
  then show ?thesis using c its ok by (auto simp: cache_Replace_def store_ok_def)
qed

lemma store_List:
  assumes "store_ok c"
  shows "\<exists>ks. distinct ks \<and> set ks = dom (map_of (items c)) \<and> tsm_List visit c = map (\<lambda>k. the (map_of (items c) k)) ks"
proof -
  let ?ks = "visit (map fst (items c))"
  have d: "distinct ?ks" using indexedD(1) assms by (simp add: distinct_visit store_ok_def)
  have s: "set ?ks = dom (map_of (items c))" by (simp add: set_visit dom_map_of_conv_image_fst)
  have "item_at (items c) k = the (map_of (items c) k)" if "k \<in> set ?ks" for k
    using that s by (auto simp: item_at_def)
  with d s show ?thesis by (intro exI[of _ ?ks]) (simp add: tsm_List_def)
qed

lemma store_Index:
  assumes c: "store_ok c" and m: "Accessor obj = Inr m"
  shows "\<exists>ks. distinct ks \<and> set ks = {k. \<exists>o' m'. map_of (items c) k = Some o' \<and> Accessor o' = Inr m' \<and> Namespace m' = Namespace m}
    \<and> tsm_Index visit NamespaceIndex obj c = Inr (map (\<lambda>k. the (map_of (items c) k)) ks)"
proof -
  have i: "indexed c" "map_of (indexers c) NamespaceIndex = Some MetaNamespaceIndexFunc"
    using c by (simp_all add: store_ok_def ns_indexers_def)
  have f: "MetaNamespaceIndexFunc obj = Inr [Namespace m]" using m by (simp add: MetaNamespaceIndexFunc_def)
  obtain ks where ks: "distinct ks" "tsm_Index visit NamespaceIndex obj c = Inr (map (item_at (items c)) ks)"
      "set ks = {k. \<exists>o'. map_of (items c) k = Some o' \<and> set (index_values MetaNamespaceIndexFunc o') \<inter> set [Namespace m] \<noteq> {}}"
    using tsm_Index_spec[OF visit_perm i f] by blast
  have k: "set ks = {k. \<exists>o' m'. map_of (items c) k = Some o' \<and> Accessor o' = Inr m' \<and> Namespace m' = Namespace m}"
  proof -
    have "set (index_values MetaNamespaceIndexFunc o') \<inter> set [Namespace m] \<noteq> {} \<longleftrightarrow> (\<exists>m'. Accessor o' = Inr m' \<and> Namespace m' = Namespace m)" for o'
      by (cases "Accessor o'") (auto simp: index_values_def MetaNamespaceIndexFunc_def)
    then show ?thesis unfolding ks(3) by blast
  qed
  have "item_at (items c) k = the (map_of (items c) k)" if "k \<in> set ks" for k
    using that unfolding k by (auto simp: item_at_def)
  with ks(1,2) k show ?thesis by (intro exI[of _ ks]) simp
qed

end

sublocale map_order \<subseteq> store: indexer_laws "cache_ops visit DeletionHandlingMetaNamespaceKeyFunc" store_ok "\<lambda>c. map_of (items c)"
proof
  fix c obj m assume c: "store_ok c" and m: "Accessor obj = Inr m"
  from store_Add[OF c m] show
    "\<exists>c'. ix_Add (cache_ops visit DeletionHandlingMetaNamespaceKeyFunc) obj c = (Ret (), c') \<and> store_ok c'
       \<and> map_of (items c') = (map_of (items c))(namespace_key m \<mapsto> obj)"
    "\<exists>c'. ix_Update (cache_ops visit DeletionHandlingMetaNamespaceKeyFunc) obj c = (Ret (), c') \<and> store_ok c'
       \<and> map_of (items c') = (map_of (items c))(namespace_key m \<mapsto> obj)"
    by (simp_all add: cache_ops_def cache_Add_def cache_Update_def keys_of_meta[OF m] tsm_Update_eq)
next
  fix c obj key assume "store_ok c" "DeletionHandlingMetaNamespaceKeyFunc obj = Inr key"
  with store_Delete[of c key] show
    "\<exists>c'. ix_Delete (cache_ops visit DeletionHandlingMetaNamespaceKeyFunc) obj c = (Ret (), c') \<and> store_ok c'
       \<and> map_of (items c') = (map_of (items c))(key := None)"
    by (simp add: cache_ops_def cache_Delete_def)
qed (use store_Replace store_List store_ListKeys store_Index in
    \<open>auto simp: cache_ops_def cache_Get_def cache_GetByKey_def tsm_Get_def keys_of_meta store_ok_def\<close>)

text \<open>The order of the list is one.\<close>

interpretation list_order: map_order id
  by unfold_locales simp

end
