(* ===== verification/Md5.thy ===== *)
theory Md5
  imports Prelude "HOL-Library.Word"
begin

text \<open>
  The digest of Go's \<^verbatim>\<open>crypto/md5\<close> (RFC 1321) and the lower-case hexadecimal
  rendering of \<open>fmt.Sprintf("%x", ...)\<close>: what \<^verbatim>\<open>CreateIptableChainName\<close> of
  \<^verbatim>\<open>iptables.go\<close> builds the names of its chains from. Words are 32 bits wide and
  their additions wrap around.
\<close>

unbundle bit_operations_syntax

type_synonym u32 = "32 word"

section \<open>The compression function\<close>

definition md5_shift :: "nat list" where
  "md5_shift =
     concat (map (concat \<circ> replicate 4) [[7, 12, 17, 22], [5, 9, 14, 20], [4, 11, 16, 23], [6, 10, 15, 21]])"

definition md5_table :: "u32 list" where
  "md5_table =
   [0xd76aa478, 0xe8c7b756, 0x242070db, 0xc1bdceee, 0xf57c0faf, 0x4787c62a, 0xa8304613, 0xfd469501,
    0x698098d8, 0x8b44f7af, 0xffff5bb1, 0x895cd7be, 0x6b901122, 0xfd987193, 0xa679438e, 0x49b40821,
    0xf61e2562, 0xc040b340, 0x265e5a51, 0xe9b6c7aa, 0xd62f105d, 0x02441453, 0xd8a1e681, 0xe7d3fbc8,
    0x21e1cde6, 0xc33707d6, 0xf4d50d87, 0x455a14ed, 0xa9e3e905, 0xfcefa3f8, 0x676f02d9, 0x8d2a4c8a,
    0xfffa3942, 0x8771f681, 0x6d9d6122, 0xfde5380c, 0xa4beea44, 0x4bdecfa9, 0xf6bb4b60, 0xbebfbc70,
    0x289b7ec6, 0xeaa127fa, 0xd4ef3085, 0x04881d05, 0xd9d4d039, 0xe6db99e5, 0x1fa27cf8, 0xc4ac5665,
    0xf4292244, 0x432aff97, 0xab9423a7, 0xfc93a039, 0x655b59c3, 0x8f0ccc92, 0xffeff47d, 0x85845dd1,
    0x6fa87e4f, 0xfe2ce6e0, 0xa3014314, 0x4e0811a1, 0xf7537e82, 0xbd3af235, 0x2ad7d2bb, 0xeb86d391]"

definition md5_mix :: "nat \<Rightarrow> u32 \<Rightarrow> u32 \<Rightarrow> u32 \<Rightarrow> u32" where
  "md5_mix i b c d =
     (if i < 16 then (b AND c) OR (NOT b AND d)
      else if i < 32 then (d AND b) OR (NOT d AND c)
      else if i < 48 then b XOR c XOR d
      else c XOR (b OR NOT d))"

definition md5_index :: "nat \<Rightarrow> nat" where
  "md5_index i =
     (if i < 16 then i
      else if i < 32 then (5 * i + 1) mod 16
      else if i < 48 then (3 * i + 5) mod 16
      else (7 * i) mod 16)"

type_synonym md5_state = "u32 \<times> u32 \<times> u32 \<times> u32"

fun md5_round :: "u32 list \<Rightarrow> nat \<Rightarrow> md5_state \<Rightarrow> md5_state" where
  "md5_round m i (a, b, c, d) =
     (d, b + word_rotl (md5_shift ! i) (a + md5_mix i b c d + md5_table ! i + m ! md5_index i), b, c)"

definition md5_block :: "u32 list \<Rightarrow> md5_state \<Rightarrow> md5_state" where
  "md5_block m s =
     (case s of (a, b, c, d) \<Rightarrow>
      case fold (md5_round m) [0..<64] s of (a', b', c', d') \<Rightarrow> (a + a', b + b', c + c', d + d'))"

section \<open>Padding and the digest\<close>

fun le_bytes :: "nat \<Rightarrow> int \<Rightarrow> string" where
  "le_bytes 0 n = []"
| "le_bytes (Suc k) n = char_of n # le_bytes k (n div 256)"

fun le_word :: "string \<Rightarrow> u32" where
  "le_word [] = 0"
| "le_word (c # cs) = word_of_int (of_char c) + 256 * le_word cs"

definition md5_pad :: "string \<Rightarrow> string" where
  "md5_pad s =
     (let z = (119 - length s mod 64) mod 64
      in s @ [CHR 0x80] @ replicate z (CHR 0x00) @ le_bytes 8 (8 * int (length s)))"

fun chunks :: "nat \<Rightarrow> 'a list \<Rightarrow> 'a list list" where
  "chunks n [] = []"
| "chunks n (x # xs) = (x # take (n - 1) xs) # chunks n (drop (n - 1) xs)"

definition md5_init :: md5_state where
  "md5_init = (0x67452301, 0xefcdab89, 0x98badcfe, 0x10325476)"

definition md5_Sum :: "string \<Rightarrow> string" where
  "md5_Sum s =
     (case fold (\<lambda>b. md5_block (map le_word (chunks 4 b))) (chunks 64 (md5_pad s)) md5_init of
        (a, b, c, d) \<Rightarrow> concat (map (\<lambda>w. le_bytes 4 (uint w)) [a, b, c, d]))"

section \<open>Hexadecimal rendering\<close>

definition hex_digit :: "nat \<Rightarrow> char" where
  "hex_digit n = ''0123456789abcdef'' ! n"

fun hex :: "string \<Rightarrow> string" where
  "hex [] = []"
| "hex (c # cs) = hex_digit (nat (of_char c div 16)) # hex_digit (nat (of_char c mod 16)) # hex cs"

lemma length_le_bytes [simp]: "length (le_bytes k n) = k"
  by (induction k n rule: le_bytes.induct) auto

lemma length_md5_Sum [simp]: "length (md5_Sum s) = 16"
  by (auto simp: md5_Sum_def split: prod.split)

lemma length_hex [simp]: "length (hex s) = 2 * length s"
  by (induction s) auto

definition is_hex :: "char \<Rightarrow> bool" where
  "is_hex c = (c \<in> set ''0123456789abcdef'')"

lemma hex_digit_in: "n < 16 \<Longrightarrow> is_hex (hex_digit n)"
  unfolding hex_digit_def is_hex_def by (rule nth_mem) simp

lemma list_all_is_hex: "list_all is_hex (hex s)"
proof (induction s)
  case (Cons c cs)
  have "(of_char c :: int) < 256" "(0 :: int) \<le> of_char c" by (simp_all add: of_char_def horner_sum_bound)
  then have "nat (of_char c div 16) < 16" "nat (of_char c mod 16) < 16" by linarith+
  with Cons show ?case using hex_digit_in by simp
qed simp

text \<open>The test suite of RFC 1321, appendix A.5 (its first and third entries).\<close>

lemma md5_empty: "hex (md5_Sum '''') = ''d41d8cd98f00b204e9800998ecf8427e''"
  by code_simp

lemma md5_abc: "hex (md5_Sum ''abc'') = ''900150983cd24fb0d6963f7d28e17f72''"
  by code_simp

end
