(* ===== verification/GoIptables.thy ===== *)
theory GoIptables
  imports Prelude
begin

text \<open>
  The client library \<^verbatim>\<open>vendor/github.com/coreos/go-iptables/iptables\<close>, through which the
  network policy controller edits the packet filter. The library starts the \<^verbatim>\<open>iptables\<close>
  program; the program, the search path and the lock file of the host are not part of the repository
  and are the fields of the record \<open>host\<close>, over an arbitrary state \<open>'k\<close> of the host.
\<close>

section \<open>The host\<close>

datatype proc_outcome =
    Exited int string string  \<comment> \<open>exit status, standard output, standard error\<close>
  | NotRun string             \<comment> \<open>the process did not run to an exit status\<close>

record 'k host =
  exec_proc :: "string list \<Rightarrow> 'k \<Rightarrow> proc_outcome \<times> 'k"  \<comment> \<open>argument vector, program name first\<close>
  look_path :: "string \<Rightarrow> 'k \<Rightarrow> go_error + string"
  xtables_lock :: "'k \<Rightarrow> go_error option \<times> 'k"  \<comment> \<open>open and \<open>flock\<close> the lock file; \<open>None\<close>: no error\<close>

record IPTables =
  path :: string
  hasCheck :: bool
  hasWait :: bool

section \<open>Running a command\<close>

text \<open>
  \<open>cmd.Run()\<close>: a non-zero exit status is an \<^verbatim>\<open>*Error\<close>; any other failure makes the type
  assertion \<open>err.(*exec.ExitError)\<close> panic.
\<close>

definition cmd_Run :: "'k host \<Rightarrow> string list \<Rightarrow> ('k, string) go" where
  "cmd_Run h argv k =
     (case exec_proc h argv k of
        (Exited st out msg, k') \<Rightarrow> (if st = 0 then Ret out else Err (ExitError st msg), k')
      | (NotRun m, k') \<Rightarrow> (Panic m, k'))"

definition take_lock :: "'k host \<Rightarrow> ('k, unit) go" where
  "take_lock h k = (case xtables_lock h k of (None, k') \<Rightarrow> (Ret (), k') | (Some e, k') \<Rightarrow> (Err e, k'))"

definition runWithOutput :: "'k host \<Rightarrow> IPTables \<Rightarrow> string list \<Rightarrow> ('k, string) go" where
  "runWithOutput h ipt args =
     (if hasWait ipt then cmd_Run h (path ipt # args @ [''--wait''])
      else go_bind (take_lock h) (\<lambda>_. cmd_Run h (path ipt # args)))"

definition run :: "'k host \<Rightarrow> IPTables \<Rightarrow> string list \<Rightarrow> ('k, unit) go" where
  "run h ipt args = go_bind (runWithOutput h ipt args) (\<lambda>_. go_ret ())"

section \<open>Operations\<close>

text \<open>\<open>existsForOldIptables\<close> searches the whole listing of the table for the text of the rule.\<close>

definition existsForOldIptables :: "'k host \<Rightarrow> IPTables \<Rightarrow> string \<Rightarrow> string \<Rightarrow> string list \<Rightarrow> ('k, bool) go" where
  "existsForOldIptables h ipt table chain rulespec =
     (let rs = Join ([''-A'', chain] @ rulespec) '' ''
      in go_bind (runWithOutput h ipt [''-t'', table, ''-S'']) (\<lambda>out. go_ret (Contains out rs)))"

definition Exists :: "'k host \<Rightarrow> IPTables \<Rightarrow> string \<Rightarrow> string \<Rightarrow> string list \<Rightarrow> ('k, bool) go" where
  "Exists h ipt table chain rulespec =
     (if \<not> hasCheck ipt then existsForOldIptables h ipt table chain rulespec
      else go_bind (go_try (run h ipt ([''-t'', table, ''-C'', chain] @ rulespec)))
        (\<lambda>r. case r of
           Inr _ \<Rightarrow> go_ret True
         | Inl e \<Rightarrow> (case e of
               ExitError st m \<Rightarrow> if st = 1 then go_ret False else go_err e
             | ErrorString m \<Rightarrow> go_err e)))"

definition Insert :: "'k host \<Rightarrow> IPTables \<Rightarrow> string \<Rightarrow> string \<Rightarrow> int \<Rightarrow> string list \<Rightarrow> ('k, unit) go" where
  "Insert h ipt table chain pos rulespec = run h ipt ([''-t'', table, ''-I'', chain, Itoa pos] @ rulespec)"

definition Append :: "'k host \<Rightarrow> IPTables \<Rightarrow> string \<Rightarrow> string \<Rightarrow> string list \<Rightarrow> ('k, unit) go" where
  "Append h ipt table chain rulespec = run h ipt ([''-t'', table, ''-A'', chain] @ rulespec)"

definition AppendUnique :: "'k host \<Rightarrow> IPTables \<Rightarrow> string \<Rightarrow> string \<Rightarrow> string list \<Rightarrow> ('k, unit) go" where
  "AppendUnique h ipt table chain rulespec =
     go_bind (Exists h ipt table chain rulespec)
       (\<lambda>exists. if \<not> exists then Append h ipt table chain rulespec else go_ret ())"

definition Delete :: "'k host \<Rightarrow> IPTables \<Rightarrow> string \<Rightarrow> string \<Rightarrow> string list \<Rightarrow> ('k, unit) go" where
  "Delete h ipt table chain rulespec = run h ipt ([''-t'', table, ''-D'', chain] @ rulespec)"

text \<open>\<open>List\<close> of the source: the lines of the listing, without the empty one after the last newline.\<close>

definition ListRules :: "'k host \<Rightarrow> IPTables \<Rightarrow> string \<Rightarrow> string \<Rightarrow> ('k, string list) go" where
  "ListRules h ipt table chain =
     go_bind (runWithOutput h ipt [''-t'', table, ''-S'', chain])
       (\<lambda>out. let rules = Split out [CHR 0x0A]
              in go_ret (if rules \<noteq> [] \<and> last rules = [] then butlast rules else rules))"

definition NewChain :: "'k host \<Rightarrow> IPTables \<Rightarrow> string \<Rightarrow> string \<Rightarrow> ('k, unit) go" where
  "NewChain h ipt table chain = run h ipt [''-t'', table, ''-N'', chain]"

definition ClearChain :: "'k host \<Rightarrow> IPTables \<Rightarrow> string \<Rightarrow> string \<Rightarrow> ('k, unit) go" where
  "ClearChain h ipt table chain =
     go_bind (go_try (NewChain h ipt table chain))
       (\<lambda>r. case r of
          Inr _ \<Rightarrow> go_ret ()
        | Inl e \<Rightarrow> (case e of
              ExitError st m \<Rightarrow> if st = 1 then run h ipt [''-t'', table, ''-F'', chain] else go_err e
            | ErrorString m \<Rightarrow> go_err e))"

definition DeleteChain :: "'k host \<Rightarrow> IPTables \<Rightarrow> string \<Rightarrow> string \<Rightarrow> ('k, unit) go" where
  "DeleteChain h ipt table chain = run h ipt [''-t'', table, ''-X'', chain]"

section \<open>Which features the program has\<close>

text \<open>
  \<open>v([0-9]+)\.([0-9]+)\.([0-9]+)\<close>, leftmost match: the digits are taken greedily, and a full stop is
  no digit, so no other way to match the rest exists.
\<close>

definition is_digit :: "char \<Rightarrow> bool" where
  "is_digit c = (digit_val c \<noteq> None)"

definition match_nums :: "string \<Rightarrow> (string \<times> string \<times> string) option" where
  "match_nums s =
     (let a = takeWhile is_digit s; s1 = dropWhile is_digit s;
          b = takeWhile is_digit (tl s1); s2 = dropWhile is_digit (tl s1);
          c = takeWhile is_digit (tl s2)
      in if a \<noteq> [] \<and> s1 \<noteq> [] \<and> hd s1 = CHR ''.'' \<and> b \<noteq> [] \<and> s2 \<noteq> [] \<and> hd s2 = CHR ''.'' \<and> c \<noteq> []
         then Some (a, b, c) else None)"

fun find_version :: "string \<Rightarrow> (string \<times> string \<times> string) option" where
  "find_version [] = None"
| "find_version (x # xs) =
     (if x = CHR ''v'' \<and> match_nums xs \<noteq> None then match_nums xs else find_version xs)"

text \<open>\<^verbatim>\<open>strconv.Atoi\<close> of a non-empty sequence of digits: an error beyond the 64-bit range.\<close>

definition Atoi_digits :: "string \<Rightarrow> go_error + int" where
  "Atoi_digits s =
     (case digits_val 0 s of
        None \<Rightarrow> Inl (ErrorString (''strconv.Atoi: parsing '' @ s @ '': invalid syntax''))
      | Some n \<Rightarrow>
          if n < 2 ^ 63 then Inr (int n)
          else Inl (ErrorString (''strconv.Atoi: parsing '' @ s @ '': value out of range'')))"

definition extractIptablesVersion :: "string \<Rightarrow> go_error + int \<times> int \<times> int" where
  "extractIptablesVersion str =
     (case find_version str of
        None \<Rightarrow> Inl (ErrorString (''no iptables version found in string: '' @ str))
      | Some (a, b, c) \<Rightarrow>
          (case Atoi_digits a of Inl e \<Rightarrow> Inl e | Inr v1 \<Rightarrow>
          (case Atoi_digits b of Inl e \<Rightarrow> Inl e | Inr v2 \<Rightarrow>
          (case Atoi_digits c of Inl e \<Rightarrow> Inl e | Inr v3 \<Rightarrow> Inr (v1, v2, v3)))))"

definition iptablesHasCheckCommand :: "int \<Rightarrow> int \<Rightarrow> int \<Rightarrow> bool" where
  "iptablesHasCheckCommand v1 v2 v3 =
     (if v1 > 1 then True
      else if v1 = 1 \<and> v2 > 4 then True
      else if v1 = 1 \<and> v2 = 4 \<and> v3 \<ge> 11 then True
      else False)"

definition iptablesHasWaitCommand :: "int \<Rightarrow> int \<Rightarrow> int \<Rightarrow> bool" where
  "iptablesHasWaitCommand v1 v2 v3 =
     (if v1 > 1 then True
      else if v1 = 1 \<and> v2 > 4 then True
      else if v1 = 1 \<and> v2 = 4 \<and> v3 \<ge> 20 then True
      else False)"

text \<open>Here a failed start of the process is returned as an error.\<close>

definition getIptablesVersionString :: "'k host \<Rightarrow> ('k, string) go" where
  "getIptablesVersionString h k =
     (case look_path h ''iptables'' k of
        Inl e \<Rightarrow> (Err e, k)
      | Inr p \<Rightarrow>
          (case exec_proc h [''iptables'', ''--version''] k of
             (Exited st out msg, k') \<Rightarrow>
               (if st = 0 then Ret out else Err (ErrorString (''exit status '' @ Itoa st)), k')
           | (NotRun m, k') \<Rightarrow> (Err (ErrorString m), k')))"

definition getIptablesCommandSupport :: "'k host \<Rightarrow> ('k, bool \<times> bool) go" where
  "getIptablesCommandSupport h =
     go_bind (getIptablesVersionString h)
       (\<lambda>vstring. case extractIptablesVersion vstring of
          Inl e \<Rightarrow> go_err e
        | Inr (v1, v2, v3) \<Rightarrow>
            go_ret (iptablesHasCheckCommand v1 v2 v3, iptablesHasWaitCommand v1 v2 v3))"

definition New :: "'k host \<Rightarrow> ('k, IPTables) go" where
  "New h k =
     (case look_path h ''iptables'' k of
        Inl e \<Rightarrow> (Err e, k)
      | Inr p \<Rightarrow>
          go_bind (go_wrap (Errorf_v ''error checking iptables version: '') (getIptablesCommandSupport h))
            (\<lambda>(checkPresent, waitPresent).
               go_ret \<lparr>path = p, hasCheck = checkPresent, hasWait = waitPresent\<rparr>) k)"

text \<open>A program with \<^verbatim>\<open>--wait\<close> has \<^verbatim>\<open>-C\<close> too.\<close>

lemma wait_implies_check: "iptablesHasWaitCommand a b c \<Longrightarrow> iptablesHasCheckCommand a b c"
  by (auto simp: iptablesHasWaitCommand_def iptablesHasCheckCommand_def split: if_splits)

section \<open>Reading a version\<close>

lemma takeWhile_digits: "rest = [] \<or> \<not> is_digit (hd rest) \<Longrightarrow> takeWhile is_digit (nat_digits n @ rest) = nat_digits n"
  and dropWhile_digits: "rest = [] \<or> \<not> is_digit (hd rest) \<Longrightarrow> dropWhile is_digit (nat_digits n @ rest) = rest"
proof -
  have d: "\<And>c. c \<in> set (nat_digits n) \<Longrightarrow> is_digit c" using digit_val_nat_digits by (simp add: is_digit_def)
  assume "rest = [] \<or> \<not> is_digit (hd rest)"
  then have "takeWhile is_digit rest = []" "dropWhile is_digit rest = rest" by (cases rest; simp)+
  then show "takeWhile is_digit (nat_digits n @ rest) = nat_digits n" "dropWhile is_digit (nat_digits n @ rest) = rest"
    using d by (simp_all add: takeWhile_append2 dropWhile_append2)
qed

lemma dot_not_digit: "\<not> is_digit (CHR ''.'')"
  by code_simp

lemma match_nums_print:
  assumes "rest = [] \<or> \<not> is_digit (hd rest)"
  shows "match_nums (nat_digits a @ ''.'' @ nat_digits b @ ''.'' @ nat_digits c @ rest) = Some (nat_digits a, nat_digits b, nat_digits c)"
  using takeWhile_digits[OF assms, of c] dot_not_digit
  by (simp add: match_nums_def takeWhile_digits dropWhile_digits Let_def)

lemma find_version_skip: "CHR ''v'' \<notin> set p \<Longrightarrow> find_version (p @ s) = find_version s"
  by (induction p) auto

lemma Atoi_digits_print: "n < 2 ^ 63 \<Longrightarrow> Atoi_digits (nat_digits n) = Inr (int n)"
  by (simp add: Atoi_digits_def digits_val_nat_digits)

lemma extractIptablesVersion_print:
  assumes "CHR ''v'' \<notin> set p" "rest = [] \<or> \<not> is_digit (hd rest)" "a < 2 ^ 63" "b < 2 ^ 63" "c < 2 ^ 63"
  shows "extractIptablesVersion (p @ ''v'' @ nat_digits a @ ''.'' @ nat_digits b @ ''.'' @ nat_digits c @ rest) = Inr (int a, int b, int c)"
  using match_nums_print[OF assms(2), of a b c] assms
  by (simp add: extractIptablesVersion_def find_version_skip Atoi_digits_print)

end
