(* ===== verification/FilterTable.thy ===== *)
theory FilterTable
  imports GoIptables
begin

text \<open>
  The contract of the \<^verbatim>\<open>iptables\<close> program on the \<^verbatim>\<open>filter\<close> table, as its manual page
  documents it, and what the operations of \<open>GoIptables\<close> do under that contract. The table is a
  map from chain names to lists of rules; a rule keeps the source and the destination network in the
  canonical form the kernel stores. The contract is the locale \<open>iptables_tool\<close>; it is interpreted
  on a host whose whole state is such a table.
\<close>

section \<open>Tables and commands\<close>

datatype rule = Rule (src: "string option") (dst: "string option") (target: string)

type_synonym chains = "string \<rightharpoonup> rule list"

definition builtin_targets :: "string list" where
  "builtin_targets = [''ACCEPT'', ''DROP'', ''REJECT'', ''RETURN'']"

definition builtin_chains :: "string list" where
  "builtin_chains = [''INPUT'', ''FORWARD'', ''OUTPUT'']"

datatype ipt_cmd =
    CNew string
  | CFlush string
  | CDelChain string
  | CCheck string "string list"
  | CAppend string "string list"
  | CInsert string nat "string list"
  | CDelete string nat
  | CList string

fun cmd_args :: "ipt_cmd \<Rightarrow> string list" where
  "cmd_args (CNew c) = [''-N'', c]"
| "cmd_args (CFlush c) = [''-F'', c]"
| "cmd_args (CDelChain c) = [''-X'', c]"
| "cmd_args (CCheck c sp) = [''-C'', c] @ sp"
| "cmd_args (CAppend c sp) = [''-A'', c] @ sp"
| "cmd_args (CInsert c n sp) = [''-I'', c, nat_digits n] @ sp"
| "cmd_args (CDelete c n) = [''-D'', c, nat_digits n]"
| "cmd_args (CList c) = [''-S'', c]"

text \<open>The rule a specification denotes; \<open>cn\<close> brings a network into canonical form.\<close>

definition spec_rule :: "(string \<Rightarrow> string option) \<Rightarrow> string list \<Rightarrow> rule option" where
  "spec_rule cn sp =
     (case sp of
        [j, t] \<Rightarrow> if j = ''-j'' then Some (Rule None None t) else None
      | [m, s, j, t] \<Rightarrow>
          if j \<noteq> ''-j'' then None
          else if m = ''-s'' then map_option (\<lambda>s'. Rule (Some s') None t) (cn s)
          else if m = ''-d'' then map_option (\<lambda>s'. Rule None (Some s') t) (cn s)
          else None
      | _ \<Rightarrow> None)"

text \<open>A line of \<^verbatim>\<open>iptables -S\<close>; \<open>ex t\<close> are the options the program prints after a
  target, such as \<^verbatim>\<open>--reject-with icmp-port-unreachable\<close>.\<close>

definition rule_tokens :: "(string \<Rightarrow> string list) \<Rightarrow> rule \<Rightarrow> string list" where
  "rule_tokens ex r =
     (case src r of None \<Rightarrow> [] | Some s \<Rightarrow> [''-s'', s])
     @ (case dst r of None \<Rightarrow> [] | Some d \<Rightarrow> [''-d'', d])
     @ [''-j'', target r] @ ex (target r)"

definition rule_line :: "(string \<Rightarrow> string list) \<Rightarrow> string \<Rightarrow> rule \<Rightarrow> string" where
  "rule_line ex c r = Join ([''-A'', c] @ rule_tokens ex r) '' ''"

definition chain_line :: "string \<Rightarrow> string" where
  "chain_line c = ''-N '' @ c"

definition listing :: "(string \<Rightarrow> string list) \<Rightarrow> string \<Rightarrow> rule list \<Rightarrow> string list" where
  "listing ex c rs = chain_line c # map (rule_line ex c) rs"

definition lines_text :: "string list \<Rightarrow> string" where
  "lines_text ls = concat (map (\<lambda>l. l @ [CHR 0x0A]) ls)"

section \<open>What a command does\<close>

datatype edit = Keep | Put string "rule list" | Drop string

fun apply_edit :: "edit \<Rightarrow> chains \<Rightarrow> chains" where
  "apply_edit Keep T = T"
| "apply_edit (Put c rs) T = T(c \<mapsto> rs)"
| "apply_edit (Drop c) T = T(c := None)"

definition referenced :: "chains \<Rightarrow> string \<Rightarrow> bool" where
  "referenced T c = (\<exists>c' rs. T c' = Some rs \<and> c \<in> target ` set rs)"

definition target_known :: "chains \<Rightarrow> string \<Rightarrow> bool" where
  "target_known T t = (t \<in> set builtin_targets \<or> T t \<noteq> None)"

definition drop_nth :: "nat \<Rightarrow> 'a list \<Rightarrow> 'a list" where
  "drop_nth i xs = take i xs @ drop (Suc i) xs"

definition put_nth :: "nat \<Rightarrow> 'a \<Rightarrow> 'a list \<Rightarrow> 'a list" where
  "put_nth i x xs = take i xs @ x # drop i xs"

text \<open>Commands with a rule: a malformed network or an unknown target is a usage error (status 2), an
  unknown chain a failure (status 1).\<close>

definition with_rule ::
  "(string \<Rightarrow> string option) \<Rightarrow> chains \<Rightarrow> string \<Rightarrow> string list \<Rightarrow>
   (rule \<Rightarrow> rule list \<Rightarrow> int \<times> string \<times> edit) \<Rightarrow> int \<times> string \<times> edit" where
  "with_rule cn T c sp f =
     (case spec_rule cn sp of
        None \<Rightarrow> (2, [], Keep)
      | Some r \<Rightarrow>
          if \<not> target_known T (target r) then (2, [], Keep)
          else (case T c of None \<Rightarrow> (1, [], Keep) | Some rs \<Rightarrow> f r rs))"

fun filter_step ::
  "(string \<Rightarrow> string option) \<Rightarrow> (string \<Rightarrow> string list) \<Rightarrow> (string \<Rightarrow> bool) \<Rightarrow> chains \<Rightarrow> ipt_cmd \<Rightarrow>
   int \<times> string \<times> edit" where
  "filter_step cn ex refd T (CNew c) = (if T c = None then (0, [], Put c []) else (1, [], Keep))"
| "filter_step cn ex refd T (CFlush c) = (if T c = None then (1, [], Keep) else (0, [], Put c []))"
| "filter_step cn ex refd T (CDelChain c) =
     (if T c = Some [] \<and> \<not> refd c then (0, [], Drop c) else (1, [], Keep))"
| "filter_step cn ex refd T (CCheck c sp) =
     with_rule cn T c sp (\<lambda>r rs. (if r \<in> set rs then 0 else 1, [], Keep))"
| "filter_step cn ex refd T (CAppend c sp) =
     with_rule cn T c sp (\<lambda>r rs. (0, [], Put c (rs @ [r])))"
| "filter_step cn ex refd T (CInsert c n sp) =
     (if n = 0 then (2, [], Keep)
      else with_rule cn T c sp
        (\<lambda>r rs. if n \<le> Suc (length rs) then (0, [], Put c (put_nth (n - 1) r rs)) else (1, [], Keep)))"
| "filter_step cn ex refd T (CDelete c n) =
     (if n = 0 then (2, [], Keep)
      else case T c of
          None \<Rightarrow> (1, [], Keep)
        | Some rs \<Rightarrow> if n \<le> length rs then (0, [], Put c (drop_nth (n - 1) rs)) else (1, [], Keep))"
| "filter_step cn ex refd T (CList c) =
     (case T c of None \<Rightarrow> (1, [], Keep) | Some rs \<Rightarrow> (0, lines_text (listing ex c rs), Keep))"

section \<open>Commands the contract speaks about\<close>

definition name_ok :: "string \<Rightarrow> bool" where
  "name_ok c = (c \<noteq> [] \<and> length c \<le> 28 \<and> hd c \<notin> {CHR ''-'', CHR ''!''}
     \<and> CHR '' '' \<notin> set c \<and> CHR 0x0A \<notin> set c)"

definition addr_ok :: "string \<Rightarrow> bool" where
  "addr_ok s = (CHR '','' \<notin> set s \<and> \<not> HasSuffix s ''/0'' \<and> (s \<noteq> [] \<longrightarrow> hd s \<notin> {CHR ''-'', CHR ''!''}))"

definition spec_ok :: "string list \<Rightarrow> bool" where
  "spec_ok sp =
     (case sp of
        [j, t] \<Rightarrow> j = ''-j'' \<and> name_ok t
      | [m, s, j, t] \<Rightarrow> (m = ''-s'' \<or> m = ''-d'') \<and> addr_ok s \<and> j = ''-j'' \<and> name_ok t
      | _ \<Rightarrow> False)"

text \<open>
  The kernel refuses a jump that closes a loop. A jump from \<open>c\<close> to \<open>t\<close> closes none when some level
  function puts \<open>t\<close> above \<open>c\<close> and every jump out of a chain of positive level goes to a higher level.
\<close>

definition ranked :: "(string \<Rightarrow> nat) \<Rightarrow> chains \<Rightarrow> bool" where
  "ranked lv T = (\<forall>c rs r. T c = Some rs \<longrightarrow> 0 < lv c \<longrightarrow> r \<in> set rs \<longrightarrow> lv c < lv (target r))"

definition jump_ok :: "chains \<Rightarrow> string \<Rightarrow> string \<Rightarrow> bool" where
  "jump_ok T c t = (\<exists>lv. ranked lv T \<and> lv c < lv t)"

text \<open>A check or an insertion may name the empty chain, which no table has.\<close>

fun cmd_ok :: "chains \<Rightarrow> ipt_cmd \<Rightarrow> bool" where
  "cmd_ok T (CNew c) = (name_ok c \<and> c \<notin> set builtin_chains \<and> c \<notin> set builtin_targets)"
| "cmd_ok T (CFlush c) = name_ok c"
| "cmd_ok T (CDelChain c) = (name_ok c \<and> c \<notin> set builtin_chains)"
| "cmd_ok T (CCheck c sp) = ((c = [] \<or> name_ok c) \<and> spec_ok sp)"
| "cmd_ok T (CAppend c sp) = (name_ok c \<and> spec_ok sp \<and> jump_ok T c (last sp))"
| "cmd_ok T (CInsert c n sp) = ((c = [] \<or> name_ok c) \<and> spec_ok sp \<and> jump_ok T c (last sp))"
| "cmd_ok T (CDelete c n) = name_ok c"
| "cmd_ok T (CList c) = (name_ok c \<and> c \<notin> set builtin_chains)"

text \<open>What the kernel stores: names as above, networks in canonical form.\<close>

definition rule_ok :: "(string \<Rightarrow> string option) \<Rightarrow> rule \<Rightarrow> bool" where
  "rule_ok cn r =
     (name_ok (target r) \<and> pred_option (\<lambda>s. cn s = Some s) (src r) \<and> pred_option (\<lambda>s. cn s = Some s) (dst r))"

lemma rule_okD: "rule_ok cn r \<Longrightarrow> src r = Some s \<or> dst r = Some s \<Longrightarrow> cn s = Some s"
  by (auto simp: rule_ok_def)

lemma name_okD: "name_ok c \<Longrightarrow> CHR '' '' \<notin> set c" "name_ok c \<Longrightarrow> CHR 0x0A \<notin> set c"
  by (simp_all add: name_ok_def)

lemma name_ok_builtin [simp]: "t \<in> set builtin_targets \<Longrightarrow> name_ok t"
  by (auto simp: builtin_targets_def name_ok_def)

lemma ranked_put: "ranked lv T \<Longrightarrow> (\<And>r. r \<in> set rs \<Longrightarrow> 0 < lv c \<Longrightarrow> lv c < lv (target r)) \<Longrightarrow> ranked lv (T(c \<mapsto> rs))"
  by (auto simp: ranked_def)

lemma ranked_drop: "ranked lv T \<Longrightarrow> ranked lv (T(c := None))"
  by (auto simp: ranked_def)

lemma set_drop_nth: "set (drop_nth i xs) \<subseteq> set xs"
  by (auto simp: drop_nth_def dest: in_set_takeD in_set_dropD)

lemma set_put_nth [simp]: "set (put_nth i x xs) = insert x (set xs)"
  by (auto simp: put_nth_def) (metis append_take_drop_id UnCI Un_iff in_set_takeD in_set_dropD set_append)+

lemma drop_nth_0 [simp]: "drop_nth 0 (x # xs) = xs"
  by (simp add: drop_nth_def)

lemma drop_nth_Suc [simp]: "drop_nth (Suc i) (x # xs) = x # drop_nth i xs"
  by (simp add: drop_nth_def)

lemma drop_nth_append: "drop_nth (length xs) (xs @ y # ys) = xs @ ys"
  by (simp add: drop_nth_def)

lemma put_nth_0 [simp]: "put_nth 0 x xs = x # xs"
  by (simp add: put_nth_def)

text \<open>The listing splits into its lines again.\<close>

lemma Split_lines_text:
  "\<forall>l \<in> set ls. CHR 0x0A \<notin> set l \<Longrightarrow> Split (lines_text ls) [CHR 0x0A] = ls @ [[]]"
  by (induction ls) (auto simp: lines_text_def Split_append Split_no_sep)

lemma Join_chars: "x \<in> set (Join ss sep) \<Longrightarrow> x \<in> set sep \<or> (\<exists>s \<in> set ss. x \<in> set s)"
  by (induction ss sep rule: Join.induct) auto

lemma Contains_Join_space:
  assumes "CHR '' '' \<notin> set sub" "sub \<noteq> []"
  shows "Contains (Join ss '' '') sub \<longleftrightarrow> (\<exists>s \<in> set ss. Contains s sub)"
  using assms by (induction ss "'' ''" rule: Join.induct) (auto simp: Contains_sep)

lemma rule_token_cases:
  assumes "w \<in> set ([''-A'', c] @ rule_tokens ex r)"
  obtains "w = ''-A''" | "w = ''-s''" | "w = ''-d''" | "w = ''-j''" | "w = c" | "w = target r"
    | "w \<in> set (ex (target r))" | "src r = Some w \<or> dst r = Some w"
  using assms by (auto simp: rule_tokens_def split: option.splits)

section \<open>The contract\<close>

locale iptables_tool =
  fixes h :: "'k host" and ipt :: IPTables and tbl :: "'k \<Rightarrow> chains"
    and cn :: "string \<Rightarrow> string option" and ex :: "string \<Rightarrow> string list"
  assumes modern: "hasCheck ipt" "hasWait ipt"
    and exec_filter: "cmd_ok (tbl k) cmd \<Longrightarrow>
      filter_step cn ex (referenced (tbl k)) (tbl k) cmd = (st, out, e) \<Longrightarrow>
      \<exists>msg k'. exec_proc h (path ipt # ''-t'' # ''filter'' # cmd_args cmd @ [''--wait'']) k
               = (Exited st out msg, k') \<and> tbl k' = apply_edit e (tbl k)"
    and stored: "tbl k c = Some rs \<Longrightarrow> name_ok c \<and> c \<notin> set builtin_targets \<and> (\<forall>r \<in> set rs. rule_ok cn r)"
    and cn_chars: "cn s = Some s' \<Longrightarrow> set s' \<subseteq> set ''0123456789./''"
    and cn_canonical: "cn s = Some s' \<Longrightarrow> cn s' = Some s'"
    and ex_builtin: "t \<notin> set builtin_targets \<Longrightarrow> ex t = []"
    and ex_chars: "w \<in> set (ex t) \<Longrightarrow> CHR '' '' \<notin> set w \<and> CHR 0x0A \<notin> set w \<and> CHR ''G'' \<notin> set w"
begin

text \<open>Every command, run through the library.\<close>

lemma runWithOutput_filter:
  assumes "cmd_ok (tbl k) cmd"
    and "filter_step cn ex (referenced (tbl k)) (tbl k) cmd = (st, out, e)"
  shows "\<exists>msg. fst (runWithOutput h ipt (''-t'' # ''filter'' # cmd_args cmd) k) =
           (if st = 0 then Ret out else Err (ExitError st msg))"
    and "tbl (snd (runWithOutput h ipt (''-t'' # ''filter'' # cmd_args cmd) k)) = apply_edit e (tbl k)"
  using exec_filter[OF assms] modern by (auto simp: runWithOutput_def cmd_Run_def)

lemma run_filter:
  assumes "cmd_ok (tbl k) cmd"
    and "filter_step cn ex (referenced (tbl k)) (tbl k) cmd = (st, out, e)"
  shows "\<exists>msg. fst (run h ipt (''-t'' # ''filter'' # cmd_args cmd) k) =
           (if st = 0 then Ret () else Err (ExitError st msg))"
    and "tbl (snd (run h ipt (''-t'' # ''filter'' # cmd_args cmd) k)) = apply_edit e (tbl k)"
  using runWithOutput_filter[OF assms] by (auto simp: run_def go_simps)

text \<open>The outcome of an operation: its result and the table it leaves.\<close>

lemma NewChain_fresh:
  assumes "cmd_ok (tbl k) (CNew c)" "tbl k c = None"
  shows "fst (NewChain h ipt ''filter'' c k) = Ret ()"
    and "tbl (snd (NewChain h ipt ''filter'' c k)) = (tbl k)(c \<mapsto> [])"
  using run_filter[OF assms(1), of 0 "[]" "Put c []"] assms by (auto simp: NewChain_def)

lemma NewChain_taken:
  assumes "cmd_ok (tbl k) (CNew c)" "tbl k c \<noteq> None"
  shows "\<exists>msg. fst (NewChain h ipt ''filter'' c k) = Err (ExitError 1 msg)"
    and "tbl (snd (NewChain h ipt ''filter'' c k)) = tbl k"
  using run_filter[OF assms(1), of 1 "[]" Keep] assms by (auto simp: NewChain_def)

lemma ClearChain_spec:
  assumes "cmd_ok (tbl k) (CNew c)"
  shows "fst (ClearChain h ipt ''filter'' c k) = Ret ()"
    and "tbl (snd (ClearChain h ipt ''filter'' c k)) = (tbl k)(c \<mapsto> [])"
proof -
  let ?k = "snd (NewChain h ipt ''filter'' c k)"
  have "fst (ClearChain h ipt ''filter'' c k) = Ret () \<and>
        tbl (snd (ClearChain h ipt ''filter'' c k)) = (tbl k)(c \<mapsto> [])"
  proof (cases "tbl k c = None")
    case True
    with NewChain_fresh[OF assms] show ?thesis by (simp add: ClearChain_def go_simps)
  next
    case False
    with NewChain_taken[OF assms] obtain msg
      where n: "fst (NewChain h ipt ''filter'' c k) = Err (ExitError 1 msg)" "tbl ?k = tbl k" by auto
    have f: "cmd_ok (tbl ?k) (CFlush c)" using assms by simp
    have "filter_step cn ex (referenced (tbl ?k)) (tbl ?k) (CFlush c) = (0, [], Put c [])"
      using False n by simp
    from run_filter[OF f this] n show ?thesis by (simp add: ClearChain_def go_simps)
  qed
  then show "fst (ClearChain h ipt ''filter'' c k) = Ret ()"
    and "tbl (snd (ClearChain h ipt ''filter'' c k)) = (tbl k)(c \<mapsto> [])" by auto
qed

lemma DeleteChain_ok:
  assumes "cmd_ok (tbl k) (CDelChain c)" "tbl k c = Some []" "\<not> referenced (tbl k) c"
  shows "fst (DeleteChain h ipt ''filter'' c k) = Ret ()"
    and "tbl (snd (DeleteChain h ipt ''filter'' c k)) = (tbl k)(c := None)"
  using run_filter[OF assms(1), of 0 "[]" "Drop c"] assms by (auto simp: DeleteChain_def)

lemma DeleteChain_refused:
  assumes "cmd_ok (tbl k) (CDelChain c)" "tbl k c \<noteq> Some [] \<or> referenced (tbl k) c"
  shows "\<exists>msg. fst (DeleteChain h ipt ''filter'' c k) = Err (ExitError 1 msg)"
    and "tbl (snd (DeleteChain h ipt ''filter'' c k)) = tbl k"
  using run_filter[OF assms(1), of 1 "[]" Keep] assms by (auto simp: DeleteChain_def)

lemma Exists_spec:
  assumes "cmd_ok (tbl k) (CCheck c sp)" "spec_rule cn sp = Some r" "target_known (tbl k) (target r)"
  shows "fst (Exists h ipt ''filter'' c sp k) = Ret (\<exists>rs. tbl k c = Some rs \<and> r \<in> set rs)"
    and "tbl (snd (Exists h ipt ''filter'' c sp k)) = tbl k"
proof -
  obtain st where st: "filter_step cn ex (referenced (tbl k)) (tbl k) (CCheck c sp) = (st, [], Keep)"
      "st = (if \<exists>rs. tbl k c = Some rs \<and> r \<in> set rs then 0 else 1)"
    using assms(2,3) by (auto simp: with_rule_def split: option.splits)
  from run_filter[OF assms(1) st(1)] st(2) modern
  show "fst (Exists h ipt ''filter'' c sp k) = Ret (\<exists>rs. tbl k c = Some rs \<and> r \<in> set rs)"
    and "tbl (snd (Exists h ipt ''filter'' c sp k)) = tbl k"
    by (auto simp: Exists_def go_simps split: if_splits)
qed

lemma Exists_usage:
  assumes "cmd_ok (tbl k) (CCheck c sp)"
    and "\<forall>r. spec_rule cn sp = Some r \<longrightarrow> \<not> target_known (tbl k) (target r)"
  shows "\<exists>msg. fst (Exists h ipt ''filter'' c sp k) = Err (ExitError 2 msg)"
    and "tbl (snd (Exists h ipt ''filter'' c sp k)) = tbl k"
proof -
  have "filter_step cn ex (referenced (tbl k)) (tbl k) (CCheck c sp) = (2, [], Keep)"
    using assms(2) by (auto simp: with_rule_def split: option.splits)
  from run_filter[OF assms(1) this] modern
  show "\<exists>msg. fst (Exists h ipt ''filter'' c sp k) = Err (ExitError 2 msg)"
    and "tbl (snd (Exists h ipt ''filter'' c sp k)) = tbl k"
    by (auto simp: Exists_def go_simps)
qed

lemma Append_spec:
  assumes "cmd_ok (tbl k) (CAppend c sp)" "spec_rule cn sp = Some r" "target_known (tbl k) (target r)"
    "tbl k c = Some rs"
  shows "fst (Append h ipt ''filter'' c sp k) = Ret ()"
    and "tbl (snd (Append h ipt ''filter'' c sp k)) = (tbl k)(c \<mapsto> rs @ [r])"
  using run_filter[OF assms(1), of 0 "[]" "Put c (rs @ [r])"] assms
  by (auto simp: Append_def with_rule_def)

lemma Append_absent:
  assumes "cmd_ok (tbl k) (CAppend c sp)" "tbl k c = None"
  shows "\<exists>e. fst (Append h ipt ''filter'' c sp k) = Err e"
    and "tbl (snd (Append h ipt ''filter'' c sp k)) = tbl k"
proof -
  have "\<exists>st. filter_step cn ex (referenced (tbl k)) (tbl k) (CAppend c sp) = (st, [], Keep) \<and> st \<noteq> 0"
    using assms(2) by (simp add: with_rule_def split: option.split)
  then obtain st where st: "filter_step cn ex (referenced (tbl k)) (tbl k) (CAppend c sp) = (st, [], Keep)" "st \<noteq> 0"
    by blast
  from run_filter[OF assms(1) st(1)] st(2)
  show "\<exists>e. fst (Append h ipt ''filter'' c sp k) = Err e"
    and "tbl (snd (Append h ipt ''filter'' c sp k)) = tbl k" by (auto simp: Append_def)
qed

lemma Insert_absent:
  assumes "cmd_ok (tbl k) (CInsert c n sp)" "tbl k c = None" "0 < n"
    "spec_rule cn sp = Some r" "target_known (tbl k) (target r)"
  shows "\<exists>msg. fst (Insert h ipt ''filter'' c (int n) sp k) = Err (ExitError 1 msg)"
    and "tbl (snd (Insert h ipt ''filter'' c (int n) sp k)) = tbl k"
  using run_filter[OF assms(1), of 1 "[]" Keep] assms by (auto simp: Insert_def with_rule_def)

lemma Insert_spec:
  assumes "cmd_ok (tbl k) (CInsert c n sp)" "spec_rule cn sp = Some r" "target_known (tbl k) (target r)"
    "tbl k c = Some rs" "0 < n" "n \<le> Suc (length rs)"
  shows "fst (Insert h ipt ''filter'' c (int n) sp k) = Ret ()"
    and "tbl (snd (Insert h ipt ''filter'' c (int n) sp k)) = (tbl k)(c \<mapsto> put_nth (n - 1) r rs)"
  using run_filter[OF assms(1), of 0 "[]" "Put c (put_nth (n - 1) r rs)"] assms
  by (auto simp: Insert_def with_rule_def)

lemma Delete_spec:
  assumes "cmd_ok (tbl k) (CDelete c n)" "tbl k c = Some rs" "0 < n" "n \<le> length rs"
  shows "fst (Delete h ipt ''filter'' c [Itoa (int n)] k) = Ret ()"
    and "tbl (snd (Delete h ipt ''filter'' c [Itoa (int n)] k)) = (tbl k)(c \<mapsto> drop_nth (n - 1) rs)"
  using run_filter[OF assms(1), of 0 "[]" "Put c (drop_nth (n - 1) rs)"] assms
  by (auto simp: Delete_def)

lemma Delete_zero:
  assumes "cmd_ok (tbl k) (CDelete c 0)"
  shows "\<exists>msg. fst (Delete h ipt ''filter'' c [Itoa 0] k) = Err (ExitError 2 msg)"
    and "tbl (snd (Delete h ipt ''filter'' c [Itoa 0] k)) = tbl k"
  using run_filter[OF assms, of 2 "[]" Keep] by (auto simp: Delete_def)

lemma AppendUnique_spec:
  assumes "cmd_ok (tbl k) (CAppend c sp)" "spec_rule cn sp = Some r" "target_known (tbl k) (target r)"
    "tbl k c = Some rs"
  shows "fst (AppendUnique h ipt ''filter'' c sp k) = Ret ()"
    and "tbl (snd (AppendUnique h ipt ''filter'' c sp k)) =
           (tbl k)(c \<mapsto> (if r \<in> set rs then rs else rs @ [r]))"
proof -
  let ?k = "snd (Exists h ipt ''filter'' c sp k)"
  have c: "cmd_ok (tbl k) (CCheck c sp)" using assms(1) by simp
  note e = Exists_spec[OF c assms(2,3)]
  have "tbl ?k = tbl k" by (rule e)
  then have a: "cmd_ok (tbl ?k) (CAppend c sp)" "target_known (tbl ?k) (target r)" "tbl ?k c = Some rs"
    using assms by simp_all
  note ap = Append_spec[OF a(1) assms(2) a(2,3)]
  show "fst (AppendUnique h ipt ''filter'' c sp k) = Ret ()"
    and "tbl (snd (AppendUnique h ipt ''filter'' c sp k)) =
           (tbl k)(c \<mapsto> (if r \<in> set rs then rs else rs @ [r]))"
    using e ap assms(4) by (auto simp: AppendUnique_def go_simps)
qed

text \<open>Listing a chain gives one line for the chain and one for each rule, in order.\<close>

lemma rule_line_newline:
  assumes "name_ok c" "rule_ok cn r"
  shows "CHR 0x0A \<notin> set (rule_line ex c r)"
proof
  assume "CHR 0x0A \<in> set (rule_line ex c r)"
  then have "CHR 0x0A \<in> set '' '' \<or> (\<exists>w \<in> set ([''-A'', c] @ rule_tokens ex r). CHR 0x0A \<in> set w)"
    unfolding rule_line_def by (rule Join_chars)
  then obtain w where w: "w \<in> set ([''-A'', c] @ rule_tokens ex r)" "CHR 0x0A \<in> set w" by auto
  have nl: "CHR 0x0A \<notin> set s'" if "cn s = Some s'" for s s'
    using cn_chars[OF that] by auto
  from w(1) show False
  proof (cases rule: rule_token_cases)
    case 7
    with w(2) ex_chars show False by blast
  next
    case 8
    with w(2) nl assms(2) show False using rule_okD by blast
  qed (use w(2) assms in \<open>auto simp: rule_ok_def name_ok_def\<close>)
qed

lemma ListRules_spec:
  assumes "cmd_ok (tbl k) (CList c)" "tbl k c = Some rs"
  shows "fst (ListRules h ipt ''filter'' c k) = Ret (listing ex c rs)"
    and "tbl (snd (ListRules h ipt ''filter'' c k)) = tbl k"
proof -
  have c: "name_ok c" "\<forall>r \<in> set rs. rule_ok cn r" using stored[OF assms(2)] by auto
  then have "\<forall>l \<in> set (listing ex c rs). CHR 0x0A \<notin> set l"
    by (auto simp: listing_def chain_line_def rule_line_newline dest: name_okD)
  then have sp: "Split (lines_text (listing ex c rs)) [CHR 0x0A] = listing ex c rs @ [[]]"
    by (rule Split_lines_text)
  have "filter_step cn ex (referenced (tbl k)) (tbl k) (CList c) = (0, lines_text (listing ex c rs), Keep)"
    using assms(2) by simp
  from runWithOutput_filter[OF assms(1) this] sp
  show "fst (ListRules h ipt ''filter'' c k) = Ret (listing ex c rs)"
    and "tbl (snd (ListRules h ipt ''filter'' c k)) = tbl k"
    by (auto simp: ListRules_def go_simps)
qed

lemma ListRules_absent:
  assumes "cmd_ok (tbl k) (CList c)" "tbl k c = None"
  shows "\<exists>msg. fst (ListRules h ipt ''filter'' c k) = Err (ExitError 1 msg)"
    and "tbl (snd (ListRules h ipt ''filter'' c k)) = tbl k"
  using runWithOutput_filter[OF assms(1), of 1 "[]" Keep] assms(2)
  by (auto simp: ListRules_def go_simps)

text \<open>
  Where a name shows in a listing: a name that begins with a capital \<open>G\<close> and is not part of the
  name of the listed chain is in the line of a rule exactly when it is in the rule's target.
\<close>

lemma Contains_rule_line:
  assumes r: "rule_ok cn r" and x: "x = CHR ''G'' # x'" "CHR '' '' \<notin> set x"
    and c: "\<not> Contains c x"
  shows "Contains (rule_line ex c r) x \<longleftrightarrow> Contains (target r) x"
proof -
  have G: "\<not> Contains w x" if "CHR ''G'' \<notin> set w" for w
    using that x(1) by (auto simp: Contains_iff)
  have cnG: "CHR ''G'' \<notin> set s'" if "cn s = Some s'" for s s'
    using cn_chars[OF that] by auto
  have "Contains (rule_line ex c r) x \<longleftrightarrow> (\<exists>w \<in> set ([''-A'', c] @ rule_tokens ex r). Contains w x)"
    unfolding rule_line_def using x by (intro Contains_Join_space) auto
  also have "\<dots> \<longleftrightarrow> Contains (target r) x"
  proof
    assume "\<exists>w \<in> set ([''-A'', c] @ rule_tokens ex r). Contains w x"
    then obtain w where w: "w \<in> set ([''-A'', c] @ rule_tokens ex r)" "Contains w x" by blast
    from w(2) G have g: "CHR ''G'' \<in> set w" by blast
    from w(1) show "Contains (target r) x"
    proof (cases rule: rule_token_cases)
      case 7
      with g ex_chars show ?thesis by blast
    next
      case 8
      with g cnG r show ?thesis using rule_okD by blast
    qed (use g w(2) c in auto)
  qed (auto simp: rule_tokens_def)
  finally show ?thesis .
qed

end

end
