(* ===== verification/RefHost.thy ===== *)
theory RefHost
  imports FilterTable
begin

text \<open>
  A host that meets the contract of \<open>FilterTable\<close>: its state is a filter table, kept as an
  association list from chain names to rules, and its \<^verbatim>\<open>iptables\<close> reads its argument vector,
  brings IPv4 networks into canonical form and performs the command. The interpretation at the end of
  the theory shows that the contract can be met; the witnesses of the development run on this host.
\<close>

section \<open>IPv4 networks\<close>

definition decimal :: "string \<Rightarrow> nat option" where
  "decimal s =
     (case digits_val 0 s of None \<Rightarrow> None | Some n \<Rightarrow> if s = nat_digits n then Some n else None)"

definition cidr_text :: "int \<Rightarrow> nat \<Rightarrow> string" where
  "cidr_text v n =
     Join (map (\<lambda>i. nat_digits (nat (v div 256 ^ i mod 256))) [3, 2, 1, 0]) ''.'' @ ''/'' @ nat_digits n"

definition parse_addr :: "string \<Rightarrow> int option" where
  "parse_addr s =
     (case Split s ''.'' of
        [a, b, c, d] \<Rightarrow>
          (case (decimal a, decimal b, decimal c, decimal d) of
             (Some a, Some b, Some c, Some d) \<Rightarrow>
               if a < 256 \<and> b < 256 \<and> c < 256 \<and> d < 256
               then Some (int a * 256 ^ 3 + int b * 256 ^ 2 + int c * 256 + int d) else None
           | _ \<Rightarrow> None)
      | _ \<Rightarrow> None)"

definition mask_addr :: "nat \<Rightarrow> int \<Rightarrow> int" where
  "mask_addr n v = v div 2 ^ (32 - n) * 2 ^ (32 - n)"

definition parse_net :: "string \<Rightarrow> (int \<times> nat) option" where
  "parse_net s =
     (case Split s ''/'' of
        [a] \<Rightarrow> map_option (\<lambda>v. (v, 32)) (parse_addr a)
      | [a, p] \<Rightarrow>
          (case (parse_addr a, decimal p) of
             (Some v, Some n) \<Rightarrow> if n \<le> 32 then Some (v, n) else None
           | _ \<Rightarrow> None)
      | _ \<Rightarrow> None)"

definition ref_cn :: "string \<Rightarrow> string option" where
  "ref_cn s = map_option (\<lambda>(v, n). cidr_text (mask_addr n v) n) (parse_net s)"

lemma decimal_nat_digits [simp]: "decimal (nat_digits n) = Some n"
  by (simp add: decimal_def digits_val_nat_digits)

lemma decimal_SomeD: "decimal s = Some n \<Longrightarrow> s = nat_digits n"
  by (auto simp: decimal_def split: option.splits if_splits)

lemma nat_digits_chars: "set (nat_digits n) \<subseteq> set ''0123456789''"
proof -
  have "\<forall>d \<in> set [0..<10]. digit_char d \<in> set ''0123456789''" by code_simp
  then have d: "digit_char d \<in> set ''0123456789''" if "d < 10" for d using that by auto
  show ?thesis
  proof (induction n rule: nat_digits.induct)
    case (1 n)
    then show ?case using d[of n] d[of "n mod 10"]
      by (cases "n < 10") (auto simp: nat_digits.simps[of n])
  qed
qed

lemma set_cidr_text:
  "(\<And>m. set (nat_digits m) \<subseteq> S) \<Longrightarrow> CHR ''.'' \<in> S \<Longrightarrow> CHR ''/'' \<in> S \<Longrightarrow> set (cidr_text v n) \<subseteq> S"
  by (simp add: cidr_text_def)

lemma cidr_text_chars: "set (cidr_text v n) \<subseteq> set ''0123456789./''"
proof (rule set_cidr_text)
  have "set ''0123456789'' \<subseteq> set ''0123456789./''" by simp
  then show "set (nat_digits m) \<subseteq> set ''0123456789./''" for m
    using nat_digits_chars[of m] by (rule subset_trans[rotated])
qed simp_all

lemma no_sep_nat_digits: "CHR ''.'' \<notin> set (nat_digits n)" "CHR ''/'' \<notin> set (nat_digits n)"
  using nat_digits_chars[of n] by auto

lemma Split_octets:
  "Split (nat_digits a @ ''.'' @ nat_digits b @ ''.'' @ nat_digits c @ ''.'' @ nat_digits d) ''.'' =
   [nat_digits a, nat_digits b, nat_digits c, nat_digits d]"
  by (simp add: Split_append Split_no_sep no_sep_nat_digits)

lemma octets_sum:
  assumes "0 \<le> v" "v < 256 ^ 4"
  shows "(v div 256 ^ 3 mod 256) * 256 ^ 3 + (v div 256 ^ 2 mod 256) * 256 ^ 2
       + (v div 256 mod 256) * 256 + v mod 256 = (v :: int)"
proof -
  let ?a = "v div 256" and ?b = "v div 256 ^ 2" and ?c = "v div 256 ^ 3"
  have b: "?b = ?a div 256" and c: "?c = ?b div 256"
    by (simp_all flip: zdiv_zmult2_eq)
  have "?c mod 256 = ?c" using assms by simp
  moreover have "v mod 256 = v - ?a * 256" by (rule minus_div_mult_eq_mod[symmetric])
  moreover have "?a mod 256 = ?a - ?b * 256" unfolding b by (rule minus_div_mult_eq_mod[symmetric])
  moreover have "?b mod 256 = ?b - ?c * 256" unfolding c by (rule minus_div_mult_eq_mod[symmetric])
  ultimately have "(?c mod 256) * 256 ^ 3 + (?b mod 256) * 256 ^ 2 + (?a mod 256) * 256 + v mod 256
      = ?c * 256 ^ 3 + (?b - ?c * 256) * 256 ^ 2 + (?a - ?b * 256) * 256 + (v - ?a * 256)"
    by (simp only:)
  also have "\<dots> = v" by (simp add: algebra_simps)
  finally show ?thesis .
qed

lemma parse_net_cidr_text:
  assumes "0 \<le> v" "v < 256 ^ 4" "n \<le> 32"
  shows "parse_net (cidr_text v n) = Some (v, n)"
proof -
  let ?o = "\<lambda>i. nat (v div 256 ^ i mod 256)"
  let ?a = "nat_digits (?o 3) @ ''.'' @ nat_digits (?o 2) @ ''.'' @ nat_digits (?o 1) @ ''.'' @ nat_digits (?o 0)"
  have b: "nat (x mod 256) < 256" for x :: int
    using pos_mod_bound[of 256 x] by linarith
  have nn: "0 \<le> x mod 256" for x :: int by simp
  have t: "cidr_text v n = ?a @ CHR ''/'' # nat_digits n"
    by (simp add: cidr_text_def)
  have "CHR ''/'' \<notin> set ?a" by (simp add: no_sep_nat_digits)
  then have s: "Split (cidr_text v n) ''/'' = [?a, nat_digits n]"
    unfolding t by (simp only: Split_append Split_no_sep no_sep_nat_digits not_False_eq_True)
  have "parse_addr ?a = Some (int (?o 3) * 256 ^ 3 + int (?o 2) * 256 ^ 2 + int (?o 1) * 256 + int (?o 0))"
    unfolding parse_addr_def Split_octets by (simp add: b)
  also have "int (?o 3) * 256 ^ 3 + int (?o 2) * 256 ^ 2 + int (?o 1) * 256 + int (?o 0)
      = v div 256 ^ 3 mod 256 * 256 ^ 3 + v div 256 ^ 2 mod 256 * 256 ^ 2 + v div 256 mod 256 * 256 + v mod 256"
    by (simp only: int_nat_eq nn if_True power_one_right power_0 div_by_1)
  also have "\<dots> = v" by (rule octets_sum[OF assms(1,2)])
  finally show ?thesis using s assms(3) by (simp add: parse_net_def)
qed

lemma parse_net_range:
  assumes "parse_net s = Some (v, n)"
  shows "0 \<le> v" "v < 256 ^ 4" "n \<le> 32"
proof -
  have a: "0 \<le> w \<and> w < 256 ^ 4" if "parse_addr a = Some w" for a w
    using that by (auto simp: parse_addr_def split: list.splits option.splits if_splits)
  from assms a show "0 \<le> v" "v < 256 ^ 4" "n \<le> 32"
    by (auto simp: parse_net_def split: list.splits option.splits if_splits)
qed

lemma mask_addr_range: "0 \<le> v \<Longrightarrow> v < b \<Longrightarrow> 0 \<le> mask_addr n v \<and> mask_addr n v < b"
proof -
  assume v: "0 \<le> v" "v < b"
  have "v div 2 ^ (32 - n) * 2 ^ (32 - n) + v mod 2 ^ (32 - n) = v" by (rule div_mult_mod_eq)
  moreover have "0 \<le> v mod 2 ^ (32 - n)" by simp
  moreover have "0 \<le> v div 2 ^ (32 - n) * 2 ^ (32 - n)" using v by (simp add: pos_imp_zdiv_nonneg_iff)
  ultimately show ?thesis using v unfolding mask_addr_def by linarith
qed

lemma mask_addr_idem [simp]: "mask_addr n (mask_addr n v) = mask_addr n v"
  by (simp add: mask_addr_def)

lemma ref_cn_canonical: "ref_cn s = Some s' \<Longrightarrow> ref_cn s' = Some s'"
proof -
  assume "ref_cn s = Some s'"
  then obtain v n where p: "parse_net s = Some (v, n)" "s' = cidr_text (mask_addr n v) n"
    by (auto simp: ref_cn_def)
  note r = parse_net_range[OF p(1)]
  have "parse_net s' = Some (mask_addr n v, n)"
    unfolding p(2) using mask_addr_range[OF r(1,2), of n] r(3) by (intro parse_net_cidr_text) auto
  then show ?thesis by (simp add: ref_cn_def p(2))
qed

lemma ref_cn_chars: "ref_cn s = Some s' \<Longrightarrow> set s' \<subseteq> set ''0123456789./''"
  using cidr_text_chars by (auto simp: ref_cn_def simp del: set_simps)

section \<open>The program\<close>

definition ref_ex :: "string \<Rightarrow> string list" where
  "ref_ex t = (if t = ''REJECT'' then [''--reject-with'', ''icmp-port-unreachable''] else [])"

type_synonym ref_table = "(string \<times> rule list) list"

definition clean :: "ref_table \<Rightarrow> ref_table" where
  "clean al = map (\<lambda>(c, rs). (c, filter (rule_ok ref_cn) rs)) (filter (\<lambda>(c, rs). name_ok c \<and> c \<notin> set builtin_targets) al)"

definition ref_tbl :: "ref_table \<Rightarrow> chains" where
  "ref_tbl al = map_of (clean al)"

fun edit_list :: "edit \<Rightarrow> ref_table \<Rightarrow> ref_table" where
  "edit_list Keep al = al"
| "edit_list (Put c rs) al = (c, rs) # filter (\<lambda>(c', _). c' \<noteq> c) al"
| "edit_list (Drop c) al = filter (\<lambda>(c', _). c' \<noteq> c) al"

definition list_referenced :: "ref_table \<Rightarrow> string \<Rightarrow> bool" where
  "list_referenced al c =
     list_ex (\<lambda>(c', _). case map_of al c' of None \<Rightarrow> False | Some rs \<Rightarrow> c \<in> target ` set rs) al"

definition parse_cmd :: "string list \<Rightarrow> ipt_cmd option" where
  "parse_cmd args =
     (case args of
        op # c # rest \<Rightarrow>
          if op = ''-N'' then Some (CNew c)
          else if op = ''-F'' then Some (CFlush c)
          else if op = ''-X'' then Some (CDelChain c)
          else if op = ''-C'' then Some (CCheck c rest)
          else if op = ''-A'' then Some (CAppend c rest)
          else if op = ''-I'' then
            (case rest of [] \<Rightarrow> None | n # sp \<Rightarrow> map_option (\<lambda>n. CInsert c n sp) (decimal n))
          else if op = ''-D'' then
            (case rest of [] \<Rightarrow> None | n # sp \<Rightarrow> map_option (CDelete c) (decimal n))
          else if op = ''-S'' then Some (CList c)
          else None
      | _ \<Rightarrow> None)"

definition ref_exec :: "string list \<Rightarrow> ref_table \<Rightarrow> proc_outcome \<times> ref_table" where
  "ref_exec argv al =
     (if tl argv = [''--version''] then (Exited 0 ''iptables v1.6.1'' [], al)
      else case parse_cmd (butlast (drop 3 argv)) of
          None \<Rightarrow> (Exited 2 [] ''usage'', al)
        | Some cmd \<Rightarrow>
            (case filter_step ref_cn ref_ex (list_referenced (clean al)) (ref_tbl al) cmd of
               (st, out, e) \<Rightarrow> (Exited st out [], edit_list e (clean al))))"

definition ref_host :: "ref_table host" where
  "ref_host = \<lparr>exec_proc = ref_exec, look_path = (\<lambda>p al. Inr (''/sbin/'' @ p)), xtables_lock = (\<lambda>al. (None, al))\<rparr>"

definition ref_ipt :: IPTables where
  "ref_ipt = \<lparr>path = ''/sbin/iptables'', hasCheck = True, hasWait = True\<rparr>"

section \<open>It meets the contract\<close>

lemma parse_cmd_args: "parse_cmd (cmd_args cmd) = Some cmd"
  by (cases cmd) (simp_all add: parse_cmd_def)

lemma list_referenced_iff: "list_referenced al c \<longleftrightarrow> referenced (map_of al) c"
proof
  assume "list_referenced al c"
  then show "referenced (map_of al) c"
    unfolding list_referenced_def referenced_def list_ex_iff by (fastforce split: option.splits)
next
  assume "referenced (map_of al) c"
  then obtain c' rs where c: "map_of al c' = Some rs" "c \<in> target ` set rs"
    by (auto simp: referenced_def)
  then have "(c', rs) \<in> set al" by (simp add: map_of_SomeD)
  with c show "list_referenced al c"
    unfolding list_referenced_def list_ex_iff by (intro bexI[of _ "(c', rs)"]) auto
qed

definition table_clean :: "ref_table \<Rightarrow> bool" where
  "table_clean al = (\<forall>(c, rs) \<in> set al. name_ok c \<and> c \<notin> set builtin_targets \<and> (\<forall>r \<in> set rs. rule_ok ref_cn r))"

lemma clean_clean: "table_clean (clean al)"
  by (auto simp: table_clean_def clean_def)

lemma clean_id: "table_clean al \<Longrightarrow> clean al = al"
  by (induction al) (auto simp: table_clean_def clean_def)

lemma map_of_edit_list: "map_of (edit_list e al) = apply_edit e (map_of al)"
proof -
  have f: "map_of (filter (\<lambda>(c', _). c' \<noteq> c) al) = (map_of al)(c := None)" for c
    by (induction al) auto
  show ?thesis by (cases e) (auto simp: f)
qed

fun edit_ok :: "edit \<Rightarrow> bool" where
  "edit_ok Keep = True"
| "edit_ok (Put c rs) = (name_ok c \<and> c \<notin> set builtin_targets \<and> (\<forall>r \<in> set rs. rule_ok ref_cn r))"
| "edit_ok (Drop c) = True"

lemma edit_list_clean: "table_clean al \<Longrightarrow> edit_ok e \<Longrightarrow> table_clean (edit_list e al)"
  by (cases e) (auto simp: table_clean_def)

lemma spec_rule_ok:
  assumes "spec_ok sp" "spec_rule ref_cn sp = Some r"
  shows "rule_ok ref_cn r"
  using assms by (auto simp: spec_ok_def spec_rule_def rule_ok_def ref_cn_canonical split: list.splits if_splits)

lemma filter_step_edit_ok:
  assumes cl: "table_clean al" and ok: "cmd_ok (map_of al) cmd"
    and st: "filter_step ref_cn ref_ex refd (map_of al) cmd = (st, out, e)"
  shows "edit_ok e"
proof -
  have rs: "name_ok c \<and> c \<notin> set builtin_targets \<and> (r \<in> set rs \<longrightarrow> rule_ok ref_cn r)" if "map_of al c = Some rs" for c rs r
    using cl map_of_SomeD[OF that] by (auto simp: table_clean_def)
  show ?thesis
  proof (cases cmd)
    case (CInsert c n sp)
    then show ?thesis using ok st rs spec_rule_ok
      by (auto simp: with_rule_def split: if_splits option.splits)
  next
    case (CDelete c n)
    then show ?thesis using ok st
      by (auto split: if_splits option.splits) (metis rs subsetD[OF set_drop_nth])+
  qed (use ok st rs spec_rule_ok in \<open>auto simp: with_rule_def split: if_splits option.splits\<close>)
qed

interpretation ref: iptables_tool ref_host ref_ipt ref_tbl ref_cn ref_ex
proof
  show "hasCheck ref_ipt" "hasWait ref_ipt" by (simp_all add: ref_ipt_def)
next
  fix k cmd st out e
  assume ok: "cmd_ok (ref_tbl k) cmd"
    and st: "filter_step ref_cn ref_ex (referenced (ref_tbl k)) (ref_tbl k) cmd = (st, out, e)"
  have refd: "list_referenced (clean k) = referenced (ref_tbl k)"
    by (rule ext) (simp add: list_referenced_iff ref_tbl_def)
  have "edit_ok e"
    using filter_step_edit_ok[OF clean_clean, of k cmd _ st out e] ok st by (simp add: ref_tbl_def)
  then have "clean (edit_list e (clean k)) = edit_list e (clean k)"
    by (intro clean_id edit_list_clean clean_clean)
  then have "ref_tbl (edit_list e (clean k)) = apply_edit e (ref_tbl k)"
    by (simp add: ref_tbl_def map_of_edit_list)
  moreover have "exec_proc ref_host (path ref_ipt # ''-t'' # ''filter'' # cmd_args cmd @ [''--wait'']) k
      = (Exited st out [], edit_list e (clean k))"
    using st by (simp add: ref_host_def ref_exec_def parse_cmd_args refd)
  ultimately show "\<exists>msg k'. exec_proc ref_host (path ref_ipt # ''-t'' # ''filter'' # cmd_args cmd @ [''--wait'']) k
      = (Exited st out msg, k') \<and> ref_tbl k' = apply_edit e (ref_tbl k)" by blast
next
  fix k c rs
  assume "ref_tbl k c = Some rs"
  then show "name_ok c \<and> c \<notin> set builtin_targets \<and> (\<forall>r \<in> set rs. rule_ok ref_cn r)"
    using clean_clean[of k] by (auto simp: ref_tbl_def table_clean_def dest!: map_of_SomeD)
qed (use ref_cn_chars ref_cn_canonical in \<open>auto simp: ref_ex_def builtin_targets_def split: if_splits\<close>)

end
