(* ===== verification/NpcIptables.thy ===== *)
theory NpcIptables
  imports Types Md5 RefHost
begin

text \<open>
  \<^verbatim>\<open>controllers/network-policy-controller/iptables/iptables.go\<close>: the chains of the network policy
  controller and the operations that create, fill and delete them.
\<close>

section \<open>Names\<close>

definition GenieBaseNPCChain :: string where "GenieBaseNPCChain = ''Genie-NPC-Base''"
definition FilterTable :: string where "FilterTable = ''filter''"
definition ForwardChain :: string where "ForwardChain = ''FORWARD''"
definition GeniePolicyPrefix :: string where "GeniePolicyPrefix = ''GnPlc-''"
definition GenieNetworkPrefix :: string where "GenieNetworkPrefix = ''GnNtk-''"

definition CreateIptableChainName :: "string \<Rightarrow> string \<Rightarrow> string" where
  "CreateIptableChainName pfx sfx = take 26 (pfx @ hex (md5_Sum sfx))"

section \<open>Operations\<close>

definition CreateBaseChain :: "'k host \<Rightarrow> ('k, IPTables) go" where
  "CreateBaseChain h =
     go_bind (go_wrap (Errorf_v ''Iptables command executer intialization failed: '') (New h)) (\<lambda>iptable.
     go_bind (ClearChain h iptable FilterTable GenieBaseNPCChain) (\<lambda>_.
     let rulespec = [''-j'', GenieBaseNPCChain] in
     go_bind (go_wrap (Errorf_v ''Error while checking for Genie base rule in FORWARD chain: '')
                (Exists h iptable FilterTable ForwardChain rulespec)) (\<lambda>exists.
     go_bind (if \<not> exists
              then go_wrap (Errorf_v ''Error inserting a rule for Genie npc: '')
                     (Insert h iptable FilterTable ForwardChain 1 rulespec)
              else go_ret ()) (\<lambda>_.
     go_ret iptable))))"

text \<open>The type assertion \<open>err.(*iptables.Error)\<close> panics on any other error.\<close>

definition exit_status :: "go_error \<Rightarrow> ('k, int) go" where
  "exit_status e =
     (case e of ExitError st m \<Rightarrow> go_ret st | ErrorString m \<Rightarrow> go_panic ''interface conversion: error'')"

definition ExistsChain :: "'k host \<Rightarrow> IPTables \<Rightarrow> string \<Rightarrow> ('k, bool) go" where
  "ExistsChain h i chain =
     go_bind (go_try (ListRules h i FilterTable chain)) (\<lambda>r.
       case r of
         Inl e \<Rightarrow> go_bind (exit_status e) (\<lambda>st. if st = 1 then go_ret False else go_ret True)
       | Inr _ \<Rightarrow> go_ret True)"

definition AddPolicyChain :: "'k host \<Rightarrow> IPTables \<Rightarrow> string \<Rightarrow> string \<Rightarrow> ('k, string) go" where
  "AddPolicyChain h i name namespace =
     (let nwPolicyChainName = CreateIptableChainName GeniePolicyPrefix (name @ namespace)
      in go_bind (ClearChain h i FilterTable nwPolicyChainName) (\<lambda>_. go_ret nwPolicyChainName))"

text \<open>One of the two blocks of \<open>AddNetworkChain\<close> that make sure of a rule of the base chain.\<close>

definition ensure_base_rule :: "'k host \<Rightarrow> IPTables \<Rightarrow> string list \<Rightarrow> ('k, unit) go" where
  "ensure_base_rule h i args =
     go_bind (Exists h i FilterTable GenieBaseNPCChain args)
       (\<lambda>exists. if \<not> exists then AppendUnique h i FilterTable GenieBaseNPCChain args else go_ret ())"

definition AddNetworkChain :: "'k host \<Rightarrow> IPTables \<Rightarrow> LogicalNetwork \<Rightarrow> ('k, string) go" where
  "AddNetworkChain h i ln =
     (let lnChain = CreateIptableChainName GenieNetworkPrefix (Name (lnMeta ln) @ Namespace (lnMeta ln))
      in go_bind (ClearChain h i FilterTable lnChain) (\<lambda>_.
         go_bind (AppendUnique h i FilterTable lnChain [''-j'', ''REJECT'']) (\<lambda>_.
         go_bind (ensure_base_rule h i [''-d'', SubSubnet (lnSpec ln), ''-j'', lnChain]) (\<lambda>_.
         go_bind (ensure_base_rule h i [''-s'', SubSubnet (lnSpec ln), ''-j'', lnChain]) (\<lambda>_.
         go_ret lnChain)))))"

definition DeleteIptableChain :: "'k host \<Rightarrow> IPTables \<Rightarrow> string \<Rightarrow> string \<Rightarrow> ('k, unit) go" where
  "DeleteIptableChain h i table chain =
     go_bind (go_wrap (Errorf_v (''Error flushing iptable chain ('' @ chain @ '') before deleting it: ''))
                (ClearChain h i table chain)) (\<lambda>_.
     go_wrap (Errorf_v (''Error deleting iptable chain ('' @ chain @ ''): '')) (DeleteChain h i table chain))"

text \<open>
  The loop of \<open>DeleteNetworkChain\<close>: \<open>pos\<close> follows the listing, whose first line is not a rule, so
  that it is the number of the rule; a successful deletion moves the later rules up by one.
\<close>

fun delete_refs :: "'k host \<Rightarrow> IPTables \<Rightarrow> string \<Rightarrow> string list \<Rightarrow> int \<Rightarrow> nat \<Rightarrow> ('k, unit) go" where
  "delete_refs h i chain [] pos cnt = go_ret ()"
| "delete_refs h i chain (rule # rules) pos cnt =
     (if Contains rule chain \<and> cnt < 2
      then go_bind (go_try (Delete h i FilterTable GenieBaseNPCChain [Itoa pos])) (\<lambda>r.
             let pos' = (case r of Inl _ \<Rightarrow> pos | Inr _ \<Rightarrow> pos - 1); cnt' = cnt + 1
             in if cnt' = 2 then go_ret () else delete_refs h i chain rules (pos' + 1) cnt')
      else if cnt = 2 then go_ret () else delete_refs h i chain rules (pos + 1) cnt)"

definition DeleteNetworkChain :: "'k host \<Rightarrow> IPTables \<Rightarrow> string \<Rightarrow> ('k, unit) go" where
  "DeleteNetworkChain h i chain =
     go_bind (go_wrap (Errorf_v ''Failed to list rules for Genie base chain: '')
                (ListRules h i FilterTable GenieBaseNPCChain)) (\<lambda>rules.
     go_bind (delete_refs h i chain rules 0 0) (\<lambda>_.
     DeleteIptableChain h i FilterTable chain))"

definition InsertRule :: "'k host \<Rightarrow> IPTables \<Rightarrow> string \<Rightarrow> int \<Rightarrow> string list \<Rightarrow> ('k, unit) go" where
  "InsertRule h i chain pos args =
     go_bind (Exists h i FilterTable chain args) (\<lambda>exists.
       if \<not> exists
       then go_bind (go_try (Insert h i FilterTable chain pos args)) (\<lambda>r.
              case r of
                Inr _ \<Rightarrow> go_ret ()
              | Inl e \<Rightarrow> go_bind (exit_status e) (\<lambda>st. if st \<noteq> 1 then go_err e else go_ret ()))
       else go_ret ())"

text \<open>The loop of \<open>DeleteNetworkChainRule\<close>; the result is \<open>cnt\<close>.\<close>

fun delete_jumps :: "'k host \<Rightarrow> IPTables \<Rightarrow> string \<Rightarrow> string \<Rightarrow> string list \<Rightarrow> int \<Rightarrow> nat \<Rightarrow> ('k, nat) go" where
  "delete_jumps h i nwChain rule [] pos cnt = go_ret cnt"
| "delete_jumps h i nwChain rule (r # rs) pos cnt =
     (if Contains r rule
      then go_bind (go_try (Delete h i FilterTable nwChain [Itoa pos]))
             (\<lambda>_. delete_jumps h i nwChain rule rs (pos + 1) cnt)
      else delete_jumps h i nwChain rule rs (pos + 1)
             (if cnt < 1 \<and> Contains r GeniePolicyPrefix then cnt + 1 else cnt))"

definition DeleteNetworkChainRule :: "'k host \<Rightarrow> IPTables \<Rightarrow> string \<Rightarrow> string \<Rightarrow> ('k, unit) go" where
  "DeleteNetworkChainRule h i nwChain rule =
     go_bind (go_wrap (Errorf_v (''Error listing rules for network chain ('' @ nwChain @ ''): ''))
                (ListRules h i FilterTable nwChain)) (\<lambda>nwChainRules.
     go_bind (delete_jumps h i nwChain rule nwChainRules 0 0) (\<lambda>cnt.
     if cnt = 0
     then go_wrap (Errorf_v (''Error deleting network chain ('' @ nwChain @ ''): '')) (DeleteNetworkChain h i nwChain)
     else go_ret ()))"

section \<open>Facts about the names\<close>

lemma length_CreateIptableChainName: "length (CreateIptableChainName p s) = 26"
  by (simp add: CreateIptableChainName_def)

lemma CreateIptableChainName_split:
  assumes "length p = 6"
  shows "CreateIptableChainName p s = p @ take 20 (hex (md5_Sum s))"
  using assms by (simp add: CreateIptableChainName_def)

lemma hex_name_chars: "list_all is_hex (take 20 (hex (md5_Sum s)))"
  using list_all_is_hex[of "md5_Sum s"] by (auto simp: list_all_iff dest: in_set_takeD)

abbreviation plc_chain :: "string \<Rightarrow> string \<Rightarrow> string" where
  "plc_chain name ns \<equiv> CreateIptableChainName GeniePolicyPrefix (name @ ns)"

abbreviation ntk_chain :: "string \<Rightarrow> string \<Rightarrow> string" where
  "ntk_chain name ns \<equiv> CreateIptableChainName GenieNetworkPrefix (name @ ns)"

end
