(* ===== verification/NpcIptablesFacts.thy ===== *)
theory NpcIptablesFacts
  imports NpcIptables
begin

text \<open>
  What the operations of \<open>NpcIptables\<close> do to the filter table, on every branch, under the contract
  \<open>iptables_tool\<close>; and the shape of the controller's chains, which every operation keeps.
\<close>

section \<open>The controller's chains\<close>

definition chain_name_of :: "string \<Rightarrow> string \<Rightarrow> bool" where
  "chain_name_of p c =
     (length c = 26 \<and> take 6 c = p \<and> list_all is_hex (drop 6 c))"

abbreviation net_name :: "string \<Rightarrow> bool" where
  "net_name \<equiv> chain_name_of GenieNetworkPrefix"

abbreviation plc_name :: "string \<Rightarrow> bool" where
  "plc_name \<equiv> chain_name_of GeniePolicyPrefix"

text \<open>The base chain jumps to network chains, a network chain to policy chains, a policy chain
  accepts.\<close>

definition genie_level :: "string \<Rightarrow> nat" where
  "genie_level c =
     (if c = GenieBaseNPCChain then 1
      else if net_name c then 2
      else if plc_name c then 3
      else if c \<in> set builtin_targets then 4
      else 0)"

abbreviation jump :: "string \<Rightarrow> rule" where "jump t \<equiv> Rule None None t"
abbreviation reject :: rule where "reject \<equiv> jump ''REJECT''"
abbreviation to_net :: "string \<Rightarrow> string \<Rightarrow> rule" where "to_net s t \<equiv> Rule None (Some s) t"
abbreviation from_net :: "string \<Rightarrow> string \<Rightarrow> rule" where "from_net s t \<equiv> Rule (Some s) None t"

definition rule_fits :: "string \<Rightarrow> rule \<Rightarrow> bool" where
  "rule_fits c r =
     (if c = GenieBaseNPCChain then net_name (target r) \<and> (src r = None) \<noteq> (dst r = None)
      else if net_name c then r = reject \<or> plc_name (target r) \<and> r = jump (target r)
      else if plc_name c then target r = ''ACCEPT'' \<and> (src r = None) \<noteq> (dst r = None)
      else True)"

definition npc_shape :: "chains \<Rightarrow> bool" where
  "npc_shape T =
     (\<forall>c rs. T c = Some rs \<longrightarrow>
        (c = GenieBaseNPCChain \<or> net_name c \<or> plc_name c \<longrightarrow> distinct rs) \<and> (\<forall>r \<in> set rs. rule_fits c r))"

lemma base_name [simp]: "name_ok GenieBaseNPCChain" "GenieBaseNPCChain \<notin> set builtin_chains"
  "GenieBaseNPCChain \<notin> set builtin_targets" "\<not> net_name GenieBaseNPCChain" "\<not> plc_name GenieBaseNPCChain"
  by (simp_all add: GenieBaseNPCChain_def name_ok_def builtin_chains_def builtin_targets_def chain_name_of_def)

lemma chain_name_of_split: "chain_name_of p c \<Longrightarrow> c = p @ drop 6 c"
  by (metis append_take_drop_id chain_name_of_def)

lemma chain_name_of_Create:
  assumes "length p = 6"
  shows "chain_name_of p (CreateIptableChainName p s)"
  using hex_name_chars[of s]
  by (simp add: chain_name_of_def CreateIptableChainName_split[OF assms] assms)

lemma ntk_chain_name [simp]: "net_name (CreateIptableChainName GenieNetworkPrefix s)"
  by (rule chain_name_of_Create) (simp add: GenieNetworkPrefix_def)

lemma plc_chain_name [simp]: "plc_name (CreateIptableChainName GeniePolicyPrefix s)"
  by (rule chain_name_of_Create) (simp add: GeniePolicyPrefix_def)

lemma hex_no_char:
  assumes "chain_name_of p c" "\<not> is_hex x" "x \<notin> set p"
  shows "x \<notin> set c"
proof -
  have "set c = set (take 6 c) \<union> set (drop 6 c)" by (metis append_take_drop_id set_append)
  moreover have "x \<notin> set (drop 6 c)" using assms by (auto simp: chain_name_of_def list_all_iff)
  ultimately show ?thesis using assms by (simp add: chain_name_of_def)
qed

lemma genie_name_shape:
  assumes "net_name c \<or> plc_name c"
  shows "length c = 26" "\<exists>c'. c = CHR ''G'' # c'" "CHR '' '' \<notin> set c" "CHR 0x0A \<notin> set c"
proof -
  show "length c = 26" using assms by (auto simp: chain_name_of_def)
  show "\<exists>c'. c = CHR ''G'' # c'"
    using assms chain_name_of_split[of GenieNetworkPrefix c] chain_name_of_split[of GeniePolicyPrefix c]
    by (auto simp: GenieNetworkPrefix_def GeniePolicyPrefix_def)
  have "\<not> is_hex (CHR '' '')" "\<not> is_hex (CHR 0x0A)" by (simp_all add: is_hex_def)
  moreover have "CHR '' '' \<notin> set p \<and> CHR 0x0A \<notin> set p"
    if "p = GenieNetworkPrefix \<or> p = GeniePolicyPrefix" for p
    using that by (auto simp: GenieNetworkPrefix_def GeniePolicyPrefix_def)
  ultimately show "CHR '' '' \<notin> set c" "CHR 0x0A \<notin> set c"
    using assms hex_no_char by blast+
qed

lemma builtin_length: "t \<in> set builtin_targets \<union> set builtin_chains \<Longrightarrow> length t < 26"
  by (auto simp: builtin_targets_def builtin_chains_def)

lemma genie_name_ok [simp]:
  assumes "net_name c \<or> plc_name c"
  shows "name_ok c" "c \<notin> set builtin_chains" "c \<notin> set builtin_targets" "c \<noteq> GenieBaseNPCChain"
proof -
  note s = genie_name_shape[OF assms]
  from s(2) obtain c' where "c = CHR ''G'' # c'" by blast
  with s show "name_ok c" by (auto simp: name_ok_def)
  from builtin_length[of c] s(1) show "c \<notin> set builtin_chains" "c \<notin> set builtin_targets"
    unfolding Un_iff by linarith+
  show "c \<noteq> GenieBaseNPCChain" using s(1) by (auto simp: GenieBaseNPCChain_def)
qed

lemma net_not_plc: "net_name c \<Longrightarrow> \<not> plc_name c"
  by (simp add: chain_name_of_def GenieNetworkPrefix_def GeniePolicyPrefix_def)

lemma short_not_genie: "length c < 26 \<Longrightarrow> \<not> net_name c \<and> \<not> plc_name c"
  by (simp add: chain_name_of_def)

lemma genie_level_simps [simp]:
  "genie_level GenieBaseNPCChain = 1"
  "net_name c \<Longrightarrow> genie_level c = 2"
  "plc_name c \<Longrightarrow> genie_level c = 3"
  "genie_level ''ACCEPT'' = 4" "genie_level ''REJECT'' = 4"
  using net_not_plc[of c] genie_name_ok(4)[of c]
  by (auto simp: genie_level_def GenieBaseNPCChain_def builtin_targets_def short_not_genie)

lemma rule_fits_level: "rule_fits c r \<Longrightarrow> 0 < genie_level c \<Longrightarrow> genie_level c < 4 \<Longrightarrow> genie_level c < genie_level (target r)"
  by (auto simp: rule_fits_def genie_level_def[of c] split: if_splits)

lemma npc_shape_ranked:
  assumes "npc_shape T" "\<forall>t \<in> set builtin_targets. T t = None"
  shows "ranked genie_level T"
  unfolding ranked_def
proof (intro allI impI)
  fix c rs r
  assume c: "T c = Some rs" "0 < genie_level c" "r \<in> set rs"
  with assms(2) have "c \<notin> set builtin_targets" by auto
  with c(2) have "genie_level c < 4" by (simp add: genie_level_def split: if_splits)
  moreover have "rule_fits c r" using assms(1) c by (auto simp: npc_shape_def)
  ultimately show "genie_level c < genie_level (target r)" using c(2) by (intro rule_fits_level)
qed

lemma net_no_policy_prefix:
  assumes "net_name c" "Contains x GeniePolicyPrefix"
  shows "\<not> Contains c x"
proof
  assume "Contains c x"
  then have "Contains c GeniePolicyPrefix" using assms(2) by (rule Contains_trans)
  then have "CHR ''P'' \<in> set c" by (auto simp: Contains_iff GeniePolicyPrefix_def)
  moreover have "\<not> is_hex (CHR ''P'')" "CHR ''P'' \<notin> set GenieNetworkPrefix"
    by (simp_all add: is_hex_def GenieNetworkPrefix_def)
  ultimately show False using hex_no_char[OF assms(1)] by blast
qed

lemma policy_prefix_shape:
  "GeniePolicyPrefix = CHR ''G'' # ''nPlc-''" "CHR '' '' \<notin> set GeniePolicyPrefix"
  by (simp_all add: GeniePolicyPrefix_def)

lemma npc_shape_put:
  "npc_shape T \<Longrightarrow> distinct rs \<Longrightarrow> (\<And>r. r \<in> set rs \<Longrightarrow> rule_fits c r) \<Longrightarrow> npc_shape (T(c \<mapsto> rs))"
  by (simp add: npc_shape_def)

lemma npc_shape_drop: "npc_shape T \<Longrightarrow> npc_shape (T(c := None))"
  by (simp add: npc_shape_def)

lemma npc_shapeD:
  assumes "npc_shape T" "T c = Some rs"
  shows "c = GenieBaseNPCChain \<or> net_name c \<or> plc_name c \<Longrightarrow> distinct rs" "r \<in> set rs \<Longrightarrow> rule_fits c r"
  using assms by (auto simp: npc_shape_def)

lemma rule_fits_base: "rule_fits GenieBaseNPCChain r \<longleftrightarrow> net_name (target r) \<and> (src r = None) \<noteq> (dst r = None)"
  by (simp add: rule_fits_def)

lemma rule_fits_net: "net_name c \<Longrightarrow> rule_fits c r \<longleftrightarrow> r = reject \<or> plc_name (target r) \<and> r = jump (target r)"
  by (simp add: rule_fits_def)

lemma rule_fits_plc: "plc_name c \<Longrightarrow> rule_fits c r \<longleftrightarrow> target r = ''ACCEPT'' \<and> (src r = None) \<noteq> (dst r = None)"
  using net_not_plc by (auto simp: rule_fits_def)

section \<open>Operations on the table\<close>

definition add_last :: "'a \<Rightarrow> 'a list \<Rightarrow> 'a list" where
  "add_last x xs = (if x \<in> set xs then xs else xs @ [x])"

definition add_first :: "'a \<Rightarrow> 'a list \<Rightarrow> 'a list" where
  "add_first x xs = (if x \<in> set xs then xs else x # xs)"

fun drop_first :: "nat \<Rightarrow> ('a \<Rightarrow> bool) \<Rightarrow> 'a list \<Rightarrow> 'a list" where
  "drop_first 0 P xs = xs"
| "drop_first (Suc n) P [] = []"
| "drop_first (Suc n) P (x # xs) = (if P x then drop_first n P xs else x # drop_first (Suc n) P xs)"

lemma set_add_last [simp]: "set (add_last x xs) = insert x (set xs)"
  and set_add_first [simp]: "set (add_first x xs) = insert x (set xs)"
  by (auto simp: add_last_def add_first_def)

lemma distinct_add_last: "distinct xs \<Longrightarrow> distinct (add_last x xs)"
  and distinct_add_first: "distinct xs \<Longrightarrow> distinct (add_first x xs)"
  by (auto simp: add_last_def add_first_def)

lemma drop_first_all: "length (filter P xs) \<le> n \<Longrightarrow> drop_first n P xs = filter (\<lambda>x. \<not> P x) xs"
  by (induction n P xs rule: drop_first.induct) (auto simp: filter_id_conv filter_empty_conv)

lemma set_drop_first: "set (drop_first n P xs) \<subseteq> set xs"
  by (induction n P xs rule: drop_first.induct) auto

lemma distinct_drop_first: "distinct xs \<Longrightarrow> distinct (drop_first n P xs)"
  by (induction n P xs rule: drop_first.induct) (auto dest: subsetD[OF set_drop_first])

lemma spec_ok_jump [simp]: "spec_ok [''-j'', t] = name_ok t"
  and spec_ok_src [simp]: "spec_ok [''-s'', s, ''-j'', t] = (addr_ok s \<and> name_ok t)"
  and spec_ok_dst [simp]: "spec_ok [''-d'', s, ''-j'', t] = (addr_ok s \<and> name_ok t)"
  by (auto simp: spec_ok_def)

lemma spec_rule_simps [simp]:
  "spec_rule cn [''-j'', t] = Some (jump t)"
  "spec_rule cn [''-s'', s, ''-j'', t] = map_option (\<lambda>s'. from_net s' t) (cn s)"
  "spec_rule cn [''-d'', s, ''-j'', t] = map_option (\<lambda>s'. to_net s' t) (cn s)"
  by (simp_all add: spec_rule_def)

lemma target_known_builtin [simp]: "target_known T ''REJECT''" "target_known T ''ACCEPT''"
  by (simp_all add: target_known_def builtin_targets_def)

lemma name_ok_targets [simp]: "name_ok ''REJECT''" "name_ok ''ACCEPT''" "name_ok ForwardChain"
  by (simp_all add: name_ok_def ForwardChain_def)

lemmas cmd_ok_genie [simp] = cmd_ok.simps

context iptables_tool
begin

lemma ranked_genie: "npc_shape (tbl k) \<Longrightarrow> ranked genie_level (tbl k)"
proof (rule npc_shape_ranked)
  show "\<forall>t \<in> set builtin_targets. tbl k t = None"
    using stored by (metis not_None_eq)
qed

lemma jump_ok_genie: "npc_shape (tbl k) \<Longrightarrow> genie_level c < genie_level t \<Longrightarrow> jump_ok (tbl k) c t"
  using ranked_genie by (auto simp: jump_ok_def)

lemma ExistsChain_spec:
  assumes "name_ok c" "c \<notin> set builtin_chains"
  shows "fst (ExistsChain h ipt c k) = Ret (tbl k c \<noteq> None)"
    and "tbl (snd (ExistsChain h ipt c k)) = tbl k"
proof -
  have l: "cmd_ok (tbl k) (CList c)" using assms by simp
  have "fst (ExistsChain h ipt c k) = Ret (tbl k c \<noteq> None) \<and> tbl (snd (ExistsChain h ipt c k)) = tbl k"
    using ListRules_spec[OF l] ListRules_absent[OF l]
    by (cases "tbl k c") (auto simp: ExistsChain_def exit_status_def FilterTable_def go_simps)
  then show "fst (ExistsChain h ipt c k) = Ret (tbl k c \<noteq> None)"
    and "tbl (snd (ExistsChain h ipt c k)) = tbl k" by auto
qed

lemma AddPolicyChain_spec:
  shows "fst (AddPolicyChain h ipt name ns k) = Ret (plc_chain name ns)"
    and "tbl (snd (AddPolicyChain h ipt name ns k)) = (tbl k)(plc_chain name ns \<mapsto> [])"
  using ClearChain_spec[of k "plc_chain name ns"]
  by (auto simp: AddPolicyChain_def FilterTable_def Let_def go_simps)

lemma ensure_base_rule_spec:
  assumes "cmd_ok (tbl k) (CAppend GenieBaseNPCChain sp)" "spec_rule cn sp = Some r"
    "target_known (tbl k) (target r)" "tbl k GenieBaseNPCChain = Some b"
  shows "fst (ensure_base_rule h ipt sp k) = Ret ()"
    and "tbl (snd (ensure_base_rule h ipt sp k)) = (tbl k)(GenieBaseNPCChain \<mapsto> add_last r b)"
proof -
  let ?k = "snd (Exists h ipt ''filter'' GenieBaseNPCChain sp k)"
  have c: "cmd_ok (tbl k) (CCheck GenieBaseNPCChain sp)" using assms(1) by simp
  note e = Exists_spec[OF c assms(2,3)]
  have "tbl ?k = tbl k" by (rule e)
  then have a: "cmd_ok (tbl ?k) (CAppend GenieBaseNPCChain sp)" "target_known (tbl ?k) (target r)"
    "tbl ?k GenieBaseNPCChain = Some b" using assms by simp_all
  note ap = AppendUnique_spec[OF a(1) assms(2) a(2,3)]
  show "fst (ensure_base_rule h ipt sp k) = Ret ()"
    and "tbl (snd (ensure_base_rule h ipt sp k)) = (tbl k)(GenieBaseNPCChain \<mapsto> add_last r b)"
    using e ap assms(4) by (auto simp: ensure_base_rule_def FilterTable_def add_last_def go_simps fun_upd_idem)
qed

lemma AddNetworkChain_spec:
  fixes ln defines "c \<equiv> ntk_chain (Name (lnMeta ln)) (Namespace (lnMeta ln))"
  assumes sh: "npc_shape (tbl k)" and b: "tbl k GenieBaseNPCChain = Some b"
    and s: "addr_ok (SubSubnet (lnSpec ln))" "cn (SubSubnet (lnSpec ln)) = Some s'"
  shows "fst (AddNetworkChain h ipt ln k) = Ret c"
    and "tbl (snd (AddNetworkChain h ipt ln k)) =
           (tbl k)(c \<mapsto> [reject], GenieBaseNPCChain \<mapsto> add_last (from_net s' c) (add_last (to_net s' c) b))"
proof -
  have c [simp]: "net_name c" "name_ok c" "c \<noteq> GenieBaseNPCChain" "c \<notin> set builtin_chains" "c \<notin> set builtin_targets"
    by (simp_all add: c_def)
  then have [simp]: "GenieBaseNPCChain \<noteq> c" by metis
  let ?spd = "[''-d'', SubSubnet (lnSpec ln), ''-j'', c]" and ?sps = "[''-s'', SubSubnet (lnSpec ln), ''-j'', c]"
  define k1 where "k1 = snd (ClearChain h ipt ''filter'' c k)"
  define k2 where "k2 = snd (AppendUnique h ipt ''filter'' c [''-j'', ''REJECT''] k1)"
  define k3 where "k3 = snd (ensure_base_rule h ipt ?spd k2)"
  have "cmd_ok (tbl k) (CNew c)" by simp
  note r1 = ClearChain_spec[OF this, folded k1_def]
  have sh1: "npc_shape (tbl k1)" unfolding r1 by (rule npc_shape_put[OF sh]) auto
  then have "cmd_ok (tbl k1) (CAppend c [''-j'', ''REJECT''])" by (simp add: jump_ok_genie)
  from AppendUnique_spec[OF this, of reject "[]", folded k2_def]
  have r2: "fst (AppendUnique h ipt ''filter'' c [''-j'', ''REJECT''] k1) = Ret ()"
      "tbl k2 = (tbl k)(c \<mapsto> [reject])" by (simp_all add: r1)
  have sh2: "npc_shape (tbl k2)" unfolding r2 by (rule npc_shape_put[OF sh]) (auto simp: rule_fits_net)
  then have "cmd_ok (tbl k2) (CAppend GenieBaseNPCChain ?spd)" using s by (simp add: jump_ok_genie)
  from ensure_base_rule_spec[OF this, of "to_net s' c" b, folded k3_def]
  have r3: "fst (ensure_base_rule h ipt ?spd k2) = Ret ()"
      "tbl k3 = (tbl k2)(GenieBaseNPCChain \<mapsto> add_last (to_net s' c) b)"
    using b s by (simp_all add: r2 target_known_def)
  have "npc_shape (tbl k3)" unfolding r3
    by (rule npc_shape_put[OF sh2]) (use npc_shapeD[OF sh b] in \<open>auto simp: rule_fits_base intro: distinct_add_last\<close>)
  then have "cmd_ok (tbl k3) (CAppend GenieBaseNPCChain ?sps)" using s by (simp add: jump_ok_genie)
  from ensure_base_rule_spec[OF this, of "from_net s' c" "add_last (to_net s' c) b"]
  have r4: "fst (ensure_base_rule h ipt ?sps k3) = Ret ()"
      "tbl (snd (ensure_base_rule h ipt ?sps k3)) =
         (tbl k3)(GenieBaseNPCChain \<mapsto> add_last (from_net s' c) (add_last (to_net s' c) b))"
    using s by (simp_all add: r2 r3 target_known_def)
  note unf = AddNetworkChain_def FilterTable_def Let_def go_simps c_def[symmetric]
  show "fst (AddNetworkChain h ipt ln k) = Ret c"
    by (simp add: unf r1(1) r2(1) r3(1) r4(1) flip: k1_def k2_def k3_def)
  show "tbl (snd (AddNetworkChain h ipt ln k)) =
      (tbl k)(c \<mapsto> [reject], GenieBaseNPCChain \<mapsto> add_last (from_net s' c) (add_last (to_net s' c) b))"
    by (simp add: unf r1(1) r2 r3 r4 flip: k1_def k2_def k3_def)
qed

lemma DeleteIptableChain_spec:
  assumes "name_ok c" "c \<notin> set builtin_chains" "c \<notin> set builtin_targets" "\<not> referenced ((tbl k)(c \<mapsto> [])) c"
  shows "fst (DeleteIptableChain h ipt ''filter'' c k) = Ret ()"
    and "tbl (snd (DeleteIptableChain h ipt ''filter'' c k)) = (tbl k)(c := None)"
proof -
  let ?k = "snd (ClearChain h ipt ''filter'' c k)"
  have "cmd_ok (tbl k) (CNew c)" using assms by simp
  note r1 = ClearChain_spec[OF this]
  have "cmd_ok (tbl ?k) (CDelChain c)" using assms by simp
  from DeleteChain_ok[OF this] assms(4) r1
  show "fst (DeleteIptableChain h ipt ''filter'' c k) = Ret ()"
    and "tbl (snd (DeleteIptableChain h ipt ''filter'' c k)) = (tbl k)(c := None)"
    by (simp_all add: DeleteIptableChain_def go_simps)
qed

lemma DeleteIptableChain_referenced:
  assumes "name_ok c" "c \<notin> set builtin_chains" "c \<notin> set builtin_targets" "referenced ((tbl k)(c \<mapsto> [])) c"
  shows "\<exists>e. fst (DeleteIptableChain h ipt ''filter'' c k) = Err e"
    and "tbl (snd (DeleteIptableChain h ipt ''filter'' c k)) = (tbl k)(c \<mapsto> [])"
proof -
  let ?k = "snd (ClearChain h ipt ''filter'' c k)"
  have "cmd_ok (tbl k) (CNew c)" using assms by simp
  note r1 = ClearChain_spec[OF this]
  have "cmd_ok (tbl ?k) (CDelChain c)" using assms by simp
  from DeleteChain_refused[OF this] assms(4) r1
  show "\<exists>e. fst (DeleteIptableChain h ipt ''filter'' c k) = Err e"
    and "tbl (snd (DeleteIptableChain h ipt ''filter'' c k)) = (tbl k)(c \<mapsto> [])"
    by (auto simp: DeleteIptableChain_def go_simps)
qed

text \<open>A network chain is named in the line of a base rule exactly when the rule jumps to it.\<close>

lemma Contains_base_line:
  assumes "rule_ok cn r" "rule_fits GenieBaseNPCChain r" "net_name x"
  shows "Contains (rule_line ex GenieBaseNPCChain r) x \<longleftrightarrow> target r = x"
proof -
  note s = genie_name_shape[of x] genie_name_shape[of "target r"]
  obtain x' where x: "x = CHR ''G'' # x'" using s assms by blast
  have "\<not> Contains GenieBaseNPCChain x"
    using Contains_length[of GenieBaseNPCChain x] s assms by (auto simp: GenieBaseNPCChain_def)
  from Contains_rule_line[OF assms(1) x _ this]
  have "Contains (rule_line ex GenieBaseNPCChain r) x \<longleftrightarrow> Contains (target r) x" using s assms by auto
  also have "\<dots> \<longleftrightarrow> target r = x"
    using s assms by (intro Contains_same_length) (auto simp: rule_fits_base)
  finally show ?thesis .
qed

lemma delete_refs_spec:
  assumes x: "net_name x" and cnt: "cnt \<le> 2"
    and T: "tbl k GenieBaseNPCChain = Some (pre @ suf)"
    and r: "\<forall>r \<in> set suf. rule_ok cn r \<and> rule_fits GenieBaseNPCChain r"
  shows "fst (delete_refs h ipt x (map (rule_line ex GenieBaseNPCChain) suf) (int (Suc (length pre))) cnt k) = Ret ()
    \<and> tbl (snd (delete_refs h ipt x (map (rule_line ex GenieBaseNPCChain) suf) (int (Suc (length pre))) cnt k)) =
        (tbl k)(GenieBaseNPCChain \<mapsto> pre @ drop_first (2 - cnt) (\<lambda>r. target r = x) suf)"
  using T r cnt
proof (induction suf arbitrary: k pre cnt)
  case Nil
  then show ?case by (cases "2 - cnt") (auto simp: go_simps fun_upd_idem)
next
  case (Cons a suf)
  have line: "Contains (rule_line ex GenieBaseNPCChain a) x \<longleftrightarrow> target a = x"
    using Cons.prems x by (intro Contains_base_line) auto
  show ?case
  proof (cases "target a = x \<and> cnt < 2")
    case True
    let ?n = "Suc (length pre)"
    let ?k = "snd (Delete h ipt ''filter'' GenieBaseNPCChain [Itoa (int ?n)] k)"
    have "cmd_ok (tbl k) (CDelete GenieBaseNPCChain ?n)" by simp
    from Delete_spec[OF this Cons.prems(1)]
    have d: "fst (Delete h ipt ''filter'' GenieBaseNPCChain [Itoa (int ?n)] k) = Ret ()"
        "tbl ?k = (tbl k)(GenieBaseNPCChain \<mapsto> pre @ suf)"
      by (simp_all add: drop_nth_append)
    have step: "delete_refs h ipt x (map (rule_line ex GenieBaseNPCChain) (a # suf)) (int ?n) cnt k =
        (if Suc cnt = 2 then (Ret (), ?k)
         else delete_refs h ipt x (map (rule_line ex GenieBaseNPCChain) suf) (int ?n) (Suc cnt) ?k)"
      using True line d(1) by (simp add: FilterTable_def go_simps Let_def del: of_nat_Suc)
    show ?thesis
    proof (cases "Suc cnt = 2")
      case last: True
      then have "2 - cnt = Suc 0" by simp
      then show ?thesis unfolding step using d last True by simp
    next
      case False
      with True have "2 - cnt = Suc (2 - Suc cnt)" by arith
      then show ?thesis unfolding step
        using Cons.IH[of ?k pre "Suc cnt"] Cons.prems d False True by (simp add: fun_eq_iff del: of_nat_Suc)
    qed
  next
    case False
    have n: "int (Suc (length pre)) + 1 = int (Suc (Suc (length pre)))" by simp
    then show ?thesis
      using Cons.IH[of k "pre @ [a]" cnt] Cons.prems False line
      by (cases "2 - cnt") (auto simp: n go_simps fun_upd_idem simp del: of_nat_Suc)
  qed
qed

lemma Contains_chain_line:
  assumes "x = CHR ''G'' # x'" "CHR '' '' \<notin> set x" "\<not> Contains c x"
  shows "\<not> Contains (chain_line c) x"
proof -
  have "chain_line c = ''-N'' @ CHR '' '' # c" by (simp add: chain_line_def)
  moreover have "\<not> Contains ''-N'' x" using assms(1) by (auto simp: Contains_iff append_eq_Cons_conv Cons_eq_append_conv)
  ultimately show ?thesis using Contains_sep[OF assms(2)] assms(3) by metis
qed

text \<open>
  Deleting a network chain takes the first two jumps to it out of the base chain, clears it, and
  removes it when nothing refers to it any more.
\<close>

definition without_refs :: "chains \<Rightarrow> string \<Rightarrow> chains" where
  "without_refs T x =
     (case T GenieBaseNPCChain of
        None \<Rightarrow> T
      | Some b \<Rightarrow> T(GenieBaseNPCChain \<mapsto> drop_first 2 (\<lambda>r. target r = x) b))"

lemma delete_refs_listing:
  assumes sh: "npc_shape (tbl k)" and x: "net_name x" and b: "tbl k GenieBaseNPCChain = Some b"
  shows "fst (delete_refs h ipt x (listing ex GenieBaseNPCChain b) 0 0 k) = Ret ()"
    and "tbl (snd (delete_refs h ipt x (listing ex GenieBaseNPCChain b) 0 0 k)) = without_refs (tbl k) x"
proof -
  obtain x' where x': "x = CHR ''G'' # x'" "CHR '' '' \<notin> set x" "length x = 26"
    using genie_name_shape[of x] x by blast
  have nb: "\<not> Contains GenieBaseNPCChain x"
    using Contains_length[of GenieBaseNPCChain x] x' by (auto simp: GenieBaseNPCChain_def)
  have "\<forall>r \<in> set b. rule_ok cn r \<and> rule_fits GenieBaseNPCChain r"
    using stored[OF b] npc_shapeD(2)[OF sh b] by blast
  from delete_refs_spec[of x 0 k "[]" b, OF x _ _ this] b Contains_chain_line[OF x'(1,2) nb]
  show "fst (delete_refs h ipt x (listing ex GenieBaseNPCChain b) 0 0 k) = Ret ()"
    and "tbl (snd (delete_refs h ipt x (listing ex GenieBaseNPCChain b) 0 0 k)) = without_refs (tbl k) x"
    by (auto simp: listing_def without_refs_def)
qed

lemma DeleteNetworkChain_run:
  assumes sh: "npc_shape (tbl k)" and x: "net_name x" and b: "tbl k GenieBaseNPCChain = Some b"
  obtains k' where "tbl k' = without_refs (tbl k) x"
    and "DeleteNetworkChain h ipt x k = DeleteIptableChain h ipt ''filter'' x k'"
proof -
  let ?k1 = "snd (ListRules h ipt ''filter'' GenieBaseNPCChain k)"
  have "cmd_ok (tbl k) (CList GenieBaseNPCChain)" by simp
  note l = ListRules_spec[OF this b]
  note d = delete_refs_listing[of ?k1, unfolded l, OF sh x b]
  show ?thesis
    by (rule that[OF d(2)]) (simp add: DeleteNetworkChain_def FilterTable_def go_simps l d(1))
qed

lemma DeleteNetworkChain_spec:
  assumes sh: "npc_shape (tbl k)" and x: "net_name x" and b: "tbl k GenieBaseNPCChain = Some b"
    and u: "\<not> referenced ((without_refs (tbl k) x)(x \<mapsto> [])) x"
  shows "fst (DeleteNetworkChain h ipt x k) = Ret ()"
    and "tbl (snd (DeleteNetworkChain h ipt x k)) = (without_refs (tbl k) x)(x := None)"
proof -
  obtain k' where k': "tbl k' = without_refs (tbl k) x"
      "DeleteNetworkChain h ipt x k = DeleteIptableChain h ipt ''filter'' x k'"
    using DeleteNetworkChain_run[OF sh x b] .
  from DeleteIptableChain_spec[of x k'] x u k'(1)
  show "fst (DeleteNetworkChain h ipt x k) = Ret ()"
    and "tbl (snd (DeleteNetworkChain h ipt x k)) = (without_refs (tbl k) x)(x := None)"
    by (simp_all add: k'(2))
qed

lemma DeleteNetworkChain_referenced:
  assumes sh: "npc_shape (tbl k)" and x: "net_name x" and b: "tbl k GenieBaseNPCChain = Some b"
    and u: "referenced ((without_refs (tbl k) x)(x \<mapsto> [])) x"
  shows "\<exists>e. fst (DeleteNetworkChain h ipt x k) = Err e"
    and "tbl (snd (DeleteNetworkChain h ipt x k)) = (without_refs (tbl k) x)(x \<mapsto> [])"
proof -
  obtain k' where k': "tbl k' = without_refs (tbl k) x"
      "DeleteNetworkChain h ipt x k = DeleteIptableChain h ipt ''filter'' x k'"
    using DeleteNetworkChain_run[OF sh x b] .
  from DeleteIptableChain_referenced[of x k'] x u k'(1)
  show "\<exists>e. fst (DeleteNetworkChain h ipt x k) = Err e"
    and "tbl (snd (DeleteNetworkChain h ipt x k)) = (without_refs (tbl k) x)(x \<mapsto> [])"
    by (simp_all add: k'(2))
qed

text \<open>\<open>InsertRule\<close> puts the jump to a policy chain in front of a network chain, once.\<close>

lemma InsertRule_spec:
  assumes sh: "npc_shape (tbl k)" and n: "net_name c" "plc_name p"
    and T: "tbl k c = Some rs" "tbl k p \<noteq> None"
  shows "fst (InsertRule h ipt c 1 [''-j'', p] k) = Ret ()"
    and "tbl (snd (InsertRule h ipt c 1 [''-j'', p] k)) = (tbl k)(c \<mapsto> add_first (jump p) rs)"
proof -
  let ?k = "snd (Exists h ipt ''filter'' c [''-j'', p] k)"
  have "cmd_ok (tbl k) (CCheck c [''-j'', p])" using n by simp
  from Exists_spec[OF this, of "jump p"] T
  have e: "fst (Exists h ipt ''filter'' c [''-j'', p] k) = Ret (jump p \<in> set rs)" "tbl ?k = tbl k"
    by (simp_all add: target_known_def)
  have "cmd_ok (tbl ?k) (CInsert c 1 [''-j'', p])" using n sh e(2) by (simp add: jump_ok_genie)
  from Insert_spec[OF this, of "jump p" rs] T e(2)
  have "fst (Insert h ipt ''filter'' c 1 [''-j'', p] ?k) = Ret ()"
      "tbl (snd (Insert h ipt ''filter'' c 1 [''-j'', p] ?k)) = (tbl k)(c \<mapsto> jump p # rs)"
    by (simp_all add: target_known_def)
  with e T show "fst (InsertRule h ipt c 1 [''-j'', p] k) = Ret ()"
    and "tbl (snd (InsertRule h ipt c 1 [''-j'', p] k)) = (tbl k)(c \<mapsto> add_first (jump p) rs)"
    by (auto simp: InsertRule_def FilterTable_def add_first_def go_simps fun_upd_idem)
qed

lemma InsertRule_no_policy_chain:
  assumes n: "net_name c" "plc_name p" and T: "tbl k p = None"
  shows "\<exists>msg. fst (InsertRule h ipt c 1 [''-j'', p] k) = Err (ExitError 2 msg)"
    and "tbl (snd (InsertRule h ipt c 1 [''-j'', p] k)) = tbl k"
proof -
  have "cmd_ok (tbl k) (CCheck c [''-j'', p])" using n by simp
  from Exists_usage[OF this] T n
  show "\<exists>msg. fst (InsertRule h ipt c 1 [''-j'', p] k) = Err (ExitError 2 msg)"
    and "tbl (snd (InsertRule h ipt c 1 [''-j'', p] k)) = tbl k"
    by (auto simp: InsertRule_def FilterTable_def target_known_def go_simps)
qed

text \<open>\<open>DeleteNetworkChainRule\<close> on the lines of a network chain.\<close>

lemma Contains_net_line:
  assumes "rule_ok cn r" "rule_fits c r" "net_name c"
  shows "plc_name p \<Longrightarrow> Contains (rule_line ex c r) p \<longleftrightarrow> r = jump p"
    and "Contains (rule_line ex c r) GeniePolicyPrefix \<longleftrightarrow> r \<noteq> reject"
proof -
  have r: "r = reject \<or> plc_name (target r) \<and> r = jump (target r)" using assms by (simp add: rule_fits_net)
  note cp = net_no_policy_prefix[OF assms(3)]
  have pfx: "Contains x GeniePolicyPrefix" if "plc_name x" for x
    using chain_name_of_split[OF that] by (metis Contains_appendI1 Contains_self)
  show "Contains (rule_line ex c r) p \<longleftrightarrow> r = jump p" if p: "plc_name p"
  proof -
    obtain p' where p': "p = CHR ''G'' # p'" "CHR '' '' \<notin> set p" "length p = 26"
      using genie_name_shape[of p] p by blast
    have "Contains (rule_line ex c r) p \<longleftrightarrow> Contains (target r) p"
      using Contains_rule_line[OF assms(1) p'(1,2) cp[OF pfx[OF p]]] .
    also have "\<dots> \<longleftrightarrow> r = jump p"
      using r
    proof
      assume "r = reject"
      with p' Contains_length[of "''REJECT''" p] show ?thesis by auto
    next
      assume t: "plc_name (target r) \<and> r = jump (target r)"
      then have "length (target r) = length p" using p'(3) genie_name_shape(1)[of "target r"] by simp
      with t show ?thesis by (metis Contains_same_length rule.sel(3))
    qed
    finally show ?thesis .
  qed
  have "Contains (rule_line ex c r) GeniePolicyPrefix \<longleftrightarrow> Contains (target r) GeniePolicyPrefix"
    using Contains_rule_line[OF assms(1) policy_prefix_shape cp[OF Contains_self]] .
  also have "\<dots> \<longleftrightarrow> r \<noteq> reject"
  proof -
    have "\<not> Contains ''REJECT'' GeniePolicyPrefix" by (simp add: GeniePolicyPrefix_def)
    with r pfx show ?thesis by (metis genie_name_ok(3) rule.sel(3) name_ok_targets(1) plc_chain_name)
  qed
  finally show "Contains (rule_line ex c r) GeniePolicyPrefix \<longleftrightarrow> r \<noteq> reject" .
qed

lemma delete_jumps_none:
  assumes "net_name c" "plc_name p" "\<forall>r \<in> set rs. rule_ok cn r \<and> rule_fits c r" "jump p \<notin> set rs" "n \<le> 1"
  shows "delete_jumps h ipt c p (map (rule_line ex c) rs) pos n k =
    (Ret (if \<exists>r \<in> set rs. r \<noteq> reject then 1 else n), k)"
  using assms(3-)
proof (induction rs arbitrary: pos n)
  case (Cons a rs)
  from Cons.prems have "a \<noteq> jump p" by auto
  with Contains_net_line(1)[of a c p] Contains_net_line(2)[of a c] assms Cons.prems
  have a: "\<not> Contains (rule_line ex c a) p" "Contains (rule_line ex c a) GeniePolicyPrefix \<longleftrightarrow> a \<noteq> reject" by auto
  show ?case using Cons.IH Cons.prems a by (cases n) auto
qed (simp add: go_simps)

text \<open>The jump stands at most once in the chain, so the loop deletes it and nothing else.\<close>

lemma delete_jumps_spec:
  assumes c: "net_name c" and p: "plc_name p"
    and T: "tbl k c = Some (pre @ suf)"
    and r: "\<forall>r \<in> set suf. rule_ok cn r \<and> rule_fits c r" and d: "distinct suf" and n: "n \<le> 1"
  shows "fst (delete_jumps h ipt c p (map (rule_line ex c) suf) (int (Suc (length pre))) n k) =
      Ret (if \<exists>r \<in> set suf - {jump p}. r \<noteq> reject then 1 else n)
    \<and> tbl (snd (delete_jumps h ipt c p (map (rule_line ex c) suf) (int (Suc (length pre))) n k)) =
        (tbl k)(c \<mapsto> pre @ remove1 (jump p) suf)"
  using T r d n
proof (induction suf arbitrary: k pre n)
  case Nil
  then show ?case by (auto simp: go_simps fun_upd_idem)
next
  case (Cons a suf)
  have a: "Contains (rule_line ex c a) p \<longleftrightarrow> a = jump p"
      "Contains (rule_line ex c a) GeniePolicyPrefix \<longleftrightarrow> a \<noteq> reject"
    using Contains_net_line(1)[of a c p] Contains_net_line(2)[of a c] Cons.prems c p by auto
  show ?case
  proof (cases "a = jump p")
    case True
    let ?n = "Suc (length pre)"
    let ?k = "snd (Delete h ipt ''filter'' c [Itoa (int ?n)] k)"
    have "cmd_ok (tbl k) (CDelete c ?n)" using c by simp
    from Delete_spec[OF this Cons.prems(1)]
    have dl: "fst (Delete h ipt ''filter'' c [Itoa (int ?n)] k) = Ret ()"
        "tbl ?k = (tbl k)(c \<mapsto> pre @ suf)"
      by (simp_all add: drop_nth_append)
    have "jump p \<notin> set suf" using Cons.prems True by auto
    then have rest: "delete_jumps h ipt c p (map (rule_line ex c) suf) pos n ?k =
        (Ret (if \<exists>r \<in> set suf. r \<noteq> reject then 1 else n), ?k)" for pos
      using delete_jumps_none[OF c p, of suf n pos ?k] Cons.prems by simp
    have "delete_jumps h ipt c p (map (rule_line ex c) (a # suf)) (int ?n) n k =
        (Ret (if \<exists>r \<in> set suf. r \<noteq> reject then 1 else n), ?k)"
      using True a dl(1) rest by (simp add: FilterTable_def go_simps del: of_nat_Suc)
    then show ?thesis using dl(2) True \<open>jump p \<notin> set suf\<close> by (simp add: fun_eq_iff del: of_nat_Suc delete_jumps.simps)
  next
    case False
    have i: "int (Suc (length pre)) + 1 = int (Suc (Suc (length pre)))" by simp
    let ?n = "if n < 1 \<and> a \<noteq> reject then n + 1 else n"
    show ?thesis
      using Cons.IH[of k "pre @ [a]" ?n] Cons.prems False a by (auto simp: i simp del: of_nat_Suc split: if_splits)
  qed
qed

lemma DeleteNetworkChainRule_run:
  assumes sh: "npc_shape (tbl k)" and n: "net_name c" "plc_name p" and T: "tbl k c = Some rs"
  obtains k' where "tbl k' = (tbl k)(c \<mapsto> remove1 (jump p) rs)"
    and "DeleteNetworkChainRule h ipt c p k =
      (if \<exists>r \<in> set rs - {jump p}. r \<noteq> reject then (Ret (), k')
       else go_wrap (Errorf_v (''Error deleting network chain ('' @ c @ ''): '')) (DeleteNetworkChain h ipt c) k')"
proof -
  let ?k1 = "snd (ListRules h ipt ''filter'' c k)"
  have "cmd_ok (tbl k) (CList c)" using n by simp
  note l = ListRules_spec[OF this T]
  obtain p' where p': "p = CHR ''G'' # p'" "CHR '' '' \<notin> set p" "length p = 26"
    using genie_name_shape[of p] n(2) by blast
  have "c \<noteq> p" using n net_not_plc by blast
  then have "\<not> Contains c p" using Contains_same_length[of c p] p' genie_name_shape(1)[of c] n by simp
  then have cl: "\<not> Contains (chain_line c) p" by (rule Contains_chain_line[OF p'(1,2)])
  have cg: "\<not> Contains (chain_line c) GeniePolicyPrefix"
    by (rule Contains_chain_line[OF policy_prefix_shape net_no_policy_prefix[OF n(1)]]) simp
  have d: "distinct rs" "\<forall>r \<in> set rs. rule_ok cn r \<and> rule_fits c r"
    using npc_shapeD[OF sh T] n stored[OF T] by auto
  define m where "m = delete_jumps h ipt c p (listing ex c rs) 0 0 ?k1"
  have "m = delete_jumps h ipt c p (map (rule_line ex c) rs) 1 0 ?k1"
    using cl cg by (simp add: m_def listing_def)
  with delete_jumps_spec[of c p ?k1 "[]" rs 0] n T l d
  have m: "fst m = Ret (if \<exists>r \<in> set rs - {jump p}. r \<noteq> reject then 1 else 0)"
      "tbl (snd m) = (tbl k)(c \<mapsto> remove1 (jump p) rs)" by simp_all
  show ?thesis
    using m(1) l(1) by (intro that[OF m(2)]) (auto simp: DeleteNetworkChainRule_def FilterTable_def go_bind_def go_wrap_def[of _ "ListRules h ipt ''filter'' c"] go_ret_def m_def[symmetric])
qed

lemma DeleteNetworkChainRule_more:
  assumes sh: "npc_shape (tbl k)" and n: "net_name c" "plc_name p" and T: "tbl k c = Some rs"
    and more: "r \<in> set rs" "r \<noteq> jump p" "r \<noteq> reject"
  shows "fst (DeleteNetworkChainRule h ipt c p k) = Ret ()"
    and "tbl (snd (DeleteNetworkChainRule h ipt c p k)) = (tbl k)(c \<mapsto> remove1 (jump p) rs)"
proof -
  obtain k' where "tbl k' = (tbl k)(c \<mapsto> remove1 (jump p) rs)"
      "DeleteNetworkChainRule h ipt c p k = (Ret (), k')"
    using DeleteNetworkChainRule_run[OF sh n T] more by (metis DiffI singletonD)
  then show "fst (DeleteNetworkChainRule h ipt c p k) = Ret ()"
    and "tbl (snd (DeleteNetworkChainRule h ipt c p k)) = (tbl k)(c \<mapsto> remove1 (jump p) rs)" by simp_all
qed

lemma npc_shape_remove1:
  assumes "npc_shape T" "T c = Some rs"
  shows "npc_shape (T(c \<mapsto> remove1 x rs))"
  unfolding npc_shape_def
proof (intro allI impI)
  fix c' rs'
  assume c': "(T(c \<mapsto> remove1 x rs)) c' = Some rs'"
  show "(c' = GenieBaseNPCChain \<or> net_name c' \<or> plc_name c' \<longrightarrow> distinct rs') \<and> (\<forall>r \<in> set rs'. rule_fits c' r)"
    using npc_shapeD[OF assms] c' npc_shapeD[OF assms(1), of c' rs'] set_remove1_subset[of x rs]
    by (cases "c' = c") (auto simp: distinct_remove1)
qed

lemma DeleteNetworkChainRule_last:
  assumes sh: "npc_shape (tbl k)" and n: "net_name c" "plc_name p" and T: "tbl k c = Some rs"
    and last: "\<forall>r \<in> set rs. r = jump p \<or> r = reject"
    and b: "tbl k GenieBaseNPCChain = Some b"
    and u: "\<not> referenced ((without_refs (tbl k) c)(c \<mapsto> [])) c"
  shows "fst (DeleteNetworkChainRule h ipt c p k) = Ret ()"
    and "tbl (snd (DeleteNetworkChainRule h ipt c p k)) = (without_refs (tbl k) c)(c := None)"
proof -
  have none: "\<not> (\<exists>r \<in> set rs - {jump p}. r \<noteq> reject)" using last by auto
  obtain k' where k': "tbl k' = (tbl k)(c \<mapsto> remove1 (jump p) rs)"
      "DeleteNetworkChainRule h ipt c p k =
        go_wrap (Errorf_v (''Error deleting network chain ('' @ c @ ''): '')) (DeleteNetworkChain h ipt c) k'"
    using DeleteNetworkChainRule_run[OF sh n T] unfolding if_not_P[OF none] .
  have cb: "c \<noteq> GenieBaseNPCChain" using n by simp
  then have w: "without_refs (tbl k') c = (without_refs (tbl k) c)(c \<mapsto> remove1 (jump p) rs)"
    using b by (simp add: without_refs_def k'(1) fun_upd_twist)
  have "npc_shape (tbl k')" unfolding k'(1) by (rule npc_shape_remove1[OF sh T])
  from DeleteNetworkChain_spec[OF this n(1), of b] u b cb
  show "fst (DeleteNetworkChainRule h ipt c p k) = Ret ()"
    and "tbl (snd (DeleteNetworkChainRule h ipt c p k)) = (without_refs (tbl k) c)(c := None)"
    unfolding w k'(2) by (auto simp: k'(1) go_simps fun_upd_upd)
qed

end

end
