(* ===== verification/NpcShape.thy ===== *)
theory NpcShape
  imports NpcIptablesFacts
begin

text \<open>
  The shape \<open>npc_shape\<close> of the controller's chains is an invariant: every operation of
  \<open>NpcIptables\<close> keeps it, on every branch. The lemmas are stated with \<open>keeps\<close>, so that the
  handlers of the controller get the invariant from the operations they call.
\<close>

text \<open>A rule that fits its chain.\<close>

definition spec_fits :: "(string \<Rightarrow> string option) \<Rightarrow> string \<Rightarrow> string list \<Rightarrow> bool" where
  "spec_fits cn c sp \<longleftrightarrow> name_ok c \<and> spec_ok sp \<and> genie_level c < genie_level (last sp)
     \<and> (\<forall>r. spec_rule cn sp = Some r \<longrightarrow> rule_fits c r)"

context iptables_tool
begin

lemma keeps_tbl_id: "(\<And>k. npc_shape (tbl k) \<Longrightarrow> tbl (snd (m k)) = tbl k) \<Longrightarrow> keeps (\<lambda>k. npc_shape (tbl k)) m"
  by (auto simp: keeps_def)

lemma keeps_run:
  assumes "\<And>k. npc_shape (tbl k) \<Longrightarrow> cmd_ok (tbl k) cmd"
    and "\<And>k st out e. npc_shape (tbl k) \<Longrightarrow>
      filter_step cn ex (referenced (tbl k)) (tbl k) cmd = (st, out, e) \<Longrightarrow> npc_shape (apply_edit e (tbl k))"
  shows "keeps (\<lambda>k. npc_shape (tbl k)) (run h ipt (''-t'' # ''filter'' # cmd_args cmd))"
    and "keeps (\<lambda>k. npc_shape (tbl k)) (runWithOutput h ipt (''-t'' # ''filter'' # cmd_args cmd))"
proof -
  have "npc_shape (tbl (snd (run h ipt (''-t'' # ''filter'' # cmd_args cmd) k)))
      \<and> npc_shape (tbl (snd (runWithOutput h ipt (''-t'' # ''filter'' # cmd_args cmd) k)))"
    if sh: "npc_shape (tbl k)" for k
  proof -
    obtain st out e where f: "filter_step cn ex (referenced (tbl k)) (tbl k) cmd = (st, out, e)"
      by (metis prod_cases3)
    from run_filter(2)[OF assms(1)[OF sh] f] runWithOutput_filter(2)[OF assms(1)[OF sh] f] assms(2)[OF sh f]
    show ?thesis by simp
  qed
  then show "keeps (\<lambda>k. npc_shape (tbl k)) (run h ipt (''-t'' # ''filter'' # cmd_args cmd))"
    and "keeps (\<lambda>k. npc_shape (tbl k)) (runWithOutput h ipt (''-t'' # ''filter'' # cmd_args cmd))"
    by (auto simp: keeps_def)
qed

lemma keeps_ListRules [intro]:
  assumes "name_ok c" "c \<notin> set builtin_chains"
  shows "keeps (\<lambda>k. npc_shape (tbl k)) (ListRules h ipt ''filter'' c)"
proof (rule keeps_tbl_id)
  fix k
  have "cmd_ok (tbl k) (CList c)" using assms by simp
  then show "tbl (snd (ListRules h ipt ''filter'' c k)) = tbl k"
    by (cases "tbl k c") (simp_all add: ListRules_spec ListRules_absent)
qed

lemma Exists_table:
  assumes "name_ok c" "spec_ok sp"
  shows "tbl (snd (Exists h ipt ''filter'' c sp k)) = tbl k"
proof -
  have c: "cmd_ok (tbl k) (CCheck c sp)" using assms by simp
  show ?thesis
  proof (cases "\<exists>r. spec_rule cn sp = Some r \<and> target_known (tbl k) (target r)")
    case True
    then show ?thesis using Exists_spec(2)[OF c] by blast
  next
    case False
    then show ?thesis by (intro Exists_usage(2)[OF c]) blast
  qed
qed

lemma keeps_Exists [intro]:
  "name_ok c \<Longrightarrow> spec_ok sp \<Longrightarrow> keeps (\<lambda>k. npc_shape (tbl k)) (Exists h ipt ''filter'' c sp)"
  by (rule keeps_tbl_id) (simp add: Exists_table)

lemma keeps_ClearChain [intro]:
  assumes "name_ok c" "c \<notin> set builtin_chains" "c \<notin> set builtin_targets"
  shows "keeps (\<lambda>k. npc_shape (tbl k)) (ClearChain h ipt ''filter'' c)"
proof (rule keepsI)
  fix k
  assume "npc_shape (tbl k)"
  then show "npc_shape (tbl (snd (ClearChain h ipt ''filter'' c k)))"
    using assms by (subst ClearChain_spec) (auto intro: npc_shape_put)
qed

lemma keeps_DeleteChain [intro]:
  assumes "name_ok c" "c \<notin> set builtin_chains"
  shows "keeps (\<lambda>k. npc_shape (tbl k)) (DeleteChain h ipt ''filter'' c)"
proof -
  have "keeps (\<lambda>k. npc_shape (tbl k)) (run h ipt (''-t'' # ''filter'' # cmd_args (CDelChain c)))"
    by (rule keeps_run) (use assms in \<open>auto simp: npc_shape_drop split: if_splits\<close>)
  then show ?thesis by (simp add: DeleteChain_def)
qed

lemma drop_nth_shape:
  assumes "npc_shape T" "T c = Some rs"
  shows "npc_shape (T(c \<mapsto> drop_nth i rs))"
  unfolding npc_shape_def
proof (intro allI impI)
  fix c' rs'
  assume c': "(T(c \<mapsto> drop_nth i rs)) c' = Some rs'"
  have "distinct (drop_nth i rs)" if "distinct rs"
    using that set_take_disj_set_drop_if_distinct[of rs i "Suc i"] by (simp add: drop_nth_def)
  then show "(c' = GenieBaseNPCChain \<or> net_name c' \<or> plc_name c' \<longrightarrow> distinct rs') \<and> (\<forall>r \<in> set rs'. rule_fits c' r)"
    using npc_shapeD[OF assms] c' npc_shapeD[OF assms(1), of c' rs'] set_drop_nth[of i rs]
    by (cases "c' = c") auto
qed

lemma keeps_Delete [intro]:
  assumes "name_ok c" "0 \<le> pos"
  shows "keeps (\<lambda>k. npc_shape (tbl k)) (Delete h ipt ''filter'' c [Itoa pos])"
proof -
  obtain n where n: "pos = int n" using assms(2) zero_le_imp_eq_int by blast
  have "keeps (\<lambda>k. npc_shape (tbl k)) (run h ipt (''-t'' # ''filter'' # cmd_args (CDelete c n)))"
    by (rule keeps_run) (use assms in \<open>auto simp: drop_nth_shape split: if_splits option.splits\<close>)
  then show ?thesis by (simp add: n Delete_def)
qed

lemma keeps_AppendUnique [intro]:
  assumes "spec_fits cn c sp"
  shows "keeps (\<lambda>k. npc_shape (tbl k)) (AppendUnique h ipt ''filter'' c sp)"
proof (rule keepsI)
  fix k
  assume sh: "npc_shape (tbl k)"
  let ?k = "snd (Exists h ipt ''filter'' c sp k)"
  have ok: "cmd_ok (tbl k) (CAppend c sp)" "cmd_ok (tbl k) (CCheck c sp)"
    using assms sh by (simp_all add: spec_fits_def jump_ok_genie)
  have same: "tbl ?k = tbl k" using assms by (simp add: spec_fits_def Exists_table)
  show "npc_shape (tbl (snd (AppendUnique h ipt ''filter'' c sp k)))"
  proof (cases "\<exists>r. spec_rule cn sp = Some r \<and> target_known (tbl k) (target r)")
    case False
    with Exists_usage[OF ok(2)] sh show ?thesis by (force simp: AppendUnique_def go_simps)
  next
    case True
    then obtain r where r: "spec_rule cn sp = Some r" "target_known (tbl k) (target r)" by blast
    then have fits: "rule_fits c r" using assms by (simp add: spec_fits_def)
    show ?thesis
    proof (cases "tbl k c")
      case None
      with Exists_spec[OF ok(2) r] Append_absent[of ?k c sp] same ok sh show ?thesis
        by (auto simp: AppendUnique_def go_simps split: go_res.split)
    next
      case (Some rs)
      note d = npc_shapeD[OF sh Some]
      have "npc_shape ((tbl k)(c \<mapsto> (if r \<in> set rs then rs else rs @ [r])))"
        using sh d fits Some unfolding npc_shape_def by auto
      then show ?thesis using AppendUnique_spec(2)[OF ok(1) r Some] by simp
    qed
  qed
qed

lemma keeps_InsertRule [intro]:
  assumes "net_name c" "plc_name p"
  shows "keeps (\<lambda>k. npc_shape (tbl k)) (InsertRule h ipt c 1 [''-j'', p])"
proof (rule keepsI)
  fix k
  assume sh: "npc_shape (tbl k)"
  let ?k = "snd (Exists h ipt ''filter'' c [''-j'', p] k)"
  have ok: "cmd_ok (tbl k) (CCheck c [''-j'', p])" "cmd_ok (tbl k) (CInsert c 1 [''-j'', p])"
    using assms sh by (simp_all add: jump_ok_genie)
  consider "tbl k p = None" | rs where "tbl k p \<noteq> None" "tbl k c = Some rs" | "tbl k p \<noteq> None" "tbl k c = None"
    by fastforce
  then show "npc_shape (tbl (snd (InsertRule h ipt c 1 [''-j'', p] k)))"
  proof cases
    case 1
    with InsertRule_no_policy_chain assms sh show ?thesis by simp
  next
    case 2
    have "npc_shape ((tbl k)(c \<mapsto> add_first (jump p) rs))"
      using npc_shapeD[OF sh 2(2)] assms sh
      by (intro npc_shape_put) (auto simp: rule_fits_net intro: distinct_add_first)
    then show ?thesis using InsertRule_spec[OF sh assms 2(2,1)] by simp
  next
    case 3
    have e: "tbl ?k = tbl k" using assms by (simp add: Exists_table)
    from Insert_absent[of ?k c 1 "[''-j'', p]" "jump p"] 3 ok(2)
    have "tbl (snd (Insert h ipt ''filter'' c 1 [''-j'', p] ?k)) = tbl k"
      "\<exists>msg. fst (Insert h ipt ''filter'' c 1 [''-j'', p] ?k) = Err (ExitError 1 msg)"
      by (simp_all add: e target_known_def)
    with e sh Exists_spec[OF ok(1), of "jump p"] 3 show ?thesis
      by (auto simp: InsertRule_def FilterTable_def exit_status_def target_known_def go_simps)
  qed
qed

section \<open>The operations of the controller\<close>

lemma keeps_AddPolicyChain [intro]: "keeps (\<lambda>k. npc_shape (tbl k)) (AddPolicyChain h ipt name ns)"
  unfolding AddPolicyChain_def Let_def FilterTable_def
  by (intro keeps_bind keeps_ret keeps_ClearChain) simp_all

lemma keeps_ExistsChain [intro]:
  "name_ok c \<Longrightarrow> c \<notin> set builtin_chains \<Longrightarrow> keeps (\<lambda>k. npc_shape (tbl k)) (ExistsChain h ipt c)"
  by (rule keeps_tbl_id) (simp add: ExistsChain_spec)

lemma keeps_ensure_base_rule [intro]:
  assumes "spec_fits cn GenieBaseNPCChain sp"
  shows "keeps (\<lambda>k. npc_shape (tbl k)) (ensure_base_rule h ipt sp)"
  using assms unfolding ensure_base_rule_def FilterTable_def
  by (intro keeps_bind keeps_if keeps_ret keeps_Exists keeps_AppendUnique) (simp_all add: spec_fits_def)

lemma keeps_AddNetworkChain [intro]:
  assumes "addr_ok (SubSubnet (lnSpec ln))"
  shows "keeps (\<lambda>k. npc_shape (tbl k)) (AddNetworkChain h ipt ln)"
  using assms unfolding AddNetworkChain_def Let_def FilterTable_def
  by (intro keeps_bind keeps_ret keeps_ClearChain keeps_AppendUnique keeps_ensure_base_rule)
     (auto simp: spec_fits_def rule_fits_net rule_fits_base)

lemma keeps_DeleteIptableChain [intro]:
  assumes "name_ok c" "c \<notin> set builtin_chains" "c \<notin> set builtin_targets"
  shows "keeps (\<lambda>k. npc_shape (tbl k)) (DeleteIptableChain h ipt ''filter'' c)"
  using assms unfolding DeleteIptableChain_def
  by (intro keeps_bind keeps_wrap keeps_ClearChain keeps_DeleteChain) auto

lemma keeps_delete_refs [intro]:
  "0 \<le> pos \<Longrightarrow> keeps (\<lambda>k. npc_shape (tbl k)) (delete_refs h ipt x ls pos cnt)"
proof (induction ls arbitrary: pos cnt)
  case (Cons l ls)
  show ?case
    using Cons by (auto simp: Let_def FilterTable_def intro!: keeps_bind keeps_try keeps_Delete split: sum.split)
qed (simp add: keeps_ret)

lemma keeps_DeleteNetworkChain [intro]:
  "name_ok c \<Longrightarrow> c \<notin> set builtin_chains \<Longrightarrow> c \<notin> set builtin_targets \<Longrightarrow>
   keeps (\<lambda>k. npc_shape (tbl k)) (DeleteNetworkChain h ipt c)"
  unfolding DeleteNetworkChain_def FilterTable_def
  by (intro keeps_bind keeps_wrap keeps_ListRules keeps_delete_refs keeps_DeleteIptableChain) simp_all

lemma keeps_delete_jumps [intro]:
  "name_ok c \<Longrightarrow> 0 \<le> pos \<Longrightarrow> keeps (\<lambda>k. npc_shape (tbl k)) (delete_jumps h ipt c p ls pos cnt)"
  by (induction ls arbitrary: pos cnt)
     (auto simp: FilterTable_def keeps_ret intro!: keeps_bind keeps_try keeps_Delete)

lemma keeps_DeleteNetworkChainRule [intro]:
  "name_ok c \<Longrightarrow> c \<notin> set builtin_chains \<Longrightarrow> c \<notin> set builtin_targets \<Longrightarrow>
   keeps (\<lambda>k. npc_shape (tbl k)) (DeleteNetworkChainRule h ipt c p)"
  unfolding DeleteNetworkChainRule_def FilterTable_def
  by (intro keeps_bind keeps_if keeps_ret keeps_wrap keeps_ListRules keeps_delete_jumps keeps_DeleteNetworkChain) simp_all

end

end
