(* ===== verification/Json.thy ===== *)
theory Json
  imports Types Md5 "HOL-Library.Char_ord" "HOL-Library.List_Lexorder"
begin

text \<open>
  The part of Go's \<^verbatim>\<open>encoding/json\<close> the program uses: the syntax check and the parse of a
  document, the decoding of string literals (escapes, surrogate pairs, invalid UTF-8), the decoding
  into maps and structures of strings, and \<open>Marshal\<close> of a map of strings. The texts of the package's
  own error messages are not reproduced: a document with a syntax error and one of a wrong type give
  the two error values below.
\<close>

datatype json = JNull | JBool bool | JNum string | JStr string | JArr "json list" | JObj "(string \<times> json) list"

definition json_syntax_error :: go_error where "json_syntax_error = ErrorString ''json: syntax error''"
definition json_type_error :: go_error where "json_type_error = ErrorString ''json: cannot unmarshal value''"

section \<open>UTF-8\<close>

definition byte :: "char \<Rightarrow> nat" where
  "byte c = of_char c"

definition in_range :: "nat \<Rightarrow> nat \<Rightarrow> char \<Rightarrow> bool" where
  "in_range lo hi c = (lo \<le> byte c \<and> byte c \<le> hi)"

text \<open>The valid sequences of two to four bytes, as \<^verbatim>\<open>utf8.DecodeRune\<close> accepts them, and the length
  of the one at the front.\<close>

definition utf8_2 :: "char \<Rightarrow> char \<Rightarrow> bool" where
  "utf8_2 a b = (in_range 0xC2 0xDF a \<and> in_range 0x80 0xBF b)"

definition utf8_3 :: "char \<Rightarrow> char \<Rightarrow> char \<Rightarrow> bool" where
  "utf8_3 a b c =
     (in_range 0x80 0xBF c \<and>
      (byte a = 0xE0 \<and> in_range 0xA0 0xBF b \<or>
       (in_range 0xE1 0xEC a \<or> in_range 0xEE 0xEF a) \<and> in_range 0x80 0xBF b \<or>
       byte a = 0xED \<and> in_range 0x80 0x9F b))"

definition utf8_4 :: "char \<Rightarrow> char \<Rightarrow> char \<Rightarrow> char \<Rightarrow> bool" where
  "utf8_4 a b c d =
     (in_range 0x80 0xBF c \<and> in_range 0x80 0xBF d \<and>
      (byte a = 0xF0 \<and> in_range 0x90 0xBF b \<or>
       in_range 0xF1 0xF3 a \<and> in_range 0x80 0xBF b \<or>
       byte a = 0xF4 \<and> in_range 0x80 0x8F b))"

definition utf8_len :: "string \<Rightarrow> nat option" where
  "utf8_len s =
     (case s of
        a # b # t \<Rightarrow>
          if utf8_2 a b then Some 2
          else (case t of
             [] \<Rightarrow> None
           | c # t' \<Rightarrow>
               if utf8_3 a b c then Some 3
               else (case t' of [] \<Rightarrow> None | d # _ \<Rightarrow> if utf8_4 a b c d then Some 4 else None))
      | _ \<Rightarrow> None)"

text \<open>\<^verbatim>\<open>utf8.EncodeRune\<close>.\<close>

definition utf8_encode :: "nat \<Rightarrow> string" where
  "utf8_encode r =
     (if r < 0x80 then [char_of r]
      else if r < 0x800 then [char_of (0xC0 + r div 64), char_of (0x80 + r mod 64)]
      else if r < 0x10000 then
        [char_of (0xE0 + r div 4096), char_of (0x80 + r div 64 mod 64), char_of (0x80 + r mod 64)]
      else [char_of (0xF0 + r div 262144), char_of (0x80 + r div 4096 mod 64),
            char_of (0x80 + r div 64 mod 64), char_of (0x80 + r mod 64)])"

definition replacement :: string where
  "replacement = [CHR 0xEF, CHR 0xBF, CHR 0xBD]"

section \<open>String literals\<close>

definition hex_val :: "char \<Rightarrow> nat option" where
  "hex_val c =
     (let n = byte c in
      if 48 \<le> n \<and> n \<le> 57 then Some (n - 48)
      else if 97 \<le> n \<and> n \<le> 102 then Some (n - 87)
      else if 65 \<le> n \<and> n \<le> 70 then Some (n - 55)
      else None)"

definition hex4 :: "string \<Rightarrow> (nat \<times> string) option" where
  "hex4 s =
     (case s of
        a # b # c # d # t \<Rightarrow>
          (case (hex_val a, hex_val b, hex_val c, hex_val d) of
             (Some a, Some b, Some c, Some d) \<Rightarrow> Some (((a * 16 + b) * 16 + c) * 16 + d, t)
           | _ \<Rightarrow> None)
      | _ \<Rightarrow> None)"

text \<open>The bytes of a \<open>\u\<close> escape whose code unit is \<open>r\<close>, and how many bytes after its digits it
  takes: a high surrogate takes the escape of a low one.\<close>

definition unicode_escape :: "nat \<Rightarrow> string \<Rightarrow> string \<times> nat" where
  "unicode_escape r t =
     (if 0xD800 \<le> r \<and> r < 0xE000 then
        (case t of
           x # y # t' \<Rightarrow>
             (if x = CHR 0x5C \<and> y = CHR ''u'' \<and> r < 0xDC00 then
                (case hex4 t' of
                   Some (r', _) \<Rightarrow>
                     if 0xDC00 \<le> r' \<and> r' < 0xE000
                     then (utf8_encode (0x10000 + (r - 0xD800) * 1024 + (r' - 0xDC00)), 6)
                     else (replacement, 0)
                 | None \<Rightarrow> (replacement, 0))
              else (replacement, 0))
         | _ \<Rightarrow> (replacement, 0))
      else (utf8_encode r, 0))"

text \<open>One unit of a literal: its bytes and the number of source bytes it takes.\<close>

definition str_unit :: "string \<Rightarrow> (string \<times> nat) option" where
  "str_unit s =
     (case s of
        [] \<Rightarrow> None
      | c # t \<Rightarrow>
          if c = CHR 0x5C then
            (case t of
               [] \<Rightarrow> None
             | e # t' \<Rightarrow>
                 if e = CHR 0x22 \<or> e = CHR 0x5C \<or> e = CHR ''/'' then Some ([e], 2)
                 else if e = CHR ''b'' then Some ([CHR 0x08], 2)
                 else if e = CHR ''f'' then Some ([CHR 0x0C], 2)
                 else if e = CHR ''n'' then Some ([CHR 0x0A], 2)
                 else if e = CHR ''r'' then Some ([CHR 0x0D], 2)
                 else if e = CHR ''t'' then Some ([CHR 0x09], 2)
                 else if e = CHR ''u'' then
                   (case hex4 t' of
                      None \<Rightarrow> None
                    | Some (r, t'') \<Rightarrow>
                        (case unicode_escape r t'' of (bs, n) \<Rightarrow> Some (bs, 6 + n)))
                 else None)
          else if byte c < 0x20 then None
          else if byte c < 0x80 then Some ([c], 1)
          else (case utf8_len s of None \<Rightarrow> Some (replacement, 1) | Some n \<Rightarrow> Some (take n s, n)))"

text \<open>The rest of a literal after its opening quote.\<close>

function str_body :: "string \<Rightarrow> (string \<times> string) option" where
  "str_body s =
     (case s of
        [] \<Rightarrow> None
      | c # t \<Rightarrow>
          if c = CHR 0x22 then Some ([], t)
          else (case str_unit s of
             None \<Rightarrow> None
           | Some (bs, n) \<Rightarrow>
               (case str_body (drop (n - 1) t) of
                  None \<Rightarrow> None
                | Some (rest, t') \<Rightarrow> Some (bs @ rest, t'))))"
  by pat_completeness auto
termination by (relation "measure length") auto

declare str_body.simps [simp del]

section \<open>Documents\<close>

definition is_ws :: "char \<Rightarrow> bool" where
  "is_ws c = (c = CHR 0x20 \<or> c = CHR 0x09 \<or> c = CHR 0x0D \<or> c = CHR 0x0A)"

definition skip_ws :: "string \<Rightarrow> string" where
  "skip_ws s = dropWhile is_ws s"

definition digit :: "char \<Rightarrow> bool" where
  "digit c = (digit_val c \<noteq> None)"

text \<open>The parts of a number literal at the front, each with what follows it.\<close>

definition num_sign :: "string \<Rightarrow> string \<Rightarrow> string \<times> string" where
  "num_sign signs s = (case s of c # t \<Rightarrow> if c \<in> set signs then ([c], t) else ([], s) | [] \<Rightarrow> ([], []))"

definition num_int :: "string \<Rightarrow> (string \<times> string) option" where
  "num_int s =
     (case s of
        [] \<Rightarrow> None
      | c # t \<Rightarrow>
          if c = CHR ''0'' then Some ([c], t)
          else if digit c then Some (takeWhile digit s, dropWhile digit s)
          else None)"

definition num_frac :: "string \<Rightarrow> (string \<times> string) option" where
  "num_frac s =
     (case s of
        [] \<Rightarrow> Some ([], [])
      | c # t \<Rightarrow>
          if c = CHR ''.'' then
            if takeWhile digit t = [] then None else Some (c # takeWhile digit t, dropWhile digit t)
          else Some ([], s))"

definition num_exp :: "string \<Rightarrow> (string \<times> string) option" where
  "num_exp s =
     (case s of
        [] \<Rightarrow> Some ([], [])
      | c # t \<Rightarrow>
          if c = CHR ''e'' \<or> c = CHR ''E'' then
            (case num_sign ''+-'' t of
               (sg, u) \<Rightarrow>
                 if takeWhile digit u = [] then None else Some (c # sg @ takeWhile digit u, dropWhile digit u))
          else Some ([], s))"

definition num_lit :: "string \<Rightarrow> (string \<times> string) option" where
  "num_lit s =
     (case num_sign ''-'' s of
        (sg, s1) \<Rightarrow>
          (case num_int s1 of
             None \<Rightarrow> None
           | Some (ip, s2) \<Rightarrow>
               (case num_frac s2 of
                  None \<Rightarrow> None
                | Some (fp, s3) \<Rightarrow>
                    (case num_exp s3 of
                       None \<Rightarrow> None
                     | Some (ep, s4) \<Rightarrow> Some (sg @ ip @ fp @ ep, s4)))))"

definition strip :: "string \<Rightarrow> string \<Rightarrow> string option" where
  "strip p s = (if prefix p s then Some (drop (length p) s) else None)"

text \<open>Literals, numbers and strings: the values without parts.\<close>

definition atom :: "string \<Rightarrow> (json \<times> string) option" where
  "atom s =
     (case s of
        [] \<Rightarrow> None
      | c # t \<Rightarrow>
          if c = CHR 0x22 then map_option (\<lambda>(v, r). (JStr v, r)) (str_body t)
          else if c = CHR ''t'' then map_option (\<lambda>r. (JBool True, r)) (strip ''true'' s)
          else if c = CHR ''f'' then map_option (\<lambda>r. (JBool False, r)) (strip ''false'' s)
          else if c = CHR ''n'' then map_option (\<lambda>r. (JNull, r)) (strip ''null'' s)
          else map_option (\<lambda>(v, r). (JNum v, r)) (num_lit s))"

definition member_key :: "string \<Rightarrow> (string \<times> string) option" where
  "member_key s =
     (case skip_ws s of
        [] \<Rightarrow> None
      | c # t \<Rightarrow>
          if c = CHR 0x22 then
            (case str_body t of
               None \<Rightarrow> None
             | Some (k, r) \<Rightarrow>
                 (case skip_ws r of
                    [] \<Rightarrow> None
                  | d # r' \<Rightarrow> if d = CHR '':'' then Some (k, r') else None))
          else None)"

text \<open>
  A value, the elements of an array after its bracket or a comma, and the members of an object. The
  first argument is fuel; \<open>parse_value_fuel\<close> below shows that the length of the text is enough.
\<close>

fun parse_value :: "nat \<Rightarrow> string \<Rightarrow> (json \<times> string) option"
  and parse_elems :: "nat \<Rightarrow> string \<Rightarrow> (json list \<times> string) option"
  and parse_members :: "nat \<Rightarrow> string \<Rightarrow> ((string \<times> json) list \<times> string) option" where
  "parse_value 0 s = None"
| "parse_value (Suc n) s =
     (case skip_ws s of
        [] \<Rightarrow> None
      | c # t \<Rightarrow>
          if c = CHR ''['' then
            (case skip_ws t of
               [] \<Rightarrow> None
             | d # t' \<Rightarrow>
                 if d = CHR '']'' then Some (JArr [], t')
                 else map_option (\<lambda>(vs, r). (JArr vs, r)) (parse_elems n t))
          else if c = CHR ''{'' then
            (case skip_ws t of
               [] \<Rightarrow> None
             | d # t' \<Rightarrow>
                 if d = CHR ''}'' then Some (JObj [], t')
                 else map_option (\<lambda>(ms, r). (JObj ms, r)) (parse_members n t))
          else atom (c # t))"
| "parse_elems 0 s = None"
| "parse_elems (Suc n) s =
     (case parse_value n s of
        None \<Rightarrow> None
      | Some (v, r) \<Rightarrow>
          (case skip_ws r of
             [] \<Rightarrow> None
           | d # r' \<Rightarrow>
               if d = CHR '']'' then Some ([v], r')
               else if d = CHR '','' then map_option (\<lambda>(vs, r''). (v # vs, r'')) (parse_elems n r')
               else None))"
| "parse_members 0 s = None"
| "parse_members (Suc n) s =
     (case member_key s of
        None \<Rightarrow> None
      | Some (k, s') \<Rightarrow>
          (case parse_value n s' of
             None \<Rightarrow> None
           | Some (v, r) \<Rightarrow>
               (case skip_ws r of
                  [] \<Rightarrow> None
                | d # r' \<Rightarrow>
                    if d = CHR ''}'' then Some ([(k, v)], r')
                    else if d = CHR '','' then
                      map_option (\<lambda>(ms, r''). ((k, v) # ms, r'')) (parse_members n r')
                    else None)))"

definition json_parse :: "string \<Rightarrow> json option" where
  "json_parse s =
     (case parse_value (length s) s of
        Some (v, r) \<Rightarrow> if skip_ws r = [] then Some v else None
      | None \<Rightarrow> None)"

section \<open>Decoding\<close>

text \<open>A string field, element or map value: \<open>null\<close> leaves the value it had.\<close>

definition put_string :: "json \<Rightarrow> string \<Rightarrow> go_error + string" where
  "put_string v old = (case v of JStr s \<Rightarrow> Inr s | JNull \<Rightarrow> Inr old | _ \<Rightarrow> Inl json_type_error)"

text \<open>\<open>json.Unmarshal\<close> into a nil \<open>map[string]string\<close>: \<open>null\<close> leaves it nil. A value of a wrong
  type does not stop the decoding, but its error is what the call returns.\<close>

fun put_members :: "(string \<times> json) list \<Rightarrow> string gomap \<Rightarrow> go_error + string gomap" where
  "put_members [] m = Inr m"
| "put_members ((k, v) # ms) m =
     (case put_string v [] of Inl e \<Rightarrow> Inl e | Inr s \<Rightarrow> put_members ms (map_put k s m))"

definition Unmarshal_string_map :: "string \<Rightarrow> go_error + string gomap option" where
  "Unmarshal_string_map text' =
     (case json_parse text' of
        None \<Rightarrow> Inl json_syntax_error
      | Some (JObj ms) \<Rightarrow> map_sum id Some (put_members ms [])
      | Some JNull \<Rightarrow> Inr None
      | Some _ \<Rightarrow> Inl json_type_error)"

text \<open>
  Field names match without regard to case; \<^verbatim>\<open>encoding/json\<close> folds ASCII letters, the Kelvin
  sign and the long s.
\<close>

fun fold_key :: "string \<Rightarrow> string" where
  "fold_key [] = []"
| "fold_key (c # cs) =
     (if prefix [CHR 0xE2, CHR 0x84, CHR 0xAA] (c # cs) then CHR ''k'' # fold_key (drop 2 cs)
      else if prefix [CHR 0xC5, CHR 0xBF] (c # cs) then CHR ''s'' # fold_key (drop 1 cs)
      else if 65 \<le> byte c \<and> byte c \<le> 90 then char_of (byte c + 32) # fold_key cs
      else c # fold_key cs)"

section \<open>Encoding\<close>

definition encode_byte :: "char \<Rightarrow> string" where
  "encode_byte c =
     (if c = CHR 0x5C \<or> c = CHR 0x22 then [CHR 0x5C, c]
      else if c = CHR 0x0A then [CHR 0x5C, CHR ''n'']
      else if c = CHR 0x0D then [CHR 0x5C, CHR ''r'']
      else if c = CHR 0x09 then [CHR 0x5C, CHR ''t'']
      else if byte c < 0x20 \<or> c = CHR ''<'' \<or> c = CHR ''>'' \<or> c = CHR ''&''
      then [CHR 0x5C, CHR ''u'', CHR ''0'', CHR ''0''] @ hex [c]
      else [c])"

fun encode_chars :: "string \<Rightarrow> string" where
  "encode_chars [] = []"
| "encode_chars (c # cs) =
     (if byte c < 0x80 then encode_byte c @ encode_chars cs
      else (case utf8_len (c # cs) of
         None \<Rightarrow> [CHR 0x5C] @ ''ufffd'' @ encode_chars cs
       | Some n \<Rightarrow>
           (if take 3 (c # cs) = [CHR 0xE2, CHR 0x80, CHR 0xA8] then [CHR 0x5C] @ ''u2028''
            else if take 3 (c # cs) = [CHR 0xE2, CHR 0x80, CHR 0xA9] then [CHR 0x5C] @ ''u2029''
            else c # take (n - 1) cs)
           @ encode_chars (drop (n - 1) cs)))"

definition encode_string :: "string \<Rightarrow> string" where
  "encode_string s = [CHR 0x22] @ encode_chars s @ [CHR 0x22]"

definition encode_member :: "string \<times> string \<Rightarrow> string" where
  "encode_member kv = encode_string (fst kv) @ '':'' @ encode_string (snd kv)"

text \<open>\<open>json.Marshal\<close> of a \<open>map[string]string\<close>: the keys in increasing order.\<close>

definition Marshal_string_map :: "string gomap \<Rightarrow> string" where
  "Marshal_string_map m =
     ''{'' @ Join (map encode_member (sort_key fst m)) '','' @ ''}''"

end
