(* ===== verification/NetworkPolicy.thy ===== *)
theory NetworkPolicy
  imports NpcShape Json CacheStore
begin

text \<open>
  \<^verbatim>\<open>controllers/network-policy-controller/networkpolicycontroller.go\<close>: the handlers of the
  network policy controller, from the key of a work item to the commands it runs on the host. The
  informer caches the listers read are lists of objects; a handler reads one snapshot of them. The
  order in which the runtime visits a Go map is not specified by the language, and is the field
  \<open>map_range\<close>.
\<close>

section \<open>Listers\<close>

text \<open>The lister's \<open>Get\<close> and \<open>List\<close> on a snapshot of the cache.\<close>

definition NewNotFound :: "string \<Rightarrow> string \<Rightarrow> go_error" where
  "NewNotFound resource name = ErrorString (resource @ '' '' @ [CHR 0x22] @ name @ [CHR 0x22] @ '' not found'')"

definition LogicalNetworks_Get :: "LogicalNetwork list \<Rightarrow> string \<Rightarrow> string \<Rightarrow> go_error + LogicalNetwork" where
  "LogicalNetworks_Get indexer namespace name =
     (case find (\<lambda>l. namespace_key (lnMeta l) = namespace @ ''/'' @ name) indexer of
        None \<Rightarrow> Inl (NewNotFound ''logicalnetwork.alpha.network.k8s.io'' name)
      | Some l \<Rightarrow> Inr l)"

definition NetworkPolicies_Get :: "NetworkPolicyObj list \<Rightarrow> string \<Rightarrow> string \<Rightarrow> go_error + NetworkPolicyObj" where
  "NetworkPolicies_Get indexer namespace name =
     (case find (\<lambda>p. namespace_key (npMeta p) = namespace @ ''/'' @ name) indexer of
        None \<Rightarrow> Inl (NewNotFound ''networkpolicy.networking.k8s.io'' name)
      | Some p \<Rightarrow> Inr p)"

text \<open>\<open>List(labels.Everything())\<close> of a namespace; the empty namespace stands for all.\<close>

definition NetworkPolicies_List :: "NetworkPolicyObj list \<Rightarrow> string \<Rightarrow> NetworkPolicyObj list" where
  "NetworkPolicies_List indexer namespace =
     (if namespace = [] then indexer else filter (\<lambda>p. Namespace (npMeta p) = namespace) indexer)"

section \<open>Data\<close>

definition GenieNetworkPolicy :: string where "GenieNetworkPolicy = ''genieNetworkPolicy''"

record NetworkPolicyController =
  networkPoliciesLister :: "NetworkPolicyObj list"
  logicalNwLister :: "LogicalNetwork list"
  iptable :: IPTables
  map_range :: "string list gomap \<Rightarrow> string list gomap"

record NetworkPolicy =
  NetworkSelector :: string
  PeerNetworks :: string

record NetworkPolicyInfo =
  piName :: string
  piNamespace :: string
  Networks :: "string list gomap option"

section \<open>The annotation\<close>

text \<open>\<open>json.Unmarshal\<close> into a slice of \<open>NetworkPolicy\<close>: field names match without regard to case, other
  members are skipped, and of two members for one field the later one counts.\<close>

fun policy_fields :: "(string \<times> json) list \<Rightarrow> NetworkPolicy \<Rightarrow> go_error + NetworkPolicy" where
  "policy_fields [] p = Inr p"
| "policy_fields ((k, v) # ms) p =
     (if fold_key k = ''networkselector'' then
        (case put_string v (NetworkSelector p) of
           Inl e \<Rightarrow> Inl e | Inr s \<Rightarrow> policy_fields ms (p\<lparr>NetworkSelector := s\<rparr>))
      else if fold_key k = ''peernetworks'' then
        (case put_string v (PeerNetworks p) of
           Inl e \<Rightarrow> Inl e | Inr s \<Rightarrow> policy_fields ms (p\<lparr>PeerNetworks := s\<rparr>))
      else policy_fields ms p)"

definition policy_element :: "json \<Rightarrow> go_error + NetworkPolicy" where
  "policy_element v =
     (let zero = \<lparr>NetworkSelector = [], PeerNetworks = []\<rparr>
      in case v of JObj ms \<Rightarrow> policy_fields ms zero | JNull \<Rightarrow> Inr zero | _ \<Rightarrow> Inl json_type_error)"

fun policy_elements :: "json list \<Rightarrow> go_error + NetworkPolicy list" where
  "policy_elements [] = Inr []"
| "policy_elements (v # vs) =
     (case policy_element v of
        Inl e \<Rightarrow> Inl e
      | Inr p \<Rightarrow> (case policy_elements vs of Inl e \<Rightarrow> Inl e | Inr ps \<Rightarrow> Inr (p # ps)))"

definition Unmarshal_policies :: "string \<Rightarrow> go_error + NetworkPolicy list" where
  "Unmarshal_policies annotation =
     (case json_parse annotation of
        None \<Rightarrow> Inl json_syntax_error
      | Some (JArr vs) \<Rightarrow> policy_elements vs
      | Some JNull \<Rightarrow> Inr []
      | Some _ \<Rightarrow> Inl json_type_error)"

text \<open>\<open>m[k]\<close> of a map of slices: nil where the key is missing. No slice of these maps is empty.\<close>

definition peers_of :: "string list gomap \<Rightarrow> string \<Rightarrow> string list" where
  "peers_of m k = (case map_of m k of None \<Rightarrow> [] | Some ps \<Rightarrow> ps)"

definition add_policy :: "NetworkPolicy \<Rightarrow> string list gomap \<Rightarrow> string list gomap" where
  "add_policy policy m =
     (if NetworkSelector policy \<noteq> []
      then map_put (NetworkSelector policy)
             (peers_of m (NetworkSelector policy) @ Split (PeerNetworks policy) '','') m
      else m)"

definition getLogicalNetworksFromAnnotation :: "string \<Rightarrow> go_error + string list gomap" where
  "getLogicalNetworksFromAnnotation annotation =
     (case Unmarshal_policies annotation of
        Inl e \<Rightarrow> Inl (Errorf_v ''Error while unmarshalling annotation: '' e)
      | Inr networkPolicies \<Rightarrow> Inr (fold add_policy networkPolicies []))"

section \<open>Policies of a network\<close>

text \<open>The entries one policy adds to the list: one with its networks when it selects the network, one
  without for every peer that names it.\<close>

definition policy_infos :: "NetworkPolicyController \<Rightarrow> string \<Rightarrow> NetworkPolicyObj \<Rightarrow> NetworkPolicyInfo list" where
  "policy_infos npc lnwname policy =
     (let m = npMeta policy; annotation = map_get (Annotations m) GenieNetworkPolicy
      in if Annotations m = None \<or> annotation = [] then []
         else
           let networks = (case getLogicalNetworksFromAnnotation annotation of Inl _ \<Rightarrow> None | Inr n \<Rightarrow> Some n);
               info = (\<lambda>n. \<lparr>piName = Name m, piNamespace = Namespace m, Networks = n\<rparr>);
               nw = (case networks of None \<Rightarrow> [] | Some n \<Rightarrow> n)
           in if lnwname \<noteq> [] then
                if Contains annotation lnwname then
                  if peers_of nw lnwname \<noteq> [] then [info networks]
                  else concat (map (\<lambda>(_, peers). map (\<lambda>_. info None) (filter (\<lambda>p. lnwname = TrimSpace p) peers))
                         (map_range npc nw))
                else []
              else [info networks])"

definition ListNetworkPolicies :: "NetworkPolicyController \<Rightarrow> string \<Rightarrow> string \<Rightarrow> NetworkPolicyInfo list" where
  "ListNetworkPolicies npc lnwname namespace =
     concat (map (policy_infos npc lnwname) (NetworkPolicies_List (networkPoliciesLister npc) namespace))"

definition getCidrFromNetwork :: "NetworkPolicyController \<Rightarrow> string \<Rightarrow> string \<Rightarrow> go_error + string" where
  "getCidrFromNetwork npc name namespace =
     (case LogicalNetworks_Get (logicalNwLister npc) namespace name of
        Inl e \<Rightarrow> Inl e
      | Inr lnw \<Rightarrow> Inr (SubSubnet (lnSpec lnw)))"

section \<open>Handlers\<close>

text \<open>A lister call inside a handler.\<close>

definition go_sum :: "go_error + 'a \<Rightarrow> ('s, 'a) go" where
  "go_sum x = (case x of Inl e \<Rightarrow> go_err e | Inr v \<Rightarrow> go_ret v)"

definition insertPeerRule :: "'k host \<Rightarrow> NetworkPolicyController \<Rightarrow> string \<Rightarrow> string \<Rightarrow> ('k, unit) go" where
  "insertPeerRule h npc policyChain subnet =
     (let add = (\<lambda>rulespec. go_wrap (Errorf_v (''Error adding rule (['' @ Join rulespec '' '' @ '']): ''))
                   (AppendUnique h (iptable npc) FilterTable policyChain rulespec))
      in go_bind (add [''-s'', subnet, ''-j'', ''ACCEPT'']) (\<lambda>_.
         add [''-d'', subnet, ''-j'', ''ACCEPT'']))"

text \<open>The peers of a policy that selects the added network.\<close>

definition add_peer :: "'k host \<Rightarrow> NetworkPolicyController \<Rightarrow> string \<Rightarrow> string \<Rightarrow> string \<Rightarrow> ('k, unit) go" where
  "add_peer h npc namespace policyChain p =
     (let peer = TrimSpace p
      in if peer \<noteq> [] then
           (case LogicalNetworks_Get (logicalNwLister npc) namespace peer of
              Inl e \<Rightarrow> go_ret ()
            | Inr peerNw \<Rightarrow> go_log (insertPeerRule h npc policyChain (SubSubnet (lnSpec peerNw))))
         else go_ret ())"

text \<open>The body of the loop of \<open>handleLogicalNetworkAdd\<close>. The error of \<open>AddNetworkChain\<close> is overwritten;
  the chain name it returns with an error is empty.\<close>

definition network_policy_info ::
  "'k host \<Rightarrow> NetworkPolicyController \<Rightarrow> LogicalNetwork \<Rightarrow> string \<Rightarrow> string \<Rightarrow> NetworkPolicyInfo \<Rightarrow> ('k, unit) go" where
  "network_policy_info h npc logicalNetwork name namespace policy =
     (let policyChain = CreateIptableChainName GeniePolicyPrefix (piName policy @ namespace)
      in case Networks policy of
           Some networks \<Rightarrow>
             go_bind (go_try (AddNetworkChain h (iptable npc) logicalNetwork)) (\<lambda>r.
             let lnChain = (case r of Inl _ \<Rightarrow> [] | Inr c \<Rightarrow> c) in
             go_bind (go_wrap (Errorf_v (''Error adding rule for policy ('' @ piName policy @ '') in network chain ('' @ lnChain
                        @ '') for logical network ('' @ name @ ''): ''))
                (InsertRule h (iptable npc) lnChain 1 [''-j'', policyChain])) (\<lambda>_.
             go_each (add_peer h npc namespace policyChain) (peers_of networks name)))
         | None \<Rightarrow> go_log (insertPeerRule h npc policyChain (SubSubnet (lnSpec logicalNetwork))))"

definition handleLogicalNetworkAdd :: "'k host \<Rightarrow> NetworkPolicyController \<Rightarrow> string \<Rightarrow> string \<Rightarrow> ('k, unit) go" where
  "handleLogicalNetworkAdd h npc name0 namespace =
     (let name = TrimSpace name0 in
      go_bind (go_wrap (Errorf_v (''Error while getting logical network ('' @ namespace @ '':'' @ name @ ''): ''))
                 (go_sum (LogicalNetworks_Get (logicalNwLister npc) namespace name))) (\<lambda>logicalNetwork.
      go_each (network_policy_info h npc logicalNetwork name namespace) (ListNetworkPolicies npc name namespace)))"

text \<open>The loop of \<open>populatePolicyChain\<close>: first the jump of the network's chain to the policy chain, then
  the rules for the peers.\<close>

definition populate_peer :: "'k host \<Rightarrow> NetworkPolicyController \<Rightarrow> string \<Rightarrow> string \<Rightarrow> string \<Rightarrow> ('k, unit) go" where
  "populate_peer h npc namespace nwPolicyChainName peer =
     (case LogicalNetworks_Get (logicalNwLister npc) namespace (TrimSpace peer) of
        Inl e \<Rightarrow> go_ret ()
      | Inr l \<Rightarrow> go_log (insertPeerRule h npc nwPolicyChainName (SubSubnet (lnSpec l))))"

definition populate_network ::
  "'k host \<Rightarrow> NetworkPolicyController \<Rightarrow> string \<Rightarrow> string \<Rightarrow> string \<times> string list \<Rightarrow> ('k, unit) go" where
  "populate_network h npc namespace nwPolicyChainName entry =
     (let nwSelector = TrimSpace (fst entry); peerNw = snd entry in
      if nwSelector \<noteq> [] then
        let lnChain = CreateIptableChainName GenieNetworkPrefix (nwSelector @ namespace) in
        go_bind (ExistsChain h (iptable npc) lnChain) (\<lambda>exists.
        go_bind (go_try (if exists = False
                         then handleLogicalNetworkAdd h npc nwSelector namespace
                         else InsertRule h (iptable npc) lnChain 1 [''-j'', nwPolicyChainName])) (\<lambda>r.
        case r of
          Inl err \<Rightarrow> go_ret ()
        | Inr _ \<Rightarrow> go_each (populate_peer h npc namespace nwPolicyChainName) peerNw))
      else go_ret ())"

definition populatePolicyChain ::
  "'k host \<Rightarrow> NetworkPolicyController \<Rightarrow> string \<Rightarrow> string \<Rightarrow> string \<Rightarrow> string list gomap \<Rightarrow> ('k, unit) go" where
  "populatePolicyChain h npc name namespace nwPolicyChainName networks =
     go_each (populate_network h npc namespace nwPolicyChainName) (map_range npc networks)"

text \<open>What the two policy handlers do first.\<close>

definition policy_networks :: "NetworkPolicyController \<Rightarrow> string \<Rightarrow> string \<Rightarrow> ('k, string list gomap) go" where
  "policy_networks npc policyName policyNamespace =
     go_bind (go_wrap (Errorf_v (''Failed to get network policy object '' @ policyName @ '' in namespace '' @ policyNamespace @ '': ''))
                (go_sum (NetworkPolicies_Get (networkPoliciesLister npc) policyNamespace policyName))) (\<lambda>networkPolicy.
     go_wrap (Errorf_v (''Error while unmarshalling logical networks info from annotation of policy object ''
                @ Name (npMeta networkPolicy) @ '': ''))
       (go_sum (getLogicalNetworksFromAnnotation (map_get (Annotations (npMeta networkPolicy)) GenieNetworkPolicy))))"

definition handleNetworkPolicyAdd :: "'k host \<Rightarrow> NetworkPolicyController \<Rightarrow> string \<Rightarrow> string \<Rightarrow> ('k, unit) go" where
  "handleNetworkPolicyAdd h npc policyName policyNamespace =
     go_bind (policy_networks npc policyName policyNamespace) (\<lambda>networks.
     go_bind (go_wrap (Errorf_v (''Error adding policy chain for network policy object ('' @ policyNamespace @ '':'' @ policyName @ ''): ''))
                (AddPolicyChain h (iptable npc) policyName policyNamespace)) (\<lambda>nwPolicyChainName.
     go_when (networks \<noteq> []) (populatePolicyChain h npc policyName policyNamespace nwPolicyChainName networks)))"

text \<open>The loop of \<open>handleNetworkPolicyUpdate\<close> over the base chain for a policy without networks; \<open>m\<close>
  holds the chains already visited.\<close>

definition last_network_token :: "string list \<Rightarrow> string" where
  "last_network_token splitRule =
     fold (\<lambda>p lnChain. if Contains p GenieNetworkPrefix then p else lnChain) splitRule []"

fun unlink_policy :: "'k host \<Rightarrow> NetworkPolicyController \<Rightarrow> string \<Rightarrow> string list \<Rightarrow> string list \<Rightarrow> ('k, unit) go" where
  "unlink_policy h npc policyChain m [] = go_ret ()"
| "unlink_policy h npc policyChain m (rule # rules) =
     (if Contains rule GenieNetworkPrefix then
        let lnChain = last_network_token (Split rule '' '')
        in if lnChain \<notin> set m
           then go_bind (go_try (DeleteNetworkChainRule h (iptable npc) lnChain policyChain))
                  (\<lambda>_. unlink_policy h npc policyChain (lnChain # m) rules)
           else unlink_policy h npc policyChain m rules
      else unlink_policy h npc policyChain m rules)"

definition handleNetworkPolicyUpdate :: "'k host \<Rightarrow> NetworkPolicyController \<Rightarrow> string \<Rightarrow> string \<Rightarrow> ('k, unit) go" where
  "handleNetworkPolicyUpdate h npc policyName policyNamespace =
     go_bind (policy_networks npc policyName policyNamespace) (\<lambda>networks.
     go_bind (go_wrap (Errorf_v (''Error reseting policy chain for network policy object ('' @ policyNamespace @ '':'' @ policyName @ ''): ''))
                (AddPolicyChain h (iptable npc) policyName policyNamespace)) (\<lambda>policyChain.
     if networks \<noteq> [] then populatePolicyChain h npc policyName policyNamespace policyChain networks
     else
       go_bind (go_wrap (Errorf_v ''Failed to list rules for Genie base chain: '')
                  (ListRules h (iptable npc) FilterTable GenieBaseNPCChain)) (\<lambda>rules.
       unlink_policy h npc policyChain [] rules)))"

definition handleNetworkPolicyDelete ::
  "'k host \<Rightarrow> NetworkPolicyController \<Rightarrow> string \<Rightarrow> string \<Rightarrow> string \<Rightarrow> ('k, unit) go" where
  "handleNetworkPolicyDelete h npc policyName policyNamespace annotation =
     go_bind (go_sum (getLogicalNetworksFromAnnotation annotation)) (\<lambda>logicalNetworks.
     let policyChain = CreateIptableChainName GeniePolicyPrefix (policyName @ policyNamespace) in
     go_bind (go_each (\<lambda>lnw.
         let nwChain = CreateIptableChainName GenieNetworkPrefix (TrimSpace lnw @ policyNamespace)
         in go_log (DeleteNetworkChainRule h (iptable npc) nwChain policyChain))
       (map fst (map_range npc logicalNetworks))) (\<lambda>_.
     go_wrap (Errorf_v (''Error while deleting iptable chain '' @ policyChain @ '' for network policy ('' @ policyNamespace @ '':'' @ policyName @ ''): ''))
       (DeleteIptableChain h (iptable npc) FilterTable policyChain)))"

text \<open>The loop of \<open>handleLogicalNetworkUpdate\<close>; the rule it deletes is number \<open>i\<close>.\<close>

fun replace_base_rules ::
  "'k host \<Rightarrow> NetworkPolicyController \<Rightarrow> string \<Rightarrow> string \<Rightarrow> string \<Rightarrow> string list list \<Rightarrow> string list \<Rightarrow> int \<Rightarrow> nat \<Rightarrow> ('k, unit) go" where
  "replace_base_rules h npc name namespace lnChain rulespec [] pos i = go_ret ()"
| "replace_base_rules h npc name namespace lnChain rulespec (rule # rules) pos i =
     (if Contains rule lnChain then
        go_bind (go_wrap (Errorf_v (''Error deleting rule for logical network ('' @ namespace @ '':'' @ name @ '') from base chain: ''))
                   (Delete h (iptable npc) FilterTable GenieBaseNPCChain [Itoa (int i)])) (\<lambda>_.
        go_bind (go_wrap (Errorf_v (''Error inserting rule for logical network ('' @ name @ '':'' @ namespace @ '') in base chain: ''))
                   (Insert h (iptable npc) FilterTable GenieBaseNPCChain pos (rulespec ! i))) (\<lambda>_.
        if i + 1 = 2 then go_ret ()
        else replace_base_rules h npc name namespace lnChain rulespec rules (pos + 1) (i + 1)))
      else replace_base_rules h npc name namespace lnChain rulespec rules (pos + 1) i)"

definition handleLogicalNetworkUpdate :: "'k host \<Rightarrow> NetworkPolicyController \<Rightarrow> string \<Rightarrow> string \<Rightarrow> ('k, unit) go" where
  "handleLogicalNetworkUpdate h npc name namespace =
     go_bind (go_wrap (Errorf_v (''Error while getting logical network ('' @ namespace @ '':'' @ name @ ''): ''))
                (go_sum (LogicalNetworks_Get (logicalNwLister npc) namespace name))) (\<lambda>logicalNetwork.
     let lnChain = CreateIptableChainName GenieNetworkPrefix (name @ namespace) in
     go_bind (go_wrap (Errorf_v ''Error listing Genie base npc chain rules: '')
                (ListRules h (iptable npc) FilterTable GenieBaseNPCChain)) (\<lambda>baseChainRules.
     let rulespec = [[''-d'', SubSubnet (lnSpec logicalNetwork), ''-j'', lnChain],
                     [''-s'', SubSubnet (lnSpec logicalNetwork), ''-j'', lnChain]]
     in replace_base_rules h npc name namespace lnChain rulespec baseChainRules 0 0))"

text \<open>The loop of \<open>handleLogicalNetworkDelete\<close> over the lines of a policy chain.\<close>

fun delete_subnet_rules ::
  "'k host \<Rightarrow> NetworkPolicyController \<Rightarrow> string \<Rightarrow> string \<Rightarrow> string list \<Rightarrow> int \<Rightarrow> nat \<Rightarrow> ('k, unit) go" where
  "delete_subnet_rules h npc policyChain subnet [] pos cnt = go_ret ()"
| "delete_subnet_rules h npc policyChain subnet (rule # rules) pos cnt =
     (if Contains rule subnet
      then go_bind (go_try (Delete h (iptable npc) FilterTable policyChain [Itoa pos])) (\<lambda>r.
             let pos' = (case r of Inl _ \<Rightarrow> pos | Inr _ \<Rightarrow> pos - 1); cnt' = cnt + 1
             in if cnt' = 2 then go_ret () else delete_subnet_rules h npc policyChain subnet rules (pos' + 1) cnt')
      else if cnt = 2 then go_ret () else delete_subnet_rules h npc policyChain subnet rules (pos + 1) cnt)"

definition network_delete_info ::
  "'k host \<Rightarrow> NetworkPolicyController \<Rightarrow> string \<Rightarrow> string \<Rightarrow> string \<Rightarrow> NetworkPolicyInfo \<Rightarrow> ('k, unit) go" where
  "network_delete_info h npc name namespace subnet policy =
     (case Networks policy of
        Some _ \<Rightarrow>
          go_wrap (Errorf_v (''Error while deleting iptable chain for logical network ('' @ namespace @ '':'' @ name @ ''): ''))
            (DeleteNetworkChain h (iptable npc) (CreateIptableChainName GenieNetworkPrefix (name @ namespace)))
      | None \<Rightarrow>
          let policyChain = CreateIptableChainName GeniePolicyPrefix (piName policy @ piNamespace policy) in
          go_bind (go_try (ListRules h (iptable npc) FilterTable policyChain)) (\<lambda>r.
          case r of
            Inl err \<Rightarrow> go_ret ()
          | Inr plcRules \<Rightarrow> delete_subnet_rules h npc policyChain subnet plcRules 0 0))"

definition handleLogicalNetworkDelete ::
  "'k host \<Rightarrow> NetworkPolicyController \<Rightarrow> string \<Rightarrow> string \<Rightarrow> string \<Rightarrow> ('k, unit) go" where
  "handleLogicalNetworkDelete h npc name namespace subnet =
     go_each (network_delete_info h npc name namespace subnet) (ListNetworkPolicies npc name namespace)"

section \<open>Dispatch\<close>

definition unmarshalKeyActionJson :: "string \<Rightarrow> go_error + string gomap option" where
  "unmarshalKeyActionJson key = Unmarshal_string_map key"

definition syncHandler :: "'k host \<Rightarrow> NetworkPolicyController \<Rightarrow> string \<Rightarrow> ('k, unit) go" where
  "syncHandler h npc key =
     (case unmarshalKeyActionJson key of
        Inl e \<Rightarrow> go_err (Errorf_v ''Error while unmarshalling action parameters: '' e)
      | Inr keyaction \<Rightarrow>
          let kind = map_get keyaction ''kind''; action = map_get keyaction ''action'';
              name = map_get keyaction ''name''; namespace = map_get keyaction ''namespace'';
              args = map_get keyaction ''args''
          in if kind = ''networkpolicy'' then
               if action = ''ADD'' then handleNetworkPolicyAdd h npc name namespace
               else if action = ''UPDATE'' then handleNetworkPolicyUpdate h npc name namespace
               else if action = ''DELETE'' then handleNetworkPolicyDelete h npc name namespace args
               else go_ret ()
             else if kind = ''logicalnetwork'' then
               if action = ''ADD'' then handleLogicalNetworkAdd h npc name namespace
               else if action = ''UPDATE'' then handleLogicalNetworkUpdate h npc name namespace
               else if action = ''DELETE'' then handleLogicalNetworkDelete h npc name namespace args
               else go_ret ()
             else go_ret ())"

end
