(* ===== verification/Listers.thy ===== *)
theory Listers
  imports CacheStoreFacts NetworkPolicy
begin

text \<open>
  The generated listers: \<^verbatim>\<open>client/listers/network/v1/logicalnetwork.go\<close> and the lister of network
  policies of \<^verbatim>\<open>k8s.io/client-go\<close>, which has the same text for its type. They read the store of an
  informer through its interface and assert the type of every object they return. Over a store that
  holds objects of that type only they do not panic, and they return what the handlers of
  \<open>NetworkPolicy\<close> read from a snapshot of the store.
\<close>

section \<open>The shape of a lister\<close>

text \<open>\<open>ret = append(ret, m.(*T))\<close>.\<close>

definition append_as :: "(cache_obj \<Rightarrow> 'o option) \<Rightarrow> cache_obj \<Rightarrow> ('o list, unit) go" where
  "append_as as m ret =
     (case as m of None \<Rightarrow> (Panic ''interface conversion: interface {}'', ret) | Some x \<Rightarrow> (Ret (), ret @ [x]))"

text \<open>\<open>return ret, err\<close>: what was appended is returned with the error.\<close>

definition list_result :: "unit go_res \<times> 'o list \<Rightarrow> ('o list \<times> go_error option) go_res" where
  "list_result r =
     (case fst r of Ret _ \<Rightarrow> Ret (snd r, None) | Err e \<Rightarrow> Ret (snd r, Some e) | Panic p \<Rightarrow> Panic p)"

definition get_as :: "(cache_obj \<Rightarrow> 'o option) \<Rightarrow> go_error \<Rightarrow> 'c Indexer \<Rightarrow> 'c \<Rightarrow> string \<Rightarrow> 'o go_res" where
  "get_as as missing ix c key =
     (case ix_GetByKey ix key c of
        Inl e \<Rightarrow> Err e
      | Inr None \<Rightarrow> Err missing
      | Inr (Some obj) \<Rightarrow> (case as obj of None \<Rightarrow> Panic ''interface conversion: interface {}'' | Some x \<Rightarrow> Ret x))"

section \<open>client/listers/network/v1/logicalnetwork.go\<close>

definition as_LN :: "cache_obj \<Rightarrow> LogicalNetwork option" where
  "as_LN obj = (case obj of ObjLN l \<Rightarrow> Some l | _ \<Rightarrow> None)"

record 'c logicalNetworkLister =
  lnl_indexer :: "'c Indexer"

record 'c logicalNetworkNamespaceLister =
  lnnl_indexer :: "'c Indexer"
  lnnl_namespace :: string

definition NewLogicalNetworkLister :: "'c Indexer \<Rightarrow> 'c logicalNetworkLister" where
  "NewLogicalNetworkLister ix = \<lparr>lnl_indexer = ix\<rparr>"

definition logicalNetworkLister_List ::
  "'c logicalNetworkLister \<Rightarrow> selector \<Rightarrow> 'c \<Rightarrow> (LogicalNetwork list \<times> go_error option) go_res" where
  "logicalNetworkLister_List s selector c = list_result (ListAll (lnl_indexer s) c selector (append_as as_LN) [])"

definition logicalNetworkLister_LogicalNetworks :: "'c logicalNetworkLister \<Rightarrow> string \<Rightarrow> 'c logicalNetworkNamespaceLister" where
  "logicalNetworkLister_LogicalNetworks s namespace = \<lparr>lnnl_indexer = lnl_indexer s, lnnl_namespace = namespace\<rparr>"

definition logicalNetworkNamespaceLister_List ::
  "'c logicalNetworkNamespaceLister \<Rightarrow> selector \<Rightarrow> 'c \<Rightarrow> (LogicalNetwork list \<times> go_error option) go_res" where
  "logicalNetworkNamespaceLister_List s selector c =
     list_result (ListAllByNamespace (lnnl_indexer s) c (lnnl_namespace s) selector (append_as as_LN) [])"

definition logicalNetworkNamespaceLister_Get :: "'c logicalNetworkNamespaceLister \<Rightarrow> string \<Rightarrow> 'c \<Rightarrow> LogicalNetwork go_res" where
  "logicalNetworkNamespaceLister_Get s name c =
     get_as as_LN (NewNotFound ''logicalnetwork.alpha.network.k8s.io'' name) (lnnl_indexer s) c (lnnl_namespace s @ ''/'' @ name)"

section \<open>The lister of network policies\<close>

definition as_NP :: "cache_obj \<Rightarrow> NetworkPolicyObj option" where
  "as_NP obj = (case obj of ObjNP n \<Rightarrow> Some n | _ \<Rightarrow> None)"

record 'c networkPolicyNamespaceLister =
  npnl_indexer :: "'c Indexer"
  npnl_namespace :: string

definition networkPolicyNamespaceLister_List ::
  "'c networkPolicyNamespaceLister \<Rightarrow> selector \<Rightarrow> 'c \<Rightarrow> (NetworkPolicyObj list \<times> go_error option) go_res" where
  "networkPolicyNamespaceLister_List s selector c =
     list_result (ListAllByNamespace (npnl_indexer s) c (npnl_namespace s) selector (append_as as_NP) [])"

definition networkPolicyNamespaceLister_Get :: "'c networkPolicyNamespaceLister \<Rightarrow> string \<Rightarrow> 'c \<Rightarrow> NetworkPolicyObj go_res" where
  "networkPolicyNamespaceLister_Get s name c =
     get_as as_NP (NewNotFound ''networkpolicy.networking.k8s.io'' name) (npnl_indexer s) c (npnl_namespace s @ ''/'' @ name)"

section \<open>Over a store of one type\<close>

text \<open>The objects of the type, in the order in which the store lists them.\<close>

definition snapshot :: "(cache_obj \<Rightarrow> 'o option) \<Rightarrow> 'c Indexer \<Rightarrow> 'c \<Rightarrow> 'o list" where
  "snapshot as ix c = List.map_filter as (ix_List ix c)"

definition all_as :: "(cache_obj \<Rightarrow> 'o option) \<Rightarrow> (string \<rightharpoonup> cache_obj) \<Rightarrow> bool" where
  "all_as as contents \<longleftrightarrow> (\<forall>k obj. contents k = Some obj \<longrightarrow> as obj \<noteq> None)"

lemma each_append_as:
  assumes "\<And>x. as (wrap x) = Some x" "\<And>x. Accessor (wrap x) = Inr (md x)"
  shows "go_each (append_if matches (append_as as)) (map wrap xs) ret = (Ret (), ret @ filter (\<lambda>x. matches (md x)) xs)"
proof (induction xs arbitrary: ret)
  case (Cons x xs)
  then show ?case
    using assms by (simp add: go_each_Cons append_if_def append_as_def go_simps)
qed (simp add: go_ret_def)

lemma find_distinct_key:
  assumes "distinct ks" "\<And>k. k \<in> set ks \<Longrightarrow> key (f k) = k"
  shows "find (\<lambda>x. key x = k0) (map f ks) = (if k0 \<in> set ks then Some (f k0) else None)"
  using assms by (induction ks) auto

text \<open>A store whose contents all have one type: \<open>as\<close> is the type assertion and \<open>wrap\<close> the conversion to
  an interface value.\<close>

locale typed_indexer = indexer_laws ix inv contents
  for ix :: "'c Indexer" and inv :: "'c \<Rightarrow> bool" and contents :: "'c \<Rightarrow> string \<rightharpoonup> cache_obj" +
  fixes as :: "cache_obj \<Rightarrow> 'o option" and wrap :: "'o \<Rightarrow> cache_obj" and md :: "'o \<Rightarrow> ObjectMeta"
  assumes as_wrap: "as obj = Some x \<longleftrightarrow> obj = wrap x" and wrap_meta: "Accessor (wrap x) = Inr (md x)"
begin

lemma wrap_eq: "wrap x = wrap y \<longleftrightarrow> x = y"
  by (metis as_wrap option.inject)

lemma List_typed:
  assumes "inv c" "all_as as (contents c)"
  obtains ks f where "distinct ks" "set ks = dom (contents c)" "\<forall>k \<in> set ks. contents c k = Some (wrap (f k))" "\<forall>k \<in> set ks. namespace_key (md (f k)) = k"
    "ix_List ix c = map wrap (map f ks)" "snapshot as ix c = map f ks"
proof -
  obtain ks where ks: "distinct ks" "set ks = dom (contents c)" "ix_List ix c = map (\<lambda>k. the (contents c k)) ks"
    using List_law[OF assms(1)] by blast
  let ?f = "\<lambda>k. the (as (the (contents c k)))"
  have f: "contents c k = Some (wrap (?f k)) \<and> namespace_key (md (?f k)) = k" if k: "k \<in> set ks" for k
  proof -
    from k ks(2) obtain obj where obj: "contents c k = Some obj" by auto
    with assms(2) obtain x where "as obj = Some x" by (auto simp: all_as_def)
    then have "obj = wrap x" by (simp add: as_wrap)
    moreover obtain m where "Accessor obj = Inr m" "namespace_key m = k" using contents_key[OF assms(1) obj] by blast
    moreover have "?f k = x" using obj \<open>as obj = Some x\<close> by simp
    ultimately show ?thesis using obj wrap_meta[of x] by simp
  qed
  have l: "ix_List ix c = map wrap (map ?f ks)"
    unfolding ks(3) map_map comp_def by (rule map_cong[OF refl]) (use f in \<open>fastforce dest: arg_cong[where f = the]\<close>)
  have m: "List.map_filter as (map wrap xs) = xs" for xs
    by (induction xs) (simp_all add: List.map_filter_simps as_wrap[THEN iffD2, OF refl])
  have "snapshot as ix c = map ?f ks" unfolding snapshot_def l m ..
  with f show thesis by (intro that[OF ks(1,2) _ _ l] ballI) blast+
qed

lemma get_as_snapshot:
  assumes "inv c" "all_as as (contents c)"
  shows "get_as as missing ix c key =
    (case find (\<lambda>x. namespace_key (md x) = key) (snapshot as ix c) of None \<Rightarrow> Err missing | Some x \<Rightarrow> Ret x)"
proof -
  obtain ks f where ks: "distinct ks" "set ks = dom (contents c)" "\<forall>k \<in> set ks. contents c k = Some (wrap (f k))" "\<forall>k \<in> set ks. namespace_key (md (f k)) = k"
    "ix_List ix c = map wrap (map f ks)" "snapshot as ix c = map f ks" by (rule List_typed[OF assms])
  have "find (\<lambda>x. namespace_key (md x) = key) (snapshot as ix c) = (if key \<in> set ks then Some (f key) else None)"
    unfolding ks(6) by (rule find_distinct_key[OF ks(1)]) (rule ks(4)[rule_format])
  moreover have "contents c key = (if key \<in> set ks then Some (wrap (f key)) else None)" using ks(2,3) by auto
  ultimately show ?thesis
    by (simp add: get_as_def GetByKey_law[OF assms(1)] as_wrap[THEN iffD2, OF refl])
qed

lemma ListAll_snapshot:
  assumes "inv c" "all_as as (contents c)"
  shows "list_result (ListAll ix c selector (append_as as) []) = Ret (filter (\<lambda>x. selector (Labels (md x))) (snapshot as ix c), None)"
proof -
  obtain ks f where ks: "distinct ks" "set ks = dom (contents c)" "\<forall>k \<in> set ks. contents c k = Some (wrap (f k))" "\<forall>k \<in> set ks. namespace_key (md (f k)) = k"
    "ix_List ix c = map wrap (map f ks)" "snapshot as ix c = map f ks" by (rule List_typed[OF assms])
  from ks(5,6) show ?thesis
    using each_append_as[of as wrap md "\<lambda>m. selector (Labels m)" "map f ks" "[]"] wrap_meta as_wrap
    by (simp add: ListAll_def list_result_def)
qed

lemma ListAllByNamespace_snapshot:
  assumes "inv c" "all_as as (contents c)" "ns \<noteq> []"
  shows "\<exists>xs. list_result (ListAllByNamespace ix c ns selector (append_as as) []) = Ret (xs, None)
    \<and> mset xs = mset (filter (\<lambda>x. Namespace (md x) = ns \<and> selector (Labels (md x))) (snapshot as ix c))"
proof -
  obtain ks f where ks: "distinct ks" "set ks = dom (contents c)" "\<forall>k \<in> set ks. contents c k = Some (wrap (f k))" "\<forall>k \<in> set ks. namespace_key (md (f k)) = k"
    "ix_List ix c = map wrap (map f ks)" "snapshot as ix c = map f ks" by (rule List_typed[OF assms(1,2)])
  have "Accessor (ObjMeta (meta_in ns)) = Inr (meta_in ns)" by (simp add: Accessor_def)
  from Index_law[OF assms(1) this] obtain js where js: "distinct js"
      "set js = {k. \<exists>o' m'. contents c k = Some o' \<and> Accessor o' = Inr m' \<and> Namespace m' = ns}"
      "ix_Index ix NamespaceIndex (ObjMeta (meta_in ns)) c = Inr (map (\<lambda>k. the (contents c k)) js)"
    by (auto simp: meta_in_def)
  have sub: "set js = {k \<in> set ks. Namespace (md (f k)) = ns}"
  proof (intro set_eqI)
    fix k
    show "k \<in> set js \<longleftrightarrow> k \<in> {k \<in> set ks. Namespace (md (f k)) = ns}"
    proof (cases "k \<in> set ks")
      case True
      then show ?thesis using ks(3) True wrap_meta[of "f k"] by (simp add: js(2))
    next
      case False
      then have "contents c k = None" using ks(2) by auto
      with False show ?thesis by (simp add: js(2))
    qed
  qed
  have m: "mset js = mset (filter (\<lambda>k. Namespace (md (f k)) = ns) ks)"
    using sub js(1) ks(1) by (intro set_eq_iff_mset_eq_distinct[THEN iffD1]) auto
  have i: "map (\<lambda>k. the (contents c k)) js = map wrap (map f js)" using sub ks(3) by simp
  let ?P = "\<lambda>x. selector (Labels (md x))"
  have "mset (filter ?P (map f js)) = filter_mset ?P (image_mset f (mset js))" by (simp flip: mset_filter mset_map)
  also have "\<dots> = mset (filter ?P (map f (filter (\<lambda>k. Namespace (md (f k)) = ns) ks)))" unfolding m by (simp flip: mset_filter mset_map)
  also have "filter ?P (map f (filter (\<lambda>k. Namespace (md (f k)) = ns) ks)) = filter (\<lambda>x. Namespace (md x) = ns \<and> ?P x) (map f ks)"
    by (induction ks) auto
  finally have e: "mset (filter ?P (map f js)) = mset (filter (\<lambda>x. Namespace (md x) = ns \<and> ?P x) (map f ks))" .
  show ?thesis
    using each_append_as[of as wrap md "\<lambda>m. selector (Labels m)" "map f js" "[]"] wrap_meta as_wrap assms(3) e
    by (intro exI[of _ "filter ?P (map f js)"]) (simp add: ListAllByNamespace_def js(3) i list_result_def ks(6))
qed

end

text \<open>The two listers on the store of an informer, in every order of its maps.\<close>

sublocale map_order \<subseteq> ln: typed_indexer "cache_ops visit DeletionHandlingMetaNamespaceKeyFunc" store_ok "\<lambda>c. map_of (items c)"
  as_LN ObjLN lnMeta
  by unfold_locales (auto simp: as_LN_def Accessor_def split: cache_obj.splits)

sublocale map_order \<subseteq> np: typed_indexer "cache_ops visit DeletionHandlingMetaNamespaceKeyFunc" store_ok "\<lambda>c. map_of (items c)"
  as_NP ObjNP npMeta
  by unfold_locales (auto simp: as_NP_def Accessor_def split: cache_obj.splits)

end
