(* ===== verification/JsonFacts.thy ===== *)
theory JsonFacts
  imports Json
begin

text \<open>
  Facts about the JSON model: the fuel of the parser is enough, and what \<open>Marshal\<close> writes of a map of
  valid UTF-8 strings is read back.
\<close>

section \<open>The parser consumes its input\<close>

lemma length_skip_ws: "length (skip_ws s) \<le> length s"
  by (simp add: skip_ws_def length_dropWhile_le)

lemma str_unit_length: "str_unit (c # t) = Some (bs, n) \<Longrightarrow> 0 < n"
  by (auto simp: str_unit_def utf8_len_def split: if_splits list.splits option.splits prod.splits)

lemma str_body_length: "str_body s = Some (v, r) \<Longrightarrow> length r < length s"
proof (induction s arbitrary: v r rule: str_body.induct)
  case (1 s)
  show ?case
  proof (cases s)
    case Nil
    then show ?thesis using "1.prems" by (simp add: str_body.simps)
  next
    case (Cons c t)
    show ?thesis
    proof (cases "c = CHR 0x22")
      case True
      then show ?thesis using "1.prems" Cons str_body.simps[of "c # t"] by simp
    next
      case False
      with "1.prems" Cons obtain bs n rest where u: "str_unit (c # t) = Some (bs, n)"
          "str_body (drop (n - 1) t) = Some (rest, r)"
        by (auto simp: str_body.simps[of "c # t"] split: option.splits)
      from "1.IH"[OF Cons False u(1)[folded Cons] refl u(2)] Cons show ?thesis by simp
    qed
  qed
qed

lemma strip_length: "strip p s = Some r \<Longrightarrow> p \<noteq> [] \<Longrightarrow> length r < length s"
  by (auto simp: strip_def prefix_def split: if_splits)

lemma num_part_length:
  "num_sign g s = (v, r) \<Longrightarrow> length r \<le> length s"
  "num_int s = Some (v, r) \<Longrightarrow> length r < length s"
  "num_frac s = Some (v, r) \<Longrightarrow> length r \<le> length s"
  "num_exp s = Some (v, r) \<Longrightarrow> length r \<le> length s"
proof -
  have d: "length (dropWhile digit x) \<le> length x" for x by (rule length_dropWhile_le)
  have sg: "num_sign g s = (v, r) \<Longrightarrow> length r \<le> length s" for g s v r
    by (auto simp: num_sign_def split: list.splits if_splits)
  then show "num_sign g s = (v, r) \<Longrightarrow> length r \<le> length s" .
  show "num_int s = Some (v, r) \<Longrightarrow> length r < length s"
    using d by (auto simp: num_int_def less_Suc_eq_le split: list.splits if_splits)
  show "num_frac s = Some (v, r) \<Longrightarrow> length r \<le> length s"
    using d by (auto simp: num_frac_def le_Suc_eq split: list.splits if_splits)
  show "num_exp s = Some (v, r) \<Longrightarrow> length r \<le> length s"
    using d sg by (fastforce simp: num_exp_def split: list.splits if_splits prod.splits intro: le_SucI order_trans)
qed

lemma num_lit_length: "num_lit s = Some (v, r) \<Longrightarrow> length r < length s"
  by (auto simp: num_lit_def split: prod.splits option.splits)
     (meson num_part_length le_less_trans less_le_trans)

lemma atom_length: "atom s = Some (v, r) \<Longrightarrow> length r < length s"
  using num_lit_length str_body_length strip_length
  by (fastforce simp: atom_def split: list.splits if_splits)

lemma member_key_length:
  assumes "member_key s = Some (k, r)"
  shows "length r < length s"
proof -
  obtain c t where t: "skip_ws s = c # t" "c = CHR 0x22"
    using assms by (auto simp: member_key_def split: list.splits if_splits)
  then obtain r1 r2 d where r: "str_body t = Some (k, r1)" "skip_ws r1 = d # r2" "r = r2"
    using assms by (auto simp: member_key_def split: list.splits if_splits option.splits)
  show ?thesis
    using length_skip_ws[of s] length_skip_ws[of r1] str_body_length[OF r(1)] t r by simp
qed

section \<open>Fuel\<close>

text \<open>
  A parse that succeeds with some fuel succeeds, with the same result, with as much fuel as the number
  of bytes it consumes. So the length of the text is always enough: no document is refused for want of
  fuel.
\<close>

definition fueled :: "(nat \<Rightarrow> string \<Rightarrow> ('v \<times> string) option) \<Rightarrow> nat \<Rightarrow> string \<Rightarrow> bool" where
  "fueled p n s \<longleftrightarrow>
     (\<forall>v r. p n s = Some (v, r) \<longrightarrow> length r < length s \<and> (\<forall>m. length s - length r \<le> m \<longrightarrow> p m s = Some (v, r)))"

lemma fueledD:
  assumes "fueled p n s" "p n s = Some (v, r)"
  shows "length r < length s" "length s - length r \<le> m \<Longrightarrow> p m s = Some (v, r)"
  using assms by (auto simp: fueled_def)

lemma fueledI:
  assumes "\<And>v r. p (Suc n) s = Some (v, r) \<Longrightarrow>
     length r < length s \<and> (\<forall>m. length s - length r \<le> Suc m \<longrightarrow> p (Suc m) s = Some (v, r))"
  shows "fueled p (Suc n) s"
  unfolding fueled_def
proof (intro allI impI conjI)
  fix v r
  assume p: "p (Suc n) s = Some (v, r)"
  then show l: "length r < length s" using assms by blast
  fix m
  assume "length s - length r \<le> m"
  with l obtain m' where "m = Suc m'" by (cases m) auto
  with \<open>length s - length r \<le> m\<close> show "p m s = Some (v, r)" using assms[OF p] by blast
qed

lemma fueled_value_step:
  assumes e: "\<And>s. fueled parse_elems n s" and m: "\<And>s. fueled parse_members n s"
  shows "fueled parse_value (Suc n) s"
proof (rule fueledI)
  fix v r
  assume p: "parse_value (Suc n) s = Some (v, r)"
  then obtain c t where ct: "skip_ws s = c # t" by (auto split: list.splits)
  have ls: "Suc (length t) \<le> length s" using length_skip_ws[of s] ct by simp
  consider (atom) "c \<noteq> CHR ''[''" "c \<noteq> CHR ''{''" | (arr) "c = CHR ''[''" | (obj) "c = CHR ''{''" by blast
  then show "length r < length s \<and> (\<forall>m. length s - length r \<le> Suc m \<longrightarrow> parse_value (Suc m) s = Some (v, r))"
  proof cases
    case atom
    then have "atom (c # t) = Some (v, r)" using p ct by simp
    moreover from this have "length r < length s" using atom_length ls by fastforce
    ultimately show ?thesis using atom ct by simp
  next
    case arr
    then obtain d t' where d: "skip_ws t = d # t'" using p ct by (auto split: list.splits)
    have "length t' < length t" using length_skip_ws[of t] d by simp
    show ?thesis
    proof (cases "d = CHR '']''")
      case True
      then show ?thesis using p ct arr d ls \<open>length t' < length t\<close> by auto
    next
      case False
      with p ct arr d obtain vs where vs: "parse_elems n t = Some (vs, r)" "v = JArr vs" by auto
      note f = fueledD[OF e vs(1)]
      then show ?thesis using ls ct arr d False vs(2) by auto
    qed
  next
    case obj
    then obtain d t' where d: "skip_ws t = d # t'" using p ct by (auto split: list.splits)
    have "length t' < length t" using length_skip_ws[of t] d by simp
    show ?thesis
    proof (cases "d = CHR ''}''")
      case True
      then show ?thesis using p ct obj d ls \<open>length t' < length t\<close> by auto
    next
      case False
      with p ct obj d obtain ms where ms: "parse_members n t = Some (ms, r)" "v = JObj ms" by auto
      note f = fueledD[OF m ms(1)]
      then show ?thesis using ls ct obj d False ms(2) by auto
    qed
  qed
qed

lemma fueled_elems_step:
  assumes v: "\<And>s. fueled parse_value n s" and e: "\<And>s. fueled parse_elems n s"
  shows "fueled parse_elems (Suc n) s"
proof (rule fueledI)
  fix xs r
  assume p: "parse_elems (Suc n) s = Some (xs, r)"
  then obtain x r1 d r2 where x: "parse_value n s = Some (x, r1)" "skip_ws r1 = d # r2"
    by (auto split: option.splits list.splits)
  note fv = fueledD[OF v x(1)]
  have l: "Suc (length r2) \<le> length r1" using length_skip_ws[of r1] x(2) by simp
  show "length r < length s \<and> (\<forall>m. length s - length r \<le> Suc m \<longrightarrow> parse_elems (Suc m) s = Some (xs, r))"
  proof (cases "d = CHR '']''")
    case True
    then have "xs = [x]" "r = r2" using p x by auto
    then show ?thesis using fv l x(2) True by auto
  next
    case False
    with p x obtain ys where ys: "d = CHR '',''" "parse_elems n r2 = Some (ys, r)" "xs = x # ys"
      by (auto split: if_splits)
    note fe = fueledD[OF e ys(2)]
    show ?thesis
    proof (intro conjI allI impI)
      show "length r < length s" using fv(1) fe(1) l by simp
      fix m
      assume m: "length s - length r \<le> Suc m"
      have "parse_value m s = Some (x, r1)" using fv(1) fe(1) l m by (intro fv(2)) simp
      moreover have "parse_elems m r2 = Some (ys, r)" using fv(1) fe(1) l m by (intro fe(2)) simp
      ultimately show "parse_elems (Suc m) s = Some (xs, r)" using x(2) ys False by simp
    qed
  qed
qed

lemma fueled_members_step:
  assumes v: "\<And>s. fueled parse_value n s" and ms: "\<And>s. fueled parse_members n s"
  shows "fueled parse_members (Suc n) s"
proof (rule fueledI)
  fix xs r
  assume p: "parse_members (Suc n) s = Some (xs, r)"
  then obtain k s' x r1 d r2 where x: "member_key s = Some (k, s')" "parse_value n s' = Some (x, r1)" "skip_ws r1 = d # r2"
    by (auto split: option.splits list.splits)
  note fv = fueledD[OF v x(2)]
  have l: "Suc (length r2) \<le> length r1" using length_skip_ws[of r1] x(3) by simp
  have k: "length s' < length s" by (rule member_key_length[OF x(1)])
  show "length r < length s \<and> (\<forall>m. length s - length r \<le> Suc m \<longrightarrow> parse_members (Suc m) s = Some (xs, r))"
  proof (cases "d = CHR ''}''")
    case True
    then have "xs = [(k, x)]" "r = r2" using p x by auto
    then show ?thesis using fv l k x True by auto
  next
    case False
    with p x obtain ys where ys: "d = CHR '',''" "parse_members n r2 = Some (ys, r)" "xs = (k, x) # ys"
      by (auto split: if_splits)
    note fe = fueledD[OF ms ys(2)]
    show ?thesis
    proof (intro conjI allI impI)
      show "length r < length s" using fv(1) fe(1) l k by simp
      fix m
      assume m: "length s - length r \<le> Suc m"
      have "parse_value m s' = Some (x, r1)" using fv(1) fe(1) l k m by (intro fv(2)) simp
      moreover have "parse_members m r2 = Some (ys, r)" using fv(1) fe(1) l k m by (intro fe(2)) simp
      ultimately show "parse_members (Suc m) s = Some (xs, r)" using x ys False by simp
    qed
  qed
qed

lemma fueled_parse: "fueled parse_value n s \<and> fueled parse_elems n s \<and> fueled parse_members n s"
proof (induction n arbitrary: s)
  case 0
  show ?case by (simp add: fueled_def)
next
  case (Suc n)
  then show ?case using fueled_value_step fueled_elems_step fueled_members_step by blast
qed

lemma parse_value_fuel:
  assumes "parse_value n s = Some (v, r)"
  shows "parse_value (length s) s = Some (v, r)"
  using fueled_parse[of n s] assms by (auto simp: fueled_def)

section \<open>String literals\<close>

text \<open>Valid UTF-8.\<close>

function valid_utf8 :: "string \<Rightarrow> bool" where
  "valid_utf8 s =
     (case s of
        [] \<Rightarrow> True
      | c # t \<Rightarrow>
          if byte c < 0x80 then valid_utf8 t
          else (case utf8_len s of None \<Rightarrow> False | Some n \<Rightarrow> valid_utf8 (drop (n - 1) t)))"
  by pat_completeness auto
termination by (relation "measure length") auto

declare valid_utf8.simps [simp del]

lemma utf8_len_range: "utf8_len s = Some n \<Longrightarrow> 2 \<le> n \<and> n \<le> 4 \<and> n \<le> length s"
  by (auto simp: utf8_len_def split: list.splits if_splits)

text \<open>The length of a sequence is decided by the sequence.\<close>

lemma utf8_len_append: "utf8_len s = Some n \<Longrightarrow> utf8_len (take n s @ u) = Some n"
  by (auto simp: utf8_len_def split: list.splits if_splits)

text \<open>One byte below 0x80: its encoding is one unit of the literal.\<close>

lemma byte_lt: "byte c < 256"
  using of_char_mod_256[of c, where 'a = nat] by (metis byte_def mod_less_divisor zero_less_numeral)

lemma char_of_byte [simp]: "char_of (byte c) = c"
  by (simp add: byte_def)

lemma hex_val_digit: "n < 16 \<Longrightarrow> hex_val (hex_digit n) = Some n"
proof -
  have "list_all (\<lambda>n. hex_val (hex_digit n) = Some n) [0..<16]" by code_simp
  then show "n < 16 \<Longrightarrow> ?thesis" by (simp add: list_all_iff)
qed

lemma hex_byte: "hex [c] = [hex_digit (byte c div 16), hex_digit (byte c mod 16)]"
proof -
  have "(of_char c :: int) = int (byte c)" unfolding byte_def by (rule of_nat_of_char[symmetric])
  then show ?thesis by (simp add: nat_div_distrib nat_mod_distrib)
qed

lemma hex4_byte: "hex4 ([CHR ''0'', CHR ''0''] @ hex [c] @ u) = Some (byte c, u)"
proof -
  have "byte c div 16 < 16" using byte_lt[of c] by simp
  then have "hex_val (hex_digit (byte c div 16)) = Some (byte c div 16)" "hex_val (hex_digit (byte c mod 16)) = Some (byte c mod 16)"
    by (simp_all add: hex_val_digit)
  moreover have "hex_val (CHR ''0'') = Some 0" by code_simp
  ultimately show ?thesis unfolding hex_byte by (simp add: hex4_def)
qed

lemma str_unit_encode_byte:
  assumes "byte c < 0x80"
  shows "str_unit (encode_byte c @ u) = Some ([c], length (encode_byte c))" "hd (encode_byte c) \<noteq> CHR 0x22" "encode_byte c \<noteq> []"
proof -
  consider (esc) "c = CHR 0x5C \<or> c = CHR 0x22" | (nl) "c = CHR 0x0A" | (cr) "c = CHR 0x0D" | (tab) "c = CHR 0x09"
    | (uni) "encode_byte c = [CHR 0x5C, CHR ''u'', CHR ''0'', CHR ''0''] @ hex [c]"
    | (plain) "encode_byte c = [c]" "\<not> byte c < 0x20" "c \<noteq> CHR 0x5C" "c \<noteq> CHR 0x22"
    unfolding encode_byte_def by presburger
  then have "str_unit (encode_byte c @ u) = Some ([c], length (encode_byte c)) \<and> hd (encode_byte c) \<noteq> CHR 0x22 \<and> encode_byte c \<noteq> []"
  proof cases
    case uni
    have "unicode_escape (byte c) u = ([c], 0)" using assms by (simp add: unicode_escape_def utf8_encode_def)
    then show ?thesis using hex4_byte[of c u] unfolding uni by (simp add: str_unit_def)
  next
    case plain
    then show ?thesis using assms by (simp add: str_unit_def)
  qed (auto simp: encode_byte_def str_unit_def)
  then show "str_unit (encode_byte c @ u) = Some ([c], length (encode_byte c))" "hd (encode_byte c) \<noteq> CHR 0x22" "encode_byte c \<noteq> []"
    by auto
qed

text \<open>The two separators \<^verbatim>\<open>encoding/json\<close> escapes.\<close>

lemma str_unit_separators:
  "str_unit (([CHR 0x5C] @ ''u2028'') @ u) = Some ([CHR 0xE2, CHR 0x80, CHR 0xA8], 6)"
  "str_unit (([CHR 0x5C] @ ''u2029'') @ u) = Some ([CHR 0xE2, CHR 0x80, CHR 0xA9], 6)"
proof -
  have h: "hex_val (CHR ''2'') = Some 2" "hex_val (CHR ''0'') = Some 0" "hex_val (CHR ''8'') = Some 8" "hex_val (CHR ''9'') = Some 9"
    by code_simp+
  have x: "hex4 (''2028'' @ u) = Some (0x2028, u)" "hex4 (''2029'' @ u) = Some (0x2029, u)"
    unfolding hex4_def by (simp_all add: h)
  have "utf8_encode 0x2028 = [CHR 0xE2, CHR 0x80, CHR 0xA8]" "utf8_encode 0x2029 = [CHR 0xE2, CHR 0x80, CHR 0xA9]"
    by (simp_all add: utf8_encode_def char_of_def bit_0)
  then have e: "unicode_escape 0x2028 u = ([CHR 0xE2, CHR 0x80, CHR 0xA8], 0)" "unicode_escape 0x2029 u = ([CHR 0xE2, CHR 0x80, CHR 0xA9], 0)"
    by (simp_all add: unicode_escape_def)
  show "str_unit (([CHR 0x5C] @ ''u2028'') @ u) = Some ([CHR 0xE2, CHR 0x80, CHR 0xA8], 6)"
    using x(1) e(1) by (simp add: str_unit_def)
  show "str_unit (([CHR 0x5C] @ ''u2029'') @ u) = Some ([CHR 0xE2, CHR 0x80, CHR 0xA9], 6)"
    using x(2) e(2) by (simp add: str_unit_def)
qed

lemma utf8_len_separators: "x = CHR 0xA8 \<or> x = CHR 0xA9 \<Longrightarrow> utf8_len (CHR 0xE2 # CHR 0x80 # x # t) = Some 3"
proof -
  have "\<not> utf8_2 (CHR 0xE2) (CHR 0x80)" "utf8_3 (CHR 0xE2) (CHR 0x80) (CHR 0xA8)" "utf8_3 (CHR 0xE2) (CHR 0x80) (CHR 0xA9)"
    by code_simp+
  then show "x = CHR 0xA8 \<or> x = CHR 0xA9 \<Longrightarrow> ?thesis" by (auto simp: utf8_len_def)
qed

text \<open>One unit, then the rest.\<close>

lemma str_body_unit:
  assumes "str_unit (e @ u) = Some (bs, length e)" "e \<noteq> []" "hd e \<noteq> CHR 0x22" "str_body u = Some (v, t)"
  shows "str_body (e @ u) = Some (bs @ v, t)"
proof -
  obtain c e' where e: "e = c # e'" using assms(2) by (cases e) auto
  then show ?thesis using assms str_body.simps[of "e @ u"] by simp
qed

lemma str_body_encode: "valid_utf8 s \<Longrightarrow> str_body (encode_chars s @ CHR 0x22 # t) = Some (s, t)"
proof (induction s rule: valid_utf8.induct)
  case (1 s)
  show ?case
  proof (cases s)
    case Nil
    then show ?thesis by (simp add: str_body.simps)
  next
    case (Cons c cs)
    show ?thesis
    proof (cases "byte c < 0x80")
      case True
      have "valid_utf8 cs" using "1.prems" Cons True valid_utf8.simps[of s] by simp
      then have "str_body (encode_chars cs @ CHR 0x22 # t) = Some (cs, t)" using "1.IH"(1) Cons True by blast
      with str_body_unit[OF str_unit_encode_byte(1)[OF True] str_unit_encode_byte(3)[OF True] str_unit_encode_byte(2)[OF True]]
      show ?thesis using Cons True by simp
    next
      case False
      obtain n where n: "utf8_len s = Some n" "valid_utf8 (drop (n - 1) cs)"
        using "1.prems" Cons False valid_utf8.simps[of s] by (auto split: option.splits)
      have ih: "str_body (encode_chars (drop (n - 1) cs) @ CHR 0x22 # t) = Some (drop (n - 1) cs, t)"
        using "1.IH"(2)[OF Cons False n(1)] n(2) by simp
      have "n \<ge> 2" using utf8_len_range[OF n(1)] by simp
      then have sp: "s = take n s @ drop (n - 1) cs" using Cons by (cases n) auto
      let ?u = "encode_chars (drop (n - 1) cs) @ CHR 0x22 # t"
      consider (ls) "take 3 s = [CHR 0xE2, CHR 0x80, CHR 0xA8]" | (ps) "take 3 s = [CHR 0xE2, CHR 0x80, CHR 0xA9]"
        | (raw) "take 3 s \<noteq> [CHR 0xE2, CHR 0x80, CHR 0xA8]" "take 3 s \<noteq> [CHR 0xE2, CHR 0x80, CHR 0xA9]" by blast
      then show ?thesis
      proof cases
        case ls
        then obtain t' where s': "s = [CHR 0xE2, CHR 0x80, CHR 0xA8] @ t'" by (metis append_take_drop_id)
        then have n3: "n = 3" using n(1) utf8_len_separators[of "CHR 0xA8" t'] by simp
        have "encode_chars s = ([CHR 0x5C] @ ''u2028'') @ encode_chars (drop (n - 1) cs)"
          using Cons False n(1) ls by simp
        moreover have "str_body (([CHR 0x5C] @ ''u2028'') @ ?u) = Some ([CHR 0xE2, CHR 0x80, CHR 0xA8] @ drop (n - 1) cs, t)"
          using ih str_unit_separators(1) by (intro str_body_unit) auto
        ultimately show ?thesis using sp ls n3 by simp
      next
        case ps
        then obtain t' where s': "s = [CHR 0xE2, CHR 0x80, CHR 0xA9] @ t'" by (metis append_take_drop_id)
        then have n3: "n = 3" using n(1) utf8_len_separators[of "CHR 0xA9" t'] by simp
        have "encode_chars s = ([CHR 0x5C] @ ''u2029'') @ encode_chars (drop (n - 1) cs)"
          using Cons False n(1) ps by simp
        moreover have "str_body (([CHR 0x5C] @ ''u2029'') @ ?u) = Some ([CHR 0xE2, CHR 0x80, CHR 0xA9] @ drop (n - 1) cs, t)"
          using ih str_unit_separators(2) by (intro str_body_unit) auto
        ultimately show ?thesis using sp ps n3 by simp
      next
        case raw
        have e: "encode_chars s = take n s @ encode_chars (drop (n - 1) cs)"
          using raw Cons False n(1) \<open>n \<ge> 2\<close> by (simp add: take_Cons')
        have "str_unit (take n s @ ?u) = Some (take n s, length (take n s))"
          using Cons False utf8_len_append[OF n(1), of ?u] utf8_len_range[OF n(1)] \<open>n \<ge> 2\<close>
          by (auto simp: str_unit_def take_Cons' byte_def)
        moreover have "hd (take n s) \<noteq> CHR 0x22" using Cons False \<open>n \<ge> 2\<close> by (auto simp: take_Cons' byte_def)
        ultimately have "str_body (take n s @ ?u) = Some (take n s @ drop (n - 1) cs, t)"
          using ih \<open>n \<ge> 2\<close> Cons by (intro str_body_unit) auto
        then show ?thesis using e sp by simp
      qed
    qed
  qed
qed

section \<open>Maps of strings\<close>

lemma member_key_encode: "valid_utf8 k \<Longrightarrow> member_key (encode_string k @ '':'' @ t) = Some (k, t)"
  using str_body_encode[of k "'':'' @ t"] by (simp add: member_key_def encode_string_def skip_ws_def is_ws_def)

lemma parse_value_string:
  assumes "valid_utf8 v"
  shows "parse_value (Suc n) (encode_string v @ t) = Some (JStr v, t)"
  using str_body_encode[OF assms, of t] by (simp add: encode_string_def skip_ws_def is_ws_def atom_def)

lemma parse_members_encode:
  assumes "ms \<noteq> []" "\<forall>(k, v) \<in> set ms. valid_utf8 k \<and> valid_utf8 v" "length ms < n"
  shows "parse_members n (Join (map encode_member ms) '','' @ ''}'' @ t) = Some (map (\<lambda>(k, v). (k, JStr v)) ms, t)"
  using assms
proof (induction ms arbitrary: n)
  case (Cons m ms)
  obtain k v where m: "m = (k, v)" by (cases m)
  obtain n' where n': "n = Suc (Suc n')" using Cons.prems(3) by (cases n; cases "n - 1") auto
  have v: "valid_utf8 k" "valid_utf8 v" using Cons.prems(2) m by auto
  let ?rest = "if ms = [] then ''}'' @ t else '','' @ Join (map encode_member ms) '','' @ ''}'' @ t"
  have j: "Join (map encode_member (m # ms)) '','' @ ''}'' @ t = encode_string k @ '':'' @ encode_string v @ ?rest"
    by (cases ms) (simp_all add: encode_member_def m)
  have s: "skip_ws ?rest = ?rest" by (simp add: skip_ws_def is_ws_def)
  show ?case
  proof (cases "ms = []")
    case True
    then show ?thesis
      unfolding j n' using member_key_encode[OF v(1)] parse_value_string[OF v(2), of n'] s by (simp add: m)
  next
    case False
    have "parse_members (Suc n') (Join (map encode_member ms) '','' @ ''}'' @ t) = Some (map (\<lambda>(k, v). (k, JStr v)) ms, t)"
      using Cons.IH[OF False, of "Suc n'"] Cons.prems n' by auto
    then show ?thesis
      unfolding j n' using member_key_encode[OF v(1)] parse_value_string[OF v(2), of n'] s False
      by (simp add: m del: parse_value.simps)
  qed
qed simp

lemma length_Join_members: "length ms \<le> length (Join (map encode_member ms) sep)"
proof (induction ms)
  case (Cons m ms)
  then show ?case by (cases ms) (auto simp: encode_member_def)
qed simp

lemma map_put_new: "k \<notin> fst ` set m \<Longrightarrow> map_put k v m = m @ [(k, v)]"
  by (induction k v m rule: map_put.induct) auto

lemma put_members_strings:
  "distinct (map fst m @ map fst ms) \<Longrightarrow> put_members (map (\<lambda>(k, v). (k, JStr v)) ms) m = Inr (m @ ms)"
proof (induction ms arbitrary: m)
  case (Cons x ms)
  obtain k v where x: "x = (k, v)" by (cases x)
  have "map_put k v m = m @ [(k, v)]" using Cons.prems x by (intro map_put_new) auto
  with Cons.IH[of "m @ [(k, v)]"] Cons.prems x show ?case by (simp add: put_string_def)
qed simp

text \<open>What \<open>Marshal\<close> writes of a map is read back, in the order of the keys.\<close>

lemma Unmarshal_Marshal:
  assumes "distinct (map fst m)" "\<forall>(k, v) \<in> set m. valid_utf8 k \<and> valid_utf8 v"
  shows "Unmarshal_string_map (Marshal_string_map m) = Inr (Some (sort_key fst m))"
proof (cases "m = []")
  case True
  have "json_parse ''{}'' = Some (JObj [])" by code_simp
  then show ?thesis using True by (simp add: Unmarshal_string_map_def Marshal_string_map_def)
next
  case False
  let ?s = "sort_key fst m"
  let ?t = "Join (map encode_member ?s) '',''"
  have ne: "?s \<noteq> []" using False by (metis length_0_conv length_sort)
  have "length ?s < Suc (length ?t)" using length_Join_members[of ?s "'',''"] by simp
  then have pm: "parse_members (Suc (length ?t)) (?t @ ''}'' @ []) = Some (map (\<lambda>(k, v). (k, JStr v)) ?s, [])"
    using ne assms(2) by (intro parse_members_encode) auto
  obtain k v ms where s: "?s = (k, v) # ms" using ne by (cases ?s) auto
  then obtain u where u: "?t = CHR 0x22 # u"
    by (cases ms) (auto simp: encode_member_def encode_string_def)
  have "parse_value (Suc (Suc (length ?t))) (''{'' @ ?t @ ''}'') = Some (JObj (map (\<lambda>(k, v). (k, JStr v)) ?s), [])"
    using pm u by (simp add: skip_ws_def is_ws_def del: parse_members.simps)
  then have "json_parse (Marshal_string_map m) = Some (JObj (map (\<lambda>(k, v). (k, JStr v)) ?s))"
    by (simp add: json_parse_def Marshal_string_map_def skip_ws_def del: parse_value.simps)
  moreover have "distinct (map fst ?s)" using assms(1) by (metis distinct_map distinct_sort set_sort)
  ultimately show ?thesis
    using put_members_strings[of "[]" ?s] by (simp add: Unmarshal_string_map_def)
qed

end
