(* ===== verification/WorkQueue.thy ===== *)
theory WorkQueue
  imports Prelude
begin

text \<open>
  The work queue \<^verbatim>\<open>vendor/k8s.io/client-go/util/workqueue/queue.go\<close> the controller takes its work
  items from. Every operation holds the queue's lock, so that it is one step on the record below; a
  \<open>Get\<close> that has to wait is a step that is not enabled (\<open>None\<close>). The metrics are left out. The locale
  \<open>dedup_queue\<close> is what a client relies on.
\<close>

record 'a wq =
  queue :: "'a list"
  dirty :: "'a set"
  processing :: "'a set"
  shuttingDown :: bool

definition NewNamed :: "'a wq" where
  "NewNamed = \<lparr>queue = [], dirty = {}, processing = {}, shuttingDown = False\<rparr>"

definition wq_Add :: "'a \<Rightarrow> 'a wq \<Rightarrow> 'a wq" where
  "wq_Add item q =
     (if shuttingDown q then q
      else if item \<in> dirty q then q
      else let q' = q\<lparr>dirty := insert item (dirty q)\<rparr>
           in if item \<in> processing q then q' else q'\<lparr>queue := queue q @ [item]\<rparr>)"

definition wq_Len :: "'a wq \<Rightarrow> nat" where
  "wq_Len q = length (queue q)"

text \<open>The item, or \<open>None\<close> for the signal to stop.\<close>

definition wq_Get :: "'a wq \<Rightarrow> ('a option \<times> 'a wq) option" where
  "wq_Get q =
     (case queue q of
        [] \<Rightarrow> if shuttingDown q then Some (None, q) else None
      | item # rest \<Rightarrow>
          Some (Some item, q\<lparr>queue := rest, processing := insert item (processing q), dirty := dirty q - {item}\<rparr>))"

definition wq_Done :: "'a \<Rightarrow> 'a wq \<Rightarrow> 'a wq" where
  "wq_Done item q =
     (let q' = q\<lparr>processing := processing q - {item}\<rparr>
      in if item \<in> dirty q then q'\<lparr>queue := queue q @ [item]\<rparr> else q')"

definition wq_ShutDown :: "'a wq \<Rightarrow> 'a wq" where
  "wq_ShutDown q = q\<lparr>shuttingDown := True\<rparr>"

definition wq_ShuttingDown :: "'a wq \<Rightarrow> bool" where
  "wq_ShuttingDown q = shuttingDown q"

section \<open>The invariant of the source's comments\<close>

text \<open>Every element of the queue is dirty and is not processed, an item is queued once, and a dirty item
  that is not queued is being processed.\<close>

definition wq_inv :: "'a wq \<Rightarrow> bool" where
  "wq_inv q \<longleftrightarrow> distinct (queue q) \<and> set (queue q) = dirty q - processing q"

lemma wq_inv_NewNamed: "wq_inv NewNamed"
  by (simp add: wq_inv_def NewNamed_def)

lemma wq_inv_Add: "wq_inv q \<Longrightarrow> wq_inv (wq_Add x q)"
  by (auto simp: wq_inv_def wq_Add_def Let_def)

lemma wq_inv_Done: "wq_inv q \<Longrightarrow> x \<in> processing q \<Longrightarrow> wq_inv (wq_Done x q)"
  by (auto simp: wq_inv_def wq_Done_def Let_def)

lemma wq_inv_ShutDown: "wq_inv q \<Longrightarrow> wq_inv (wq_ShutDown q)"
  by (simp add: wq_inv_def wq_ShutDown_def)

section \<open>What a client relies on\<close>

locale dedup_queue =
  fixes add :: "'a \<Rightarrow> 'q \<Rightarrow> 'q" and get :: "'q \<Rightarrow> ('a option \<times> 'q) option" and finish :: "'a \<Rightarrow> 'q \<Rightarrow> 'q"
    and shut :: "'q \<Rightarrow> 'q"
    and inv :: "'q \<Rightarrow> bool" and pending :: "'q \<Rightarrow> 'a set" and held :: "'q \<Rightarrow> 'a set" and stopped :: "'q \<Rightarrow> bool"
  assumes add_inv: "inv q \<Longrightarrow> inv (add x q)"
    and add_pending: "pending (add x q) = (if stopped q then pending q else insert x (pending q))"
    and add_held: "held (add x q) = held q"
    and add_stopped: "stopped (add x q) = stopped q"
    and get_item: "inv q \<Longrightarrow> get q = Some (Some x, q') \<Longrightarrow>
      inv q' \<and> x \<in> pending q \<and> x \<notin> held q \<and> pending q' = pending q - {x} \<and> held q' = insert x (held q) \<and> stopped q' = stopped q"
    and get_stop: "get q = Some (None, q') \<Longrightarrow> q' = q \<and> stopped q"
    and get_blocked: "inv q \<Longrightarrow> get q = None \<or> get q = Some (None, q') \<Longrightarrow> pending q \<subseteq> held q"
    and get_waits: "get q = None \<Longrightarrow> \<not> stopped q"
    and finish_inv: "inv q \<Longrightarrow> x \<in> held q \<Longrightarrow> inv (finish x q)"
    and finish_pending: "pending (finish x q) = pending q"
    and finish_held: "held (finish x q) = held q - {x}"
    and finish_stopped: "stopped (finish x q) = stopped q"
    and shut_inv: "inv q \<Longrightarrow> inv (shut q)"
    and shut_state: "pending (shut q) = pending q" "held (shut q) = held q" "stopped (shut q)"
begin

text \<open>
  Workers that take items and give them back: \<open>w i\<close> is the item worker \<open>i\<close> holds. The workers hold
  exactly the items in hand, each by one worker.
\<close>

definition shared :: "(nat \<rightharpoonup> 'a) \<Rightarrow> 'q \<Rightarrow> bool" where
  "shared w q \<longleftrightarrow> inv q \<and> held q = ran w \<and> inj_on w (dom w)"

lemma shared_add: "shared w q \<Longrightarrow> shared w (add x q)"
  by (simp add: shared_def add_inv add_held)

lemma shared_shut: "shared w q \<Longrightarrow> shared w (shut q)"
  by (simp add: shared_def shut_inv shut_state)

lemma shared_get:
  assumes "shared w q" "w i = None" "get q = Some (Some x, q')"
  shows "shared (w(i \<mapsto> x)) q'"
proof -
  have g: "inv q'" "x \<notin> held q" "held q' = insert x (held q)"
    using get_item[OF _ assms(3)] assms(1) by (auto simp: shared_def)
  have "x \<notin> ran w" using g(2) assms(1) by (simp add: shared_def)
  then have "inj_on (w(i \<mapsto> x)) (insert i (dom w))"
    using assms(1) by (auto simp: shared_def inj_on_def intro: ranI)
  then show ?thesis using g assms(1,2) by (simp add: shared_def)
qed

lemma shared_finish:
  assumes "shared w q" "w i = Some x"
  shows "shared (w(i := None)) (finish x q)"
proof -
  have inj: "inj_on w (dom w)" and h: "held q = ran w" and "inv q" using assms(1) by (auto simp: shared_def)
  have uniq: "j = i" if "w j = Some x" for j using that inj assms(2) by (auto simp: inj_on_def dom_def)
  have "ran (w(i := None)) = ran w - {x}"
  proof (intro equalityI subsetI)
    fix y
    assume "y \<in> ran (w(i := None))"
    then obtain j where "j \<noteq> i" "w j = Some y" by (auto simp: ran_def split: if_splits)
    then show "y \<in> ran w - {x}" using uniq by (blast intro: ranI)
  next
    fix y
    assume "y \<in> ran w - {x}"
    then obtain j where j: "w j = Some y" "y \<noteq> x" by (auto simp: ran_def)
    then have "(w(i := None)) j = Some y" using assms(2) by auto
    then show "y \<in> ran (w(i := None))" by (rule ranI)
  qed
  moreover have "x \<in> held q" using h assms(2) by (auto simp: ran_def)
  moreover have "inj_on (w(i := None)) (dom (w(i := None)))" using inj by (auto simp: inj_on_def dom_def)
  ultimately show ?thesis using \<open>inv q\<close> h by (simp add: shared_def finish_inv finish_held)
qed

text \<open>No item is in the hands of two workers.\<close>

lemma shared_exclusive: "shared w q \<Longrightarrow> w i = Some x \<Longrightarrow> w j = Some x \<Longrightarrow> i = j"
  by (auto simp: shared_def inj_on_def dom_def)

text \<open>When nobody holds an item, no item is left waiting unless one can be taken.\<close>

lemma idle_progress: "shared w q \<Longrightarrow> ran w = {} \<Longrightarrow> x \<in> pending q \<Longrightarrow> \<exists>y q'. get q = Some (Some y, q')"
proof -
  assume a: "shared w q" "ran w = {}" "x \<in> pending q"
  then have no: "\<not> pending q \<subseteq> held q" and i: "inv q" by (auto simp: shared_def)
  show ?thesis
  proof (cases "get q")
    case None
    with get_blocked[OF i] no show ?thesis by blast
  next
    case (Some p)
    obtain r q' where p: "p = (r, q')" by (cases p)
    with Some get_blocked[OF i, of q'] no show ?thesis by (cases r) auto
  qed
qed

end

lemma wq_Get_item:
  "wq_inv q \<Longrightarrow> wq_Get q = Some (Some x, q') \<Longrightarrow>
   wq_inv q' \<and> x \<in> dirty q \<and> x \<notin> processing q \<and> dirty q' = dirty q - {x}
     \<and> processing q' = insert x (processing q) \<and> shuttingDown q' = shuttingDown q"
proof -
  assume inv: "wq_inv q" and get: "wq_Get q = Some (Some x, q')"
  then obtain rest where q: "queue q = x # rest"
      "q' = q\<lparr>queue := rest, processing := insert x (processing q), dirty := dirty q - {x}\<rparr>"
    by (cases "queue q") (simp_all add: wq_Get_def split: if_splits)
  have s: "insert x (set rest) = dirty q - processing q" "x \<notin> set rest" "distinct rest"
    using inv by (simp_all add: wq_inv_def q(1))
  have "x \<in> dirty q \<and> x \<notin> processing q" using s(1) by blast
  moreover have "set rest = dirty q - {x} - insert x (processing q)" using s(1,2) by blast
  ultimately show ?thesis using s(3) by (simp add: q(2) wq_inv_def)
qed

lemma wq_Get_none:
  "wq_Get q = Some (None, q') \<Longrightarrow> q' = q \<and> shuttingDown q"
  "wq_Get q = None \<Longrightarrow> \<not> shuttingDown q"
  "wq_inv q \<Longrightarrow> wq_Get q = None \<or> wq_Get q = Some (None, q') \<Longrightarrow> dirty q \<subseteq> processing q"
  by (cases "queue q"; simp add: wq_inv_def wq_Get_def split: if_splits)+

interpretation wq: dedup_queue wq_Add wq_Get wq_Done wq_ShutDown wq_inv dirty processing shuttingDown
  by unfold_locales
     (fact wq_inv_Add wq_Get_item wq_Get_none wq_inv_Done wq_inv_ShutDown
      | simp add: wq_Add_def wq_Done_def wq_ShutDown_def Let_def insert_absorb)+

end
