(* ===== verification/Events.thy ===== *)
theory Events
  imports NetworkPolicy JsonFacts WorkQueue
begin

text \<open>
  The event handlers of \<^verbatim>\<open>networkpolicycontroller.go\<close>: what the informers call when an object of
  a cache changes. Each turns a change into the text of a work item, the JSON form of a map with the keys
  kind, name, namespace, action and args, and adds it to the work queue. An argument of the Go type
  \<^verbatim>\<open>interface{}\<close> is a \<open>cache_obj\<close>; a type assertion without a second result panics on another type.
\<close>

section \<open>Type assertions\<close>

definition assert_LN :: "cache_obj \<Rightarrow> (string wq, LogicalNetwork) go" where
  "assert_LN obj = (case obj of ObjLN l \<Rightarrow> go_ret l | _ \<Rightarrow> go_panic ''interface conversion: interface {}'')"

definition assert_NP :: "cache_obj \<Rightarrow> (string wq, NetworkPolicyObj) go" where
  "assert_NP obj = (case obj of ObjNP n \<Rightarrow> go_ret n | _ \<Rightarrow> go_panic ''interface conversion: interface {}'')"

text \<open>The object of a delete event, itself or in a tombstone; \<open>None\<close> where the source logs and returns.\<close>

definition deleted_LN :: "cache_obj \<Rightarrow> LogicalNetwork option" where
  "deleted_LN obj = (case obj of ObjLN l \<Rightarrow> Some l | Tombstone _ (ObjLN l) \<Rightarrow> Some l | _ \<Rightarrow> None)"

definition deleted_NP :: "cache_obj \<Rightarrow> NetworkPolicyObj option" where
  "deleted_NP obj = (case obj of ObjNP n \<Rightarrow> Some n | Tombstone _ (ObjNP n) \<Rightarrow> Some n | _ \<Rightarrow> None)"

section \<open>Work items\<close>

definition keyaction :: "string \<Rightarrow> string \<Rightarrow> string \<Rightarrow> string \<Rightarrow> string \<Rightarrow> string gomap" where
  "keyaction kind name namespace action args =
     [(''kind'', kind), (''name'', name), (''namespace'', namespace), (''action'', action), (''args'', args)]"

definition queue_Add :: "string \<Rightarrow> (string wq, unit) go" where
  "queue_Add item q = (Ret (), wq_Add item q)"

definition enqueueLogicalNetwork :: "LogicalNetwork \<Rightarrow> string \<Rightarrow> string \<Rightarrow> (string wq, unit) go" where
  "enqueueLogicalNetwork lnw action args =
     queue_Add (Marshal_string_map (keyaction ''logicalnetwork'' (Name (lnMeta lnw)) (Namespace (lnMeta lnw)) action args))"

definition enqueueNetworkPolicy :: "NetworkPolicyObj \<Rightarrow> string \<Rightarrow> string \<Rightarrow> (string wq, unit) go" where
  "enqueueNetworkPolicy np action args =
     queue_Add (Marshal_string_map (keyaction ''networkpolicy'' (Name (npMeta np)) (Namespace (npMeta np)) action args))"

section \<open>Event handlers\<close>

definition addLogicalNetwork :: "cache_obj \<Rightarrow> (string wq, unit) go" where
  "addLogicalNetwork obj = go_bind (assert_LN obj) (\<lambda>l. enqueueLogicalNetwork l ''ADD'' [])"

definition updateLogicalNetwork :: "cache_obj \<Rightarrow> cache_obj \<Rightarrow> (string wq, unit) go" where
  "updateLogicalNetwork old cur =
     go_bind (assert_LN old) (\<lambda>oldLn.
     go_bind (assert_LN cur) (\<lambda>newLn.
     if ResourceVersion (lnMeta oldLn) = ResourceVersion (lnMeta newLn) then go_ret ()
     else if SubSubnet (lnSpec oldLn) \<noteq> SubSubnet (lnSpec newLn) then enqueueLogicalNetwork newLn ''UPDATE'' []
     else go_ret ()))"

definition deleteLogicalNetwork :: "cache_obj \<Rightarrow> (string wq, unit) go" where
  "deleteLogicalNetwork obj =
     (case deleted_LN obj of
        None \<Rightarrow> go_ret ()
      | Some l \<Rightarrow> enqueueLogicalNetwork l ''DELETE'' (SubSubnet (lnSpec l)))"

definition addPolicy :: "cache_obj \<Rightarrow> (string wq, unit) go" where
  "addPolicy obj = go_bind (assert_NP obj) (\<lambda>n. enqueueNetworkPolicy n ''ADD'' [])"

definition updatePolicy :: "cache_obj \<Rightarrow> cache_obj \<Rightarrow> (string wq, unit) go" where
  "updatePolicy old cur =
     go_bind (assert_NP old) (\<lambda>oldNp.
     go_bind (assert_NP cur) (\<lambda>newNp.
     let oldA = Annotations (npMeta oldNp); newA = Annotations (npMeta newNp) in
     if ResourceVersion (npMeta oldNp) = ResourceVersion (npMeta newNp) then go_ret ()
     else if oldA \<noteq> None \<or> newA \<noteq> None then
       if oldA \<noteq> None \<and> newA \<noteq> None \<and> map_get oldA GenieNetworkPolicy = map_get newA GenieNetworkPolicy then go_ret ()
       else enqueueNetworkPolicy newNp ''UPDATE'' (map_get oldA GenieNetworkPolicy)
     else enqueueNetworkPolicy newNp ''UPDATE'' []))"

definition deletePolicy :: "cache_obj \<Rightarrow> (string wq, unit) go" where
  "deletePolicy obj =
     (case deleted_NP obj of
        None \<Rightarrow> go_ret ()
      | Some n \<Rightarrow>
          if Annotations (npMeta n) \<noteq> None \<and> map_get (Annotations (npMeta n)) GenieNetworkPolicy \<noteq> []
          then enqueueNetworkPolicy n ''DELETE'' (map_get (Annotations (npMeta n)) GenieNetworkPolicy)
          else enqueueNetworkPolicy n ''DELETE'' [])"

section \<open>Notifications\<close>

text \<open>The two registrations of \<open>NewNpcController\<close>: which handler an informer calls for which change.\<close>

datatype notification =
    LnAdded cache_obj | LnUpdated cache_obj cache_obj | LnDeleted cache_obj
  | NpAdded cache_obj | NpUpdated cache_obj cache_obj | NpDeleted cache_obj

fun event_handler :: "notification \<Rightarrow> (string wq, unit) go" where
  "event_handler (LnAdded obj) = addLogicalNetwork obj"
| "event_handler (LnUpdated old cur) = updateLogicalNetwork old cur"
| "event_handler (LnDeleted obj) = deleteLogicalNetwork obj"
| "event_handler (NpAdded obj) = addPolicy obj"
| "event_handler (NpUpdated old cur) = updatePolicy old cur"
| "event_handler (NpDeleted obj) = deletePolicy obj"

lemmas event_defs = addLogicalNetwork_def updateLogicalNetwork_def deleteLogicalNetwork_def addPolicy_def
  updatePolicy_def deletePolicy_def enqueueLogicalNetwork_def enqueueNetworkPolicy_def queue_Add_def
  assert_LN_def assert_NP_def Let_def

text \<open>Objects of the type an informer is for.\<close>

definition is_LN :: "cache_obj \<Rightarrow> bool" where "is_LN obj = (case obj of ObjLN _ \<Rightarrow> True | _ \<Rightarrow> False)"
definition is_NP :: "cache_obj \<Rightarrow> bool" where "is_NP obj = (case obj of ObjNP _ \<Rightarrow> True | _ \<Rightarrow> False)"

fun well_typed :: "notification \<Rightarrow> bool" where
  "well_typed (LnAdded obj) = is_LN obj"
| "well_typed (LnUpdated old cur) = (is_LN old \<and> is_LN cur)"
| "well_typed (LnDeleted obj) = True"
| "well_typed (NpAdded obj) = is_NP obj"
| "well_typed (NpUpdated old cur) = (is_NP old \<and> is_NP cur)"
| "well_typed (NpDeleted obj) = True"

text \<open>The text of the work item a notification asks for, if it asks for one.\<close>

definition text_member :: "string \<Rightarrow> string \<Rightarrow> string" where
  "text_member k v = [CHR 0x22] @ k @ [CHR 0x22] @ '':'' @ encode_string v"

definition event_key :: "string \<Rightarrow> ObjectMeta \<Rightarrow> string \<Rightarrow> string \<Rightarrow> string" where
  "event_key kind m action args =
     ''{'' @ text_member ''action'' action @ '','' @ text_member ''args'' args @ '','' @ text_member ''kind'' kind @ '',''
       @ text_member ''name'' (Name m) @ '','' @ text_member ''namespace'' (Namespace m) @ ''}''"

lemma encode_keys:
  "encode_chars ''action'' = ''action''" "encode_chars ''args'' = ''args''" "encode_chars ''kind'' = ''kind''" "encode_chars ''name'' = ''name''"
  "encode_chars ''namespace'' = ''namespace''"
  by code_simp+

lemma encode_members:
  "encode_member (''action'', v) = text_member ''action'' v" "encode_member (''args'', v) = text_member ''args'' v"
  "encode_member (''kind'', v) = text_member ''kind'' v" "encode_member (''name'', v) = text_member ''name'' v"
  "encode_member (''namespace'', v) = text_member ''namespace'' v"
  unfolding encode_member_def text_member_def fst_conv snd_conv encode_string_def[of "''action''"] encode_string_def[of "''args''"]
    encode_string_def[of "''kind''"] encode_string_def[of "''name''"] encode_string_def[of "''namespace''"] encode_keys
  by (simp_all only: append_assoc)

text \<open>What the enqueue functions marshal is that text.\<close>

lemma Marshal_keyaction [simp]: "Marshal_string_map (keyaction kind (Name m) (Namespace m) action args) = event_key kind m action args"
proof -
  have "sort_key fst (keyaction kind (Name m) (Namespace m) action args) =
      [(''action'', action), (''args'', args), (''kind'', kind), (''name'', Name m), (''namespace'', Namespace m)]"
    by (simp add: keyaction_def)
  then show ?thesis unfolding Marshal_string_map_def event_key_def by (simp only: list.map encode_members Join.simps append_assoc)
qed

definition annotation_of :: "NetworkPolicyObj \<Rightarrow> string" where
  "annotation_of n = map_get (Annotations (npMeta n)) GenieNetworkPolicy"

definition both_annotated :: "NetworkPolicyObj \<Rightarrow> NetworkPolicyObj \<Rightarrow> bool" where
  "both_annotated a b = (Annotations (npMeta a) \<noteq> None \<and> Annotations (npMeta b) \<noteq> None)"

fun item_of :: "notification \<Rightarrow> string option" where
  "item_of (LnAdded (ObjLN l)) = Some (event_key ''logicalnetwork'' (lnMeta l) ''ADD'' [])"
| "item_of (LnUpdated (ObjLN a) (ObjLN b)) =
     (if ResourceVersion (lnMeta a) \<noteq> ResourceVersion (lnMeta b) \<and> SubSubnet (lnSpec a) \<noteq> SubSubnet (lnSpec b)
      then Some (event_key ''logicalnetwork'' (lnMeta b) ''UPDATE'' []) else None)"
| "item_of (LnDeleted (ObjLN l)) = Some (event_key ''logicalnetwork'' (lnMeta l) ''DELETE'' (SubSubnet (lnSpec l)))"
| "item_of (LnDeleted (Tombstone _ (ObjLN l))) = Some (event_key ''logicalnetwork'' (lnMeta l) ''DELETE'' (SubSubnet (lnSpec l)))"
| "item_of (NpAdded (ObjNP n)) = Some (event_key ''networkpolicy'' (npMeta n) ''ADD'' [])"
| "item_of (NpUpdated (ObjNP a) (ObjNP b)) =
     (if ResourceVersion (npMeta a) \<noteq> ResourceVersion (npMeta b) \<and> (both_annotated a b \<longrightarrow> annotation_of a \<noteq> annotation_of b)
      then Some (event_key ''networkpolicy'' (npMeta b) ''UPDATE'' (annotation_of a)) else None)"
| "item_of (NpDeleted (ObjNP n)) = Some (event_key ''networkpolicy'' (npMeta n) ''DELETE'' (annotation_of n))"
| "item_of (NpDeleted (Tombstone _ (ObjNP n))) = Some (event_key ''networkpolicy'' (npMeta n) ''DELETE'' (annotation_of n))"
| "item_of _ = None"

lemma event_handler_item:
  assumes "well_typed ev"
  shows "event_handler ev q = (Ret (), case item_of ev of None \<Rightarrow> q | Some key \<Rightarrow> wq_Add key q)"
proof (cases ev)
  case (LnDeleted obj)
  then show ?thesis by (auto simp: event_defs go_simps deleted_LN_def split: cache_obj.split)
next
  case (NpDeleted obj)
  then show ?thesis
    by (auto simp: event_defs go_simps deleted_NP_def annotation_of_def map_get_def split: cache_obj.split)
next
  case (LnUpdated old cur)
  with assms show ?thesis
    by (auto simp: event_defs go_simps is_LN_def split: cache_obj.splits)
next
  case (NpUpdated old cur)
  with assms obtain a b where "old = ObjNP a" "cur = ObjNP b" by (auto simp: is_NP_def split: cache_obj.splits)
  moreover have "Annotations (npMeta a) = None \<Longrightarrow> annotation_of a = []" by (simp add: annotation_of_def map_get_def)
  ultimately show ?thesis
    using NpUpdated by (auto simp: event_defs go_simps both_annotated_def annotation_of_def map_get_def)
qed (use assms in \<open>auto simp: event_defs go_simps is_LN_def is_NP_def split: cache_obj.splits\<close>)

lemma event_handler_ill_typed: "\<not> well_typed ev \<Longrightarrow> \<exists>p. event_handler ev q = (Panic p, q)"
  by (cases ev) (auto simp: event_defs go_simps is_LN_def is_NP_def split: cache_obj.splits)

section \<open>From a notification to a handler\<close>

text \<open>What the worker reads back from an item.\<close>

definition text_ok :: "ObjectMeta \<Rightarrow> string \<Rightarrow> bool" where
  "text_ok m args \<longleftrightarrow> valid_utf8 (Name m) \<and> valid_utf8 (Namespace m) \<and> valid_utf8 args"

lemma valid_utf8_keys:
  "list_all valid_utf8 [''kind'', ''name'', ''namespace'', ''action'', ''args'', ''logicalnetwork'', ''networkpolicy'',
     ''ADD'', ''UPDATE'', ''DELETE'', []]"
  by code_simp

lemma unmarshal_keyaction:
  assumes "valid_utf8 kind" "valid_utf8 name" "valid_utf8 namespace" "valid_utf8 action" "valid_utf8 args"
  shows "unmarshalKeyActionJson (Marshal_string_map (keyaction kind name namespace action args)) =
    Inr (Some [(''action'', action), (''args'', args), (''kind'', kind), (''name'', name), (''namespace'', namespace)])"
proof -
  let ?m = "keyaction kind name namespace action args"
  have "sort_key fst ?m = [(''action'', action), (''args'', args), (''kind'', kind), (''name'', name), (''namespace'', namespace)]"
    by (simp add: keyaction_def)
  moreover have "distinct (map fst ?m)" by (simp add: keyaction_def)
  moreover have "\<forall>(k, v) \<in> set ?m. valid_utf8 k \<and> valid_utf8 v"
    using assms valid_utf8_keys by (simp add: keyaction_def)
  ultimately show ?thesis using Unmarshal_Marshal[of ?m] by (simp add: unmarshalKeyActionJson_def)
qed

text \<open>The handler a notification is meant for.\<close>

fun meant_handler :: "'k host \<Rightarrow> NetworkPolicyController \<Rightarrow> notification \<Rightarrow> ('k, unit) go" where
  "meant_handler h npc (LnAdded (ObjLN l)) = handleLogicalNetworkAdd h npc (Name (lnMeta l)) (Namespace (lnMeta l))"
| "meant_handler h npc (LnUpdated _ (ObjLN l)) = handleLogicalNetworkUpdate h npc (Name (lnMeta l)) (Namespace (lnMeta l))"
| "meant_handler h npc (LnDeleted (ObjLN l)) = handleLogicalNetworkDelete h npc (Name (lnMeta l)) (Namespace (lnMeta l)) (SubSubnet (lnSpec l))"
| "meant_handler h npc (LnDeleted (Tombstone _ (ObjLN l))) =
     handleLogicalNetworkDelete h npc (Name (lnMeta l)) (Namespace (lnMeta l)) (SubSubnet (lnSpec l))"
| "meant_handler h npc (NpAdded (ObjNP n)) = handleNetworkPolicyAdd h npc (Name (npMeta n)) (Namespace (npMeta n))"
| "meant_handler h npc (NpUpdated _ (ObjNP n)) = handleNetworkPolicyUpdate h npc (Name (npMeta n)) (Namespace (npMeta n))"
| "meant_handler h npc (NpDeleted (ObjNP n)) = handleNetworkPolicyDelete h npc (Name (npMeta n)) (Namespace (npMeta n)) (annotation_of n)"
| "meant_handler h npc (NpDeleted (Tombstone _ (ObjNP n))) =
     handleNetworkPolicyDelete h npc (Name (npMeta n)) (Namespace (npMeta n)) (annotation_of n)"
| "meant_handler h npc _ = go_ret ()"

text \<open>The texts a notification puts into its item are valid UTF-8, as every text the API server sends is.\<close>

fun texts_ok :: "notification \<Rightarrow> bool" where
  "texts_ok (LnAdded (ObjLN l)) = text_ok (lnMeta l) []"
| "texts_ok (LnUpdated _ (ObjLN l)) = text_ok (lnMeta l) []"
| "texts_ok (LnDeleted (ObjLN l)) = text_ok (lnMeta l) (SubSubnet (lnSpec l))"
| "texts_ok (LnDeleted (Tombstone _ (ObjLN l))) = text_ok (lnMeta l) (SubSubnet (lnSpec l))"
| "texts_ok (NpAdded (ObjNP n)) = text_ok (npMeta n) []"
| "texts_ok (NpUpdated (ObjNP a) (ObjNP n)) = text_ok (npMeta n) (annotation_of a)"
| "texts_ok (NpDeleted (ObjNP n)) = text_ok (npMeta n) (annotation_of n)"
| "texts_ok (NpDeleted (Tombstone _ (ObjNP n))) = text_ok (npMeta n) (annotation_of n)"
| "texts_ok _ = True"

lemma syncHandler_event_key:
  assumes "text_ok m args"
  shows "syncHandler h npc (event_key ''logicalnetwork'' m ''ADD'' args) = handleLogicalNetworkAdd h npc (Name m) (Namespace m)"
    and "syncHandler h npc (event_key ''logicalnetwork'' m ''UPDATE'' args) = handleLogicalNetworkUpdate h npc (Name m) (Namespace m)"
    and "syncHandler h npc (event_key ''logicalnetwork'' m ''DELETE'' args) = handleLogicalNetworkDelete h npc (Name m) (Namespace m) args"
    and "syncHandler h npc (event_key ''networkpolicy'' m ''ADD'' args) = handleNetworkPolicyAdd h npc (Name m) (Namespace m)"
    and "syncHandler h npc (event_key ''networkpolicy'' m ''UPDATE'' args) = handleNetworkPolicyUpdate h npc (Name m) (Namespace m)"
    and "syncHandler h npc (event_key ''networkpolicy'' m ''DELETE'' args) = handleNetworkPolicyDelete h npc (Name m) (Namespace m) args"
  using assms valid_utf8_keys
  by (simp_all add: syncHandler_def unmarshal_keyaction text_ok_def map_get_def flip: Marshal_keyaction)

lemma syncHandler_item:
  assumes "item_of ev = Some key" "texts_ok ev"
  shows "syncHandler h npc key = meant_handler h npc ev"
  using assms
  by (cases ev rule: item_of.cases) (auto simp: syncHandler_event_key split: if_splits)

end
