(* ===== verification/SharedInformer.thy ===== *)
theory SharedInformer
  imports Listers Events
begin

text \<open>
  The shared informer of \<^verbatim>\<open>k8s.io/client-go/tools/cache/shared_informer.go\<close> that stands between the
  API server and the controller: \<open>HandleDeltas\<close> applies the changes of one object to the store and
  hands a notification to every listener; a listener calls the event handlers registered by
  \<open>NewNpcController\<close> in the order of its notifications. Over deltas of one type the store holds objects
  of that type only, and every notification is one the handlers accept.
\<close>

section \<open>Listeners\<close>

datatype inote = addNotification cache_obj | updateNotification cache_obj cache_obj | deleteNotification cache_obj

text \<open>A listener: whether it is among the syncing ones, and its pending notifications, oldest first.\<close>

record processorListener =
  syncing :: bool
  pendingNotifications :: "inote list"

definition listener_add :: "inote \<Rightarrow> processorListener \<Rightarrow> processorListener" where
  "listener_add n l = l\<lparr>pendingNotifications := pendingNotifications l @ [n]\<rparr>"

definition distribute :: "inote \<Rightarrow> bool \<Rightarrow> processorListener list \<Rightarrow> processorListener list" where
  "distribute n sync ls = map (\<lambda>l. if sync \<longrightarrow> syncing l then listener_add n l else l) ls"

section \<open>HandleDeltas\<close>

datatype DeltaType = Added | Updated | Deleted | DSync

record Delta =
  deltaType :: DeltaType
  deltaObject :: cache_obj

record 'c informer_state =
  inf_store :: 'c
  inf_listeners :: "processorListener list"
  inf_started :: bool
  inf_stopped :: bool

definition on_store :: "('c, unit) go \<Rightarrow> ('c informer_state, unit) go" where
  "on_store m s = (fst (m (inf_store s)), s\<lparr>inf_store := snd (m (inf_store s))\<rparr>)"

definition processor_distribute :: "inote \<Rightarrow> bool \<Rightarrow> ('c informer_state, unit) go" where
  "processor_distribute n sync s = (Ret (), s\<lparr>inf_listeners := distribute n sync (inf_listeners s)\<rparr>)"

definition handle_delta :: "'c Indexer \<Rightarrow> Delta \<Rightarrow> ('c informer_state, unit) go" where
  "handle_delta ix d =
     (if deltaType d = Deleted then
        go_bind (on_store (ix_Delete ix (deltaObject d))) (\<lambda>_.
        processor_distribute (deleteNotification (deltaObject d)) False)
      else (\<lambda>s.
        let isSync = (deltaType d = DSync) in
        (case ix_Get ix (deltaObject d) (inf_store s) of
           Inr (Some old) \<Rightarrow>
             go_bind (on_store (ix_Update ix (deltaObject d))) (\<lambda>_.
             processor_distribute (updateNotification old (deltaObject d)) isSync) s
         | _ \<Rightarrow>
             go_bind (on_store (ix_Add ix (deltaObject d))) (\<lambda>_.
             processor_distribute (addNotification (deltaObject d)) isSync) s)))"

definition HandleDeltas :: "'c Indexer \<Rightarrow> Delta list \<Rightarrow> ('c informer_state, unit) go" where
  "HandleDeltas ix ds = go_each (handle_delta ix) ds"

text \<open>\<open>AddEventHandler\<close>: a handler joins at once before the start, later with an \<open>Add\<close> for every object
  of the store, and not at all after the stop.\<close>

definition AddEventHandler :: "'c Indexer \<Rightarrow> 'c informer_state \<Rightarrow> 'c informer_state" where
  "AddEventHandler ix s =
     (if inf_stopped s then s
      else s\<lparr>inf_listeners := inf_listeners s @
              [\<lparr>syncing = True,
                pendingNotifications = (if inf_started s then map addNotification (ix_List ix (inf_store s)) else [])\<rparr>]\<rparr>)"

text \<open>The handlers \<open>NewNpcController\<close> registers with the informers of logical networks and of network
  policies, and what a listener calls for a notification.\<close>

fun ln_notification :: "inote \<Rightarrow> notification" where
  "ln_notification (addNotification obj) = LnAdded obj"
| "ln_notification (updateNotification old cur) = LnUpdated old cur"
| "ln_notification (deleteNotification obj) = LnDeleted obj"

fun np_notification :: "inote \<Rightarrow> notification" where
  "np_notification (addNotification obj) = NpAdded obj"
| "np_notification (updateNotification old cur) = NpUpdated old cur"
| "np_notification (deleteNotification obj) = NpDeleted obj"

definition listener_run :: "(inote \<Rightarrow> notification) \<Rightarrow> inote list \<Rightarrow> (string wq, unit) go" where
  "listener_run reg = go_each (\<lambda>n. event_handler (reg n))"

section \<open>Deltas of one type\<close>

text \<open>What a watch on one type delivers: objects of the type, or, for a deletion that was missed, a
  tombstone with the key.\<close>

definition is_tombstone :: "cache_obj \<Rightarrow> bool" where
  "is_tombstone obj = (case obj of Tombstone _ _ \<Rightarrow> True | _ \<Rightarrow> False)"

definition delta_as :: "(cache_obj \<Rightarrow> 'o option) \<Rightarrow> Delta \<Rightarrow> bool" where
  "delta_as as d = (as (deltaObject d) \<noteq> None \<or> deltaType d = Deleted \<and> is_tombstone (deltaObject d))"

fun inote_as :: "(cache_obj \<Rightarrow> 'o option) \<Rightarrow> inote \<Rightarrow> bool" where
  "inote_as as (addNotification obj) = (as obj \<noteq> None)"
| "inote_as as (updateNotification old cur) = (as old \<noteq> None \<and> as cur \<noteq> None)"
| "inote_as as (deleteNotification obj) = True"

definition pending_as :: "(cache_obj \<Rightarrow> 'o option) \<Rightarrow> processorListener list \<Rightarrow> bool" where
  "pending_as as ls = list_all (\<lambda>l. list_all (inote_as as) (pendingNotifications l)) ls"

lemma pending_as_distribute: "pending_as as ls \<Longrightarrow> inote_as as n \<Longrightarrow> pending_as as (distribute n sync ls)"
  by (auto simp: pending_as_def distribute_def listener_add_def list_all_iff)

text \<open>What the deltas of one object make of the store.\<close>

definition delta_key :: "Delta \<Rightarrow> string" where
  "delta_key d = projr (DeletionHandlingMetaNamespaceKeyFunc (deltaObject d))"

definition apply_delta :: "Delta \<Rightarrow> (string \<rightharpoonup> cache_obj) \<Rightarrow> (string \<rightharpoonup> cache_obj)" where
  "apply_delta d f = f(delta_key d := (if deltaType d = Deleted then None else Some (deltaObject d)))"

context typed_indexer
begin

lemma handle_delta_typed:
  assumes "inv (inf_store s)" "all_as as (contents (inf_store s))" "pending_as as (inf_listeners s)" "delta_as as d"
  shows "\<exists>s'. handle_delta ix d s = (Ret (), s') \<and> inv (inf_store s') \<and> all_as as (contents (inf_store s'))
    \<and> pending_as as (inf_listeners s') \<and> contents (inf_store s') = apply_delta d (contents (inf_store s))"
proof (cases "deltaType d = Deleted")
  case True
  have "\<exists>key. DeletionHandlingMetaNamespaceKeyFunc (deltaObject d) = Inr key"
  proof (cases "as (deltaObject d)")
    case None
    with assms(4) True show ?thesis
      by (auto simp: delta_as_def is_tombstone_def DeletionHandlingMetaNamespaceKeyFunc_def split: cache_obj.splits)
  next
    case (Some x)
    then show ?thesis using keys_of_meta(2)[OF wrap_meta[of x]] by (auto simp: as_wrap)
  qed
  then obtain key where key: "DeletionHandlingMetaNamespaceKeyFunc (deltaObject d) = Inr key" by blast
  from Delete_law[OF assms(1) key] obtain c' where c': "ix_Delete ix (deltaObject d) (inf_store s) = (Ret (), c')" "inv c'"
      "contents c' = (contents (inf_store s))(key := None)" by blast
  have "all_as as (contents c')" using assms(2) unfolding c'(3) by (auto simp: all_as_def)
  then show ?thesis
    using True c' key pending_as_distribute[OF assms(3), of "deleteNotification (deltaObject d)" False]
    by (auto simp: handle_delta_def on_store_def processor_distribute_def go_bind_def apply_delta_def delta_key_def)
next
  case False
  with assms(4) obtain x where x: "as (deltaObject d) = Some x" by (auto simp: delta_as_def)
  then have o': "deltaObject d = wrap x" by (simp add: as_wrap)
  have m: "Accessor (deltaObject d) = Inr (md x)" using wrap_meta o' by simp
  have key: "delta_key d = namespace_key (md x)" using keys_of_meta(2)[OF m] by (simp add: delta_key_def)
  have new: "all_as as ((contents (inf_store s))(namespace_key (md x) \<mapsto> deltaObject d))"
    using assms(2) x by (auto simp: all_as_def)
  show ?thesis
  proof (cases "contents (inf_store s) (namespace_key (md x))")
    case None
    from Add_law[OF assms(1) m] obtain c' where c': "ix_Add ix (deltaObject d) (inf_store s) = (Ret (), c')" "inv c'"
        "contents c' = (contents (inf_store s))(namespace_key (md x) \<mapsto> deltaObject d)" by blast
    show ?thesis
      using False None c' new key pending_as_distribute[OF assms(3), of "addNotification (deltaObject d)"] x
      by (simp add: handle_delta_def Get_law[OF assms(1) m] on_store_def processor_distribute_def go_bind_def apply_delta_def)
  next
    case (Some old)
    with assms(2) have old: "as old \<noteq> None" by (auto simp: all_as_def)
    from Update_law[OF assms(1) m] obtain c' where c': "ix_Update ix (deltaObject d) (inf_store s) = (Ret (), c')" "inv c'"
        "contents c' = (contents (inf_store s))(namespace_key (md x) \<mapsto> deltaObject d)" by blast
    show ?thesis
      using False Some c' new key pending_as_distribute[OF assms(3), of "updateNotification old (deltaObject d)"] x old
      by (simp add: handle_delta_def Get_law[OF assms(1) m] on_store_def processor_distribute_def go_bind_def apply_delta_def)
  qed
qed

lemma HandleDeltas_typed:
  assumes "inv (inf_store s)" "all_as as (contents (inf_store s))" "pending_as as (inf_listeners s)" "list_all (delta_as as) ds"
  shows "\<exists>s'. HandleDeltas ix ds s = (Ret (), s') \<and> inv (inf_store s') \<and> all_as as (contents (inf_store s'))
    \<and> pending_as as (inf_listeners s') \<and> contents (inf_store s') = fold apply_delta ds (contents (inf_store s))"
  using assms
proof (induction ds arbitrary: s)
  case Nil
  then show ?case by (simp add: HandleDeltas_def go_ret_def)
next
  case (Cons d ds)
  have d: "delta_as as d" "list_all (delta_as as) ds" using Cons.prems(4) by simp_all
  obtain s1 where s1: "handle_delta ix d s = (Ret (), s1)" "inv (inf_store s1)" "all_as as (contents (inf_store s1))"
      "pending_as as (inf_listeners s1)" "contents (inf_store s1) = apply_delta d (contents (inf_store s))"
    using handle_delta_typed[OF Cons.prems(1-3) d(1)] by blast
  from Cons.IH[OF s1(2-4) d(2)] s1 show ?case
    by (auto simp: HandleDeltas_def go_each_Cons go_bind_def)
qed

end

text \<open>A listener over such notifications never panics.\<close>

lemma listener_run_typed:
  assumes "\<And>n. n \<in> set ns \<Longrightarrow> well_typed (reg n)"
  shows "listener_run reg ns q = (Ret (), fold (\<lambda>n q. case item_of (reg n) of None \<Rightarrow> q | Some key \<Rightarrow> wq_Add key q) ns q)"
  using assms
proof (induction ns arbitrary: q)
  case (Cons n ns)
  then have "well_typed (reg n)" by simp
  from event_handler_item[OF this, of q] Cons show ?case
    by (simp add: listener_run_def go_each_Cons go_bind_def)
qed (simp add: listener_run_def go_ret_def)

lemma inote_well_typed:
  "inote_as as_LN n \<Longrightarrow> well_typed (ln_notification n)" "inote_as as_NP n \<Longrightarrow> well_typed (np_notification n)"
  by (cases n; auto simp: as_LN_def as_NP_def is_LN_def is_NP_def split: cache_obj.splits)+

end
