(* ===== verification/DeltaFifo.thy ===== *)
theory DeltaFifo
  imports SharedInformer
begin

text \<open>
  What feeds an informer, of \<^verbatim>\<open>k8s.io/client-go/tools/cache\<close>: the queue of changes of \<^verbatim>\<open>delta_fifo.go\<close>, the
  reflector of \<^verbatim>\<open>reflector.go\<close>, which lists the objects of its type and then watches them, and the loop of
  \<^verbatim>\<open>controller.go\<close> that pops the changes and hands them to \<open>HandleDeltas\<close>. Every operation of the queue,
  \<open>Pop\<close> with its processing included, holds the lock of the queue, and the store is changed by that processing only:
  each is one step. The known objects of the queue are the store of the informer, never nil.
\<close>

section \<open>delta_fifo.go\<close>

record fifo =
  fItems :: "Delta list gomap"
  fQueue :: "string list"
  populated :: bool
  initialPopulationCount :: int
  fClosed :: bool

definition NewDeltaFIFO :: fifo where
  "NewDeltaFIFO = \<lparr>fItems = [], fQueue = [], populated = False, initialPopulationCount = 0, fClosed = False\<rparr>"

definition fifo_Close :: "fifo \<Rightarrow> fifo" where
  "fifo_Close f = f\<lparr>fClosed := True\<rparr>"

definition Newest :: "Delta list \<Rightarrow> Delta option" where
  "Newest ds = (if ds = [] then None else Some (last ds))"

text \<open>\<open>KeyOf\<close> of an object, and of a list of deltas. The key function is \<open>MetaNamespaceKeyFunc\<close>.\<close>

definition KeyOf :: "cache_obj \<Rightarrow> go_error + string" where
  "KeyOf obj = (case obj of Tombstone key _ \<Rightarrow> Inr key | _ \<Rightarrow> MetaNamespaceKeyFunc obj)"

definition KeyOf_deltas :: "Delta list \<Rightarrow> go_error + string" where
  "KeyOf_deltas ds =
     (case Newest ds of
        None \<Rightarrow> Inl (KeyError (ErrorString ''0 length Deltas object; can't get key''))
      | Some d \<Rightarrow> KeyOf (deltaObject d))"

definition HasSynced :: "fifo \<Rightarrow> bool" where
  "HasSynced f = (populated f \<and> initialPopulationCount f = 0)"

definition isDeletionDup :: "Delta \<Rightarrow> Delta \<Rightarrow> Delta option" where
  "isDeletionDup a b =
     (if deltaType b \<noteq> Deleted \<or> deltaType a \<noteq> Deleted then None
      else if is_tombstone (deltaObject b) then Some a else Some b)"

definition isDup :: "Delta \<Rightarrow> Delta \<Rightarrow> Delta option" where
  "isDup a b = (case isDeletionDup a b of Some out \<Rightarrow> Some out | None \<Rightarrow> None)"

definition dedupDeltas :: "Delta list \<Rightarrow> Delta list" where
  "dedupDeltas deltas =
     (let n = length deltas in
      if n < 2 then deltas
      else (case isDup (deltas ! (n - 1)) (deltas ! (n - 2)) of
              Some out \<Rightarrow> take (n - 2) deltas @ [out]
            | None \<Rightarrow> deltas))"

text \<open>\<open>f.items[key]\<close>: nil where there is none.\<close>

definition items_of :: "fifo \<Rightarrow> string \<Rightarrow> Delta list" where
  "items_of f key = (case map_of (fItems f) key of None \<Rightarrow> [] | Some ds \<Rightarrow> ds)"

definition willObjectBeDeletedLocked :: "string \<Rightarrow> fifo \<Rightarrow> bool" where
  "willObjectBeDeletedLocked key f = (items_of f key \<noteq> [] \<and> deltaType (last (items_of f key)) = Deleted)"

definition queueActionLocked :: "DeltaType \<Rightarrow> cache_obj \<Rightarrow> (fifo, unit) go" where
  "queueActionLocked actionType obj f =
     (case KeyOf obj of
        Inl e \<Rightarrow> (Err (KeyError e), f)
      | Inr key \<Rightarrow>
          if actionType = DSync \<and> willObjectBeDeletedLocked key f then (Ret (), f)
          else
            let newDeltas = dedupDeltas (items_of f key @ [\<lparr>deltaType = actionType, deltaObject = obj\<rparr>]);
                exists = (map_of (fItems f) key \<noteq> None) in
            if newDeltas \<noteq> [] then
              (Ret (), f\<lparr>fQueue := (if exists then fQueue f else fQueue f @ [key]), fItems := map_put key newDeltas (fItems f)\<rparr>)
            else if exists then (Ret (), f\<lparr>fItems := filter (\<lambda>(k, _). k \<noteq> key) (fItems f)\<rparr>)
            else (Ret (), f))"

definition fifo_Add :: "cache_obj \<Rightarrow> (fifo, unit) go" where
  "fifo_Add obj f = queueActionLocked Added obj (f\<lparr>populated := True\<rparr>)"

definition fifo_Update :: "cache_obj \<Rightarrow> (fifo, unit) go" where
  "fifo_Update obj f = queueActionLocked Updated obj (f\<lparr>populated := True\<rparr>)"

text \<open>\<open>Delete\<close> looks into the store \<open>c\<close>: an object neither there nor queued is not queued.\<close>

definition fifo_Delete :: "'c Indexer \<Rightarrow> 'c \<Rightarrow> cache_obj \<Rightarrow> (fifo, unit) go" where
  "fifo_Delete ix c obj f =
     (case KeyOf obj of
        Inl e \<Rightarrow> (Err (KeyError e), f)
      | Inr key \<Rightarrow>
          let f1 = f\<lparr>populated := True\<rparr> in
          if ix_GetByKey ix key c = Inr None \<and> map_of (fItems f1) key = None then (Ret (), f1)
          else queueActionLocked Deleted obj f1)"

definition addIfNotPresent :: "string \<Rightarrow> Delta list \<Rightarrow> fifo \<Rightarrow> fifo" where
  "addIfNotPresent key deltas f =
     (let f1 = f\<lparr>populated := True\<rparr> in
      if map_of (fItems f1) key \<noteq> None then f1
      else f1\<lparr>fQueue := fQueue f1 @ [key], fItems := map_put key deltas (fItems f1)\<rparr>)"

definition AddIfNotPresent :: "Delta list \<Rightarrow> (fifo, unit) go" where
  "AddIfNotPresent deltas f =
     (case Newest deltas of
        None \<Rightarrow> (Panic ''invalid memory address or nil pointer dereference'', f)
      | Some d \<Rightarrow>
          (case KeyOf (deltaObject d) of
             Inl e \<Rightarrow> (Err (KeyError e), f)
           | Inr key \<Rightarrow> (Ret (), addIfNotPresent key deltas f)))"

text \<open>\<open>Replace\<close>: the items of the list as \<^verbatim>\<open>Sync\<close>, then a deletion for every other object of the store.\<close>

definition replace_item :: "cache_obj \<Rightarrow> string list \<Rightarrow> (fifo, string list) go" where
  "replace_item item keys =
     (case KeyOf item of
        Inl e \<Rightarrow> go_err (KeyError e)
      | Inr key \<Rightarrow>
          go_bind (go_wrap (Errorf_v ''couldn't enqueue object: '') (queueActionLocked DSync item)) (\<lambda>_.
          go_ret (set_Insert key keys)))"

definition replace_known :: "'c Indexer \<Rightarrow> 'c \<Rightarrow> string list \<Rightarrow> string \<Rightarrow> int \<Rightarrow> (fifo, int) go" where
  "replace_known ix c keys k queuedDeletions =
     (if k \<in> set keys then go_ret queuedDeletions
      else
        let deletedObj = (case ix_GetByKey ix k c of Inr (Some obj) \<Rightarrow> obj | _ \<Rightarrow> ObjNil) in
        go_bind (queueActionLocked Deleted (Tombstone k deletedObj)) (\<lambda>_. go_ret (queuedDeletions + 1)))"

definition fifo_Replace :: "'c Indexer \<Rightarrow> 'c \<Rightarrow> cache_obj list \<Rightarrow> (fifo, unit) go" where
  "fifo_Replace ix c xs =
     go_bind (go_fold replace_item xs []) (\<lambda>keys.
     go_bind (go_fold (replace_known ix c keys) (ix_ListKeys ix c) 0) (\<lambda>queuedDeletions f.
     (Ret (), if populated f then f else f\<lparr>populated := True, initialPopulationCount := int (length xs) + queuedDeletions\<rparr>)))"

definition syncKeyLocked :: "'c Indexer \<Rightarrow> 'c \<Rightarrow> string \<Rightarrow> (fifo, unit) go" where
  "syncKeyLocked ix c key f =
     (case ix_GetByKey ix key c of
        Inr (Some obj) \<Rightarrow>
          (case KeyOf obj of
             Inl e \<Rightarrow> (Err (KeyError e), f)
           | Inr objKey \<Rightarrow>
               if items_of f objKey \<noteq> [] then (Ret (), f)
               else go_wrap (Errorf_v ''couldn't queue object: '') (queueActionLocked DSync obj) f)
      | _ \<Rightarrow> (Ret (), f))"

definition fifo_Resync :: "'c Indexer \<Rightarrow> 'c \<Rightarrow> (fifo, unit) go" where
  "fifo_Resync ix c = go_each (syncKeyLocked ix c) (ix_ListKeys ix c)"

text \<open>The loop of \<open>Pop\<close> up to the first key with an item; \<open>None\<close> when the queue is empty.\<close>

fun pop_item :: "string list \<Rightarrow> fifo \<Rightarrow> Delta list option \<times> fifo" where
  "pop_item [] f = (None, f\<lparr>fQueue := []\<rparr>)"
| "pop_item (key # q) f =
     (let n = initialPopulationCount f; f1 = f\<lparr>fQueue := q, initialPopulationCount := (if 0 < n then n - 1 else n)\<rparr> in
      case map_of (fItems f1) key of
        None \<Rightarrow> pop_item q f1
      | Some item \<Rightarrow> (Some item, f1\<lparr>fItems := filter (\<lambda>(k, _). k \<noteq> key) (fItems f1)\<rparr>))"

text \<open>\<open>Pop\<close> with a \<open>process\<close> that works on another state and never asks to queue its item again, as
  \<open>HandleDeltas\<close> does not: what it popped with the result, or, on an empty queue, that it waits or that the
  queue is closed.\<close>

datatype pop_result = PopWaits | PopClosed | PopItem "Delta list" "unit go_res"

definition Pop :: "(Delta list \<Rightarrow> ('i, unit) go) \<Rightarrow> fifo \<times> 'i \<Rightarrow> pop_result \<times> fifo \<times> 'i" where
  "Pop process = (\<lambda>(f, s).
     case pop_item (fQueue f) f of
       (None, f1) \<Rightarrow> (if fClosed f1 then PopClosed else PopWaits, f1, s)
     | (Some item, f1) \<Rightarrow> (case process item s of (r, s') \<Rightarrow> (PopItem item r, f1, s')))"

section \<open>reflector.go\<close>

datatype event_type = EvAdded | EvModified | EvDeleted | EvError | EvOther

record event =
  evType :: event_type
  evObject :: cache_obj

record 'c reflector =
  rFifo :: fifo
  rInformer :: "'c informer_state"
  rVersion :: string             \<comment> \<open>\<open>resourceVersion\<close>\<close>
  rWatching :: bool              \<comment> \<open>after a list, in the loop of watches\<close>

text \<open>The body of the loop of \<open>watchHandler\<close>: \<open>None\<close> when an event of type \<^verbatim>\<open>Error\<close> ends the watch. The
  expected type is given by the type assertion \<open>as\<close>; errors of the queue are only logged.\<close>

definition watch_event :: "(cache_obj \<Rightarrow> 'o option) \<Rightarrow> 'c Indexer \<Rightarrow> event \<Rightarrow> 'c reflector \<Rightarrow> 'c reflector option" where
  "watch_event as ix ev r =
     (if evType ev = EvError then None
      else if as (evObject ev) = None then Some r
      else (case Accessor (evObject ev) of
        Inl _ \<Rightarrow> Some r
      | Inr m \<Rightarrow>
          let act = (case evType ev of
                       EvAdded \<Rightarrow> fifo_Add (evObject ev)
                     | EvModified \<Rightarrow> fifo_Update (evObject ev)
                     | EvDeleted \<Rightarrow> fifo_Delete ix (inf_store (rInformer r)) (evObject ev)
                     | _ \<Rightarrow> go_ret ())
          in Some (r\<lparr>rFifo := snd (act (rFifo r)), rVersion := ResourceVersion m\<rparr>)))"

text \<open>The start of an informer: \<open>Run\<close> makes the queue.\<close>

definition new_reflector :: "'c informer_state \<Rightarrow> 'c reflector" where
  "new_reflector s = \<lparr>rFifo = NewDeltaFIFO, rInformer = s\<lparr>inf_started := True\<rparr>, rVersion = [], rWatching = False\<rparr>"

section \<open>The goroutines of an informer\<close>

text \<open>\<open>ListAndWatch\<close> lists, hands the list to the queue and watches until the watch ends, then it is
  called again; the loop of the controller pops; a timer asks for a resync, from the first list on and also, when
  it fired just before, after the end of a watch. A list has objects of the type of its items; an event may
  have any. The loop goes on after an error of the processing; a panic would end the program.\<close>

datatype reflect_label = Listed "cache_obj list" | Watched event | WatchEnded | Resynced | Popped "Delta list"

inductive reflect_step :: "(cache_obj \<Rightarrow> 'o option) \<Rightarrow> 'c Indexer \<Rightarrow> 'c reflector \<Rightarrow> reflect_label \<Rightarrow> 'c reflector \<Rightarrow> bool"
  for as :: "cache_obj \<Rightarrow> 'o option" and ix :: "'c Indexer" where
  List: "\<not> rWatching r \<Longrightarrow> list_all (\<lambda>x. as x \<noteq> None) xs \<Longrightarrow> fifo_Replace ix (inf_store (rInformer r)) xs (rFifo r) = (res, f) \<Longrightarrow>
    reflect_step as ix r (Listed xs) (r\<lparr>rFifo := f, rVersion := v, rWatching := (res = Ret ())\<rparr>)"
| Watch: "rWatching r \<Longrightarrow> watch_event as ix ev r = Some r' \<Longrightarrow> reflect_step as ix r (Watched ev) r'"
| End: "rWatching r \<Longrightarrow> reflect_step as ix r WatchEnded (r\<lparr>rWatching := False\<rparr>)"
| Resync: "populated (rFifo r) \<Longrightarrow> fifo_Resync ix (inf_store (rInformer r)) (rFifo r) = (res, f) \<Longrightarrow>
    reflect_step as ix r Resynced (r\<lparr>rFifo := f, rWatching := (rWatching r \<and> res = Ret ())\<rparr>)"
| Pop: "Pop (HandleDeltas ix) (rFifo r, rInformer r) = (PopItem ds res, f, s) \<Longrightarrow> (\<And>m. res \<noteq> Panic m) \<Longrightarrow>
    reflect_step as ix r (Popped ds) (r\<lparr>rFifo := f, rInformer := s\<rparr>)"

inductive_cases reflect_stepE: "reflect_step as ix r l r'"

text \<open>Runs in which every step satisfies a condition on the state before it and its label.\<close>

inductive reflect_run ::
  "('c reflector \<Rightarrow> reflect_label \<Rightarrow> bool) \<Rightarrow> (cache_obj \<Rightarrow> 'o option) \<Rightarrow> 'c Indexer \<Rightarrow> 'c reflector \<Rightarrow> reflect_label list \<Rightarrow> 'c reflector \<Rightarrow> bool"
  for Q :: "'c reflector \<Rightarrow> reflect_label \<Rightarrow> bool" and as :: "cache_obj \<Rightarrow> 'o option" and ix :: "'c Indexer" and r0 :: "'c reflector" where
  Start: "reflect_run Q as ix r0 [] r0"
| Step: "reflect_run Q as ix r0 ls r \<Longrightarrow> Q r l \<Longrightarrow> reflect_step as ix r l r' \<Longrightarrow> reflect_run Q as ix r0 (ls @ [l]) r'"

end
