(* ===== verification/DeltaFifoFacts.thy ===== *)
theory DeltaFifoFacts
  imports DeltaFifo
begin

text \<open>
  The queue of changes against an abstract view: what the store will hold once every queued change is
  processed. Every operation of the queue has a simple effect on the view, and processing a change
  leaves it as it is.
\<close>

section \<open>Changes of one object\<close>

lemma KeyOf_deletion: "KeyOf obj = DeletionHandlingMetaNamespaceKeyFunc obj"
  by (simp add: KeyOf_def DeletionHandlingMetaNamespaceKeyFunc_def)

definition delta_effect :: "Delta \<Rightarrow> cache_obj option" where
  "delta_effect d = (if deltaType d = Deleted then None else Some (deltaObject d))"

lemma apply_delta_effect: "apply_delta d m = m(delta_key d := delta_effect d)"
  by (simp add: apply_delta_def delta_effect_def)

lemma fold_apply_delta:
  assumes "ds \<noteq> []" "list_all (\<lambda>d. delta_key d = k) ds"
  shows "fold apply_delta ds m = m(k := delta_effect (last ds))"
  using assms
proof (induction ds rule: rev_induct)
  case (snoc d ds)
  then show ?case by (cases "ds = []") (auto simp: apply_delta_effect)
qed simp

text \<open>\<open>dedupDeltas\<close> drops one of two deletions at the end and nothing else.\<close>

lemma dedupDeltas_cases:
  obtains "dedupDeltas (ds @ [d]) = ds @ [d]"
  | out where "dedupDeltas (ds @ [d]) = butlast ds @ [out]" "out = d \<or> out = last ds" "ds \<noteq> []" "deltaType d = Deleted" "deltaType out = Deleted"
proof (cases ds rule: rev_cases)
  case Nil
  then show ?thesis using that(1) by (simp add: dedupDeltas_def)
next
  case (snoc bs b)
  have "(ds @ [d]) ! (length (ds @ [d]) - 1) = d" "(ds @ [d]) ! (length (ds @ [d]) - 2) = b" "take (length (ds @ [d]) - 2) (ds @ [d]) = bs"
    using snoc by (simp_all add: nth_append)
  moreover have "\<not> length (ds @ [d]) < 2" using snoc by simp
  ultimately have e: "dedupDeltas (ds @ [d]) = (case isDup d b of Some out \<Rightarrow> bs @ [out] | None \<Rightarrow> ds @ [d])"
    by (simp only: dedupDeltas_def Let_def if_False)
  show ?thesis
  proof (cases "isDup d b")
    case None
    then show ?thesis using that(1) e by simp
  next
    case (Some out)
    then have "(out = d \<or> out = b) \<and> deltaType d = Deleted \<and> deltaType out = Deleted"
      by (auto simp: isDup_def isDeletionDup_def split: if_splits)
    then show ?thesis using that(2)[of out] e Some snoc by simp
  qed
qed

lemma dedupDeltas_spec:
  "dedupDeltas (ds @ [d]) \<noteq> []" "delta_effect (last (dedupDeltas (ds @ [d]))) = delta_effect d"
  "deltaType (last (dedupDeltas (ds @ [d]))) = deltaType d"
  "list_all P (ds @ [d]) \<Longrightarrow> list_all P (dedupDeltas (ds @ [d]))"
proof -
  show "dedupDeltas (ds @ [d]) \<noteq> []" "delta_effect (last (dedupDeltas (ds @ [d]))) = delta_effect d"
    "deltaType (last (dedupDeltas (ds @ [d]))) = deltaType d"
    by (cases rule: dedupDeltas_cases[of ds d]; simp add: delta_effect_def)+
  show "list_all P (dedupDeltas (ds @ [d]))" if "list_all P (ds @ [d])"
    using that by (cases rule: dedupDeltas_cases[of ds d]) (auto simp: list_all_iff dest: in_set_butlastD)
qed

section \<open>The invariant and the view\<close>

definition fifo_inv :: "(cache_obj \<Rightarrow> 'o option) \<Rightarrow> fifo \<Rightarrow> bool" where
  "fifo_inv as f \<longleftrightarrow>
     distinct (map fst (fItems f)) \<and> distinct (fQueue f) \<and> set (fQueue f) = dom (map_of (fItems f))
     \<and> (\<forall>k ds. map_of (fItems f) k = Some ds \<longrightarrow> ds \<noteq> [] \<and> list_all (\<lambda>d. delta_as as d \<and> delta_key d = k) ds)"

text \<open>What the store with the contents \<open>m\<close> will hold when the queue is drained.\<close>

definition view :: "fifo \<Rightarrow> (string \<rightharpoonup> cache_obj) \<Rightarrow> (string \<rightharpoonup> cache_obj)" where
  "view f m k = (if items_of f k = [] then m k else delta_effect (last (items_of f k)))"

lemma fifo_inv_New: "fifo_inv as NewDeltaFIFO" and view_New: "view NewDeltaFIFO m = m"
  by (simp_all add: fifo_inv_def NewDeltaFIFO_def view_def items_of_def fun_eq_iff)

lemma fifo_inv_items: "fifo_inv as f \<Longrightarrow> items_of f k = [] \<longleftrightarrow> k \<notin> set (fQueue f)"
  by (auto simp: fifo_inv_def items_of_def split: option.splits)

lemma fifo_inv_deltas: "fifo_inv as f \<Longrightarrow> list_all (\<lambda>d. delta_as as d \<and> delta_key d = k) (items_of f k)"
  by (auto simp: fifo_inv_def items_of_def split: option.splits)

lemma view_drained: "fifo_inv as f \<Longrightarrow> fQueue f = [] \<Longrightarrow> view f m = m"
  using fifo_inv_items by (fastforce simp: view_def fun_eq_iff)

lemma view_willdelete: "willObjectBeDeletedLocked k f \<Longrightarrow> view f m k = None"
  by (simp add: willObjectBeDeletedLocked_def view_def delta_effect_def)

lemma fifo_inv_fields [simp]:
  "fifo_inv as (f\<lparr>populated := b\<rparr>) = fifo_inv as f" "fifo_inv as (f\<lparr>initialPopulationCount := n\<rparr>) = fifo_inv as f"
  "view (f\<lparr>populated := b\<rparr>) = view f" "view (f\<lparr>initialPopulationCount := n\<rparr>) = view f"
  "willObjectBeDeletedLocked k (f\<lparr>populated := b\<rparr>) = willObjectBeDeletedLocked k f"
  by (simp_all add: fifo_inv_def view_def items_of_def fun_eq_iff willObjectBeDeletedLocked_def)

text \<open>What an action does to the rest of the queue.\<close>

definition queue_with :: "string \<Rightarrow> string list \<Rightarrow> string list" where
  "queue_with k q = (if k \<in> set q then q else q @ [k])"

lemma queue_with_simps [simp]: "set (queue_with k q) = insert k (set q)" "set (take n q) \<subseteq> set (take n (queue_with k q))"
  by (auto simp: queue_with_def)

lemma queueActionLocked_spec:
  assumes inv: "fifo_inv as f" and key: "KeyOf obj = Inr k" and typed: "delta_as as \<lparr>deltaType = t, deltaObject = obj\<rparr>"
  obtains f' where "queueActionLocked t obj f = (Ret (), f')" "fifo_inv as f'" "fQueue f' = queue_with k (fQueue f)"
    "populated f' = populated f" "initialPopulationCount f' = initialPopulationCount f"
    "view f' m = (if t = DSync \<and> willObjectBeDeletedLocked k f then view f m else (view f m)(k := if t = Deleted then None else Some obj))"
    "\<forall>k'. willObjectBeDeletedLocked k' f' \<longleftrightarrow>
       (if k' = k \<and> \<not> (t = DSync \<and> willObjectBeDeletedLocked k f) then t = Deleted else willObjectBeDeletedLocked k' f)"
proof (cases "t = DSync \<and> willObjectBeDeletedLocked k f")
  case True
  then have "k \<in> set (fQueue f)" using fifo_inv_items[OF inv] by (auto simp: willObjectBeDeletedLocked_def)
  with True inv key show ?thesis by (intro that[of f]) (simp_all add: queueActionLocked_def queue_with_def)
next
  case False
  let ?d = "\<lparr>deltaType = t, deltaObject = obj\<rparr>"
  let ?n = "dedupDeltas (items_of f k @ [?d])"
  let ?f = "f\<lparr>fQueue := queue_with k (fQueue f), fItems := map_put k ?n (fItems f)\<rparr>"
  note dd = dedupDeltas_spec[where ds = "items_of f k" and d = ?d]
  have q: "(map_of (fItems f) k \<noteq> None) = (k \<in> set (fQueue f))" using inv by (auto simp: fifo_inv_def)
  have i: "items_of ?f k' = (if k' = k then ?n else items_of f k')" for k' by (simp add: items_of_def map_of_map_put)
  have e: "queueActionLocked t obj f = (Ret (), ?f)"
    using False key dd(1) q by (auto simp: queueActionLocked_def Let_def queue_with_def)
  have de: "delta_effect ?d = (if t = Deleted then None else Some obj)" by (simp add: delta_effect_def)
  have dk: "delta_key ?d = k" using key by (simp add: delta_key_def KeyOf_deletion)
  have l: "list_all (\<lambda>d. delta_as as d \<and> delta_key d = k) ?n"
    by (rule dd(4)) (use fifo_inv_deltas[OF inv, of k] typed dk in simp)
  have iv: "fifo_inv as ?f"
    using inv dd(1) l by (auto simp: fifo_inv_def map_of_map_put distinct_map_put queue_with_def)
  have "view ?f m k' = ((view f m)(k := if t = Deleted then None else Some obj)) k'" for k'
  proof (cases "k' = k")
    case True
    then show ?thesis unfolding view_def i using dd(1,2) de by (simp split del: if_split)
  next
    case False
    then show ?thesis unfolding view_def i by simp
  qed
  from ext[OF this] have "view ?f m = (view f m)(k := if t = Deleted then None else Some obj)" .
  moreover have "\<forall>k'. willObjectBeDeletedLocked k' ?f \<longleftrightarrow> (if k' = k then t = Deleted else willObjectBeDeletedLocked k' f)"
    unfolding willObjectBeDeletedLocked_def i using dd(1,3) by simp
  ultimately show ?thesis using e False iv by (intro that[of ?f]) auto
qed


lemma queue_sync:
  assumes "fifo_inv as f" "KeyOf obj = Inr k" "delta_as as \<lparr>deltaType = DSync, deltaObject = obj\<rparr>"
  shows "\<exists>f'. queueActionLocked DSync obj f = (Ret (), f') \<and> fifo_inv as f' \<and> fQueue f' = queue_with k (fQueue f)
    \<and> populated f' = populated f \<and> initialPopulationCount f' = initialPopulationCount f
    \<and> view f' m = (if willObjectBeDeletedLocked k f then view f m else (view f m)(k \<mapsto> obj))
    \<and> (\<forall>k'. willObjectBeDeletedLocked k' f' = willObjectBeDeletedLocked k' f)"
  by (rule queueActionLocked_spec[OF assms, of m]) (rule exI, auto split: if_splits)

lemma queue_change:
  assumes "fifo_inv as f" "KeyOf obj = Inr k" "delta_as as \<lparr>deltaType = t, deltaObject = obj\<rparr>" "t \<noteq> DSync"
  shows "\<exists>f'. queueActionLocked t obj f = (Ret (), f') \<and> fifo_inv as f' \<and> fQueue f' = queue_with k (fQueue f)
    \<and> populated f' = populated f \<and> initialPopulationCount f' = initialPopulationCount f
    \<and> view f' m = (view f m)(k := if t = Deleted then None else Some obj)"
  by (rule queueActionLocked_spec[OF assms(1-3), of m]) (rule exI, use assms(4) in \<open>simp split del: if_split\<close>)

section \<open>A list of objects and the labels of a run\<close>

definition obj_key :: "cache_obj \<Rightarrow> string" where
  "obj_key x = projr (KeyOf x)"

definition listed :: "cache_obj list \<Rightarrow> (string \<rightharpoonup> cache_obj)" where
  "listed xs = fold (\<lambda>x g. g(obj_key x \<mapsto> x)) xs Map.empty"

lemma listed_simps [simp]: "listed [] = Map.empty" "listed (xs @ [x]) = (listed xs)(obj_key x \<mapsto> x)"
  by (simp_all add: listed_def)

lemma dom_listed: "dom (listed xs) = obj_key ` set xs"
proof (induction xs rule: rev_induct)
  case (snoc x xs)
  then show ?case unfolding listed_simps dom_fun_upd by auto
qed simp

text \<open>What the API server told of the objects, from the labels of a run.\<close>

fun told1 :: "(cache_obj \<Rightarrow> 'o option) \<Rightarrow> reflect_label \<Rightarrow> (string \<rightharpoonup> cache_obj) \<Rightarrow> (string \<rightharpoonup> cache_obj)" where
  "told1 as (Listed xs) m = listed xs"
| "told1 as (Watched ev) m =
     (if as (evObject ev) = None then m
      else case evType ev of
             EvAdded \<Rightarrow> m(obj_key (evObject ev) \<mapsto> evObject ev)
           | EvModified \<Rightarrow> m(obj_key (evObject ev) \<mapsto> evObject ev)
           | EvDeleted \<Rightarrow> m(obj_key (evObject ev) := None)
           | _ \<Rightarrow> m)"
| "told1 as _ m = m"

definition told :: "(cache_obj \<Rightarrow> 'o option) \<Rightarrow> reflect_label list \<Rightarrow> (string \<rightharpoonup> cache_obj) \<Rightarrow> (string \<rightharpoonup> cache_obj)" where
  "told as ls = fold (told1 as) ls"

lemma told_simps [simp]: "told as [] m = m" "told as (ls @ [l]) m = told1 as l (told as ls m)"
  by (simp_all add: told_def)

lemma told_popped [simp]: "told as (ls @ map Popped dss) m = told as ls m"
proof -
  have "fold (told1 as) (map Popped dss) x = x" for x by (induction dss) simp_all
  then show ?thesis by (simp add: told_def)
qed

text \<open>A list that comes while changes are queued: none of its objects has its deletion queued, and an object
  that is queued but neither stored nor listed is queued for deletion.\<close>

definition relist_ok :: "'c Indexer \<Rightarrow> 'c reflector \<Rightarrow> reflect_label \<Rightarrow> bool" where
  "relist_ok ix r l =
     (case l of
        Listed xs \<Rightarrow>
          list_all (\<lambda>x. \<not> willObjectBeDeletedLocked (obj_key x) (rFifo r)) xs
          \<and> list_all (\<lambda>k. k \<in> obj_key ` set xs \<or> ix_GetByKey ix k (inf_store (rInformer r)) \<noteq> Inr None \<or> willObjectBeDeletedLocked k (rFifo r))
              (fQueue (rFifo r))
      | _ \<Rightarrow> True)"

lemma view_None: "fifo_inv as f \<Longrightarrow> view f m k = None \<longleftrightarrow> (if k \<in> set (fQueue f) then willObjectBeDeletedLocked k f else m k = None)"
  using fifo_inv_items[of as f k] by (auto simp: view_def willObjectBeDeletedLocked_def delta_effect_def)

lemma fold_queue_with:
  "set (fold queue_with ks q) = set ks \<union> set q" "length (fold queue_with ks q) \<le> length q + length ks"
  "set (take n q) \<subseteq> set (take n (fold queue_with ks q))" "distinct (q @ ks) \<Longrightarrow> fold queue_with ks q = q @ ks"
proof (induction ks arbitrary: q)
  case (Cons k ks)
  {
    case 1
    show ?case using Cons(1)[of "queue_with k q"] by auto
  next
    case 2
    show ?case using Cons(2)[of "queue_with k q"] by (auto simp: queue_with_def split: if_splits)
  next
    case 3
    show ?case using subset_trans[OF queue_with_simps(2)[of n q k] Cons(3)[of "queue_with k q"]] by simp
  next
    case 4
    then show ?case using Cons(4)[of "q @ [k]"] by (auto simp: queue_with_def)
  }
qed simp_all

text \<open>\<open>Resync\<close> queues what is stored already.\<close>

definition resynced :: "(cache_obj \<Rightarrow> 'o option) \<Rightarrow> (string \<rightharpoonup> cache_obj) \<Rightarrow> fifo \<Rightarrow> fifo \<Rightarrow> bool" where
  "resynced as m f f' \<longleftrightarrow> fifo_inv as f' \<and> populated f' = populated f \<and> initialPopulationCount f' = initialPopulationCount f
     \<and> (\<exists>ks. fQueue f' = fold queue_with ks (fQueue f)) \<and> view f' m = view f m"

lemma resynced_refl: "fifo_inv as f \<Longrightarrow> resynced as m f f"
  by (auto simp: resynced_def intro: exI[of _ "[]"])

lemma resynced_trans:
  assumes "resynced as m f g" "resynced as m g h"
  shows "resynced as m f h"
proof -
  obtain ks js where "fQueue g = fold queue_with ks (fQueue f)" "fQueue h = fold queue_with js (fQueue g)" using assms by (auto simp: resynced_def)
  then have "fQueue h = fold queue_with (ks @ js) (fQueue f)" by simp
  with assms show ?thesis unfolding resynced_def by metis
qed

section \<open>The operations of the queue over a store of one type\<close>

context typed_indexer
begin

lemma typed_key: "as x \<noteq> None \<Longrightarrow> KeyOf x = Inr (obj_key x)"
  using keys_of_meta(2) wrap_meta as_wrap by (fastforce simp: KeyOf_deletion obj_key_def)

lemma replace_items_spec:
  assumes "fifo_inv as f" "list_all (\<lambda>x. as x \<noteq> None) xs"
  shows "\<exists>f' keys. go_fold replace_item xs [] f = (Ret keys, f') \<and> set keys = obj_key ` set xs \<and> fifo_inv as f'
    \<and> fQueue f' = fold queue_with (map obj_key xs) (fQueue f) \<and> populated f' = populated f \<and> initialPopulationCount f' = initialPopulationCount f
    \<and> (\<forall>k. willObjectBeDeletedLocked k f' = willObjectBeDeletedLocked k f)
    \<and> (\<forall>k. view f' m k = (case listed xs k of Some x \<Rightarrow> if willObjectBeDeletedLocked k f then None else Some x | None \<Rightarrow> view f m k))"
  using assms(2)
proof (induction xs rule: rev_induct)
  case Nil
  then show ?case using assms(1) by (simp add: go_ret_def)
next
  case (snoc x xs)
  then obtain f1 keys where f1: "go_fold replace_item xs [] f = (Ret keys, f1)" "set keys = obj_key ` set xs" "fifo_inv as f1"
    "fQueue f1 = fold queue_with (map obj_key xs) (fQueue f)" "populated f1 = populated f" "initialPopulationCount f1 = initialPopulationCount f"
    "\<And>k. willObjectBeDeletedLocked k f1 = willObjectBeDeletedLocked k f"
    "\<And>k. view f1 m k = (case listed xs k of Some x \<Rightarrow> if willObjectBeDeletedLocked k f then None else Some x | None \<Rightarrow> view f m k)"
    by auto
  have key: "KeyOf x = Inr (obj_key x)" using snoc.prems typed_key by simp
  have "delta_as as \<lparr>deltaType = DSync, deltaObject = x\<rparr>" using snoc.prems by (simp add: delta_as_def)
  from queue_sync[OF f1(3) key this, of m] obtain f2 where f2:
    "queueActionLocked DSync x f1 = (Ret (), f2)" "fifo_inv as f2" "fQueue f2 = queue_with (obj_key x) (fQueue f1)"
    "populated f2 = populated f1" "initialPopulationCount f2 = initialPopulationCount f1"
    "view f2 m = (if willObjectBeDeletedLocked (obj_key x) f1 then view f1 m else (view f1 m)(obj_key x \<mapsto> x))"
    "\<forall>k. willObjectBeDeletedLocked k f2 \<longleftrightarrow> willObjectBeDeletedLocked k f1"
    by blast
  have e: "go_fold replace_item (xs @ [x]) [] f = (Ret (set_Insert (obj_key x) keys), f2)"
    by (simp add: go_fold_append go_bind_def f1(1) replace_item_def key go_wrap_def f2(1) go_ret_def)
  have v: "view f2 m k = (case listed (xs @ [x]) k of Some y \<Rightarrow> if willObjectBeDeletedLocked k f then None else Some y | None \<Rightarrow> view f m k)" for k
    using view_willdelete[of k f1 m] f1(7,8) by (auto simp: f2(6))
  show ?case
    by (intro exI[of _ f2] exI[of _ "set_Insert (obj_key x) keys"]) (use e v f1 f2 in simp)
qed

lemma replace_known_spec:
  assumes "fifo_inv as f"
  shows "\<exists>f'. go_fold (replace_known ix c keys) ks n f = (Ret (n + int (length (filter (\<lambda>k. k \<notin> set keys) ks))), f') \<and> fifo_inv as f'
    \<and> fQueue f' = fold queue_with (filter (\<lambda>k. k \<notin> set keys) ks) (fQueue f) \<and> populated f' = populated f
    \<and> initialPopulationCount f' = initialPopulationCount f
    \<and> (\<forall>k. view f' m k = (if k \<in> set ks \<and> k \<notin> set keys then None else view f m k))"
  using assms
proof (induction ks arbitrary: f n)
  case Nil
  then show ?case by (simp add: go_ret_def)
next
  case (Cons k ks)
  show ?case
  proof (cases "k \<in> set keys")
    case True
    with Cons.IH[OF Cons.prems, of n] show ?thesis by (simp add: replace_known_def) auto
  next
    case False
    let ?o = "Tombstone k (case ix_GetByKey ix k c of Inr (Some obj) \<Rightarrow> obj | _ \<Rightarrow> ObjNil)"
    have "KeyOf ?o = Inr k" "delta_as as \<lparr>deltaType = Deleted, deltaObject = ?o\<rparr>"
      by (simp_all add: KeyOf_def delta_as_def is_tombstone_def)
    from queue_change[OF Cons.prems this, of m] obtain f1 where f1:
      "queueActionLocked Deleted ?o f = (Ret (), f1)" "fifo_inv as f1" "fQueue f1 = queue_with k (fQueue f)"
      "populated f1 = populated f" "initialPopulationCount f1 = initialPopulationCount f" "view f1 m = (view f m)(k := None)"
      by auto
    from Cons.IH[OF f1(2), of "n + 1"] show ?thesis
      using False f1 by (auto simp: replace_known_def Let_def go_bind_def go_ret_def)
  qed
qed

lemma fifo_Replace_spec:
  assumes f: "fifo_inv as f" and c: "inv c" and xs: "list_all (\<lambda>x. as x \<noteq> None) xs"
  shows "\<exists>f' ks. fifo_Replace ix c xs f = (Ret (), f') \<and> fifo_inv as f' \<and> populated f'
    \<and> distinct ks \<and> set ks = dom (contents c) - obj_key ` set xs
    \<and> fQueue f' = fold queue_with (map obj_key xs @ ks) (fQueue f)
    \<and> initialPopulationCount f' = (if populated f then initialPopulationCount f else int (length xs + length ks))
    \<and> (\<forall>k. view f' (contents c) k = (case listed xs k of
          Some x \<Rightarrow> if willObjectBeDeletedLocked k f then None else Some x
        | None \<Rightarrow> if contents c k \<noteq> None then None else view f (contents c) k))"
proof -
  obtain f1 keys where f1: "go_fold replace_item xs [] f = (Ret keys, f1)" "set keys = obj_key ` set xs" "fifo_inv as f1"
    "fQueue f1 = fold queue_with (map obj_key xs) (fQueue f)" "populated f1 = populated f" "initialPopulationCount f1 = initialPopulationCount f"
    "\<And>k. view f1 (contents c) k = (case listed xs k of Some x \<Rightarrow> if willObjectBeDeletedLocked k f then None else Some x | None \<Rightarrow> view f (contents c) k)"
    using replace_items_spec[OF f xs] by blast
  let ?ks = "filter (\<lambda>k. k \<notin> set keys) (ix_ListKeys ix c)"
  obtain f2 where f2: "go_fold (replace_known ix c keys) (ix_ListKeys ix c) 0 f1 = (Ret (0 + int (length ?ks)), f2)" "fifo_inv as f2"
    "fQueue f2 = fold queue_with ?ks (fQueue f1)" "populated f2 = populated f1" "initialPopulationCount f2 = initialPopulationCount f1"
    "\<And>k. view f2 (contents c) k = (if k \<in> set (ix_ListKeys ix c) \<and> k \<notin> set keys then None else view f1 (contents c) k)"
    using replace_known_spec[OF f1(3)] by blast
  have ks: "distinct ?ks" "set ?ks = dom (contents c) - obj_key ` set xs" using ListKeys_law[OF c] f1(2) by auto
  let ?f = "if populated f2 then f2 else f2\<lparr>populated := True, initialPopulationCount := int (length xs) + int (length ?ks)\<rparr>"
  have e: "fifo_Replace ix c xs f = (Ret (), ?f)" by (simp add: fifo_Replace_def go_bind_def f1(1) f2(1))
  have "view ?f (contents c) k = (case listed xs k of
          Some x \<Rightarrow> if willObjectBeDeletedLocked k f then None else Some x
        | None \<Rightarrow> if contents c k \<noteq> None then None else view f (contents c) k)" for k
  proof -
    have "k \<in> set keys \<longleftrightarrow> listed xs k \<noteq> None" "k \<in> set (ix_ListKeys ix c) \<longleftrightarrow> contents c k \<noteq> None"
      using f1(2) dom_listed[of xs] ListKeys_law[OF c] by auto
    moreover have "view ?f = view f2" by simp
    ultimately show ?thesis using f1(7)[of k] f2(6)[of k] by (cases "listed xs k"; cases "contents c k") (simp_all split del: if_split)
  qed
  with e ks show ?thesis
    using f1(3-6) f2(2-5) by (intro exI[of _ ?f] exI[of _ ?ks]) auto
qed

lemma syncKeyLocked_spec:
  assumes f: "fifo_inv as f" and c: "inv c" "all_as as (contents c)" and obj: "contents c k = Some obj"
  shows "\<exists>f'. syncKeyLocked ix c k f = (Ret (), f') \<and> resynced as (contents c) f f'"
proof (cases "items_of f k = []")
  case empty: True
  have g: "ix_GetByKey ix k c = Inr (Some obj)" using GetByKey_law[OF c(1)] obj by simp
  have key: "KeyOf obj = Inr k" using contents_key[OF c(1) obj] keys_of_meta(2) by (auto simp: KeyOf_deletion)
  have "delta_as as \<lparr>deltaType = DSync, deltaObject = obj\<rparr>" using c(2) obj by (simp add: delta_as_def all_as_def)
  moreover have "\<not> willObjectBeDeletedLocked k f" "view f (contents c) k = Some obj"
    using empty obj by (simp_all add: willObjectBeDeletedLocked_def view_def)
  ultimately obtain f1 where f1: "queueActionLocked DSync obj f = (Ret (), f1)" "fifo_inv as f1" "fQueue f1 = queue_with k (fQueue f)"
    "populated f1 = populated f" "initialPopulationCount f1 = initialPopulationCount f" "view f1 (contents c) = view f (contents c)"
    using queue_sync[OF f key, of "contents c"] fun_upd_idem by metis
  then have "resynced as (contents c) f f1" by (auto simp: resynced_def intro: exI[of _ "[k]"])
  moreover have "syncKeyLocked ix c k f = (Ret (), f1)" using empty by (simp add: syncKeyLocked_def g key go_wrap_def f1(1))
  ultimately show ?thesis by blast
next
  case False
  have "KeyOf obj = Inr k" using contents_key[OF c(1) obj] keys_of_meta(2) by (auto simp: KeyOf_deletion)
  with False obj have "syncKeyLocked ix c k f = (Ret (), f)" by (simp add: syncKeyLocked_def GetByKey_law[OF c(1)])
  then show ?thesis using resynced_refl[OF f] by blast
qed

lemma fifo_Resync_spec:
  assumes f: "fifo_inv as f" and c: "inv c" "all_as as (contents c)"
  shows "\<exists>f'. fifo_Resync ix c f = (Ret (), f') \<and> resynced as (contents c) f f'"
proof -
  have "\<exists>f'. go_each (syncKeyLocked ix c) ks f = (Ret (), f') \<and> resynced as (contents c) f f'" if "set ks \<subseteq> dom (contents c)" for ks
    using that f
  proof (induction ks arbitrary: f)
    case Nil
    then show ?case using resynced_refl by (simp add: go_ret_def)
  next
    case (Cons k ks)
    then obtain obj where "contents c k = Some obj" by auto
    from syncKeyLocked_spec[OF Cons.prems(2) c this] obtain f1 where f1: "syncKeyLocked ix c k f = (Ret (), f1)" "resynced as (contents c) f f1" by blast
    moreover obtain f2 where "go_each (syncKeyLocked ix c) ks f1 = (Ret (), f2)" "resynced as (contents c) f1 f2"
      using Cons.IH[of f1] Cons.prems(1) f1(2) by (auto simp: resynced_def)
    ultimately show ?case using resynced_trans by (auto simp: go_each_Cons go_bind_def)
  qed
  from this[of "ix_ListKeys ix c"] show ?thesis using ListKeys_law[OF c(1)] by (simp add: fifo_Resync_def)
qed

text \<open>What the events of a watch queue.\<close>

lemma fifo_Delete_spec:
  assumes f: "fifo_inv as f" and c: "inv c" and x: "as x \<noteq> None"
  shows "\<exists>f' ks. fifo_Delete ix c x f = (Ret (), f') \<and> fifo_inv as f' \<and> populated f' \<and> initialPopulationCount f' = initialPopulationCount f
    \<and> fQueue f' = fold queue_with ks (fQueue f) \<and> view f' (contents c) = (view f (contents c))(obj_key x := None)"
proof (cases "contents c (obj_key x) = None \<and> map_of (fItems f) (obj_key x) = None")
  case True
  then have "view f (contents c) (obj_key x) = None" by (simp add: view_def items_of_def)
  with True f show ?thesis
    by (intro exI[of _ "f\<lparr>populated := True\<rparr>"] exI[of _ "[]"])
      (simp add: fifo_Delete_def typed_key[OF x] GetByKey_law[OF c] fun_upd_idem)
next
  case False
  have d: "delta_as as \<lparr>deltaType = Deleted, deltaObject = x\<rparr>" using x by (simp add: delta_as_def)
  have "fifo_inv as (f\<lparr>populated := True\<rparr>)" using f by simp
  from queue_change[OF this typed_key[OF x] d, of "contents c"] obtain f' where
    "queueActionLocked Deleted x (f\<lparr>populated := True\<rparr>) = (Ret (), f')" "fifo_inv as f'" "fQueue f' = queue_with (obj_key x) (fQueue f)"
    "populated f'" "initialPopulationCount f' = initialPopulationCount f" "view f' (contents c) = (view f (contents c))(obj_key x := None)"
    by auto
  with False show ?thesis
    by (intro exI[of _ f'] exI[of _ "[obj_key x]"]) (auto simp: fifo_Delete_def typed_key[OF x] GetByKey_law[OF c])
qed

lemma fifo_Add_spec:
  assumes f: "fifo_inv as f" and x: "as x \<noteq> None" and g: "g = fifo_Add \<or> g = fifo_Update"
  shows "\<exists>f' ks. g x f = (Ret (), f') \<and> fifo_inv as f' \<and> populated f' \<and> initialPopulationCount f' = initialPopulationCount f
    \<and> fQueue f' = fold queue_with ks (fQueue f) \<and> view f' m = (view f m)(obj_key x \<mapsto> x)"
proof -
  obtain t where t: "g x f = queueActionLocked t x (f\<lparr>populated := True\<rparr>)" "t \<noteq> DSync" "t \<noteq> Deleted"
    using g fifo_Add_def fifo_Update_def by (metis DeltaType.distinct(3,5,7,9))
  have d: "delta_as as \<lparr>deltaType = t, deltaObject = x\<rparr>" using x by (simp add: delta_as_def)
  have "fifo_inv as (f\<lparr>populated := True\<rparr>)" using f by simp
  from queue_change[OF this typed_key[OF x] d t(2), of m] t(1,3) show ?thesis
    by (auto intro!: exI[of _ "[obj_key x]"])
qed

lemma watch_event_spec:
  assumes f: "fifo_inv as (rFifo r)" and c: "inv (inf_store (rInformer r))" and p: "populated (rFifo r)" and e: "watch_event as ix ev r = Some r'"
  shows "fifo_inv as (rFifo r') \<and> rInformer r' = rInformer r \<and> rWatching r' = rWatching r \<and> populated (rFifo r')
    \<and> initialPopulationCount (rFifo r') = initialPopulationCount (rFifo r) \<and> (\<exists>ks. fQueue (rFifo r') = fold queue_with ks (fQueue (rFifo r)))
    \<and> view (rFifo r') (contents (inf_store (rInformer r))) = told1 as (Watched ev) (view (rFifo r) (contents (inf_store (rInformer r))))"
proof (cases "as (evObject ev)")
  case None
  then have "r' = r" using e by (simp add: watch_event_def split: if_splits)
  with None f p show ?thesis by (auto intro: exI[of _ "[]"])
next
  case (Some x)
  then have m: "Accessor (evObject ev) = Inr (md x)" using wrap_meta as_wrap by simp
  have t: "as (evObject ev) \<noteq> None" using Some by simp
  note add = fifo_Add_spec[OF f t, where m = "contents (inf_store (rInformer r))"]
  show ?thesis
  proof (cases "evType ev")
    case EvAdded
    then show ?thesis using add[of fifo_Add] e Some m by (auto simp: watch_event_def)
  next
    case EvModified
    then show ?thesis using add[of fifo_Update] e Some m by (auto simp: watch_event_def)
  next
    case EvDeleted
    then show ?thesis using fifo_Delete_spec[OF f c t] e Some m by (auto simp: watch_event_def)
  next
    case EvError
    then show ?thesis using e by (simp add: watch_event_def)
  next
    case EvOther
    then show ?thesis using e Some m f p by (auto simp: watch_event_def go_ret_def intro: exI[of _ "[]"])
  qed
qed

text \<open>\<open>Pop\<close> takes the first of the queue, and the view stays.\<close>

lemma Pop_spec:
  assumes f: "fifo_inv as f" and q: "fQueue f = k # q" and s: "inv (inf_store s)" "all_as as (contents (inf_store s))" "pending_as as (inf_listeners s)"
  shows "\<exists>ds f' s'. Pop (HandleDeltas ix) (f, s) = (PopItem ds (Ret ()), f', s') \<and> ds \<noteq> [] \<and> list_all (\<lambda>d. delta_as as d \<and> delta_key d = k) ds
    \<and> fifo_inv as f' \<and> fQueue f' = q \<and> populated f' = populated f
    \<and> initialPopulationCount f' = (let n = initialPopulationCount f in if 0 < n then n - 1 else n)
    \<and> inv (inf_store s') \<and> all_as as (contents (inf_store s')) \<and> pending_as as (inf_listeners s')
    \<and> view f' (contents (inf_store s')) = view f (contents (inf_store s))"
proof -
  have "k \<in> dom (map_of (fItems f))" using f q by (auto simp: fifo_inv_def)
  then obtain ds where ds: "map_of (fItems f) k = Some ds" by blast
  then have d: "ds \<noteq> []" "list_all (\<lambda>d. delta_as as d \<and> delta_key d = k) ds" using f by (auto simp: fifo_inv_def)
  let ?n = "initialPopulationCount f"
  let ?f = "f\<lparr>fQueue := q, initialPopulationCount := (if 0 < ?n then ?n - 1 else ?n), fItems := filter (\<lambda>(k', _). k' \<noteq> k) (fItems f)\<rparr>"
  have p: "pop_item (fQueue f) f = (Some ds, ?f)" by (simp add: q Let_def ds)
  have "list_all (delta_as as) ds" "list_all (\<lambda>d. delta_key d = k) ds" using d(2) by (simp_all add: list_all_iff)
  with HandleDeltas_typed[OF s, of ds] obtain s' where s': "HandleDeltas ix ds s = (Ret (), s')" "inv (inf_store s')" "all_as as (contents (inf_store s'))"
    "pending_as as (inf_listeners s')" "contents (inf_store s') = (contents (inf_store s))(k := delta_effect (last ds))"
    using fold_apply_delta[OF d(1)] by auto
  have m: "map_of (fItems ?f) = (map_of (fItems f))(k := None)" by (simp add: map_of_filter_key)
  have "fifo_inv as ?f" using f q unfolding fifo_inv_def m by (auto simp: distinct_map_filter)
  moreover have "view ?f (contents (inf_store s')) j = view f (contents (inf_store s)) j" for j
    using d(1) ds by (simp add: view_def items_of_def map_of_filter_key s'(5))
  ultimately show ?thesis using p d s' by (intro exI[of _ ds] exI[of _ ?f] exI[of _ s']) (auto simp: Pop_def Let_def)
qed

end

end
