(* ===== verification/ReflectorFacts.thy ===== *)
theory ReflectorFacts
  imports DeltaFifoFacts
begin

text \<open>
  Runs of the goroutines of an informer: the reflector, the timer of the resync and the loop that pops. The
  invariant of the queue and of the store, what \<open>HasSynced\<close> means, and what the store is told.
\<close>

section \<open>The first list\<close>

fun first_list :: "reflect_label list \<Rightarrow> cache_obj list option" where
  "first_list [] = None"
| "first_list (Listed xs # ls) = Some xs"
| "first_list (l # ls) = first_list ls"

fun popped1 :: "reflect_label \<Rightarrow> Delta list" where
  "popped1 (Popped ds) = ds"
| "popped1 _ = []"

definition popped :: "reflect_label list \<Rightarrow> Delta list" where
  "popped ls = concat (map popped1 ls)"

lemma first_list_snoc:
  "first_list (ls @ [l]) = (case first_list ls of Some xs \<Rightarrow> Some xs | None \<Rightarrow> (case l of Listed xs \<Rightarrow> Some xs | _ \<Rightarrow> None))"
  by (induction ls rule: first_list.induct) (auto split: reflect_label.split)

lemma first_list_append: "first_list ls = Some xs \<Longrightarrow> first_list (ls @ ms) = Some xs"
  by (induction ls rule: first_list.induct) simp_all

lemma popped_snoc [simp]: "popped (ls @ [l]) = popped ls @ popped1 l"
  by (simp add: popped_def)

text \<open>How the count of the initial population bounds what of the first list may still be queued: an object of
  it whose changes were not popped stands among the first of the queue.\<close>

definition counted :: "cache_obj list \<Rightarrow> string set \<Rightarrow> fifo \<Rightarrow> bool" where
  "counted xs ks f \<longleftrightarrow> populated f \<and> 0 \<le> initialPopulationCount f
     \<and> obj_key ` set xs - ks \<subseteq> set (take (nat (initialPopulationCount f)) (fQueue f))
     \<and> (distinct (map obj_key xs) \<longrightarrow> initialPopulationCount f \<le> int (length (fQueue f)))"

lemma fold_queue_with_length: "length q \<le> length (fold queue_with ks q)"
proof (induction ks arbitrary: q)
  case (Cons k ks)
  have "length q \<le> length (queue_with k q)" by (simp add: queue_with_def)
  with Cons[of "queue_with k q"] show ?case by simp
qed simp

lemma counted_more:
  assumes "counted xs ks f" "populated f'" "initialPopulationCount f' = initialPopulationCount f" "fQueue f' = fold queue_with js (fQueue f)"
  shows "counted xs ks f'"
  using assms subset_trans[OF _ fold_queue_with(3)[of "nat (initialPopulationCount f)" "fQueue f" js]] fold_queue_with_length[of "fQueue f" js]
  by (fastforce simp: counted_def)

lemma counted_pop:
  assumes "counted xs ks f" "fQueue f = k # q" "populated f' = populated f" "fQueue f' = q"
    "initialPopulationCount f' = (let n = initialPopulationCount f in if 0 < n then n - 1 else n)"
  shows "counted xs (insert k ks) f'"
proof (cases "0 < initialPopulationCount f")
  case True
  then have "nat (initialPopulationCount f) = Suc (nat (initialPopulationCount f - 1))" by simp
  with True assms show ?thesis by (auto simp: counted_def)
next
  case False
  with assms show ?thesis by (auto simp: counted_def)
qed

lemma counted_first:
  assumes "populated f" "initialPopulationCount f = int (length xs + length js)" "fQueue f = fold queue_with (map obj_key xs @ js) []"
    "distinct js" "set js \<inter> obj_key ` set xs = {}"
  shows "counted xs ks f"
proof -
  have l: "length (fQueue f) \<le> length xs + length js" using fold_queue_with(2)[of "map obj_key xs @ js" "[]"] assms(3) by simp
  have "fQueue f = map obj_key xs @ js" if "distinct (map obj_key xs)"
    using fold_queue_with(4)[of "[]" "map obj_key xs @ js"] that assms(3-5) by auto
  moreover have "obj_key ` set xs \<subseteq> set (fQueue f)"
    using fold_queue_with(1)[of "map obj_key xs @ js" "[]"] assms(3) by auto
  ultimately show ?thesis using l assms(1,2) by (auto simp: counted_def)
qed

definition queue_inv :: "(cache_obj \<Rightarrow> 'o option) \<Rightarrow> reflect_label list \<Rightarrow> 'c reflector \<Rightarrow> bool" where
  "queue_inv as ls r \<longleftrightarrow> fifo_inv as (rFifo r)
     \<and> (case first_list ls of
          None \<Rightarrow> rFifo r = NewDeltaFIFO \<and> \<not> rWatching r
        | Some xs \<Rightarrow> counted xs (delta_key ` set (popped ls)) (rFifo r))"

lemma queue_inv_new: "queue_inv as [] (new_reflector s)"
  by (simp add: queue_inv_def new_reflector_def fifo_inv_New)

lemma queue_invD:
  assumes "queue_inv as ls r"
  shows "fifo_inv as (rFifo r)" "populated (rFifo r) \<or> fQueue (rFifo r) \<noteq> [] \<Longrightarrow> \<exists>xs. first_list ls = Some xs"
    "first_list ls = Some xs \<Longrightarrow> counted xs (delta_key ` set (popped ls)) (rFifo r)"
    "rWatching r \<Longrightarrow> populated (rFifo r)"
  using assms by (auto simp: queue_inv_def NewDeltaFIFO_def counted_def split: option.splits)

text \<open>A step that is not a list and queues more.\<close>

lemma queue_inv_more:
  assumes "queue_inv as ls r" "populated (rFifo r)" "\<And>xs. l \<noteq> Listed xs" "popped1 l = []" "fifo_inv as (rFifo r')"
    "populated (rFifo r')" "initialPopulationCount (rFifo r') = initialPopulationCount (rFifo r)"
    "\<exists>js. fQueue (rFifo r') = fold queue_with js (fQueue (rFifo r))"
  shows "queue_inv as (ls @ [l]) r'"
proof -
  obtain xs where xs: "first_list ls = Some xs" using queue_invD(2)[OF assms(1)] assms(2) by blast
  obtain js where "fQueue (rFifo r') = fold queue_with js (fQueue (rFifo r))" using assms(8) by blast
  from counted_more[OF queue_invD(3)[OF assms(1) xs] assms(6,7) this] show ?thesis
    using xs assms(4,5) by (simp add: queue_inv_def first_list_snoc)
qed

text \<open>A list may always come when nothing is queued.\<close>

lemma relist_ok_drained: "queue_inv as ls r \<Longrightarrow> fQueue (rFifo r) = [] \<Longrightarrow> relist_ok ix r l"
  using fifo_inv_items[OF queue_invD(1)]
  by (fastforce simp: relist_ok_def list_all_iff willObjectBeDeletedLocked_def split: reflect_label.split)

section \<open>The invariant of a run\<close>

context typed_indexer
begin

lemma list_inv:
  assumes q: "queue_inv as ls r" and c: "inv (inf_store (rInformer r))" and xs: "list_all (\<lambda>x. as x \<noteq> None) xs"
    and e: "fifo_Replace ix (inf_store (rInformer r)) xs (rFifo r) = (res, f)"
  shows "res = Ret ()" "queue_inv as (ls @ [Listed xs]) (r\<lparr>rFifo := f, rVersion := v, rWatching := w\<rparr>)"
    "relist_ok ix r (Listed xs) \<Longrightarrow> view f (contents (inf_store (rInformer r))) = listed xs"
    "HasSynced (rFifo r) \<Longrightarrow> HasSynced f"
proof -
  let ?m = "contents (inf_store (rInformer r))"
  note fi = queue_invD(1)[OF q]
  obtain ks where f: "res = Ret ()" "fifo_inv as f" "populated f" "distinct ks" "set ks = dom ?m - obj_key ` set xs"
    "fQueue f = fold queue_with (map obj_key xs @ ks) (fQueue (rFifo r))"
    "initialPopulationCount f = (if populated (rFifo r) then initialPopulationCount (rFifo r) else int (length xs + length ks))"
    "\<And>k. view f ?m k = (case listed xs k of Some x \<Rightarrow> if willObjectBeDeletedLocked k (rFifo r) then None else Some x
        | None \<Rightarrow> if ?m k \<noteq> None then None else view (rFifo r) ?m k)"
    using fifo_Replace_spec[OF fi c xs] e by auto
  show "res = Ret ()" by (rule f(1))
  show "HasSynced (rFifo r) \<Longrightarrow> HasSynced f" using f(3,7) by (simp add: HasSynced_def)
  show "queue_inv as (ls @ [Listed xs]) (r\<lparr>rFifo := f, rVersion := v, rWatching := w\<rparr>)"
  proof (cases "first_list ls")
    case None
    then have "rFifo r = NewDeltaFIFO" using q by (simp add: queue_inv_def)
    then have "counted xs (delta_key ` set (popped ls)) f" by (intro counted_first[of _ _ ks]) (use f in \<open>auto simp: NewDeltaFIFO_def\<close>)
    then show ?thesis using f(2) None by (simp add: queue_inv_def first_list_snoc)
  next
    case (Some ys)
    from queue_invD(3)[OF q this] have "counted ys (delta_key ` set (popped ls)) (rFifo r)" "populated (rFifo r)" by (simp_all add: counted_def)
    from counted_more[OF this(1) f(3) _ f(6)] this(2) show ?thesis using f(2,7) Some by (simp add: queue_inv_def first_list_snoc)
  qed
  show "view f ?m = listed xs" if ok: "relist_ok ix r (Listed xs)"
  proof
    fix k
    have "\<not> willObjectBeDeletedLocked k (rFifo r)" if "listed xs k = Some x" for x
    proof -
      have "k \<in> obj_key ` set xs" using that dom_listed[of xs] domI[of "listed xs" k x] by simp
      then show ?thesis using ok by (auto simp: relist_ok_def list_all_iff)
    qed
    moreover have "view (rFifo r) ?m k = None" if "listed xs k = None" "?m k = None"
    proof -
      have "k \<notin> obj_key ` set xs" using that(1) dom_listed[of xs] by auto
      then show ?thesis using ok that(2) GetByKey_law[OF c, of k] by (auto simp: view_None[OF fi] relist_ok_def list_all_iff)
    qed
    ultimately show "view f ?m k = listed xs k" by (cases "listed xs k") (auto simp: f(8))
  qed
qed

text \<open>What holds of the informer.\<close>

lemma reflect_step_inv:
  assumes q: "queue_inv as ls r" and s: "inv (inf_store (rInformer r))" "all_as as (contents (inf_store (rInformer r)))" "pending_as as (inf_listeners (rInformer r))"
    and st: "reflect_step as ix r l r'"
  shows "queue_inv as (ls @ [l]) r' \<and> inv (inf_store (rInformer r')) \<and> all_as as (contents (inf_store (rInformer r'))) \<and> pending_as as (inf_listeners (rInformer r'))
    \<and> list_all (delta_as as) (popped1 l) \<and> (HasSynced (rFifo r) \<longrightarrow> HasSynced (rFifo r'))
    \<and> (relist_ok ix r l \<longrightarrow> view (rFifo r') (contents (inf_store (rInformer r'))) = told1 as l (view (rFifo r) (contents (inf_store (rInformer r)))))"
  using st
proof (cases rule: reflect_step.cases)
  case (List xs res f v)
  then show ?thesis using list_inv[OF q s(1) List(4,5)] s by simp
next
  case (Watch ev)
  note w = watch_event_spec[OF queue_invD(1)[OF q] s(1) queue_invD(4)[OF q Watch(2)] Watch(3)]
  have "queue_inv as (ls @ [l]) r'" by (rule queue_inv_more[OF q queue_invD(4)[OF q Watch(2)]]) (use Watch w in auto)
  with w s Watch(1) show ?thesis by (simp add: HasSynced_def)
next
  case End
  have "queue_inv as (ls @ [l]) r'" by (rule queue_inv_more[OF q queue_invD(4)[OF q End(3)]]) (use End queue_invD[OF q] in \<open>auto intro: exI[of _ "[]"]\<close>)
  with s End show ?thesis by simp
next
  case (Resync res f)
  from fifo_Resync_spec[OF queue_invD(1)[OF q] s(1,2)] Resync obtain ks where f: "res = Ret ()" "fifo_inv as f" "populated f = populated (rFifo r)"
    "initialPopulationCount f = initialPopulationCount (rFifo r)" "fQueue f = fold queue_with ks (fQueue (rFifo r))"
    "view f (contents (inf_store (rInformer r))) = view (rFifo r) (contents (inf_store (rInformer r)))" by (auto simp: resynced_def)
  have "queue_inv as (ls @ [l]) r'" by (rule queue_inv_more[OF q Resync(3)]) (use Resync f in auto)
  with s f Resync(1,2) show ?thesis by (simp add: HasSynced_def)
next
  case (Pop ds res f s')
  show ?thesis
  proof (cases "fQueue (rFifo r)")
    case Nil
    then show ?thesis using Pop by (simp add: DeltaFifo.Pop_def split: if_splits)
  next
    case (Cons k kq)
    from Pop_spec[OF queue_invD(1)[OF q] Cons s] Pop(3) have p: "ds \<noteq> []" "list_all (\<lambda>d. delta_as as d \<and> delta_key d = k) ds"
      "fifo_inv as f" "fQueue f = kq" "populated f = populated (rFifo r)"
      "initialPopulationCount f = (let n = initialPopulationCount (rFifo r) in if 0 < n then n - 1 else n)"
      "inv (inf_store s')" "all_as as (contents (inf_store s'))" "pending_as as (inf_listeners s')"
      "view f (contents (inf_store s')) = view (rFifo r) (contents (inf_store (rInformer r)))" by auto
    obtain xs where xs: "first_list ls = Some xs" using queue_invD(2)[OF q] Cons by auto
    have "delta_key ` set ds = {k}" using p(1,2) by (cases ds) (auto simp: list_all_iff)
    with counted_pop[OF queue_invD(3)[OF q xs] Cons p(5,4,6)] have "queue_inv as (ls @ [l]) r'"
      using Pop(1,2) p(3) xs by (simp add: queue_inv_def first_list_snoc image_Un)
    with p Pop(1,2) show ?thesis by (auto simp: list_all_iff HasSynced_def)
  qed
qed


lemma Pop_no_panic:
  assumes "fifo_inv as f" "inv (inf_store s)" "all_as as (contents (inf_store s))" "pending_as as (inf_listeners s)"
  shows "Pop (HandleDeltas ix) (f, s) \<noteq> (PopItem ds (Panic m), f', s')"
proof (cases "fQueue f")
  case Nil
  then show ?thesis by (simp add: Pop_def)
next
  case (Cons k q)
  from Pop_spec[OF assms(1) Cons assms(2-4)] show ?thesis by auto
qed

lemma reflect_run_inv:
  assumes "reflect_run Q as ix (new_reflector s0) ls r"
    and s: "inv (inf_store s0)" "all_as as (contents (inf_store s0))" "pending_as as (inf_listeners s0)"
  shows "queue_inv as ls r \<and> inv (inf_store (rInformer r)) \<and> all_as as (contents (inf_store (rInformer r)))
    \<and> pending_as as (inf_listeners (rInformer r)) \<and> list_all (delta_as as) (popped ls)"
  using assms(1)
proof (induction rule: reflect_run.induct)
  case Start
  then show ?case using s queue_inv_new[of as s0] by (simp add: new_reflector_def popped_def)
next
  case (Step ls r l r')
  then show ?case using reflect_step_inv[of ls r l r'] by simp
qed

lemma reflect_run_view:
  assumes "reflect_run (relist_ok ix) as ix (new_reflector s0) ls r"
    and s: "inv (inf_store s0)" "all_as as (contents (inf_store s0))" "pending_as as (inf_listeners s0)"
  shows "view (rFifo r) (contents (inf_store (rInformer r))) = told as ls (contents (inf_store s0))"
  using assms(1)
proof (induction rule: reflect_run.induct)
  case Start
  then show ?case by (simp add: new_reflector_def view_New)
next
  case (Step ls r l r')
  then show ?case using reflect_step_inv[of ls r l r'] reflect_run_inv[OF Step.hyps(1) s] by simp
qed

text \<open>Popping drains the queue, one step for each key.\<close>

lemma reflect_run_drain:
  assumes "reflect_run Q as ix (new_reflector s0) ls r"
    and s: "inv (inf_store s0)" "all_as as (contents (inf_store s0))" "pending_as as (inf_listeners s0)"
    and Q: "\<And>r ds. Q r (Popped ds)"
  shows "\<exists>dss r'. reflect_run Q as ix (new_reflector s0) (ls @ map Popped dss) r' \<and> fQueue (rFifo r') = [] \<and> length dss = length (fQueue (rFifo r))"
  using assms(1)
proof (induction "length (fQueue (rFifo r))" arbitrary: ls r)
  case 0
  then show ?case by (intro exI[of _ "[]"] exI[of _ r]) simp
next
  case (Suc n)
  then obtain k q where q: "fQueue (rFifo r) = k # q" by (auto simp: Suc_length_conv)
  have i: "queue_inv as ls r" "inv (inf_store (rInformer r))" "all_as as (contents (inf_store (rInformer r)))" "pending_as as (inf_listeners (rInformer r))"
    using reflect_run_inv[OF Suc.prems s] by simp_all
  obtain ds f s' where p: "Pop (HandleDeltas ix) (rFifo r, rInformer r) = (PopItem ds (Ret ()), f, s')" "fQueue f = q"
    using Pop_spec[OF queue_invD(1)[OF i(1)] q i(2-4)] by blast
  let ?r = "r\<lparr>rFifo := f, rInformer := s'\<rparr>"
  have "reflect_run Q as ix (new_reflector s0) (ls @ [Popped ds]) ?r"
    by (rule reflect_run.Step[OF Suc.prems Q reflect_step.Pop[OF p(1)]]) simp
  moreover have n: "n = length (fQueue (rFifo ?r))" using Suc.hyps(2) q p(2) by simp
  ultimately obtain dss r' where "reflect_run Q as ix (new_reflector s0) ((ls @ [Popped ds]) @ map Popped dss) r'" "fQueue (rFifo r') = []" "length dss = n"
    using Suc.hyps(1)[OF n] by blast
  then show ?case using Suc.hyps(2) by (intro exI[of _ "ds # dss"] exI[of _ r']) simp
qed

lemma HasSynced_popped:
  assumes "reflect_run Q as ix (new_reflector s0) ls r"
    and s: "inv (inf_store s0)" "all_as as (contents (inf_store s0))" "pending_as as (inf_listeners s0)"
  shows "HasSynced (rFifo r) \<Longrightarrow> \<exists>xs. first_list ls = Some xs \<and> obj_key ` set xs \<subseteq> delta_key ` set (popped ls)"
    and "first_list ls = Some xs \<Longrightarrow> distinct (map obj_key xs) \<Longrightarrow> fQueue (rFifo r) = [] \<Longrightarrow> HasSynced (rFifo r)"
proof -
  have q: "queue_inv as ls r" using reflect_run_inv[OF assms] by simp
  show "\<exists>xs. first_list ls = Some xs \<and> obj_key ` set xs \<subseteq> delta_key ` set (popped ls)" if "HasSynced (rFifo r)"
    using q that by (auto simp: queue_inv_def HasSynced_def NewDeltaFIFO_def counted_def split: option.splits)
  show "HasSynced (rFifo r)" if "first_list ls = Some xs" "distinct (map obj_key xs)" "fQueue (rFifo r) = []"
    using queue_invD(3)[OF q that(1)] that(2,3) by (auto simp: HasSynced_def counted_def)
qed

end

section \<open>Lists that come while changes are queued\<close>

definition ghost_run :: "cache_obj \<Rightarrow> reflect_label list" where
  "ghost_run x = [Listed [], Watched \<lparr>evType = EvAdded, evObject = x\<rparr>, WatchEnded, Listed [], Popped [\<lparr>deltaType = Added, deltaObject = x\<rparr>]]"

definition lost_run :: "cache_obj \<Rightarrow> reflect_label list" where
  "lost_run x = [Listed [x], Popped [\<lparr>deltaType = DSync, deltaObject = x\<rparr>], Watched \<lparr>evType = EvDeleted, evObject = x\<rparr>, WatchEnded,
     Listed [x], Popped [\<lparr>deltaType = Deleted, deltaObject = x\<rparr>]]"

lemma reflect_run_Cons:
  assumes "reflect_run Q as ix r1 ls r" "Q r0 l" "reflect_step as ix r0 l r1"
  shows "reflect_run Q as ix r0 (l # ls) r"
  using assms(1)
proof (induction rule: reflect_run.induct)
  case Start
  show ?case using reflect_run.Step[of Q as ix r0 "[]" r0 l r1] reflect_run.Start[of Q as ix r0] assms(2,3) by simp
next
  case (Step ls r l' r')
  from reflect_run.Step[OF Step.IH Step.hyps(2,3)] show ?case by simp
qed

definition refl_at :: "fifo \<Rightarrow> 'c informer_state \<Rightarrow> string \<Rightarrow> bool \<Rightarrow> 'c reflector" where
  "refl_at f s v w = \<lparr>rFifo = f, rInformer = s, rVersion = v, rWatching = w\<rparr>"

lemma refl_at_simps [simp]: "rFifo (refl_at f s v w) = f" "rInformer (refl_at f s v w) = s"
  by (simp_all add: refl_at_def)

lemma step_at:
  "fifo_Replace ix (inf_store s) xs f = (Ret (), f') \<Longrightarrow> list_all (\<lambda>x. as x \<noteq> None) xs \<Longrightarrow> reflect_step as ix (refl_at f s v False) (Listed xs) (refl_at f' s v' True)"
  "watch_event as ix ev (refl_at f s v True) = Some r \<Longrightarrow> reflect_step as ix (refl_at f s v True) (Watched ev) r"
  "reflect_step as ix (refl_at f s v True) WatchEnded (refl_at f s v False)"
  "Pop (HandleDeltas ix) (f, s) = (PopItem ds (Ret ()), f', s') \<Longrightarrow> reflect_step as ix (refl_at f s v w) (Popped ds) (refl_at f' s' v w)"
  using reflect_step.List[of "refl_at f s v False" as xs ix "Ret ()" f' v'] reflect_step.Watch[of "refl_at f s v True" as ix ev r]
    reflect_step.End[of "refl_at f s v True" as ix] reflect_step.Pop[of ix "refl_at f s v w" ds "Ret ()" f' s' as]
  by (simp_all add: refl_at_def)

definition one_item :: "string \<Rightarrow> Delta \<Rightarrow> int \<Rightarrow> fifo" where
  "one_item k d n = \<lparr>fItems = [(k, [d])], fQueue = [k], populated = True, initialPopulationCount = n, fClosed = False\<rparr>"

definition no_item :: fifo where
  "no_item = \<lparr>fItems = [], fQueue = [], populated = True, initialPopulationCount = 0, fClosed = False\<rparr>"

lemmas fifo_items = one_item_def no_item_def NewDeltaFIFO_def items_of_def willObjectBeDeletedLocked_def queueActionLocked_def dedupDeltas_def

context typed_indexer
begin

lemma empty_keys: "inv c \<Longrightarrow> contents c = Map.empty \<Longrightarrow> ix_ListKeys ix c = []"
  and single_key: "inv c \<Longrightarrow> contents c = [k \<mapsto> x] \<Longrightarrow> ix_ListKeys ix c = [k]"
proof -
  show "ix_ListKeys ix c = []" if "inv c" "contents c = Map.empty" using ListKeys_law[OF that(1)] that(2) by simp
  assume "inv c" "contents c = [k \<mapsto> x]"
  then have "distinct (ix_ListKeys ix c)" "set (ix_ListKeys ix c) = {k}" using ListKeys_law[of c] by simp_all
  then show "ix_ListKeys ix c = [k]" by (cases "ix_ListKeys ix c" rule: remdups_adj.cases) auto
qed

lemma Pop_one:
  assumes "inv (inf_store s)" "all_as as (contents (inf_store s))" "pending_as as (inf_listeners s)" "delta_as as d" "delta_key d = k" "n = 0 \<or> n = 1"
  obtains s' where "Pop (HandleDeltas ix) (one_item k d n, s) = (PopItem [d] (Ret ()), no_item, s')" "inv (inf_store s')"
    "all_as as (contents (inf_store s'))" "pending_as as (inf_listeners s')" "contents (inf_store s') = (contents (inf_store s))(k := delta_effect d)"
proof -
  have "list_all (delta_as as) [d]" using assms(4) by simp
  from HandleDeltas_typed[OF assms(1-3) this] obtain s' where "HandleDeltas ix [d] s = (Ret (), s')" "inv (inf_store s')"
    "all_as as (contents (inf_store s'))" "pending_as as (inf_listeners s')" "contents (inf_store s') = (contents (inf_store s))(k := delta_effect d)"
    using assms(5) by (auto simp: apply_delta_effect)
  with assms(6) show thesis by (intro that[of s']) (auto simp: Pop_def one_item_def no_item_def Let_def)
qed

lemma relist_ghost:
  assumes s: "inv (inf_store s0)" "contents (inf_store s0) = Map.empty" "pending_as as (inf_listeners s0)" and x: "as x \<noteq> None"
  shows "\<exists>r. reflect_run (\<lambda>_ _. True) as ix (new_reflector s0) (ghost_run x) r \<and> fQueue (rFifo r) = []
    \<and> contents (inf_store (rInformer r)) = [obj_key x \<mapsto> x]"
proof -
  let ?d = "\<lparr>deltaType = Added, deltaObject = x\<rparr>" and ?k = "obj_key x" and ?c = "inf_store s0"
  note k = typed_key[OF x]
  have key: "delta_key ?d = ?k" using k by (simp add: delta_key_def KeyOf_deletion)
  obtain m where m: "Accessor x = Inr m" using x wrap_meta as_wrap by fastforce
  obtain s' where s': "Pop (HandleDeltas ix) (one_item ?k ?d 0, s0\<lparr>inf_started := True\<rparr>) = (PopItem [?d] (Ret ()), no_item, s')"
    "contents (inf_store s') = [?k \<mapsto> x]"
    by (rule Pop_one[of "s0\<lparr>inf_started := True\<rparr>" ?d ?k 0]) (use s x key in \<open>simp_all add: all_as_def delta_as_def delta_effect_def\<close>)
  let ?s = "s0\<lparr>inf_started := True\<rparr>" and ?v = "ResourceVersion m"
  have n: "new_reflector s0 = refl_at NewDeltaFIFO ?s [] False" by (simp add: new_reflector_def refl_at_def)
  have rep: "fifo_Replace ix (inf_store ?s) [] NewDeltaFIFO = (Ret (), no_item)" "fifo_Replace ix (inf_store ?s) [] (one_item ?k ?d 0) = (Ret (), one_item ?k ?d 0)"
    by (simp_all add: fifo_Replace_def empty_keys[OF s(1,2)] NewDeltaFIFO_def no_item_def one_item_def)
  have w: "watch_event as ix \<lparr>evType = EvAdded, evObject = x\<rparr> (refl_at no_item ?s [] True) = Some (refl_at (one_item ?k ?d 0) ?s ?v True)"
    using x m k by (simp add: watch_event_def fifo_Add_def fifo_items refl_at_def)
  have "reflect_run (\<lambda>_ _. True) as ix (new_reflector s0) (ghost_run x) (refl_at no_item s' [] True)"
    unfolding ghost_run_def n
    by (rule reflect_run_Cons reflect_run.Start TrueI step_at(1)[OF rep(1)] step_at(2)[OF w] step_at(3) step_at(1)[OF rep(2)] step_at(4)[OF s'(1)] | simp)+
  then show ?thesis using s'(2) by (intro exI conjI) (assumption, simp_all add: no_item_def)
qed

lemma relist_lost:
  assumes s: "inv (inf_store s0)" "contents (inf_store s0) = Map.empty" "pending_as as (inf_listeners s0)" and x: "as x \<noteq> None"
  shows "\<exists>r. reflect_run (\<lambda>_ _. True) as ix (new_reflector s0) (lost_run x) r \<and> fQueue (rFifo r) = []
    \<and> contents (inf_store (rInformer r)) = Map.empty"
proof -
  let ?a = "\<lparr>deltaType = DSync, deltaObject = x\<rparr>" and ?d = "\<lparr>deltaType = Deleted, deltaObject = x\<rparr>" and ?k = "obj_key x"
  note k = typed_key[OF x]
  have key: "delta_key ?a = ?k" "delta_key ?d = ?k" using k by (simp_all add: delta_key_def KeyOf_deletion)
  obtain m where m: "Accessor x = Inr m" using x wrap_meta as_wrap by fastforce
  obtain s1 where s1: "Pop (HandleDeltas ix) (one_item ?k ?a 1, s0\<lparr>inf_started := True\<rparr>) = (PopItem [?a] (Ret ()), no_item, s1)" "inv (inf_store s1)"
    "all_as as (contents (inf_store s1))" "pending_as as (inf_listeners s1)" "contents (inf_store s1) = [?k \<mapsto> x]"
    by (rule Pop_one[of "s0\<lparr>inf_started := True\<rparr>" ?a ?k 1]) (use s x key in \<open>simp_all add: all_as_def delta_as_def delta_effect_def\<close>)
  obtain s2 where s2: "Pop (HandleDeltas ix) (one_item ?k ?d 0, s1) = (PopItem [?d] (Ret ()), no_item, s2)" "contents (inf_store s2) = Map.empty"
    by (rule Pop_one[OF s1(2-4), of ?d ?k 0]) (use x key s1(5) in \<open>simp_all add: delta_as_def delta_effect_def\<close>)
  let ?s = "s0\<lparr>inf_started := True\<rparr>" and ?v = "ResourceVersion m"
  have n: "new_reflector s0 = refl_at NewDeltaFIFO ?s [] False" by (simp add: new_reflector_def refl_at_def)
  have r1: "fifo_Replace ix (inf_store ?s) [x] NewDeltaFIFO = (Ret (), one_item ?k ?a 1)"
    by (simp add: fifo_Replace_def empty_keys[OF s(1,2)] replace_item_def k go_simps go_wrap_def set_Insert_def fifo_items)
  have w: "watch_event as ix \<lparr>evType = EvDeleted, evObject = x\<rparr> (refl_at no_item s1 [] True) = Some (refl_at (one_item ?k ?d 0) s1 ?v True)"
    using x m k s1(5) by (simp add: watch_event_def fifo_Delete_def GetByKey_law[OF s1(2)] fifo_items refl_at_def)
  have r2: "fifo_Replace ix (inf_store s1) [x] (one_item ?k ?d 0) = (Ret (), one_item ?k ?d 0)"
    by (simp add: fifo_Replace_def single_key[OF s1(2,5)] replace_item_def replace_known_def k go_simps go_wrap_def set_Insert_def fifo_items)
  have "reflect_run (\<lambda>_ _. True) as ix (new_reflector s0) (lost_run x) (refl_at no_item s2 [] True)"
    unfolding lost_run_def n
    by (rule reflect_run_Cons reflect_run.Start TrueI step_at(1)[OF r1] step_at(4)[OF s1(1)] step_at(2)[OF w] step_at(3) step_at(1)[OF r2] step_at(4)[OF s2(1)]
        | use x in simp)+
  then show ?thesis using s2(2) by (intro exI conjI) (assumption, simp_all add: no_item_def)
qed

end

text \<open>The two informers of the controller.\<close>

context map_order
begin

lemmas ln_relist = ln.relist_ghost ln.relist_lost
lemmas ln_reflector = ln.reflect_run_view ln.reflect_run_inv ln.reflect_run_drain ln.HasSynced_popped
lemmas np_reflector = np.reflect_run_view np.reflect_run_inv np.reflect_run_drain np.HasSynced_popped

end

end
