(* ===== verification/Float64.thy ===== *)
theory Float64
  imports Json
begin

text \<open>
  Numbers of a JSON document that \<^verbatim>\<open>encoding/json\<close> decodes into an \<^verbatim>\<open>interface{}\<close> become
  \<^verbatim>\<open>float64\<close> values: \<open>float64_text\<close> is the literal that \<open>Marshal\<close> writes of the value read from a
  literal, or \<open>None\<close> where the literal is out of range. Reading rounds to the nearest value, to even in
  the middle (\<^verbatim>\<open>strconv.ParseFloat\<close>); writing takes the shortest decimal that reads as the same value
  (\<^verbatim>\<open>strconv.AppendFloat\<close> with precision -1), with an exponent outside the range from 1e-6 to 1e21.
\<close>

section \<open>Literals\<close>

definition digits_nat :: "string \<Rightarrow> int" where
  "digits_nat s = foldl (\<lambda>acc c. 10 * acc + (of_char c - 48)) 0 s"

function int_digits :: "int \<Rightarrow> string" where
  "int_digits n = (if n < 10 then [char_of (48 + n)] else int_digits (n div 10) @ [char_of (48 + n mod 10)])"
  by pat_completeness auto
termination by (relation "measure nat") auto

declare int_digits.simps [simp del]

text \<open>Sign, decimal mantissa and decimal exponent of a literal \<open>num_lit\<close> accepts.\<close>

definition decimal_of :: "string \<Rightarrow> bool \<times> int \<times> int" where
  "decimal_of lit =
     (let (sg, s1) = num_sign ''-'' lit;
          ip = takeWhile digit s1; s2 = dropWhile digit s1;
          fp = (if prefix ''.'' s2 then takeWhile digit (tl s2) else []);
          s3 = (if prefix ''.'' s2 then dropWhile digit (tl s2) else s2);
          (esg, s4) = num_sign ''+-'' (drop 1 s3);
          e = (if s3 = [] then 0 else if esg = ''-'' then - digits_nat s4 else digits_nat s4)
      in (sg \<noteq> [], digits_nat (ip @ fp), e - int (length fp)))"

section \<open>Reading\<close>

function bit_length :: "int \<Rightarrow> int" where
  "bit_length n = (if n \<le> 0 then 0 else 1 + bit_length (n div 2))"
  by pat_completeness auto
termination by (relation "measure nat") auto

declare bit_length.simps [simp del]

definition scale :: "int \<Rightarrow> int \<times> int \<Rightarrow> int \<Rightarrow> int \<times> int" where
  "scale b r e = (if e \<ge> 0 then (fst r * b ^ nat e, snd r) else (fst r, snd r * b ^ nat (- e)))"

definition round_even :: "int \<Rightarrow> int \<Rightarrow> int" where
  "round_even n d =
     (let q = n div d; r = n mod d
      in if 2 * r < d then q else if 2 * r > d then q + 1 else if even q then q else q + 1)"

text \<open>The value nearest to the positive fraction, as mantissa and binary exponent.\<close>

definition nearest :: "int \<times> int \<Rightarrow> (int \<times> int) option" where
  "nearest r =
     (let k = bit_length (fst r) - bit_length (snd r);
          (n, d) = scale 2 r (- k);
          l = (if n \<ge> d then k else k - 1);
          e = max (- 1074) (l - 52);
          (n', d') = scale 2 r (- e);
          m = round_even n' d';
          (m', e') = (if m = 2 ^ 53 then (2 ^ 52, e + 1) else (m, e))
      in if e' > 971 then None else Some (m', e'))"

section \<open>Writing\<close>

text \<open>The decimal exponent \<open>p\<close> of a positive fraction: it is below \<open>10 ^ p\<close> and at least a tenth of it.\<close>

definition decimal_exponent :: "int \<times> int \<Rightarrow> int" where
  "decimal_exponent r =
     (if fst r \<ge> snd r then int (length (int_digits (fst r div snd r)))
      else 1 - int (length (int_digits ((snd r - 1) div fst r))))"

definition less_frac :: "int \<times> int \<Rightarrow> int \<times> int \<Rightarrow> bool" where
  "less_frac a b = (fst a * snd b < fst b * snd a)"

text \<open>The shortest digits, up to 17 of them, in the interval of the fractions that read as the value.\<close>

fun shortest :: "nat \<Rightarrow> int \<Rightarrow> int \<Rightarrow> int \<times> int \<Rightarrow> int \<times> int \<Rightarrow> int \<times> int \<Rightarrow> bool \<Rightarrow> int \<times> int" where
  "shortest 0 nd p v lo hi incl = (fst (scale 10 v (nd - p)) div snd (scale 10 v (nd - p)), nd)"
| "shortest (Suc i) nd p v lo hi incl =
     (let (n, d) = scale 10 v (nd - p); q = n div d;
          down = scale 10 (q, 1) (p - nd); up = scale 10 (q + 1, 1) (p - nd);
          okdown = (less_frac lo down \<or> incl \<and> \<not> less_frac down lo);
          okup = (less_frac up hi \<or> incl \<and> \<not> less_frac hi up)
      in if n mod d = 0 then (q, nd)
         else if okdown \<and> okup then (round_even n d, nd)
         else if okdown then (q, nd)
         else if okup then (q + 1, nd)
         else shortest i (nd + 1) p v lo hi incl)"

text \<open>The digits of a value and its decimal exponent.\<close>

definition float_digits :: "int \<times> int \<Rightarrow> string \<times> int" where
  "float_digits f =
     (let (m, e) = f; v = scale 2 (m, 1) e; p = decimal_exponent v;
          hi = scale 2 (2 * m + 1, 1) (e - 1);
          lo = (if m > 2 ^ 52 \<or> e = - 1074 then scale 2 (2 * m - 1, 1) (e - 1) else scale 2 (4 * m - 1, 1) (e - 2));
          (q, nd) = shortest 17 1 p v lo hi (even m);
          ds = int_digits q;
          p' = p + (int (length ds) - nd)
      in (rev (dropWhile (\<lambda>c. c = CHR ''0'') (rev ds)), p'))"

definition positive_text :: "int \<times> int \<Rightarrow> string" where
  "positive_text f =
     (let (ds, p) = float_digits f; n = int (length ds)
      in if p - 1 < - 6 \<or> p - 1 \<ge> 21 then
           [hd ds] @ (if tl ds = [] then [] else ''.'' @ tl ds) @ ''e'' @ (if p - 1 < 0 then ''-'' else ''+'') @ int_digits (abs (p - 1))
         else if p \<le> 0 then ''0.'' @ replicate (nat (- p)) (CHR ''0'') @ ds
         else if n \<le> p then ds @ replicate (nat (p - n)) (CHR ''0'')
         else take (nat p) ds @ ''.'' @ drop (nat p) ds)"

definition float64_text :: "string \<Rightarrow> string option" where
  "float64_text lit =
     (let (neg, d, x) = decimal_of lit; sg = (if neg then ''-'' else [])
      in if d = 0 then Some (sg @ ''0'')
         else case nearest (scale 10 (d, 1) x) of
             None \<Rightarrow> None
           | Some f \<Rightarrow> if fst f = 0 then Some (sg @ ''0'') else Some (sg @ positive_text f))"

end
