(* ===== verification/JsonRender.thy ===== *)
theory JsonRender
  imports JsonFacts Float64
begin

text \<open>
  \<^verbatim>\<open>encoding/json\<close> on values of the Go type \<^verbatim>\<open>interface{}\<close> and on structures: decoding into an
  \<^verbatim>\<open>interface{}\<close> or a \<^verbatim>\<open>map[string]interface{}\<close>, \<open>Marshal\<close> and \<open>MarshalIndent\<close>. A decoded number
  stands for its \<^verbatim>\<open>float64\<close> value by the literal \<open>Marshal\<close> writes for it. What the two printers write
  is read back.
\<close>

section \<open>Decoding into interface\<close>

fun any_of :: "json \<Rightarrow> go_error + json"
  and any_list :: "json list \<Rightarrow> go_error + json list"
  and any_members :: "(string \<times> json) list \<Rightarrow> json gomap \<Rightarrow> go_error + json gomap" where
  "any_of (JNum lit) = (case float64_text lit of None \<Rightarrow> Inl json_type_error | Some t \<Rightarrow> Inr (JNum t))"
| "any_of (JArr vs) = map_sum id JArr (any_list vs)"
| "any_of (JObj ms) = map_sum id JObj (any_members ms [])"
| "any_of v = Inr v"
| "any_list [] = Inr []"
| "any_list (v # vs) =
     (case any_of v of Inl e \<Rightarrow> Inl e | Inr w \<Rightarrow> map_sum id ((#) w) (any_list vs))"
| "any_members [] acc = Inr acc"
| "any_members ((k, v) # ms) acc =
     (case any_of v of Inl e \<Rightarrow> Inl e | Inr w \<Rightarrow> any_members ms (map_put k w acc))"

text \<open>\<open>json.Unmarshal\<close> into a \<^verbatim>\<open>map[string]interface{}\<close>: \<open>null\<close> makes the map nil.\<close>

definition Unmarshal_any_map :: "string \<Rightarrow> go_error + json gomap option" where
  "Unmarshal_any_map text' =
     (case json_parse text' of
        None \<Rightarrow> Inl json_syntax_error
      | Some (JObj ms) \<Rightarrow> map_sum id Some (any_members ms [])
      | Some JNull \<Rightarrow> Inr None
      | Some _ \<Rightarrow> Inl json_type_error)"

section \<open>Printing\<close>

text \<open>\<open>ws d\<close> is what separates the parts of a value at depth \<open>d\<close>, \<open>col\<close> what follows a member's name. The
  members of an object are in the order given: that of the fields of a structure.\<close>

fun render :: "(nat \<Rightarrow> string) \<Rightarrow> string \<Rightarrow> nat \<Rightarrow> json \<Rightarrow> string" where
  "render ws col d JNull = ''null''"
| "render ws col d (JBool b) = (if b then ''true'' else ''false'')"
| "render ws col d (JNum lit) = lit"
| "render ws col d (JStr s) = encode_string s"
| "render ws col d (JArr vs) =
     (if vs = [] then ''[]''
      else ''['' @ ws (Suc d) @ Join (map (render ws col (Suc d)) vs) ('','' @ ws (Suc d)) @ ws d @ '']'')"
| "render ws col d (JObj ms) =
     (if ms = [] then ''{}''
      else ''{'' @ ws (Suc d)
           @ Join (map (\<lambda>(k, v). encode_string k @ col @ render ws col (Suc d) v) ms) ('','' @ ws (Suc d))
           @ ws d @ ''}'')"

definition json_Marshal :: "json \<Rightarrow> string" where
  "json_Marshal v = render (\<lambda>_. []) '':'' 0 v"

definition json_MarshalIndent :: "json \<Rightarrow> string" where
  "json_MarshalIndent v = render (\<lambda>d. CHR 0x0A # replicate (2 * d) (CHR 0x20)) '': '' 0 v"

text \<open>\<open>Marshal\<close> of an \<^verbatim>\<open>interface{}\<close>: the keys of every map in increasing order.\<close>

fun sort_maps :: "json \<Rightarrow> json" where
  "sort_maps (JArr vs) = JArr (map sort_maps vs)"
| "sort_maps (JObj ms) = JObj (sort_key fst (map (\<lambda>(k, v). (k, sort_maps v)) ms))"
| "sort_maps v = v"

definition Marshal_any :: "json \<Rightarrow> string" where
  "Marshal_any v = json_Marshal (sort_maps v)"

section \<open>Reading back\<close>

text \<open>Values without numbers, whose strings are valid UTF-8.\<close>

fun plain :: "json \<Rightarrow> bool" where
  "plain (JNum _) = False"
| "plain (JStr s) = valid_utf8 s"
| "plain (JArr vs) = list_all plain vs"
| "plain (JObj ms) = list_all (\<lambda>(k, v). valid_utf8 k \<and> plain v) ms"
| "plain _ = True"

definition parses :: "(nat \<Rightarrow> string \<Rightarrow> ('v \<times> string) option) \<Rightarrow> string \<Rightarrow> 'v \<Rightarrow> string \<Rightarrow> bool" where
  "parses p s v t \<longleftrightarrow> (\<exists>n. p n (s @ t) = Some (v, t))"

lemma parses_fuel:
  assumes "parses p s v t" "\<And>n s. fueled p n s" "length s \<le> m"
  shows "p m (s @ t) = Some (v, t)"
  using assms fueledD(2)[OF assms(2), of _ "s @ t" v t m] by (auto simp: parses_def)

lemma parsesI: "p n (s @ t) = Some (v, t) \<Longrightarrow> parses p s v t"
  by (auto simp: parses_def)

lemma value_fuel: "parses parse_value s v t \<Longrightarrow> length s \<le> m \<Longrightarrow> parse_value m (s @ t) = Some (v, t)"
  and elems_fuel: "parses parse_elems s vs t \<Longrightarrow> length s \<le> m \<Longrightarrow> parse_elems m (s @ t) = Some (vs, t)"
  and members_fuel: "parses parse_members s ms t \<Longrightarrow> length s \<le> m \<Longrightarrow> parse_members m (s @ t) = Some (ms, t)"
  using fueled_parse by (blast intro: parses_fuel)+

abbreviation blank :: "string \<Rightarrow> bool" where
  "blank b \<equiv> list_all is_ws b"

lemma skip_blank [simp]: "blank b \<Longrightarrow> skip_ws (b @ s) = skip_ws s"
  by (induction b) (simp_all add: skip_ws_def)

lemma skip_solid [simp]: "\<not> is_ws c \<Longrightarrow> skip_ws (c # s) = c # s"
  by (simp add: skip_ws_def)

lemma parse_value_blank: "blank b \<Longrightarrow> parse_value n (b @ s) = parse_value n s"
  by (cases n) simp_all

lemma parse_elems_blank: "blank b \<Longrightarrow> parse_elems n (b @ s) = parse_elems n s"
  by (cases n) (simp_all add: parse_value_blank)

lemma parse_members_blank: "blank b \<Longrightarrow> parse_members n (b @ s) = parse_members n s"
  by (cases n) (simp_all add: member_key_def)

lemma solid_marks [simp]: "\<not> is_ws (CHR '','')" "\<not> is_ws (CHR '']'')" "\<not> is_ws (CHR ''}'')" "\<not> is_ws (CHR ''['')" "\<not> is_ws (CHR ''{'')"
  "\<not> is_ws (CHR 0x22)"
  by (simp_all add: is_ws_def)

lemma render_start:
  assumes "plain v"
  shows "\<exists>c u. render ws col d v = c # u \<and> \<not> is_ws c \<and> c \<noteq> CHR '']''"
  using assms by (cases v) (auto simp: encode_string_def is_ws_def)

lemma parses_elems:
  assumes "vs \<noteq> []" "\<And>v t. v \<in> set vs \<Longrightarrow> parses parse_value (r v) v t" "blank b" "blank b2"
  shows "parses parse_elems (Join (map r vs) ('','' @ b) @ b2 @ '']'') vs t"
  using assms(1,2)
proof (induction vs)
  case (Cons v vs)
  let ?rest = "Join (map r vs) ('','' @ b) @ b2 @ '']''"
  show ?case
  proof (cases "vs = []")
    case True
    have "parse_value (length (r v)) (r v @ b2 @ '']'' @ t) = Some (v, b2 @ '']'' @ t)"
      using value_fuel Cons.prems(2)[of v] by simp
    then have "parse_elems (Suc (length (r v))) ((r v @ b2 @ '']'') @ t) = Some ([v], t)"
      using assms(4) by simp
    then have "parses parse_elems (r v @ b2 @ '']'') [v] t" by (rule parsesI)
    then show ?thesis using True by simp
  next
    case False
    let ?s = "r v @ '','' @ b @ ?rest"
    obtain m where m: "length (r v) \<le> m" "length ?rest \<le> m" by (meson le_add1 le_add2)
    have "parse_value m (r v @ '','' @ b @ ?rest @ t) = Some (v, '','' @ b @ ?rest @ t)"
      by (rule value_fuel[OF Cons.prems(2) m(1)]) simp
    moreover have "parse_elems m (b @ ?rest @ t) = Some (vs, t)"
      using elems_fuel[OF Cons.IH[OF False] m(2)] Cons.prems(2) by (simp add: parse_elems_blank assms(3))
    ultimately have "parse_elems (Suc m) (?s @ t) = Some (v # vs, t)" by simp
    then have "parses parse_elems ?s (v # vs) t" by (rule parsesI)
    then show ?thesis using False by (simp add: Join_Cons)
  qed
qed simp

lemma parses_members:
  assumes "ms \<noteq> []" "\<And>k v t. (k, v) \<in> set ms \<Longrightarrow> valid_utf8 k \<and> parses parse_value (r v) v t" "blank b" "blank b2" "blank b3"
  shows "parses parse_members (Join (map (\<lambda>(k, v). encode_string k @ ('':'' @ b3) @ r v) ms) ('','' @ b) @ b2 @ ''}'') ms t"
  using assms(1,2)
proof (induction ms)
  case (Cons m ms)
  obtain k v where m: "m = (k, v)" by (cases m)
  have k: "valid_utf8 k" and v: "parses parse_value (r v) v u" for u using Cons.prems(2)[of k v] m by auto
  let ?f = "\<lambda>(k, v). encode_string k @ ('':'' @ b3) @ r v"
  let ?rest = "Join (map ?f ms) ('','' @ b) @ b2 @ ''}''"
  have key: "member_key (encode_string k @ '':'' @ u) = Some (k, u)" for u by (rule member_key_encode[OF k])
  show ?case
  proof (cases "ms = []")
    case True
    have "parse_value (length (r v)) (b3 @ r v @ b2 @ ''}'' @ t) = Some (v, b2 @ ''}'' @ t)"
      using value_fuel[OF v] by (simp add: parse_value_blank assms(5))
    then have "parse_members (Suc (length (r v))) ((encode_string k @ '':'' @ b3 @ r v @ b2 @ ''}'') @ t) = Some ([(k, v)], t)"
      using key[of "b3 @ r v @ b2 @ ''}'' @ t"] assms(4) by simp
    then have "parses parse_members (encode_string k @ '':'' @ b3 @ r v @ b2 @ ''}'') [(k, v)] t" by (rule parsesI)
    then show ?thesis using True m by simp
  next
    case False
    let ?s = "encode_string k @ '':'' @ b3 @ r v @ '','' @ b @ ?rest"
    obtain n where n: "length (r v) \<le> n" "length ?rest \<le> n" by (meson le_add1 le_add2)
    have "parse_value n (b3 @ r v @ '','' @ b @ ?rest @ t) = Some (v, '','' @ b @ ?rest @ t)"
      unfolding parse_value_blank[OF assms(5)] by (rule value_fuel[OF v n(1)])
    moreover have "parses parse_members ?rest ms t"
      using Cons.IH[OF False] Cons.prems(2) by (meson list.set_intros(2))
    from members_fuel[OF this n(2)] have "parse_members n (b @ ?rest @ t) = Some (ms, t)"
      by (simp add: parse_members_blank assms(3))
    ultimately have "parse_members (Suc n) (?s @ t) = Some ((k, v) # ms, t)"
      using key[of "b3 @ r v @ '','' @ b @ ?rest @ t"] by simp
    then have "parses parse_members ?s ((k, v) # ms) t" by (rule parsesI)
    then show ?thesis using False m by (simp add: Join_Cons)
  qed
qed simp

lemma parse_value_literal:
  "parse_value (Suc n) (''null'' @ t) = Some (JNull, t)"
  "parse_value (Suc n) (''true'' @ t) = Some (JBool True, t)"
  "parse_value (Suc n) (''false'' @ t) = Some (JBool False, t)"
  by (simp_all add: skip_ws_def is_ws_def atom_def strip_def)

lemma parses_render:
  assumes ws: "\<And>d. blank (ws d)" and col: "col = '':'' @ b" "blank b"
  shows "plain v \<Longrightarrow> parses parse_value (render ws col d v) v t"
proof (induction v arbitrary: d t)
  case (JArr vs d t)
  show ?case
  proof (cases "vs = []")
    case True
    have "parse_value (Suc 0) (''[]'' @ t) = Some (JArr [], t)" by simp
    then have "parses parse_value ''[]'' (JArr []) t" by (rule parsesI)
    then show ?thesis using True by simp
  next
    case False
    let ?r = "render ws col (Suc d)"
    let ?e = "Join (map ?r vs) ('','' @ ws (Suc d)) @ ws d @ '']''"
    have "parses parse_elems ?e vs t"
      using False JArr ws by (intro parses_elems) (auto simp: list_all_iff)
    then have pe: "parse_elems (length ?e) (ws (Suc d) @ ?e @ t) = Some (vs, t)"
      unfolding parse_elems_blank[OF ws] by (rule elems_fuel) simp
    obtain x xs where vs: "vs = x # xs" using False by (cases vs) auto
    then obtain c u where "?r x = c # u" "\<not> is_ws c" "c \<noteq> CHR '']''"
      using render_start[of x ws col "Suc d"] JArr.prems by auto
    then obtain u' where "?e @ t = c # u'" unfolding vs by (cases xs) auto
    then have "skip_ws (ws (Suc d) @ ?e @ t) = c # u'" using ws \<open>\<not> is_ws c\<close> by simp
    then have "parse_value (Suc (length ?e)) ((''['' @ ws (Suc d) @ ?e) @ t) = Some (JArr vs, t)"
      using pe \<open>c \<noteq> CHR '']''\<close> by simp
    then have "parses parse_value (''['' @ ws (Suc d) @ ?e) (JArr vs) t" by (rule parsesI)
    then show ?thesis using False by simp
  qed
next
  case (JObj ms d t)
  show ?case
  proof (cases "ms = []")
    case True
    have "parse_value (Suc 0) (''{}'' @ t) = Some (JObj [], t)" by simp
    then have "parses parse_value ''{}'' (JObj []) t" by (rule parsesI)
    then show ?thesis using True by simp
  next
    case False
    let ?r = "render ws col (Suc d)"
    let ?e = "Join (map (\<lambda>(k, v). encode_string k @ col @ ?r v) ms) ('','' @ ws (Suc d)) @ ws d @ ''}''"
    have "valid_utf8 k \<and> parses parse_value (?r v) v t" if "(k, v) \<in> set ms" for k v t
      using JObj that by (fastforce simp: list_all_iff)
    then have "parses parse_members ?e ms t"
      unfolding col(1) using False ws col(2) by (intro parses_members) auto
    then have pe: "parse_members (length ?e) (ws (Suc d) @ ?e @ t) = Some (ms, t)"
      unfolding parse_members_blank[OF ws] by (rule members_fuel) simp
    obtain x xs where "ms = x # xs" using False by (cases ms) auto
    then obtain u' where "?e @ t = CHR 0x22 # u'" by (cases xs; cases x) (auto simp: encode_string_def)
    then have "skip_ws (ws (Suc d) @ ?e @ t) = CHR 0x22 # u'" using ws by simp
    then have "parse_value (Suc (length ?e)) ((''{'' @ ws (Suc d) @ ?e) @ t) = Some (JObj ms, t)"
      using pe by simp
    then have "parses parse_value (''{'' @ ws (Suc d) @ ?e) (JObj ms) t" by (rule parsesI)
    then show ?thesis using False by simp
  qed
next
  case (JBool x d t)
  show ?case using parse_value_literal(2,3)[of 0 t] unfolding parses_def by (cases x) (auto simp del: parse_value.simps)
next
  case (JNull d t)
  show ?case using parse_value_literal(1)[of 0 t] unfolding parses_def by (auto simp del: parse_value.simps)
next
  case (JStr s d t)
  then show ?case using parse_value_string[of s 0 t] unfolding parses_def by (auto simp del: parse_value.simps)
qed simp

lemma json_parse_rendered:
  assumes "parses parse_value s v []"
  shows "json_parse s = Some v"
  using value_fuel[OF assms, of "length s"] by (simp add: json_parse_def skip_ws_def)

lemma json_parse_Marshal: "plain v \<Longrightarrow> json_parse (json_Marshal v) = Some v"
  unfolding json_Marshal_def by (rule json_parse_rendered, rule parses_render[where b = "[]"]) simp_all

lemma json_parse_MarshalIndent: "plain v \<Longrightarrow> json_parse (json_MarshalIndent v) = Some v"
  unfolding json_MarshalIndent_def
  by (rule json_parse_rendered, rule parses_render[where b = "'' ''"]) (simp_all add: list_all_iff is_ws_def)

end
