(* ===== verification/GenieBase.thy ===== *)
theory GenieBase
  imports Types JsonRender "HOL-Library.Word"
begin

text \<open>
  What the CNI plugin (\<^verbatim>\<open>cni-genie.go\<close>, \<^verbatim>\<open>genie/\<close>, \<^verbatim>\<open>plugins/\<close>) is built on: the remaining
  functions of the packages \<^verbatim>\<open>strings\<close>, \<^verbatim>\<open>strconv\<close>, \<^verbatim>\<open>path\<close>, the decoding of JSON
  documents into structures, the structures of \<^verbatim>\<open>utils/types.go\<close>, and the node the plugin runs on.
\<close>

section \<open>Strings and numbers\<close>

definition TrimRight :: "string \<Rightarrow> char \<Rightarrow> string" where
  "TrimRight s c = rev (dropWhile (\<lambda>x. x = c) (rev s))"

definition ascii_lower :: "char \<Rightarrow> char" where
  "ascii_lower c = (if 65 \<le> byte c \<and> byte c \<le> 90 then char_of (byte c + 32) else c)"

text \<open>\<^verbatim>\<open>strconv.ParseInt\<close> with base 10 and 64 bits: the value with an error, clamped on overflow.\<close>

datatype int_parse = ParsedInt int | IntSyntax | IntRange int

definition ParseInt64 :: "string \<Rightarrow> int_parse" where
  "ParseInt64 s =
     (let (sg, ds) = num_sign ''+-'' s
      in if ds = [] \<or> \<not> list_all digit ds then IntSyntax
         else let v = (if sg = ''-'' then - digits_nat ds else digits_nat ds)
              in if v \<ge> 2 ^ 63 then IntRange (2 ^ 63 - 1)
                 else if v < - (2 ^ 63) then IntRange (- (2 ^ 63))
                 else ParsedInt v)"

text \<open>\<open>n, _ := strconv.Atoi(s)\<close>: the value, whatever the error.\<close>

definition Atoi_value :: "string \<Rightarrow> int" where
  "Atoi_value s = (case ParseInt64 s of ParsedInt v \<Rightarrow> v | IntSyntax \<Rightarrow> 0 | IntRange v \<Rightarrow> v)"

text \<open>Addition on \<^verbatim>\<open>int64\<close>.\<close>

definition wrap64 :: "int \<Rightarrow> int" where
  "wrap64 n = (n + 2 ^ 63) mod 2 ^ 64 - 2 ^ 63"

text \<open>\<^verbatim>\<open>path.Clean\<close>, \<^verbatim>\<open>path.Join\<close>, \<^verbatim>\<open>filepath.Ext\<close>.\<close>

fun clean_parts :: "bool \<Rightarrow> string list \<Rightarrow> string list \<Rightarrow> string list" where
  "clean_parts rooted out [] = rev out"
| "clean_parts rooted out (c # cs) =
     (if c = [] \<or> c = ''.'' then clean_parts rooted out cs
      else if c = ''..'' then
        if out \<noteq> [] \<and> hd out \<noteq> ''..'' then clean_parts rooted (tl out) cs
        else clean_parts rooted (if rooted then out else c # out) cs
      else clean_parts rooted (c # out) cs)"

definition path_Clean :: "string \<Rightarrow> string" where
  "path_Clean p =
     (let rooted = prefix ''/'' p; out = clean_parts rooted [] (Split p ''/'');
          s = (if rooted then ''/'' else []) @ Join out ''/''
      in if s = [] then ''.'' else s)"

definition path_Join :: "string list \<Rightarrow> string" where
  "path_Join elem =
     (case dropWhile (\<lambda>e. e = []) elem of [] \<Rightarrow> [] | es \<Rightarrow> path_Clean (Join es ''/''))"

definition filepath_Ext :: "string \<Rightarrow> string" where
  "filepath_Ext p =
     (let base = takeWhile (\<lambda>c. c \<noteq> CHR ''/'') (rev p); s = takeWhile (\<lambda>c. c \<noteq> CHR ''.'') base
      in if length s = length base then [] else CHR ''.'' # rev s)"

text \<open>The code point of a valid UTF-8 sequence.\<close>

definition rune_value :: "string \<Rightarrow> nat" where
  "rune_value s =
     (case map byte s of
        [a] \<Rightarrow> a
      | [a, b] \<Rightarrow> (a - 0xC0) * 64 + (b - 0x80)
      | [a, b, c] \<Rightarrow> ((a - 0xE0) * 64 + (b - 0x80)) * 64 + (c - 0x80)
      | [a, b, c, d] \<Rightarrow> (((a - 0xF0) * 64 + (b - 0x80)) * 64 + (c - 0x80)) * 64 + (d - 0x80)
      | _ \<Rightarrow> 0)"

fun hex_text :: "nat \<Rightarrow> nat \<Rightarrow> string" where
  "hex_text 0 v = []"
| "hex_text (Suc n) v = hex_text n (v div 16) @ [hex_digit (v mod 16)]"

text \<open>\<^verbatim>\<open>strconv.Quote\<close>; \<open>is_print\<close> is \<^verbatim>\<open>strconv.IsPrint\<close> on the encoding of a code point beyond
  ASCII, which the runtime decides by its Unicode tables.\<close>

definition quote_ascii :: "char \<Rightarrow> string" where
  "quote_ascii c =
     (if c = CHR 0x22 \<or> c = CHR 0x5C then [CHR 0x5C, c]
      else if 0x20 \<le> byte c \<and> byte c < 0x7F then [c]
      else if c = CHR 0x07 then [CHR 0x5C, CHR ''a'']
      else if c = CHR 0x08 then [CHR 0x5C, CHR ''b'']
      else if c = CHR 0x0C then [CHR 0x5C, CHR ''f'']
      else if c = CHR 0x0A then [CHR 0x5C, CHR ''n'']
      else if c = CHR 0x0D then [CHR 0x5C, CHR ''r'']
      else if c = CHR 0x09 then [CHR 0x5C, CHR ''t'']
      else if c = CHR 0x0B then [CHR 0x5C, CHR ''v'']
      else [CHR 0x5C, CHR ''x''] @ hex_text 2 (byte c))"

fun quote_chars :: "(string \<Rightarrow> bool) \<Rightarrow> string \<Rightarrow> string" where
  "quote_chars is_print [] = []"
| "quote_chars is_print (c # cs) =
     (if byte c < 0x80 then quote_ascii c @ quote_chars is_print cs
      else (case utf8_len (c # cs) of
         None \<Rightarrow> [CHR 0x5C, CHR ''x''] @ hex_text 2 (byte c) @ quote_chars is_print cs
       | Some n \<Rightarrow>
           (let r = c # take (n - 1) cs
            in if is_print r then r
               else if rune_value r < 0x10000 then [CHR 0x5C, CHR ''u''] @ hex_text 4 (rune_value r)
               else [CHR 0x5C, CHR ''U''] @ hex_text 8 (rune_value r))
           @ quote_chars is_print (drop (n - 1) cs)))"

definition Quote :: "(string \<Rightarrow> bool) \<Rightarrow> string \<Rightarrow> string" where
  "Quote is_print s = [CHR 0x22] @ quote_chars is_print s @ [CHR 0x22]"

section \<open>Decoding into structures\<close>

text \<open>
  A structure's fields are found by their folded names; other members are skipped, and of two members
  for one field the later one counts. An error of a field is what the call returns.
\<close>

type_synonym 'r setter = "json \<Rightarrow> 'r \<Rightarrow> go_error + 'r"

fun put_fields :: "(string \<times> 'r setter) list \<Rightarrow> (string \<times> json) list \<Rightarrow> 'r \<Rightarrow> go_error + 'r" where
  "put_fields fs [] r = Inr r"
| "put_fields fs ((k, v) # ms) r =
     (case map_of fs (fold_key k) of
        None \<Rightarrow> put_fields fs ms r
      | Some f \<Rightarrow> (case f v r of Inl e \<Rightarrow> Inl e | Inr r' \<Rightarrow> put_fields fs ms r'))"

definition put_struct :: "(string \<times> 'r setter) list \<Rightarrow> 'r setter" where
  "put_struct fs v r = (case v of JObj ms \<Rightarrow> put_fields fs ms r | JNull \<Rightarrow> Inr r | _ \<Rightarrow> Inl json_type_error)"

definition put_bool :: "json \<Rightarrow> bool \<Rightarrow> go_error + bool" where
  "put_bool v old = (case v of JBool b \<Rightarrow> Inr b | JNull \<Rightarrow> Inr old | _ \<Rightarrow> Inl json_type_error)"

definition put_int :: "json \<Rightarrow> int \<Rightarrow> go_error + int" where
  "put_int v old =
     (case v of
        JNum lit \<Rightarrow> (case ParseInt64 lit of ParsedInt n \<Rightarrow> Inr n | _ \<Rightarrow> Inl json_type_error)
      | JNull \<Rightarrow> Inr old
      | _ \<Rightarrow> Inl json_type_error)"

definition put_any :: "json \<Rightarrow> json \<Rightarrow> go_error + json" where
  "put_any v old = any_of v"

definition put_any_map :: "json \<Rightarrow> json gomap option \<Rightarrow> go_error + json gomap option" where
  "put_any_map v old =
     (case v of
        JObj ms \<Rightarrow> map_sum id Some (any_members ms (case old of None \<Rightarrow> [] | Some m \<Rightarrow> m))
      | JNull \<Rightarrow> Inr None
      | _ \<Rightarrow> Inl json_type_error)"

definition field :: "(json \<Rightarrow> 'a \<Rightarrow> go_error + 'a) \<Rightarrow> ('r \<Rightarrow> 'a) \<Rightarrow> (('a \<Rightarrow> 'a) \<Rightarrow> 'r \<Rightarrow> 'r) \<Rightarrow> 'r setter" where
  "field put get upd v r = map_sum id (\<lambda>x. upd (\<lambda>_. x) r) (put v (get r))"

definition Unmarshal_struct :: "(string \<times> 'r setter) list \<Rightarrow> string \<Rightarrow> 'r \<Rightarrow> go_error + 'r" where
  "Unmarshal_struct fs text' r =
     (case json_parse text' of None \<Rightarrow> Inl json_syntax_error | Some v \<Rightarrow> put_struct fs v r)"

section \<open>Structures of utils/types.go\<close>

record CNIArgs =
  ContainerID :: string
  Netns :: string
  caIfName :: string
  caArgs :: string
  caPath :: string
  StdinData :: string

record PolicyConfig =
  PolicyType :: string
  pcK8sAPIRoot :: string
  K8sAuthToken :: string
  K8sClientCertificate :: string
  K8sClientKey :: string
  K8sCertificateAuthority :: string

record KubernetesConfig =
  kcK8sAPIRoot :: string
  Kubeconfig :: string

record NetConf =
  ncCNIVersion :: string
  ncName :: string
  ncType :: string
  IPAM :: json
  MTU :: int
  Hostname :: string
  DatastoreType :: string
  EtcdAuthority :: string
  EtcdEndpoints :: string
  LogLevel :: string
  Policy :: PolicyConfig
  Kubernetes :: KubernetesConfig
  EtcdScheme :: string
  EtcdKeyFile :: string
  EtcdCertFile :: string
  EtcdCaCertFile :: string
  Delegate :: "json gomap option"
  CalicoSubnet :: string
  CanalSubnet :: string
  WeaveSubnet :: string
  Master :: string
  Mode :: string
  Bridge :: string
  IsDefaultGateway :: bool
  ForceAddress :: bool
  IpMasq :: bool
  HairpinMode :: bool
  IsGateway :: bool
  RomanaRoot :: string
  SegmentLabelName :: string
  DefaultPlugin :: string

definition zero_PolicyConfig :: PolicyConfig where
  "zero_PolicyConfig = \<lparr>PolicyType = [], pcK8sAPIRoot = [], K8sAuthToken = [], K8sClientCertificate = [],
     K8sClientKey = [], K8sCertificateAuthority = []\<rparr>"

definition zero_NetConf :: NetConf where
  "zero_NetConf = \<lparr>ncCNIVersion = [], ncName = [], ncType = [], IPAM = JNull, MTU = 0, Hostname = [], DatastoreType = [],
     EtcdAuthority = [], EtcdEndpoints = [], LogLevel = [], Policy = zero_PolicyConfig,
     Kubernetes = \<lparr>kcK8sAPIRoot = [], Kubeconfig = []\<rparr>, EtcdScheme = [], EtcdKeyFile = [], EtcdCertFile = [],
     EtcdCaCertFile = [], Delegate = None, CalicoSubnet = [], CanalSubnet = [], WeaveSubnet = [], Master = [], Mode = [],
     Bridge = [], IsDefaultGateway = False, ForceAddress = False, IpMasq = False, HairpinMode = False, IsGateway = False,
     RomanaRoot = [], SegmentLabelName = [], DefaultPlugin = []\<rparr>"

definition PolicyConfig_fields :: "(string \<times> PolicyConfig setter) list" where
  "PolicyConfig_fields =
     [(''type'', field put_string PolicyType PolicyType_update),
      (''k8s_api_root'', field put_string pcK8sAPIRoot pcK8sAPIRoot_update),
      (''k8s_auth_token'', field put_string K8sAuthToken K8sAuthToken_update),
      (''k8s_client_certificate'', field put_string K8sClientCertificate K8sClientCertificate_update),
      (''k8s_client_key'', field put_string K8sClientKey K8sClientKey_update),
      (''k8s_certificate_authority'', field put_string K8sCertificateAuthority K8sCertificateAuthority_update)]"

definition KubernetesConfig_fields :: "(string \<times> KubernetesConfig setter) list" where
  "KubernetesConfig_fields =
     [(''k8s_api_root'', field put_string kcK8sAPIRoot kcK8sAPIRoot_update),
      (''kubeconfig'', field put_string Kubeconfig Kubeconfig_update)]"

definition NetConf_fields :: "(string \<times> NetConf setter) list" where
  "NetConf_fields =
     [(''cniversion'', field put_string ncCNIVersion ncCNIVersion_update),
      (''name'', field put_string ncName ncName_update),
      (''type'', field put_string ncType ncType_update),
      (''ipam'', field put_any IPAM IPAM_update),
      (''mtu'', field put_int MTU MTU_update),
      (''hostname'', field put_string Hostname Hostname_update),
      (''datastore_type'', field put_string DatastoreType DatastoreType_update),
      (''etcd_authority'', field put_string EtcdAuthority EtcdAuthority_update),
      (''etcd_endpoints'', field put_string EtcdEndpoints EtcdEndpoints_update),
      (''log_level'', field put_string LogLevel LogLevel_update),
      (''policy'', field (put_struct PolicyConfig_fields) Policy Policy_update),
      (''kubernetes'', field (put_struct KubernetesConfig_fields) Kubernetes Kubernetes_update),
      (''etcd_scheme'', field put_string EtcdScheme EtcdScheme_update),
      (''etcd_key_file'', field put_string EtcdKeyFile EtcdKeyFile_update),
      (''etcd_cert_file'', field put_string EtcdCertFile EtcdCertFile_update),
      (''etcd_ca_cert_file'', field put_string EtcdCaCertFile EtcdCaCertFile_update),
      (''delegate'', field put_any_map Delegate Delegate_update),
      (''calico_subnet'', field put_string CalicoSubnet CalicoSubnet_update),
      (''canal_subnet'', field put_string CanalSubnet CanalSubnet_update),
      (''weave_subnet'', field put_string WeaveSubnet WeaveSubnet_update),
      (''master'', field put_string Master Master_update),
      (''mode'', field put_string Mode Mode_update),
      (''bridge'', field put_string Bridge Bridge_update),
      (''isdefaultgateway'', field put_bool IsDefaultGateway IsDefaultGateway_update),
      (''forceaddress'', field put_bool ForceAddress ForceAddress_update),
      (''ipmasq'', field put_bool IpMasq IpMasq_update),
      (''hairpinmode'', field put_bool HairpinMode HairpinMode_update),
      (''isgateway'', field put_bool IsGateway IsGateway_update),
      (''romana_root'', field put_string RomanaRoot RomanaRoot_update),
      (''segment_label_name'', field put_string SegmentLabelName SegmentLabelName_update),
      (''default_plugin'', field put_string DefaultPlugin DefaultPlugin_update)]"

text \<open>The arguments of the orchestrator. The address is only checked, nothing reads it.\<close>

record K8sArgs =
  IgnoreUnknown :: bool
  K8S_POD_NAME :: string
  K8S_POD_NAMESPACE :: string
  K8S_POD_INFRA_CONTAINER_ID :: string

record IPAddressPreferences =
  apIp :: string
  apInterface :: string

record MultiIPPreferences =
  MultiEntry :: int
  Ips :: "IPAddressPreferences gomap option"

text \<open>The statistics of a container: per sample, the interfaces and the bytes each has received.\<close>

type_synonym interface_stats = "string \<times> 64 word"
type_synonym container_stats = "interface_stats list"

record Pod =
  podName :: string
  podAnnotations :: "string gomap option"

end
