(* ===== verification/RestClient.thy ===== *)
theory RestClient
  imports GenieBase
begin

text \<open>
  The generated client of the logical networks, \<^verbatim>\<open>client/clientset/versioned\<close>: the clientset, the client
  of the API group and its typed operations, over the request builder of \<^verbatim>\<open>k8s.io/client-go/rest\<close>
  (\<^verbatim>\<open>request.go\<close>, \<^verbatim>\<open>client.go\<close>, \<^verbatim>\<open>url_utils.go\<close>). A builder keeps the first error it meets and returns it
  when the request is made. The codecs, the transport and the exchange with the server are the fields of
  \<open>api\<close>, of \<open>transport\<close> and arguments.
\<close>

section \<open>apis/alpha/network\<close>

definition GroupName :: string where "GroupName = ''alpha.network.k8s.io''"

record GroupVersion =
  gvGroup :: string
  gvVersion :: string

record GroupVersionResource =
  gvrGroup :: string
  gvrVersion :: string
  gvrResource :: string

definition SchemeGroupVersion :: GroupVersion where
  "SchemeGroupVersion = \<lparr>gvGroup = GroupName, gvVersion = ''v1''\<rparr>"

text \<open>\<open>WithResource\<close>, and \<open>Kind\<close> and \<open>Resource\<close>, the name qualified by the group.\<close>

definition WithResource :: "GroupVersion \<Rightarrow> string \<Rightarrow> GroupVersionResource" where
  "WithResource gv resource = \<lparr>gvrGroup = gvGroup gv, gvrVersion = gvVersion gv, gvrResource = resource\<rparr>"

definition Kind_qualified :: "string \<Rightarrow> string \<times> string" where
  "Kind_qualified kind = (gvGroup SchemeGroupVersion, kind)"

definition Resource_qualified :: "string \<Rightarrow> string \<times> string" where
  "Resource_qualified resource = (gvGroup SchemeGroupVersion, resource)"

text \<open>How \<^verbatim>\<open>GroupResource\<close> prints.\<close>

definition GroupResource_String :: "string \<times> string \<Rightarrow> string" where
  "GroupResource_String gr = (if fst gr = [] then snd gr else snd gr @ ''.'' @ fst gr)"

section \<open>Requests\<close>

record Request =
  rqVerb :: string
  rqBasePath :: string            \<comment> \<open>the path of \<open>baseURL\<close>\<close>
  pathPrefix :: string
  subpath :: string
  rqParams :: "string list gomap option"
  rqHeaders :: "string list gomap"
  rqNamespace :: string
  namespaceSet :: bool
  rqResource :: string
  resourceName :: string
  subresource :: string
  rqErr :: "go_error option"
  rqBody :: "string option"

text \<open>The formats of the messages: \<^verbatim>\<open>%q\<close> of text that needs no escape, a text between single quotes, and \<^verbatim>\<open>%v\<close> of a
  list.\<close>

definition double_quoted :: "string \<Rightarrow> string" where
  "double_quoted s = [CHR 0x22] @ s @ [CHR 0x22]"

definition single_quoted :: "string \<Rightarrow> string" where
  "single_quoted s = [CHR 0x27] @ s @ [CHR 0x27]"

definition complaint :: "string \<Rightarrow> string list \<Rightarrow> string" where
  "complaint text msgs = text @ '': ['' @ Join msgs '' '' @ '']''"

text \<open>\<^verbatim>\<open>IsValidPathSegmentName\<close>: the complaints about a segment, none when it is fine.\<close>

definition IsValidPathSegmentName :: "string \<Rightarrow> string list" where
  "IsValidPathSegmentName name =
     (if name = ''.'' \<or> name = ''..'' then [''may not be '' @ single_quoted name]
      else (if Contains name ''/'' then [''may not contain '' @ single_quoted ''/''] else [])
           @ (if Contains name ''%'' then [''may not contain '' @ single_quoted ''%''] else []))"

definition with_err :: "string \<Rightarrow> Request \<Rightarrow> Request" where
  "with_err msg r = r\<lparr>rqErr := Some (ErrorString msg)\<rparr>"

definition unless_err :: "(Request \<Rightarrow> Request) \<Rightarrow> Request \<Rightarrow> Request" where
  "unless_err f r = (if rqErr r \<noteq> None then r else f r)"

definition SetHeader :: "string \<Rightarrow> string list \<Rightarrow> Request \<Rightarrow> Request" where
  "SetHeader key values r =
     r\<lparr>rqHeaders := filter (\<lambda>(k, _). k \<noteq> key) (rqHeaders r) @ (if values = [] then [] else [(key, values)])\<rparr>"

definition rq_Resource :: "string \<Rightarrow> Request \<Rightarrow> Request" where
  "rq_Resource resource = unless_err (\<lambda>r.
     if rqResource r \<noteq> [] then with_err (''resource already set to '' @ double_quoted (rqResource r) @ '', cannot change to '' @ double_quoted resource) r
     else if IsValidPathSegmentName resource \<noteq> [] then with_err (complaint (''invalid resource '' @ double_quoted resource) (IsValidPathSegmentName resource)) r
     else r\<lparr>rqResource := resource\<rparr>)"

definition rq_SubResource :: "string list \<Rightarrow> Request \<Rightarrow> Request" where
  "rq_SubResource subresources = unless_err (\<lambda>r.
     if subresource r \<noteq> [] then with_err (''subresource already set to '' @ double_quoted (rqResource r) @ '', cannot change to '' @ double_quoted (path_Join subresources)) r
     else (case find (\<lambda>s. IsValidPathSegmentName s \<noteq> []) subresources of
             Some s \<Rightarrow> with_err (complaint (''invalid subresource '' @ double_quoted s) (IsValidPathSegmentName s)) r
           | None \<Rightarrow> r\<lparr>subresource := path_Join subresources\<rparr>))"

definition rq_Name :: "string \<Rightarrow> Request \<Rightarrow> Request" where
  "rq_Name name = unless_err (\<lambda>r.
     if name = [] then with_err ''resource name may not be empty'' r
     else if resourceName r \<noteq> [] then with_err (''resource name already set to '' @ double_quoted (resourceName r) @ '', cannot change to '' @ double_quoted name) r
     else if IsValidPathSegmentName name \<noteq> [] then with_err (complaint (''invalid resource name '' @ double_quoted name) (IsValidPathSegmentName name)) r
     else r\<lparr>resourceName := name\<rparr>)"

definition rq_Namespace :: "string \<Rightarrow> Request \<Rightarrow> Request" where
  "rq_Namespace namespace = unless_err (\<lambda>r.
     if namespaceSet r then with_err (''namespace already set to '' @ double_quoted (rqNamespace r) @ '', cannot change to '' @ double_quoted namespace) r
     else if IsValidPathSegmentName namespace \<noteq> [] then with_err (complaint (''invalid namespace '' @ double_quoted namespace) (IsValidPathSegmentName namespace)) r
     else r\<lparr>namespaceSet := True, rqNamespace := namespace\<rparr>)"

definition rq_AbsPath :: "string list \<Rightarrow> Request \<Rightarrow> Request" where
  "rq_AbsPath segments = unless_err (\<lambda>r.
     let p = path_Join [rqBasePath r, path_Join segments] in
     r\<lparr>pathPrefix :=
         (if length segments = 1 \<and> (1 < length (rqBasePath r) \<or> 1 < length (hd segments)) \<and> HasSuffix (hd segments) ''/''
          then p @ ''/'' else p)\<rparr>)"

definition add_params :: "string list gomap \<Rightarrow> string list gomap option \<Rightarrow> string list gomap option" where
  "add_params ps old =
     (if ps = [] then old
      else Some (fold (\<lambda>(k, v) m. map_put k ((case map_of m k of None \<Rightarrow> [] | Some w \<Rightarrow> w) @ v) m) ps
                   (case old of None \<Rightarrow> [] | Some m \<Rightarrow> m)))"

definition rq_VersionedParams :: "go_error + string list gomap \<Rightarrow> Request \<Rightarrow> Request" where
  "rq_VersionedParams encoded = unless_err (\<lambda>r.
     case encoded of Inl e \<Rightarrow> r\<lparr>rqErr := Some e\<rparr> | Inr ps \<Rightarrow> r\<lparr>rqParams := add_params ps (rqParams r)\<rparr>)"

text \<open>\<open>Body\<close> of bytes, and of an object that may be a nil pointer, by its encoding.\<close>

definition rq_Body_bytes :: "string \<Rightarrow> Request \<Rightarrow> Request" where
  "rq_Body_bytes data = unless_err (\<lambda>r. r\<lparr>rqBody := Some data\<rparr>)"

definition rq_Body_object :: "string \<Rightarrow> (go_error + string) option \<Rightarrow> Request \<Rightarrow> Request" where
  "rq_Body_object contentType encoded = unless_err (\<lambda>r.
     case encoded of
       None \<Rightarrow> r
     | Some (Inl e) \<Rightarrow> r\<lparr>rqErr := Some e\<rparr>
     | Some (Inr data) \<Rightarrow> SetHeader ''Content-Type'' [contentType] (r\<lparr>rqBody := Some data\<rparr>))"

text \<open>The path of \<open>URL\<close>; \<^verbatim>\<open>strings.ToLower\<close> on the ASCII letters.\<close>

definition URL_path :: "Request \<Rightarrow> string" where
  "URL_path r =
     (let p0 = pathPrefix r;
          p1 = (if namespaceSet r \<and> rqNamespace r \<noteq> [] then path_Join [p0, ''namespaces'', rqNamespace r] else p0);
          p2 = (if rqResource r \<noteq> [] then path_Join [p1, map ascii_lower (rqResource r)] else p1)
      in if resourceName r \<noteq> [] \<or> subpath r \<noteq> [] \<or> subresource r \<noteq> []
         then path_Join [p2, resourceName r, subresource r, subpath r] else p2)"

text \<open>The checks of \<open>request\<close> before anything is sent; then the exchange.\<close>

definition request :: "(Request \<Rightarrow> ('s, string) go) \<Rightarrow> Request \<Rightarrow> ('s, string) go" where
  "request exchange r =
     (case rqErr r of
        Some e \<Rightarrow> go_err e
      | None \<Rightarrow>
          if rqVerb r \<in> {''GET'', ''PUT'', ''DELETE''} \<and> namespaceSet r \<and> resourceName r \<noteq> [] \<and> rqNamespace r = []
          then go_err (ErrorString ''an empty namespace may not be set when a resource name is provided'')
          else if rqVerb r = ''POST'' \<and> namespaceSet r \<and> rqNamespace r = []
          then go_err (ErrorString ''an empty namespace may not be set during creation'')
          else exchange r)"

section \<open>The REST client\<close>

record RESTClient =
  rcBasePath :: string
  versionedAPIPath :: string
  rcContentType :: string
  rcAcceptContentTypes :: string
  rcThrottle :: "nat option"      \<comment> \<open>the rate limiter\<close>

definition DefaultVersionedAPIPath :: "string \<Rightarrow> GroupVersion \<Rightarrow> string" where
  "DefaultVersionedAPIPath apiPath gv =
     (if gvGroup gv \<noteq> [] then path_Join [path_Join [''/'', apiPath], gvGroup gv, gvVersion gv]
      else path_Join [path_Join [''/'', apiPath], gvVersion gv])"

definition NewRequest :: "RESTClient \<Rightarrow> string \<Rightarrow> Request" where
  "NewRequest c verb =
     (let r = \<lparr>rqVerb = verb, rqBasePath = rcBasePath c,
               pathPrefix = path_Join [path_Join [''/'', rcBasePath c], versionedAPIPath c],
               subpath = [], rqParams = None, rqHeaders = [], rqNamespace = [], namespaceSet = False, rqResource = [],
               resourceName = [], subresource = [], rqErr = None, rqBody = None\<rparr>
      in if rcAcceptContentTypes c \<noteq> [] then SetHeader ''Accept'' [rcAcceptContentTypes c] r
         else if rcContentType c \<noteq> [] then SetHeader ''Accept'' [rcContentType c @ '', */*''] r
         else r)"

definition rc_Get :: "RESTClient \<Rightarrow> Request" where "rc_Get c = NewRequest c ''GET''"
definition rc_Post :: "RESTClient \<Rightarrow> Request" where "rc_Post c = NewRequest c ''POST''"
definition rc_Put :: "RESTClient \<Rightarrow> Request" where "rc_Put c = NewRequest c ''PUT''"
definition rc_Delete :: "RESTClient \<Rightarrow> Request" where "rc_Delete c = NewRequest c ''DELETE''"

definition rc_Patch :: "RESTClient \<Rightarrow> string \<Rightarrow> Request" where
  "rc_Patch c pt = SetHeader ''Content-Type'' [pt] (NewRequest c ''PATCH'')"

section \<open>typed/network/v1/logicalnetwork.go\<close>

record ListOptions =
  LabelSelector :: string
  FieldSelector :: string
  IncludeUninitialized :: bool
  Watch :: bool
  loResourceVersion :: string
  TimeoutSeconds :: "int option"
  Limit :: int
  Continue :: string

record GetOptions =
  goResourceVersion :: string
  goIncludeUninitialized :: bool

text \<open>The codecs and the exchange: \<open>'d\<close> are the options of a deletion, \<open>'w\<close> a watch.\<close>

record ('s, 'd, 'w) api =
  encode_GetOptions :: "GetOptions \<Rightarrow> go_error + string list gomap"
  encode_ListOptions :: "ListOptions \<Rightarrow> go_error + string list gomap"
  encode_LogicalNetwork :: "LogicalNetwork \<Rightarrow> go_error + string"
  encode_DeleteOptions :: "'d \<Rightarrow> go_error + string"
  decode_LogicalNetwork :: "string \<Rightarrow> go_error + LogicalNetwork"
  decode_LogicalNetworkList :: "string \<Rightarrow> go_error + LogicalNetwork list"
  exchange :: "Request \<Rightarrow> ('s, string) go"
  open_watch :: "Request \<Rightarrow> ('s, 'w) go"

record logicalNetworks =
  lnsClient :: RESTClient
  lnsNs :: string

definition Into :: "(string \<Rightarrow> go_error + 'o) \<Rightarrow> ('s, string) go \<Rightarrow> ('s, 'o) go" where
  "Into decode m = go_bind m (\<lambda>body.
     if body = [] then go_err (ErrorString ''0-length response'')
     else (case decode body of Inl e \<Rightarrow> go_err e | Inr x \<Rightarrow> go_ret x))"

definition logicalNetworks_Get :: "('s, 'd, 'w) api \<Rightarrow> logicalNetworks \<Rightarrow> string \<Rightarrow> GetOptions \<Rightarrow> ('s, LogicalNetwork) go" where
  "logicalNetworks_Get a c name options =
     Into (decode_LogicalNetwork a) (request (exchange a)
       (rq_VersionedParams (encode_GetOptions a options)
       (rq_Name name
       (rq_Resource ''logicalnetworks''
       (rq_Namespace (lnsNs c)
       (rc_Get (lnsClient c)))))))"

definition logicalNetworks_List :: "('s, 'd, 'w) api \<Rightarrow> logicalNetworks \<Rightarrow> ListOptions \<Rightarrow> ('s, LogicalNetwork list) go" where
  "logicalNetworks_List a c opts =
     Into (decode_LogicalNetworkList a) (request (exchange a)
       (rq_VersionedParams (encode_ListOptions a opts)
       (rq_Resource ''logicalnetworks''
       (rq_Namespace (lnsNs c)
       (rc_Get (lnsClient c))))))"

text \<open>\<open>Watch\<close> of a request checks the stored error only.\<close>

definition rq_Watch :: "(Request \<Rightarrow> ('s, 'w) go) \<Rightarrow> Request \<Rightarrow> ('s, 'w) go" where
  "rq_Watch start r = (case rqErr r of Some e \<Rightarrow> go_err e | None \<Rightarrow> start r)"

definition logicalNetworks_Watch :: "('s, 'd, 'w) api \<Rightarrow> logicalNetworks \<Rightarrow> ListOptions \<Rightarrow> ('s, 'w) go" where
  "logicalNetworks_Watch a c opts =
     rq_Watch (open_watch a)
       (rq_VersionedParams (encode_ListOptions a (opts\<lparr>Watch := True\<rparr>))
       (rq_Resource ''logicalnetworks''
       (rq_Namespace (lnsNs c)
       (rc_Get (lnsClient c)))))"

definition logicalNetworks_Create :: "('s, 'd, 'w) api \<Rightarrow> logicalNetworks \<Rightarrow> LogicalNetwork \<Rightarrow> ('s, LogicalNetwork) go" where
  "logicalNetworks_Create a c logicalNetwork =
     Into (decode_LogicalNetwork a) (request (exchange a)
       (rq_Body_object (rcContentType (lnsClient c)) (Some (encode_LogicalNetwork a logicalNetwork))
       (rq_Resource ''logicalnetworks''
       (rq_Namespace (lnsNs c)
       (rc_Post (lnsClient c))))))"

definition logicalNetworks_Update :: "('s, 'd, 'w) api \<Rightarrow> logicalNetworks \<Rightarrow> LogicalNetwork \<Rightarrow> ('s, LogicalNetwork) go" where
  "logicalNetworks_Update a c logicalNetwork =
     Into (decode_LogicalNetwork a) (request (exchange a)
       (rq_Body_object (rcContentType (lnsClient c)) (Some (encode_LogicalNetwork a logicalNetwork))
       (rq_Name (Name (lnMeta logicalNetwork))
       (rq_Resource ''logicalnetworks''
       (rq_Namespace (lnsNs c)
       (rc_Put (lnsClient c)))))))"

definition logicalNetworks_Delete :: "('s, 'd, 'w) api \<Rightarrow> logicalNetworks \<Rightarrow> string \<Rightarrow> 'd option \<Rightarrow> ('s, unit) go" where
  "logicalNetworks_Delete a c name options =
     go_bind (request (exchange a)
       (rq_Body_object (rcContentType (lnsClient c)) (map_option (encode_DeleteOptions a) options)
       (rq_Name name
       (rq_Resource ''logicalnetworks''
       (rq_Namespace (lnsNs c)
       (rc_Delete (lnsClient c))))))) (\<lambda>_. go_ret ())"

definition logicalNetworks_DeleteCollection ::
  "('s, 'd, 'w) api \<Rightarrow> logicalNetworks \<Rightarrow> 'd option \<Rightarrow> ListOptions \<Rightarrow> ('s, unit) go" where
  "logicalNetworks_DeleteCollection a c options listOptions =
     go_bind (request (exchange a)
       (rq_Body_object (rcContentType (lnsClient c)) (map_option (encode_DeleteOptions a) options)
       (rq_VersionedParams (encode_ListOptions a listOptions)
       (rq_Resource ''logicalnetworks''
       (rq_Namespace (lnsNs c)
       (rc_Delete (lnsClient c))))))) (\<lambda>_. go_ret ())"

definition logicalNetworks_Patch ::
  "('s, 'd, 'w) api \<Rightarrow> logicalNetworks \<Rightarrow> string \<Rightarrow> string \<Rightarrow> string \<Rightarrow> string list \<Rightarrow> ('s, LogicalNetwork) go" where
  "logicalNetworks_Patch a c name pt data subresources =
     Into (decode_LogicalNetwork a) (request (exchange a)
       (rq_Body_bytes data
       (rq_Name name
       (rq_SubResource subresources
       (rq_Resource ''logicalnetworks''
       (rq_Namespace (lnsNs c)
       (rc_Patch (lnsClient c) pt)))))))"

section \<open>typed/network/v1/network_client.go\<close>

text \<open>\<^verbatim>\<open>rest.Config\<close>, of its fields those the client looks at; of \<open>QPS\<close> only the sign is looked at. A rate
  limiter is known by the number of limiters made before it.\<close>

record Config =
  cfgHost :: string
  APIPath :: string
  cfgGroupVersion :: "GroupVersion option"
  NegotiatedSerializer :: "string option"
  cfgContentType :: string
  cfgAcceptContentTypes :: string
  UserAgent :: string
  QPS :: int
  Burst :: int
  RateLimiter :: "nat option"

text \<open>\<^verbatim>\<open>flowcontrol.NewTokenBucketRateLimiter\<close>; the state is the number of limiters made.\<close>

definition NewTokenBucketRateLimiter :: "int \<Rightarrow> int \<Rightarrow> (nat, nat) go" where
  "NewTokenBucketRateLimiter qps burst n = (Ret n, n + 1)"

text \<open>The base path of the server's URL and the transport, from a configuration; the codecs for a content type; the user agent of this
  program; and the client for the discovery of API groups.\<close>

record 'd transport =
  server_path :: "Config \<Rightarrow> go_error + string"
  TransportFor :: "Config \<Rightarrow> go_error + unit"
  createSerializers :: "string \<Rightarrow> go_error + unit"
  DefaultKubernetesUserAgent :: string
  NewDiscoveryClientForConfig :: "Config \<Rightarrow> (nat, 'd) go"

definition DefaultQPS :: int where "DefaultQPS = 5"
definition DefaultBurst :: int where "DefaultBurst = 10"

definition NewRESTClient ::
  "'d transport \<Rightarrow> string \<Rightarrow> string \<Rightarrow> Config \<Rightarrow> int \<Rightarrow> int \<Rightarrow> (nat, RESTClient) go" where
  "NewRESTClient t basePath apiPath config maxQPS maxBurst =
     (let contentType = (if cfgContentType config = [] then ''application/json'' else cfgContentType config) in
      case createSerializers t contentType of
        Inl e \<Rightarrow> go_err e
      | Inr _ \<Rightarrow>
          go_bind (if 0 < maxQPS \<and> RateLimiter config = None
                   then go_bind (NewTokenBucketRateLimiter maxQPS maxBurst) (\<lambda>l. go_ret (Some l))
                   else go_ret (RateLimiter config)) (\<lambda>throttle.
          go_ret \<lparr>rcBasePath = (if HasSuffix basePath ''/'' then basePath else basePath @ ''/''), versionedAPIPath = apiPath,
                  rcContentType = contentType, rcAcceptContentTypes = cfgAcceptContentTypes config, rcThrottle = throttle\<rparr>))"

definition RESTClientFor :: "'d transport \<Rightarrow> Config \<Rightarrow> (nat, RESTClient) go" where
  "RESTClientFor t config =
     (case cfgGroupVersion config of
        None \<Rightarrow> go_err (ErrorString ''GroupVersion is required when initializing a RESTClient'')
      | Some gv \<Rightarrow>
          if NegotiatedSerializer config = None
          then go_err (ErrorString ''NegotiatedSerializer is required when initializing a RESTClient'')
          else
            let qps = (if QPS config = 0 then DefaultQPS else QPS config);
                burst = (if Burst config = 0 then DefaultBurst else Burst config) in
            (case server_path t config of
               Inl e \<Rightarrow> go_err e
             | Inr basePath \<Rightarrow>
                 (case TransportFor t config of
                    Inl e \<Rightarrow> go_err e
                  | Inr _ \<Rightarrow> NewRESTClient t basePath (DefaultVersionedAPIPath (APIPath config) gv) config qps burst)))"

record AlphaV1Client =
  restClient :: RESTClient

definition setConfigDefaults :: "'d transport \<Rightarrow> Config \<Rightarrow> go_error + Config" where
  "setConfigDefaults t config =
     (let c = config\<lparr>cfgGroupVersion := Some SchemeGroupVersion, APIPath := ''/apis'',
                      NegotiatedSerializer := Some ''serializer.DirectCodecFactory''\<rparr>
      in Inr (if UserAgent c = [] then c\<lparr>UserAgent := DefaultKubernetesUserAgent t\<rparr> else c))"

definition AlphaV1_NewForConfig :: "'d transport \<Rightarrow> Config \<Rightarrow> (nat, AlphaV1Client) go" where
  "AlphaV1_NewForConfig t c =
     (case setConfigDefaults t c of
        Inl e \<Rightarrow> go_err e
      | Inr config \<Rightarrow> go_bind (RESTClientFor t config) (\<lambda>client. go_ret \<lparr>restClient = client\<rparr>))"

definition AlphaV1_NewForConfigOrDie :: "'d transport \<Rightarrow> Config \<Rightarrow> (nat, AlphaV1Client) go" where
  "AlphaV1_NewForConfigOrDie t c =
     go_bind (go_try (AlphaV1_NewForConfig t c)) (\<lambda>r.
     case r of Inl e \<Rightarrow> go_panic (error_text e) | Inr client \<Rightarrow> go_ret client)"

definition AlphaV1_New :: "RESTClient \<Rightarrow> AlphaV1Client" where
  "AlphaV1_New c = \<lparr>restClient = c\<rparr>"

text \<open>The receiver may be a nil pointer.\<close>

definition AlphaV1_RESTClient :: "AlphaV1Client option \<Rightarrow> RESTClient option" where
  "AlphaV1_RESTClient c = map_option restClient c"

definition newLogicalNetworks :: "AlphaV1Client \<Rightarrow> string \<Rightarrow> logicalNetworks" where
  "newLogicalNetworks c namespace = \<lparr>lnsClient = restClient c, lnsNs = namespace\<rparr>"

definition AlphaV1_LogicalNetworks :: "AlphaV1Client \<Rightarrow> string \<Rightarrow> logicalNetworks" where
  "AlphaV1_LogicalNetworks c namespace = newLogicalNetworks c namespace"

section \<open>clientset.go\<close>

record 'd Clientset =
  DiscoveryClient :: 'd
  alphaV1 :: AlphaV1Client

definition Clientset_AlphaV1 :: "'d Clientset \<Rightarrow> AlphaV1Client" where
  "Clientset_AlphaV1 c = alphaV1 c"

definition Clientset_Alpha :: "'d Clientset \<Rightarrow> AlphaV1Client" where
  "Clientset_Alpha c = alphaV1 c"

definition Clientset_Discovery :: "'d Clientset option \<Rightarrow> 'd option" where
  "Clientset_Discovery c = map_option DiscoveryClient c"

definition Clientset_NewForConfig :: "'d transport \<Rightarrow> Config \<Rightarrow> (nat, 'd Clientset) go" where
  "Clientset_NewForConfig t c =
     go_bind (if RateLimiter c = None \<and> 0 < QPS c
              then go_bind (NewTokenBucketRateLimiter (QPS c) (Burst c)) (\<lambda>l. go_ret (c\<lparr>RateLimiter := Some l\<rparr>))
              else go_ret c) (\<lambda>configShallowCopy.
     go_bind (AlphaV1_NewForConfig t configShallowCopy) (\<lambda>a.
     go_bind (NewDiscoveryClientForConfig t configShallowCopy) (\<lambda>d.
     go_ret \<lparr>DiscoveryClient = d, alphaV1 = a\<rparr>)))"

definition Clientset_NewForConfigOrDie :: "'d transport \<Rightarrow> Config \<Rightarrow> (nat, 'd Clientset) go" where
  "Clientset_NewForConfigOrDie t c =
     go_bind (AlphaV1_NewForConfigOrDie t c) (\<lambda>a.
     go_bind (go_try (NewDiscoveryClientForConfig t c)) (\<lambda>r.
     case r of Inl e \<Rightarrow> go_panic (error_text e) | Inr d \<Rightarrow> go_ret \<lparr>DiscoveryClient = d, alphaV1 = a\<rparr>))"

definition Clientset_New :: "(RESTClient \<Rightarrow> 'd) \<Rightarrow> RESTClient \<Rightarrow> 'd Clientset" where
  "Clientset_New newDiscoveryClient c = \<lparr>DiscoveryClient = newDiscoveryClient c, alphaV1 = AlphaV1_New c\<rparr>"

end
