(* ===== verification/Informers.thy ===== *)
theory Informers
  imports SharedInformer RestClient
begin

text \<open>
  The generated informer factory, \<^verbatim>\<open>client/informers/externalversions\<close>: the factory of
  \<^verbatim>\<open>factory.go\<close> with its options, the accessors of \<^verbatim>\<open>network/interface.go\<close> and \<^verbatim>\<open>network/v1\<close>, and the
  generic access of \<^verbatim>\<open>generic.go\<close>. An informer is an object with an identity: the informers made so far
  are numbered, and a running one is in the list \<open>running\<close>, once for every call of \<open>Run\<close>. A method of
  the factory runs under its lock and is one step.
\<close>

section \<open>State\<close>

text \<open>The Go types an informer can be asked for, by the type of a pointer to an example object.\<close>

datatype go_type = T_LogicalNetwork | T_NetworkPolicy | T_other string

text \<open>What a new informer is built from: its type, namespace, resync period and list options.\<close>

record informer =
  infType :: go_type
  infNamespace :: string
  infResync :: int
  infIndexers :: "string list"
  infTweak :: "(ListOptions \<Rightarrow> ListOptions) option"

record world =
  informers_made :: "informer list"   \<comment> \<open>by identity\<close>
  running :: "nat list"               \<comment> \<open>one entry for each \<open>go informer.Run(stopCh)\<close>\<close>

record sharedInformerFactory =
  fNamespace :: string
  tweakListOptions :: "(ListOptions \<Rightarrow> ListOptions) option"
  defaultResync :: int
  customResync :: "(go_type \<times> int) list"
  informers :: "(go_type \<times> nat) list"
  startedInformers :: "go_type list"

section \<open>factory.go\<close>

fun type_put :: "go_type \<Rightarrow> 'v \<Rightarrow> (go_type \<times> 'v) list \<Rightarrow> (go_type \<times> 'v) list" where
  "type_put k v [] = [(k, v)]"
| "type_put k v ((k', v') # m) = (if k' = k then (k, v) # m else (k', v') # type_put k v m)"

type_synonym informer_option = "sharedInformerFactory \<Rightarrow> sharedInformerFactory"

definition WithCustomResyncConfig :: "(go_type \<times> int) list \<Rightarrow> informer_option" where
  "WithCustomResyncConfig resyncConfig factory =
     factory\<lparr>customResync := fold (\<lambda>(k, v). type_put k v) resyncConfig (customResync factory)\<rparr>"

definition WithTweakListOptions :: "(ListOptions \<Rightarrow> ListOptions) option \<Rightarrow> informer_option" where
  "WithTweakListOptions tweak factory = factory\<lparr>tweakListOptions := tweak\<rparr>"

definition WithNamespace :: "string \<Rightarrow> informer_option" where
  "WithNamespace namespace factory = factory\<lparr>fNamespace := namespace\<rparr>"

definition NewSharedInformerFactoryWithOptions :: "int \<Rightarrow> informer_option list \<Rightarrow> sharedInformerFactory" where
  "NewSharedInformerFactoryWithOptions resync options =
     fold (\<lambda>opt factory. opt factory) options
       \<lparr>fNamespace = [], tweakListOptions = None, defaultResync = resync, customResync = [], informers = [], startedInformers = []\<rparr>"

definition NewSharedInformerFactory :: "int \<Rightarrow> sharedInformerFactory" where
  "NewSharedInformerFactory resync = NewSharedInformerFactoryWithOptions resync []"

definition NewFilteredSharedInformerFactory ::
  "int \<Rightarrow> string \<Rightarrow> (ListOptions \<Rightarrow> ListOptions) option \<Rightarrow> sharedInformerFactory" where
  "NewFilteredSharedInformerFactory resync namespace tweak =
     NewSharedInformerFactoryWithOptions resync [WithNamespace namespace, WithTweakListOptions tweak]"

type_synonym factory_state = "sharedInformerFactory \<times> world"

text \<open>The body of the loop of \<open>Start\<close>; the map of informers is visited in the order \<open>visit\<close> gives.\<close>

definition start_one :: "go_type \<times> nat \<Rightarrow> factory_state \<Rightarrow> factory_state" where
  "start_one = (\<lambda>(informerType, informer) (f, w).
     if informerType \<notin> set (startedInformers f)
     then (f\<lparr>startedInformers := informerType # startedInformers f\<rparr>, w\<lparr>running := running w @ [informer]\<rparr>)
     else (f, w))"

definition Start :: "((go_type \<times> nat) list \<Rightarrow> (go_type \<times> nat) list) \<Rightarrow> factory_state \<Rightarrow> factory_state" where
  "Start visit s = fold start_one (visit (informers (fst s))) s"

text \<open>\<open>WaitForCacheSync\<close>: the started informers, each with what waiting for it gave.\<close>

definition WaitForCacheSync :: "(nat \<Rightarrow> bool) \<Rightarrow> sharedInformerFactory \<Rightarrow> (go_type \<times> bool) list" where
  "WaitForCacheSync wait f =
     map (\<lambda>(informerType, informer). (informerType, wait informer))
       (filter (\<lambda>(informerType, _). informerType \<in> set (startedInformers f)) (informers f))"

text \<open>\<open>InformerFor\<close>: \<open>newFunc\<close> makes an informer from the resync period.\<close>

definition InformerFor :: "go_type \<Rightarrow> (int \<Rightarrow> informer) \<Rightarrow> factory_state \<Rightarrow> nat \<times> factory_state" where
  "InformerFor informerType newFunc = (\<lambda>(f, w).
     case map_of (informers f) informerType of
       Some informer \<Rightarrow> (informer, f, w)
     | None \<Rightarrow>
         let resyncPeriod = (case map_of (customResync f) informerType of Some d \<Rightarrow> d | None \<Rightarrow> defaultResync f);
             informer = length (informers_made w)
         in (informer, f\<lparr>informers := type_put informerType informer (informers f)\<rparr>,
             w\<lparr>informers_made := informers_made w @ [newFunc resyncPeriod]\<rparr>))"

section \<open>network/interface.go and network/v1\<close>

text \<open>A group, a version and an informer accessor carry the same three values; the factory itself is the
  state of the calls.\<close>

record accessor =
  acNamespace :: string
  acTweak :: "(ListOptions \<Rightarrow> ListOptions) option"

definition factory_Alpha :: "sharedInformerFactory \<Rightarrow> accessor" where
  "factory_Alpha f = \<lparr>acNamespace = fNamespace f, acTweak = tweakListOptions f\<rparr>"

definition group_V1 :: "accessor \<Rightarrow> accessor" where
  "group_V1 g = \<lparr>acNamespace = acNamespace g, acTweak = acTweak g\<rparr>"

definition version_LogicalNetworks :: "accessor \<Rightarrow> accessor" where
  "version_LogicalNetworks v = \<lparr>acNamespace = acNamespace v, acTweak = acTweak v\<rparr>"

definition NewFilteredLogicalNetworkInformer ::
  "string \<Rightarrow> int \<Rightarrow> string list \<Rightarrow> (ListOptions \<Rightarrow> ListOptions) option \<Rightarrow> informer" where
  "NewFilteredLogicalNetworkInformer namespace resyncPeriod idx tweak =
     \<lparr>infType = T_LogicalNetwork, infNamespace = namespace, infResync = resyncPeriod, infIndexers = idx, infTweak = tweak\<rparr>"

definition NewLogicalNetworkInformer :: "string \<Rightarrow> int \<Rightarrow> string list \<Rightarrow> informer" where
  "NewLogicalNetworkInformer namespace resyncPeriod idx = NewFilteredLogicalNetworkInformer namespace resyncPeriod idx None"

text \<open>The two functions of its \<^verbatim>\<open>ListWatch\<close>.\<close>

definition tweaked :: "(ListOptions \<Rightarrow> ListOptions) option \<Rightarrow> ListOptions \<Rightarrow> ListOptions" where
  "tweaked tweak options = (case tweak of None \<Rightarrow> options | Some t \<Rightarrow> t options)"

definition informer_ListFunc ::
  "('s, 'd, 'w) api \<Rightarrow> 'e Clientset \<Rightarrow> informer \<Rightarrow> ListOptions \<Rightarrow> ('s, LogicalNetwork list) go" where
  "informer_ListFunc a client i options =
     logicalNetworks_List a (AlphaV1_LogicalNetworks (Clientset_AlphaV1 client) (infNamespace i)) (tweaked (infTweak i) options)"

definition informer_WatchFunc ::
  "('s, 'd, 'w) api \<Rightarrow> 'e Clientset \<Rightarrow> informer \<Rightarrow> ListOptions \<Rightarrow> ('s, 'w) go" where
  "informer_WatchFunc a client i options =
     logicalNetworks_Watch a (AlphaV1_LogicalNetworks (Clientset_AlphaV1 client) (infNamespace i)) (tweaked (infTweak i) options)"

definition defaultInformer :: "accessor \<Rightarrow> int \<Rightarrow> informer" where
  "defaultInformer f resyncPeriod = NewFilteredLogicalNetworkInformer (acNamespace f) resyncPeriod [NamespaceIndex] (acTweak f)"

definition logicalNetworkInformer_Informer :: "accessor \<Rightarrow> factory_state \<Rightarrow> nat \<times> factory_state" where
  "logicalNetworkInformer_Informer f = InformerFor T_LogicalNetwork (defaultInformer f)"

text \<open>\<open>Lister\<close>: a lister over the store of that informer; stores are known by their informer.\<close>

definition logicalNetworkInformer_Lister ::
  "(nat \<Rightarrow> 'c Indexer) \<Rightarrow> accessor \<Rightarrow> factory_state \<Rightarrow> 'c logicalNetworkLister \<times> factory_state" where
  "logicalNetworkInformer_Lister indexer_of f s =
     (case logicalNetworkInformer_Informer f s of (i, s') \<Rightarrow> (NewLogicalNetworkLister (indexer_of i), s'))"

section \<open>generic.go\<close>

record genericInformer =
  giInformer :: nat
  giResource :: "string \<times> string"

definition genericInformer_Informer :: "genericInformer \<Rightarrow> nat" where
  "genericInformer_Informer f = giInformer f"

text \<open>The generic lister is the store of the informer and the resource its errors name.\<close>

definition genericInformer_Lister :: "(nat \<Rightarrow> 'c Indexer) \<Rightarrow> genericInformer \<Rightarrow> 'c Indexer \<times> string \<times> string" where
  "genericInformer_Lister indexer_of f = (indexer_of (genericInformer_Informer f), giResource f)"

definition ForResource :: "GroupVersionResource \<Rightarrow> factory_state \<Rightarrow> (go_error + genericInformer) \<times> factory_state" where
  "ForResource resource s =
     (if resource = WithResource SchemeGroupVersion ''logicalnetworks'' then
        (case logicalNetworkInformer_Informer (version_LogicalNetworks (group_V1 (factory_Alpha (fst s)))) s of
           (i, s') \<Rightarrow> (Inr \<lparr>giInformer = i, giResource = (gvrGroup resource, gvrResource resource)\<rparr>, s'))
      else (Inl (ErrorString (''no informer found for '' @ gvrGroup resource @ ''/'' @ gvrVersion resource @ '', Resource='' @ gvrResource resource)), s))"

section \<open>The steps of a program that uses the factory\<close>

text \<open>Any goroutine may ask for an informer or start the factory at any time.\<close>

inductive factory_step :: "factory_state \<Rightarrow> factory_state \<Rightarrow> bool" where
  Ask: "InformerFor t newFunc s = (i, s') \<Longrightarrow> (\<And>d. infType (newFunc d) = t) \<Longrightarrow> factory_step s s'"
| StartAll: "(\<And>m. mset (visit m) = mset m) \<Longrightarrow> factory_step s (Start visit s)"

inductive_cases factory_stepE: "factory_step s s'"

text \<open>The invariant: the informers of the factory are distinct, each of the type it stands for, and an
  informer runs once if its type is started and not at all otherwise.\<close>

definition factory_inv :: "factory_state \<Rightarrow> bool" where
  "factory_inv = (\<lambda>(f, w).
     distinct (map fst (informers f)) \<and> distinct (map snd (informers f))
     \<and> (\<forall>(t, i) \<in> set (informers f). i < length (informers_made w) \<and> infType (informers_made w ! i) = t)
     \<and> distinct (running w)
     \<and> set (running w) = {i. \<exists>t. (t, i) \<in> set (informers f) \<and> t \<in> set (startedInformers f)}
     \<and> set (startedInformers f) \<subseteq> fst ` set (informers f))"

lemma type_put_new: "k \<notin> fst ` set m \<Longrightarrow> type_put k v m = m @ [(k, v)]"
  by (induction m) auto

lemma factory_invD:
  assumes "factory_inv (f, w)"
  shows "distinct (map fst (informers f))" "distinct (map snd (informers f))" "distinct (running w)"
    "set (running w) = {i. \<exists>t. (t, i) \<in> set (informers f) \<and> t \<in> set (startedInformers f)}"
    "set (startedInformers f) \<subseteq> fst ` set (informers f)"
    "(t, i) \<in> set (informers f) \<Longrightarrow> i < length (informers_made w) \<and> infType (informers_made w ! i) = t"
  using assms by (auto simp: factory_inv_def)

lemma factory_invI:
  assumes "distinct (map fst (informers f))" "distinct (map snd (informers f))" "distinct (running w)"
    "{i. \<exists>t. (t, i) \<in> set (informers f) \<and> t \<in> set (startedInformers f)} = set (running w)"
    "set (startedInformers f) \<subseteq> fst ` set (informers f)"
    "\<And>t i. (t, i) \<in> set (informers f) \<Longrightarrow> i < length (informers_made w) \<and> infType (informers_made w ! i) = t"
  shows "factory_inv (f, w)"
  using assms by (auto simp: factory_inv_def)

lemma factory_inv_ask:
  assumes inv: "factory_inv s" and ask: "InformerFor t newFunc s = (i, s')" and t: "\<And>d. infType (newFunc d) = t"
  shows "factory_inv s' \<and> map_of (informers (fst s')) t = Some i \<and> map_of (informers (fst s)) \<subseteq>\<^sub>m map_of (informers (fst s'))
    \<and> running (snd s') = running (snd s) \<and> startedInformers (fst s') = startedInformers (fst s)"
proof -
  obtain f w where s: "s = (f, w)" by (rule prod.exhaust)
  show ?thesis
  proof (cases "map_of (informers f) t")
    case (Some j)
    with ask inv s show ?thesis by (auto simp: InformerFor_def)
  next
    case None
    let ?j = "length (informers_made w)"
    have new: "t \<notin> fst ` set (informers f)" using None by (simp add: map_of_eq_None_iff)
    define d where "d = (case map_of (customResync f) t of Some d \<Rightarrow> d | None \<Rightarrow> defaultResync f)"
    have s': "i = ?j" "s' = (f\<lparr>informers := informers f @ [(t, ?j)]\<rparr>, w\<lparr>informers_made := informers_made w @ [newFunc d]\<rparr>)"
      using ask None s by (auto simp: InformerFor_def Let_def d_def type_put_new[OF new])
    note I = factory_invD[OF inv[unfolded s]]
    have fresh: "?j \<notin> snd ` set (informers f)" using I(6) by fastforce
    have st: "t \<notin> set (startedInformers f)" using I(5) new by auto
    have r: "{k. \<exists>t'. (t', k) \<in> set (informers f @ [(t, ?j)]) \<and> t' \<in> set (startedInformers f)} = set (running w)"
      unfolding I(4) using st by auto
    have m: "(t', k) \<in> set (informers f @ [(t, ?j)]) \<Longrightarrow> k < Suc ?j \<and> infType ((informers_made w @ [newFunc d]) ! k) = t'" for t' k
      using I(6)[of t' k] t by (auto simp: nth_append)
    have "factory_inv s'"
      unfolding s' by (rule factory_invI) (use I(1-3,5) new fresh r m in \<open>simp_all add: subset_insertI2\<close>)
    moreover have "map_of (informers f @ [(t, ?j)]) = (map_of (informers f))(t \<mapsto> ?j)"
      using None by (intro ext) (auto simp: map_add_def split: option.split)
    ultimately show ?thesis using s s' None by (auto simp: map_le_def)
  qed
qed

lemma started_insert:
  assumes "\<And>j. (t, j) \<in> R \<Longrightarrow> j = i" "(t, i) \<in> R"
  shows "{j. \<exists>t'. (t', j) \<in> R \<and> t' \<in> insert t S} = insert i {j. \<exists>t'. (t', j) \<in> R \<and> t' \<in> S}"
  using assms by blast

lemma started_all: "{i. \<exists>t. (t, i) \<in> R \<and> t \<in> fst ` R} = snd ` R"
  by force

lemma start_one_inv:
  assumes "factory_inv (f, w)" "(t, i) \<in> set (informers f)" "start_one (t, i) (f, w) = (f', w')"
  shows "factory_inv (f', w') \<and> informers f' = informers f \<and> set (startedInformers f') = insert t (set (startedInformers f))"
proof (cases "t \<in> set (startedInformers f)")
  case True
  with assms show ?thesis by (auto simp: start_one_def)
next
  case False
  note I = factory_invD[OF assms(1)]
  have u: "(t, j) \<in> set (informers f) \<Longrightarrow> j = i" for j using I(1) assms(2) by (metis eq_key_imp_eq_value)
  have v: "(t', i) \<in> set (informers f) \<Longrightarrow> t' = t" for t'
    using I(2) assms(2) by (metis (mono_tags, lifting) inj_onD distinct_map snd_conv fst_conv)
  have i: "i \<notin> set (running w)" using False v unfolding I(4) by auto
  have r: "{j. \<exists>t'. (t', j) \<in> set (informers f) \<and> t' \<in> insert t (set (startedInformers f))} = insert i (set (running w))"
    unfolding I(4) by (rule started_insert[OF u assms(2)])
  have st: "insert t (set (startedInformers f)) \<subseteq> fst ` set (informers f)" using I(5) assms(2) by force
  let ?f = "f\<lparr>startedInformers := t # startedInformers f\<rparr>" and ?w = "w\<lparr>running := running w @ [i]\<rparr>"
  have "factory_inv (?f, ?w)"
    by (rule factory_invI) (use I(1-3,6) i r st in simp_all)
  then show ?thesis using False assms(3) by (auto simp: start_one_def)
qed

lemma start_fold_inv:
  assumes "factory_inv s" "set its \<subseteq> set (informers (fst s))"
  shows "factory_inv (fold start_one its s) \<and> informers (fst (fold start_one its s)) = informers (fst s)
    \<and> set (startedInformers (fst (fold start_one its s))) = fst ` set its \<union> set (startedInformers (fst s))"
  using assms
proof (induction its arbitrary: s)
  case (Cons ti its)
  obtain f w where s: "s = (f, w)" by (rule prod.exhaust)
  obtain t i where ti: "ti = (t, i)" by (rule prod.exhaust)
  obtain f' w' where s': "start_one (t, i) (f, w) = (f', w')" by (rule prod.exhaust)
  from start_one_inv[OF _ _ s'] Cons.prems s ti
  have 1: "factory_inv (f', w')" "informers f' = informers f" "set (startedInformers f') = insert t (set (startedInformers f))" by auto
  from Cons.IH[of "(f', w')"] 1 Cons.prems s ti s' show ?case by auto
qed simp

lemma Start_inv:
  assumes "factory_inv s" "\<And>m. mset (visit m) = mset m"
  shows "factory_inv (Start visit s)" "informers (fst (Start visit s)) = informers (fst s)"
    "set (running (snd (Start visit s))) = snd ` set (informers (fst s))"
proof -
  let ?its = "visit (informers (fst s))" and ?s = "Start visit s"
  have its: "set ?its = set (informers (fst s))" using mset_eq_setD[OF assms(2)] by blast
  note f = start_fold_inv[OF assms(1), of ?its, folded Start_def]
  show 1: "factory_inv ?s" "informers (fst ?s) = informers (fst s)" using f its by auto
  have "set (startedInformers (fst ?s)) = fst ` set (informers (fst s))"
    using f its factory_invD(5)[of "fst s" "snd s"] assms(1) by auto
  moreover have "set (running (snd ?s)) = {i. \<exists>t. (t, i) \<in> set (informers (fst ?s)) \<and> t \<in> set (startedInformers (fst ?s))}"
    using factory_invD(4)[of "fst ?s" "snd ?s"] 1(1) by simp
  ultimately show "set (running (snd ?s)) = snd ` set (informers (fst s))"
    by (simp only: 1(2) started_all)
qed

lemma factory_step_inv:
  assumes "factory_step s s'" "factory_inv s"
  shows "factory_inv s' \<and> map_of (informers (fst s)) \<subseteq>\<^sub>m map_of (informers (fst s'))"
  using assms
proof cases
  case (Ask t newFunc i)
  then show ?thesis using factory_inv_ask[OF assms(2)] by blast
next
  case (StartAll visit)
  then show ?thesis using Start_inv[OF assms(2), of visit] by simp
qed

lemma factory_steps_inv:
  "factory_step\<^sup>*\<^sup>* s s' \<Longrightarrow> factory_inv s \<Longrightarrow> factory_inv s' \<and> map_of (informers (fst s)) \<subseteq>\<^sub>m map_of (informers (fst s'))"
  by (induction rule: rtranclp_induct) (auto dest: factory_step_inv intro: map_le_trans)

definition new_world :: world where
  "new_world = \<lparr>informers_made = [], running = []\<rparr>"

lemma options_keep: 
  assumes "\<And>opt f. opt \<in> set options \<Longrightarrow> informers (opt f) = informers f \<and> startedInformers (opt f) = startedInformers f"
  shows "factory_inv (NewSharedInformerFactoryWithOptions resync options, new_world)"
proof -
  have "informers (fold (\<lambda>opt f. opt f) options f) = informers f \<and> startedInformers (fold (\<lambda>opt f. opt f) options f) = startedInformers f" for f
    using assms by (induction options arbitrary: f) auto
  then show ?thesis by (simp add: NewSharedInformerFactoryWithOptions_def factory_inv_def new_world_def)
qed

lemma factory_inv_new: "factory_inv (NewSharedInformerFactory resync, new_world)"
  unfolding NewSharedInformerFactory_def by (rule options_keep) simp

end
