(* ===== verification/NpcHandlers.thy ===== *)
theory NpcHandlers
  imports NetworkPolicy
begin

text \<open>
  The handlers of the network policy controller under the contract \<open>iptables_tool\<close>: every handler
  keeps the shape of the controller's chains, whatever it returns.
\<close>

definition subnets_ok :: "NetworkPolicyController \<Rightarrow> bool" where
  "subnets_ok npc = list_all (\<lambda>l. addr_ok (SubSubnet (lnSpec l))) (logicalNwLister npc)"

lemma LogicalNetworks_Get_mem:
  "LogicalNetworks_Get ls ns n = Inr l \<Longrightarrow> l \<in> set ls \<and> namespace_key (lnMeta l) = ns @ ''/'' @ n"
  by (auto simp: LogicalNetworks_Get_def find_Some_iff split: option.splits)

lemma subnets_ok_Get: "subnets_ok npc \<Longrightarrow> LogicalNetworks_Get (logicalNwLister npc) ns n = Inr l \<Longrightarrow> addr_ok (SubSubnet (lnSpec l))"
  using LogicalNetworks_Get_mem by (fastforce simp: subnets_ok_def list_all_iff)

lemma keeps_go_sum [intro]: "keeps I (go_sum x)"
  by (auto simp: go_sum_def split: sum.split)

text \<open>The tokens of a base chain line.\<close>

lemma last_network_token_last:
  "Contains w GenieNetworkPrefix \<Longrightarrow> last_network_token (ws @ [w]) = w"
  by (simp add: last_network_token_def)

lemma net_has_prefix: "net_name c \<Longrightarrow> Contains c GenieNetworkPrefix"
  using chain_name_of_split by (metis Contains_appendI1 Contains_self)

context iptables_tool
begin

lemma base_line_token:
  assumes "rule_ok cn r" "rule_fits GenieBaseNPCChain r"
  shows "last_network_token (Split (rule_line ex GenieBaseNPCChain r) '' '') = target r"
proof -
  have t: "net_name (target r)" using assms by (simp add: rule_fits_base)
  then have "ex (target r) = []" by (simp add: ex_builtin)
  then have tk: "[''-A'', GenieBaseNPCChain] @ rule_tokens ex r =
      ([''-A'', GenieBaseNPCChain] @ (case src r of None \<Rightarrow> [] | Some s \<Rightarrow> [''-s'', s])
        @ (case dst r of None \<Rightarrow> [] | Some d \<Rightarrow> [''-d'', d]) @ [''-j'']) @ [target r]"
    by (simp add: rule_tokens_def)
  have "CHR '' '' \<notin> set s" if "cn s = Some s" for s
    using cn_chars[OF that] by auto
  note sp = this
  have "CHR '' '' \<notin> set w" if "w \<in> set ([''-A'', GenieBaseNPCChain] @ rule_tokens ex r)" for w
    using that
  proof (cases rule: rule_token_cases)
    case 7
    then show ?thesis using ex_chars by blast
  next
    case 8
    then show ?thesis using rule_okD[OF assms(1)] sp by blast
  qed (use assms(1) in \<open>auto simp: GenieBaseNPCChain_def rule_ok_def name_ok_def\<close>)
  then have "Split (rule_line ex GenieBaseNPCChain r) '' '' = [''-A'', GenieBaseNPCChain] @ rule_tokens ex r"
    unfolding rule_line_def by (intro Split_Join) auto
  then show ?thesis
    unfolding tk by (simp only: last_network_token_last[OF net_has_prefix[OF t]])
qed

lemma base_line_prefix:
  assumes "rule_ok cn r" "rule_fits GenieBaseNPCChain r"
  shows "Contains (rule_line ex GenieBaseNPCChain r) GenieNetworkPrefix"
    and "\<not> Contains (chain_line GenieBaseNPCChain) GenieNetworkPrefix"
proof -
  have p: "GenieNetworkPrefix = CHR ''G'' # ''nNtk-''" "CHR '' '' \<notin> set GenieNetworkPrefix"
      "\<not> Contains GenieBaseNPCChain GenieNetworkPrefix"
    by (simp_all add: GenieNetworkPrefix_def GenieBaseNPCChain_def)
  show "Contains (rule_line ex GenieBaseNPCChain r) GenieNetworkPrefix"
    using Contains_rule_line[OF assms(1) p] assms net_has_prefix by (simp add: rule_fits_base)
  show "\<not> Contains (chain_line GenieBaseNPCChain) GenieNetworkPrefix"
    by (rule Contains_chain_line[OF p])
qed

lemma keeps_InsertRule_no_chain:
  assumes p: "plc_name p"
  shows "keeps (\<lambda>k. npc_shape (tbl k)) (InsertRule h ipt [] 1 [''-j'', p])"
proof (rule keepsI)
  fix k
  assume sh: "npc_shape (tbl k)"
  let ?k = "snd (Exists h ipt ''filter'' [] [''-j'', p] k)"
  have e0: "tbl k [] = None" using stored[of k "[]"] by (cases "tbl k []") (auto simp: name_ok_def)
  have l0: "genie_level [] = 0"
    by (simp add: genie_level_def GenieBaseNPCChain_def builtin_targets_def chain_name_of_def)
  have ok: "cmd_ok (tbl k) (CCheck [] [''-j'', p])" "cmd_ok (tbl k) (CInsert [] 1 [''-j'', p])"
    using p sh l0 by (simp_all add: jump_ok_genie)
  show "npc_shape (tbl (snd (InsertRule h ipt [] 1 [''-j'', p] k)))"
  proof (cases "tbl k p = None")
    case True
    with Exists_usage[OF ok(1)] p sh show ?thesis
      by (auto simp: InsertRule_def FilterTable_def target_known_def go_simps)
  next
    case False
    with Exists_spec[OF ok(1), of "jump p"] e0
    have e: "fst (Exists h ipt ''filter'' [] [''-j'', p] k) = Ret False" "tbl ?k = tbl k"
      by (simp_all add: target_known_def)
    with Insert_absent[of ?k "[]" 1 "[''-j'', p]" "jump p"] ok(2) e0 False
    have "\<exists>msg. fst (Insert h ipt ''filter'' [] 1 [''-j'', p] ?k) = Err (ExitError 1 msg)"
        "tbl (snd (Insert h ipt ''filter'' [] 1 [''-j'', p] ?k)) = tbl k"
      by (simp_all add: target_known_def)
    with e sh show ?thesis
      by (auto simp: InsertRule_def FilterTable_def exit_status_def go_simps)
  qed
qed

end

section \<open>The controller and its environment\<close>

text \<open>
  \<open>npc_host\<close>: the controller runs its commands on a host with the contract. \<open>npc_env\<close>: besides, the
  subnets in the cache are networks the contract speaks about (no list of addresses, not the whole
  address space), and a \<open>range\<close> loop visits every entry of a map once.
\<close>

locale npc_host = iptables_tool h ipt tbl cn ex
  for h :: "'k host" and ipt :: IPTables and tbl :: "'k \<Rightarrow> chains"
    and cn :: "string \<Rightarrow> string option" and ex :: "string \<Rightarrow> string list" +
  fixes npc :: NetworkPolicyController
  assumes ctrl: "iptable npc = ipt"
begin

lemma keeps_insertPeerRule [intro]:
  assumes "plc_name c" "addr_ok s"
  shows "keeps (\<lambda>k. npc_shape (tbl k)) (insertPeerRule h npc c s)"
  using assms unfolding insertPeerRule_def Let_def FilterTable_def ctrl
  by (intro keeps_bind keeps_wrap) (auto simp: spec_fits_def rule_fits_plc intro!: keeps_AppendUnique)

text \<open>Deleting rule 0 is a usage error, so an update of a logical network changes nothing.\<close>

lemma replace_base_rules_zero:
  "(if list_ex (\<lambda>l. Contains l c) ls then \<exists>e. fst (replace_base_rules h npc n ns c sp ls pos 0 k) = Err e
    else fst (replace_base_rules h npc n ns c sp ls pos 0 k) = Ret ())
   \<and> tbl (snd (replace_base_rules h npc n ns c sp ls pos 0 k)) = tbl k"
proof (induction ls arbitrary: pos)
  case (Cons l ls)
  have "cmd_ok (tbl k) (CDelete GenieBaseNPCChain 0)" by simp
  from Delete_zero[OF this] Cons show ?case
    by (auto simp: FilterTable_def ctrl go_simps)
qed (simp add: go_simps)

lemma handleLogicalNetworkUpdate_table: "tbl (snd (handleLogicalNetworkUpdate h npc n ns k)) = tbl k"
proof -
  have c: "cmd_ok (tbl k) (CList GenieBaseNPCChain)" by simp
  then have l: "tbl (snd (ListRules h ipt ''filter'' GenieBaseNPCChain k)) = tbl k"
    by (cases "tbl k GenieBaseNPCChain") (simp_all add: ListRules_spec ListRules_absent)
  have r: "tbl (snd (replace_base_rules h npc n ns c sp ls 0 0 k')) = tbl k'" for c sp ls k'
    using replace_base_rules_zero[of c ls n ns sp 0 k'] by simp
  show ?thesis
    using l by (auto simp: handleLogicalNetworkUpdate_def go_sum_def Let_def FilterTable_def ctrl go_simps r
        split: sum.split go_res.split)
qed

section \<open>The shape is kept\<close>

lemma keeps_handleLogicalNetworkUpdate [intro]:
  "keeps (\<lambda>k. npc_shape (tbl k)) (handleLogicalNetworkUpdate h npc n ns)"
  by (rule keeps_tbl_id) (rule handleLogicalNetworkUpdate_table)

lemma keeps_delete_subnet_rules [intro]:
  "name_ok c \<Longrightarrow> 0 \<le> pos \<Longrightarrow> keeps (\<lambda>k. npc_shape (tbl k)) (delete_subnet_rules h npc c s ls pos cnt)"
proof (induction ls arbitrary: pos cnt)
  case (Cons l ls)
  then show ?case
    by (auto simp: Let_def FilterTable_def ctrl intro!: keeps_bind keeps_try keeps_Delete split: sum.split)
qed auto

lemma keeps_handleLogicalNetworkDelete [intro]:
  "keeps (\<lambda>k. npc_shape (tbl k)) (handleLogicalNetworkDelete h npc name ns subnet)"
proof -
  have "keeps (\<lambda>k. npc_shape (tbl k)) (network_delete_info h npc name ns subnet p)" for p
    unfolding network_delete_info_def Let_def ctrl FilterTable_def
    by (intro keeps_case_option keeps_wrap keeps_DeleteNetworkChain keeps_bind keeps_try keeps_ListRules
        keeps_case_sum keeps_ret keeps_delete_subnet_rules) simp_all
  then show ?thesis unfolding handleLogicalNetworkDelete_def by blast
qed

lemma keeps_handleNetworkPolicyDelete [intro]:
  "keeps (\<lambda>k. npc_shape (tbl k)) (handleNetworkPolicyDelete h npc name ns annotation)"
  unfolding handleNetworkPolicyDelete_def Let_def ctrl FilterTable_def
  by (intro keeps_bind keeps_go_sum keeps_each keeps_log keeps_wrap keeps_DeleteNetworkChainRule keeps_DeleteIptableChain) simp_all

lemma keeps_policy_networks [intro]: "keeps I (policy_networks npc name ns)"
  unfolding policy_networks_def by blast

text \<open>The lines the update handler reads off the base chain.\<close>

lemma ListRules_base:
  assumes sh: "npc_shape (tbl k)" and l: "fst (ListRules h ipt ''filter'' GenieBaseNPCChain k) = Ret rules"
  obtains b where "tbl k GenieBaseNPCChain = Some b" "rules = listing ex GenieBaseNPCChain b"
    "\<forall>r \<in> set b. rule_ok cn r \<and> rule_fits GenieBaseNPCChain r"
proof -
  have c: "cmd_ok (tbl k) (CList GenieBaseNPCChain)" by simp
  obtain b where b: "tbl k GenieBaseNPCChain = Some b"
    using l ListRules_absent(1)[OF c] by (cases "tbl k GenieBaseNPCChain") auto
  show ?thesis
  proof (rule that[OF b])
    show "rules = listing ex GenieBaseNPCChain b" using ListRules_spec(1)[OF c b] l by simp
    show "\<forall>r \<in> set b. rule_ok cn r \<and> rule_fits GenieBaseNPCChain r"
      using stored[OF b] npc_shapeD(2)[OF sh b] by blast
  qed
qed

lemma keeps_unlink_policy:
  assumes "\<forall>r \<in> set rs. rule_ok cn r \<and> rule_fits GenieBaseNPCChain r"
  shows "keeps (\<lambda>k. npc_shape (tbl k)) (unlink_policy h npc p m (map (rule_line ex GenieBaseNPCChain) rs))"
  using assms
proof (induction rs arbitrary: m)
  case (Cons r rs)
  then have "net_name (target r)" by (simp add: rule_fits_base)
  then show ?case
    using Cons base_line_token[of r]
    by (auto simp: Let_def ctrl intro!: keeps_bind keeps_try keeps_DeleteNetworkChainRule)
qed auto

lemma keeps_unlink_listing:
  "keeps (\<lambda>k. npc_shape (tbl k)) (go_bind (go_wrap w (ListRules h ipt ''filter'' GenieBaseNPCChain)) (unlink_policy h npc c []))"
proof (rule keeps_bind_result)
  fix rules k
  assume sh: "npc_shape (tbl k)" and "fst (go_wrap w (ListRules h ipt ''filter'' GenieBaseNPCChain) k) = Ret rules"
  then have "fst (ListRules h ipt ''filter'' GenieBaseNPCChain k) = Ret rules"
    by (simp add: go_simps split: go_res.splits)
  then obtain b where b: "rules = listing ex GenieBaseNPCChain b" "\<forall>r \<in> set b. rule_ok cn r \<and> rule_fits GenieBaseNPCChain r"
    using ListRules_base[OF sh] by metis
  have "\<not> Contains (chain_line GenieBaseNPCChain) GenieNetworkPrefix" by code_simp
  then show "keeps (\<lambda>k. npc_shape (tbl k)) (unlink_policy h npc c [] rules)"
    using b(1) keeps_unlink_policy[OF b(2)] by (simp add: listing_def)
qed (auto intro!: keeps_wrap keeps_ListRules)

end

locale npc_env = npc_host +
  assumes subnets: "subnets_ok npc"
    and range_all: "mset (map_range npc m) = mset m"
begin

lemmas subnet_of = subnets_ok_Get[OF subnets]

lemma AddNetworkChain_name:
  "fst (go_try (AddNetworkChain h ipt ln) k) = Ret r \<Longrightarrow>
   (\<exists>e. r = Inl e) \<or> r = Inr (ntk_chain (Name (lnMeta ln)) (Namespace (lnMeta ln)))"
  by (auto simp: AddNetworkChain_def Let_def go_simps split: go_res.splits)

lemma keeps_network_policy_info [intro]:
  assumes a: "addr_ok (SubSubnet (lnSpec ln))"
  shows "keeps (\<lambda>k. npc_shape (tbl k)) (network_policy_info h npc ln name ns policy)"
proof (cases "Networks policy")
  case None
  then show ?thesis using a by (auto simp: network_policy_info_def intro!: keeps_log keeps_insertPeerRule)
next
  case (Some nw)
  have peer: "keeps (\<lambda>k. npc_shape (tbl k)) (add_peer h npc ns (plc_chain x ns) p)" for x p
    by (auto simp: add_peer_def Let_def intro!: keeps_log keeps_insertPeerRule subnet_of split: sum.split)
  have ins: "keeps (\<lambda>k. npc_shape (tbl k)) (InsertRule h ipt (case r of Inl _ \<Rightarrow> [] | Inr c \<Rightarrow> c) 1 [''-j'', plc_chain x ns])"
    if "fst (go_try (AddNetworkChain h ipt ln) k) = Ret r" for r x k
    using AddNetworkChain_name[OF that]
  proof
    assume "\<exists>e. r = Inl e"
    then show ?thesis using keeps_InsertRule_no_chain[OF plc_chain_name] by auto
  qed (simp add: keeps_InsertRule)
  show ?thesis
    unfolding network_policy_info_def Let_def ctrl Some option.case
  proof (rule keeps_bind_result)
    show "keeps (\<lambda>k. npc_shape (tbl k)) (go_try (AddNetworkChain h ipt ln))" using a by blast
  qed (intro keeps_bind keeps_wrap keeps_each ins peer)
qed

lemma keeps_handleLogicalNetworkAdd [intro]:
  "keeps (\<lambda>k. npc_shape (tbl k)) (handleLogicalNetworkAdd h npc name ns)"
  unfolding handleLogicalNetworkAdd_def Let_def
proof (rule keeps_bind_result)
  fix ln k
  assume "fst (go_wrap (Errorf_v (''Error while getting logical network ('' @ ns @ '':'' @ TrimSpace name @ ''): ''))
    (go_sum (LogicalNetworks_Get (logicalNwLister npc) ns (TrimSpace name))) k) = Ret ln"
  then have "LogicalNetworks_Get (logicalNwLister npc) ns (TrimSpace name) = Inr ln"
    by (simp add: go_sum_def go_simps split: sum.splits)
  then show "keeps (\<lambda>k. npc_shape (tbl k)) (go_each (network_policy_info h npc ln (TrimSpace name) ns)
      (ListNetworkPolicies npc (TrimSpace name) ns))"
    by (intro keeps_each keeps_network_policy_info subnet_of)
qed blast

lemma keeps_populatePolicyChain [intro]:
  assumes p: "plc_name p"
  shows "keeps (\<lambda>k. npc_shape (tbl k)) (populatePolicyChain h npc name ns p networks)"
proof -
  have "keeps (\<lambda>k. npc_shape (tbl k)) (populate_peer h npc ns p peer)" for peer
    using p by (auto simp: populate_peer_def intro!: keeps_log keeps_insertPeerRule subnet_of split: sum.split)
  then have "keeps (\<lambda>k. npc_shape (tbl k)) (populate_network h npc ns p entry)" for entry
    unfolding populate_network_def Let_def ctrl
    by (intro keeps_if keeps_bind keeps_ret keeps_ExistsChain keeps_try keeps_case_sum keeps_each
          keeps_handleLogicalNetworkAdd keeps_InsertRule p) simp_all
  then show ?thesis unfolding populatePolicyChain_def by blast
qed

lemma AddPolicyChain_name: "fst (go_wrap w (AddPolicyChain h ipt name ns) k) = Ret c \<Longrightarrow> c = plc_chain name ns"
  using AddPolicyChain_spec(1)[of name ns k] by (simp add: go_simps)

lemma keeps_handleNetworkPolicyAdd [intro]:
  "keeps (\<lambda>k. npc_shape (tbl k)) (handleNetworkPolicyAdd h npc name ns)"
  unfolding handleNetworkPolicyAdd_def ctrl
  by (rule keeps_bind[OF keeps_policy_networks], rule keeps_bind_result)
     (auto dest!: AddPolicyChain_name intro!: keeps_when keeps_wrap)

lemma keeps_handleNetworkPolicyUpdate [intro]:
  "keeps (\<lambda>k. npc_shape (tbl k)) (handleNetworkPolicyUpdate h npc name ns)"
  unfolding handleNetworkPolicyUpdate_def ctrl FilterTable_def
  by (rule keeps_bind[OF keeps_policy_networks], rule keeps_bind_result)
     (auto dest!: AddPolicyChain_name intro!: keeps_unlink_listing keeps_wrap)

lemma keeps_syncHandler: "keeps (\<lambda>k. npc_shape (tbl k)) (syncHandler h npc key)"
  unfolding syncHandler_def Let_def
  by (intro keeps_case_sum keeps_err keeps_if keeps_ret keeps_handleNetworkPolicyAdd keeps_handleNetworkPolicyUpdate
      keeps_handleNetworkPolicyDelete keeps_handleLogicalNetworkAdd keeps_handleLogicalNetworkUpdate
      keeps_handleLogicalNetworkDelete)

end

section \<open>A cluster\<close>

text \<open>
  A cluster with two logical networks and a policy that selects the first and lets the second talk to
  it, on the reference host: the contracts above hold of it.
\<close>

definition demo_network :: "string \<Rightarrow> string \<Rightarrow> LogicalNetwork" where
  "demo_network name subnet =
     \<lparr>lnMeta = \<lparr>Name = name, Namespace = ''ns'', ResourceVersion = ''1'', Annotations = None, Labels = None\<rparr>,
      lnSpec = \<lparr>PhysicalNet = [], SubSubnet = subnet, Plugin = []\<rparr>\<rparr>"

definition demo_annotation :: string where
  "demo_annotation = ''[{'' @ [CHR 0x22] @ ''networkSelector'' @ [CHR 0x22] @ '':'' @ [CHR 0x22] @ ''red'' @ [CHR 0x22]
     @ '','' @ [CHR 0x22] @ ''peerNetworks'' @ [CHR 0x22] @ '':'' @ [CHR 0x22] @ ''blue'' @ [CHR 0x22] @ ''}]''"

definition demo_policy :: "string \<Rightarrow> NetworkPolicyObj" where
  "demo_policy name =
     \<lparr>npMeta = \<lparr>Name = name, Namespace = ''ns'', ResourceVersion = ''1'',
        Annotations = Some [(GenieNetworkPolicy, demo_annotation)], Labels = None\<rparr>\<rparr>"

definition demo_npc :: NetworkPolicyController where
  "demo_npc =
     \<lparr>networkPoliciesLister = [demo_policy ''pol''],
      logicalNwLister = [demo_network ''red'' ''10.1.0.0/16'', demo_network ''blue'' ''10.2.0.0/16''],
      iptable = ref_ipt, map_range = (\<lambda>m. m)\<rparr>"

interpretation demo: npc_env ref_host ref_ipt ref_tbl ref_cn ref_ex demo_npc
  by unfold_locales
     (simp_all add: demo_npc_def subnets_ok_def demo_network_def addr_ok_def HasSuffix_def)

end
