(* ===== verification/NpcSpec.thy ===== *)
theory NpcSpec
  imports NpcHandlers
begin

text \<open>
  What the network policy controller promises, as functions on the filter table alone: the host, the
  listings and the error texts are gone. An abstract step maps a table to a success flag and the table
  it leaves. \<open>refines\<close> relates an operation of the program to an abstract step, on every table of the
  controller's shape and on every branch; the rules below carry it through the combinators, up to the
  whole of \<open>syncHandler\<close>.
\<close>

type_synonym step = "chains \<Rightarrow> bool \<times> chains"

definition st_ok :: step where "st_ok T = (True, T)"
definition st_fail :: step where "st_fail T = (False, T)"
definition st_then :: "step \<Rightarrow> step \<Rightarrow> step" where
  "st_then a b T = (if fst (a T) then b (snd (a T)) else a T)"
definition st_log :: "step \<Rightarrow> step" where "st_log a T = (True, snd (a T))"

text \<open>\<open>b\<close> follows where \<open>a\<close> succeeds; the error of \<open>a\<close> is logged.\<close>

definition st_guard :: "step \<Rightarrow> step \<Rightarrow> step" where
  "st_guard a b T = (if fst (a T) then b (snd (a T)) else (True, snd (a T)))"

fun st_each :: "('x \<Rightarrow> step) \<Rightarrow> 'x list \<Rightarrow> step" where
  "st_each f [] = st_ok"
| "st_each f (x # xs) = st_then (f x) (st_each f xs)"

lemmas st_defs = st_ok_def st_fail_def st_then_def st_log_def

definition refines :: "('k \<Rightarrow> chains) \<Rightarrow> ('k, unit) go \<Rightarrow> step \<Rightarrow> bool" where
  "refines tbl m a \<longleftrightarrow>
     (\<forall>k. npc_shape (tbl k) \<longrightarrow>
        (if fst (a (tbl k)) then fst (m k) = Ret () else \<exists>e. fst (m k) = Err e)
        \<and> tbl (snd (m k)) = snd (a (tbl k)) \<and> npc_shape (tbl (snd (m k))))"

lemma refinesI:
  "keeps (\<lambda>k. npc_shape (tbl k)) m \<Longrightarrow>
   (\<And>k. npc_shape (tbl k) \<Longrightarrow> (if fst (a (tbl k)) then fst (m k) = Ret () else \<exists>e. fst (m k) = Err e)
        \<and> tbl (snd (m k)) = snd (a (tbl k))) \<Longrightarrow> refines tbl m a"
  by (auto simp: refines_def keeps_def)

lemma refinesD:
  assumes "refines tbl m a" "npc_shape (tbl k)"
  shows "fst (a (tbl k)) \<Longrightarrow> fst (m k) = Ret ()" "\<not> fst (a (tbl k)) \<Longrightarrow> \<exists>e. fst (m k) = Err e"
    "tbl (snd (m k)) = snd (a (tbl k))" "npc_shape (tbl (snd (m k)))"
  using assms by (auto simp: refines_def split: if_splits)

lemma refines_ret [intro]: "refines tbl (go_ret ()) st_ok"
  and refines_err [intro]: "refines tbl (go_err e) st_fail"
  by (auto simp: refines_def st_defs go_simps)

lemma refines_bind:
  assumes "refines tbl m a" "refines tbl (f ()) b"
  shows "refines tbl (go_bind m f) (st_then a b)"
  unfolding refines_def
proof (intro allI impI)
  fix k
  assume sh: "npc_shape (tbl k)"
  note m = refinesD[OF assms(1) sh]
  note f = refinesD[OF assms(2) m(4)]
  show "(if fst (st_then a b (tbl k)) then fst (go_bind m f k) = Ret () else \<exists>e. fst (go_bind m f k) = Err e)
      \<and> tbl (snd (go_bind m f k)) = snd (st_then a b (tbl k)) \<and> npc_shape (tbl (snd (go_bind m f k)))"
  proof (cases "fst (a (tbl k))")
    case True
    with m f show ?thesis by (auto simp: st_then_def go_bind_def)
  next
    case False
    with m show ?thesis by (auto simp: st_then_def go_bind_def)
  qed
qed

lemma refines_wrap [intro]: "refines tbl m a \<Longrightarrow> refines tbl (go_wrap w m) a"
  by (fastforce simp: refines_def go_simps split: if_splits)

text \<open>The result of a call that is only logged.\<close>

lemma refines_try_bind:
  assumes "refines tbl m a" "\<And>r. refines tbl (f r) b"
  shows "refines tbl (go_bind (go_try m) f) (st_then (st_log a) b)"
  unfolding refines_def
proof (intro allI impI)
  fix k
  assume sh: "npc_shape (tbl k)"
  note m = refinesD[OF assms(1) sh]
  then obtain r where r: "go_bind (go_try m) f k = f r (snd (m k))"
    by (cases "fst (a (tbl k))") (auto simp: go_simps)
  show "(if fst (st_then (st_log a) b (tbl k)) then fst (go_bind (go_try m) f k) = Ret ()
         else \<exists>e. fst (go_bind (go_try m) f k) = Err e)
      \<and> tbl (snd (go_bind (go_try m) f k)) = snd (st_then (st_log a) b (tbl k))
      \<and> npc_shape (tbl (snd (go_bind (go_try m) f k)))"
    using refinesD[OF assms(2)[of r] m(4)] m(3) unfolding r by (auto simp: st_then_def st_log_def)
qed

lemma st_then_ok [simp]: "st_then a st_ok = a" "st_then st_ok a = a"
  by (auto simp: st_then_def st_ok_def fun_eq_iff prod_eq_iff)

lemma refines_log [intro]: "refines tbl m a \<Longrightarrow> refines tbl (go_log m) (st_log a)"
  using refines_try_bind[of tbl m a "\<lambda>_. go_ret ()" st_ok] by (auto simp: go_log_def)

lemma refines_guard:
  assumes "refines tbl m a" "refines tbl n b"
  shows "refines tbl (go_bind (go_try m) (\<lambda>r. case r of Inl err \<Rightarrow> go_ret () | Inr _ \<Rightarrow> n)) (st_guard a b)"
    (is "refines tbl ?g _")
  unfolding refines_def
proof (intro allI impI)
  fix k
  assume "npc_shape (tbl k)"
  note d = refinesD[OF assms(1), OF this]
  note q = refinesD[OF assms(2), OF d(4)]
  show "(if fst (st_guard a b (tbl k)) then fst (?g k) = Ret () else \<exists>e. fst (?g k) = Err e)
      \<and> tbl (snd (?g k)) = snd (st_guard a b (tbl k)) \<and> npc_shape (tbl (snd (?g k)))"
    using d q by (cases "fst (a (tbl k))") (auto simp: st_guard_def go_simps)
qed

lemma refines_each: "(\<And>x. x \<in> set xs \<Longrightarrow> refines tbl (m x) (a x)) \<Longrightarrow> refines tbl (go_each m xs) (st_each a xs)"
  by (induction xs) (auto simp: go_each_Cons intro!: refines_bind)

lemma refines_cong: "refines tbl m a \<Longrightarrow> (\<And>k. npc_shape (tbl k) \<Longrightarrow> m' k = m k \<and> a' (tbl k) = a (tbl k)) \<Longrightarrow> refines tbl m' a'"
  by (auto simp: refines_def)

lemma st_each_filter: "st_each (\<lambda>x. if Q x then f x else st_ok) xs = st_each f (filter Q xs)"
  by (induction xs) auto

text \<open>A call whose value the continuation uses.\<close>

lemma refines_bind_value:
  assumes m: "\<And>k. npc_shape (tbl k) \<Longrightarrow>
      \<exists>x. fst (m k) = Ret x \<and> refines tbl (f x) (b (tbl k)) \<and> tbl (snd (m k)) = t (tbl k)"
    and keep: "keeps (\<lambda>k. npc_shape (tbl k)) m"
  shows "refines tbl (go_bind m f) (\<lambda>T. b T (t T))"
  unfolding refines_def
proof (intro allI impI)
  fix k
  assume sh: "npc_shape (tbl k)"
  obtain x where x: "fst (m k) = Ret x" "refines tbl (f x) (b (tbl k))" "tbl (snd (m k)) = t (tbl k)"
    using m[OF sh] by blast
  have "go_bind m f k = f x (snd (m k))" using x(1) by (simp add: go_bind_def)
  with refinesD[OF x(2) keepsD[OF keep sh]] x(3)
  show "(if fst (b (tbl k) (t (tbl k))) then fst (go_bind m f k) = Ret () else \<exists>e. fst (go_bind m f k) = Err e)
      \<and> tbl (snd (go_bind m f k)) = snd (b (tbl k) (t (tbl k))) \<and> npc_shape (tbl (snd (go_bind m f k)))"
    by auto
qed

section \<open>Abstract operations\<close>

definition st_AddPolicyChain :: "string \<Rightarrow> step" where
  "st_AddPolicyChain P T = (True, T(P \<mapsto> []))"

definition st_AddNetworkChain :: "(string \<Rightarrow> string option) \<Rightarrow> string \<Rightarrow> string \<Rightarrow> step" where
  "st_AddNetworkChain cn c s T =
     (case (cn s, T GenieBaseNPCChain) of
        (Some s', Some b) \<Rightarrow>
          (True, T(c \<mapsto> [reject], GenieBaseNPCChain \<mapsto> add_last (from_net s' c) (add_last (to_net s' c) b)))
      | _ \<Rightarrow> (False, T(c \<mapsto> [reject])))"

definition st_InsertRule :: "string \<Rightarrow> string \<Rightarrow> step" where
  "st_InsertRule c P T =
     (if T P = None then (False, T)
      else case T c of None \<Rightarrow> (True, T) | Some rs \<Rightarrow> (True, T(c \<mapsto> add_first (jump P) rs)))"

definition st_DeleteIptableChain :: "string \<Rightarrow> step" where
  "st_DeleteIptableChain c T =
     (if referenced (T(c \<mapsto> [])) c then (False, T(c \<mapsto> [])) else (True, T(c := None)))"

definition st_DeleteNetworkChain :: "string \<Rightarrow> step" where
  "st_DeleteNetworkChain c T =
     (case T GenieBaseNPCChain of
        None \<Rightarrow> (False, T)
      | Some b \<Rightarrow> st_DeleteIptableChain c (T(GenieBaseNPCChain \<mapsto> drop_first 2 (\<lambda>r. target r = c) b)))"

definition st_DeleteNetworkChainRule :: "string \<Rightarrow> string \<Rightarrow> step" where
  "st_DeleteNetworkChainRule c P T =
     (case T c of
        None \<Rightarrow> (False, T)
      | Some rs \<Rightarrow>
          (let T' = T(c \<mapsto> remove1 (jump P) rs)
           in if \<exists>r \<in> set rs - {jump P}. r \<noteq> reject then (True, T') else st_DeleteNetworkChain c T'))"

definition st_insertPeerRule :: "(string \<Rightarrow> string option) \<Rightarrow> string \<Rightarrow> string \<Rightarrow> step" where
  "st_insertPeerRule cn P s T =
     (case (cn s, T P) of
        (Some s', Some rs) \<Rightarrow> (True, T(P \<mapsto> add_last (to_net s' ''ACCEPT'') (add_last (from_net s' ''ACCEPT'') rs)))
      | _ \<Rightarrow> (False, T))"

section \<open>Abstract handlers\<close>

definition st_peer :: "(string \<Rightarrow> string option) \<Rightarrow> LogicalNetwork list \<Rightarrow> string \<Rightarrow> string \<Rightarrow> string \<Rightarrow> step" where
  "st_peer cn ls ns P peer =
     (case LogicalNetworks_Get ls ns (TrimSpace peer) of
        Inl _ \<Rightarrow> st_ok
      | Inr l \<Rightarrow> st_log (st_insertPeerRule cn P (SubSubnet (lnSpec l))))"

definition st_network_info ::
  "(string \<Rightarrow> string option) \<Rightarrow> NetworkPolicyController \<Rightarrow> LogicalNetwork \<Rightarrow> string \<Rightarrow> string \<Rightarrow> NetworkPolicyInfo \<Rightarrow> step" where
  "st_network_info cn npc ln name ns policy =
     (let P = plc_chain (piName policy) ns;
          c = ntk_chain (Name (lnMeta ln)) (Namespace (lnMeta ln))
      in case Networks policy of
           Some nw \<Rightarrow>
             (\<lambda>T. let (ok, T') = st_AddNetworkChain cn c (SubSubnet (lnSpec ln)) T
                  in st_then (st_InsertRule (if ok then c else []) P)
                       (st_each (st_peer cn (logicalNwLister npc) ns P) (filter (\<lambda>p. TrimSpace p \<noteq> []) (peers_of nw name))) T')
         | None \<Rightarrow> st_log (st_insertPeerRule cn P (SubSubnet (lnSpec ln))))"

definition st_NetworkAdd :: "(string \<Rightarrow> string option) \<Rightarrow> NetworkPolicyController \<Rightarrow> string \<Rightarrow> string \<Rightarrow> step" where
  "st_NetworkAdd cn npc name0 ns =
     (let name = TrimSpace name0
      in case LogicalNetworks_Get (logicalNwLister npc) ns name of
           Inl _ \<Rightarrow> st_fail
         | Inr ln \<Rightarrow> st_each (st_network_info cn npc ln name ns) (ListNetworkPolicies npc name ns))"

definition st_populate_network ::
  "(string \<Rightarrow> string option) \<Rightarrow> NetworkPolicyController \<Rightarrow> string \<Rightarrow> string \<Rightarrow> string \<times> string list \<Rightarrow> step" where
  "st_populate_network cn npc ns P entry T =
     (let sel = TrimSpace (fst entry); c = ntk_chain sel ns
      in if sel = [] then (True, T)
         else st_guard (if T c = None then st_NetworkAdd cn npc sel ns else st_InsertRule c P)
                (st_each (st_peer cn (logicalNwLister npc) ns P) (snd entry)) T)"

definition st_populate ::
  "(string \<Rightarrow> string option) \<Rightarrow> NetworkPolicyController \<Rightarrow> string \<Rightarrow> string \<Rightarrow> string list gomap \<Rightarrow> step" where
  "st_populate cn npc ns P networks = st_each (st_populate_network cn npc ns P) (map_range npc networks)"

text \<open>The networks of a policy object; \<open>None\<close> where it is missing or its annotation does not parse.\<close>

definition networks_of :: "NetworkPolicyController \<Rightarrow> string \<Rightarrow> string \<Rightarrow> string list gomap option" where
  "networks_of npc name ns =
     (case NetworkPolicies_Get (networkPoliciesLister npc) ns name of
        Inl _ \<Rightarrow> None
      | Inr np \<Rightarrow>
          (case getLogicalNetworksFromAnnotation (map_get (Annotations (npMeta np)) GenieNetworkPolicy) of
             Inl _ \<Rightarrow> None
           | Inr nw \<Rightarrow> Some nw))"

definition st_PolicyAdd :: "(string \<Rightarrow> string option) \<Rightarrow> NetworkPolicyController \<Rightarrow> string \<Rightarrow> string \<Rightarrow> step" where
  "st_PolicyAdd cn npc name ns =
     (case networks_of npc name ns of
        None \<Rightarrow> st_fail
      | Some nw \<Rightarrow> st_then (st_AddPolicyChain (plc_chain name ns)) (st_populate cn npc ns (plc_chain name ns) nw))"

text \<open>Every chain the base chain jumps to, in order, each once.\<close>

fun each_once :: "'a list \<Rightarrow> 'a list \<Rightarrow> 'a list" where
  "each_once seen [] = []"
| "each_once seen (x # xs) = (if x \<in> set seen then each_once seen xs else x # each_once (x # seen) xs)"

definition st_unlink :: "string \<Rightarrow> step" where
  "st_unlink P T =
     (case T GenieBaseNPCChain of
        None \<Rightarrow> (False, T)
      | Some b \<Rightarrow> st_each (\<lambda>c. st_log (st_DeleteNetworkChainRule c P)) (each_once [] (map target b)) T)"

definition st_PolicyUpdate :: "(string \<Rightarrow> string option) \<Rightarrow> NetworkPolicyController \<Rightarrow> string \<Rightarrow> string \<Rightarrow> step" where
  "st_PolicyUpdate cn npc name ns =
     (case networks_of npc name ns of
        None \<Rightarrow> st_fail
      | Some nw \<Rightarrow>
          st_then (st_AddPolicyChain (plc_chain name ns))
            (if nw \<noteq> [] then st_populate cn npc ns (plc_chain name ns) nw else st_unlink (plc_chain name ns)))"

definition st_PolicyDelete :: "NetworkPolicyController \<Rightarrow> string \<Rightarrow> string \<Rightarrow> string \<Rightarrow> step" where
  "st_PolicyDelete npc name ns annotation =
     (case getLogicalNetworksFromAnnotation annotation of
        Inl _ \<Rightarrow> st_fail
      | Inr nw \<Rightarrow>
          st_then
            (st_each (\<lambda>lnw. st_log (st_DeleteNetworkChainRule (ntk_chain (TrimSpace lnw) ns) (plc_chain name ns)))
               (map fst (map_range npc nw)))
            (st_DeleteIptableChain (plc_chain name ns)))"

definition st_NetworkUpdate :: "NetworkPolicyController \<Rightarrow> string \<Rightarrow> string \<Rightarrow> step" where
  "st_NetworkUpdate npc name ns T =
     (case (LogicalNetworks_Get (logicalNwLister npc) ns name, T GenieBaseNPCChain) of
        (Inr _, Some b) \<Rightarrow> (\<forall>r \<in> set b. target r \<noteq> ntk_chain name ns, T)
      | _ \<Rightarrow> (False, T))"

text \<open>The first two lines of a policy chain that show the text of the subnet; the line of the chain
  itself is one of them when it shows it.\<close>

definition st_delete_subnet :: "(string \<Rightarrow> string list) \<Rightarrow> string \<Rightarrow> string \<Rightarrow> step" where
  "st_delete_subnet ex P s T =
     (case T P of
        None \<Rightarrow> (True, T)
      | Some rs \<Rightarrow>
          (True, T(P \<mapsto> drop_first (if Contains (chain_line P) s then 1 else 2) (\<lambda>r. Contains (rule_line ex P r) s) rs)))"

definition st_NetworkDelete ::
  "(string \<Rightarrow> string list) \<Rightarrow> NetworkPolicyController \<Rightarrow> string \<Rightarrow> string \<Rightarrow> string \<Rightarrow> step" where
  "st_NetworkDelete ex npc name ns subnet =
     st_each (\<lambda>policy. case Networks policy of
          Some _ \<Rightarrow> st_DeleteNetworkChain (ntk_chain name ns)
        | None \<Rightarrow> st_delete_subnet ex (plc_chain (piName policy) (piNamespace policy)) subnet)
       (ListNetworkPolicies npc name ns)"

definition st_sync ::
  "(string \<Rightarrow> string option) \<Rightarrow> (string \<Rightarrow> string list) \<Rightarrow> NetworkPolicyController \<Rightarrow> string \<Rightarrow> step" where
  "st_sync cn ex npc key =
     (case unmarshalKeyActionJson key of
        Inl e \<Rightarrow> st_fail
      | Inr ka \<Rightarrow>
          (let name = map_get ka ''name''; ns = map_get ka ''namespace''; args = map_get ka ''args''
           in if map_get ka ''kind'' = ''networkpolicy'' then
                if map_get ka ''action'' = ''ADD'' then st_PolicyAdd cn npc name ns
                else if map_get ka ''action'' = ''UPDATE'' then st_PolicyUpdate cn npc name ns
                else if map_get ka ''action'' = ''DELETE'' then st_PolicyDelete npc name ns args
                else st_ok
              else if map_get ka ''kind'' = ''logicalnetwork'' then
                if map_get ka ''action'' = ''ADD'' then st_NetworkAdd cn npc name ns
                else if map_get ka ''action'' = ''UPDATE'' then st_NetworkUpdate npc name ns
                else if map_get ka ''action'' = ''DELETE'' then st_NetworkDelete ex npc name ns args
                else st_ok
              else st_ok))"

end
