(* ===== verification/NpcRefine.thy ===== *)
theory NpcRefine
  imports NpcSpec
begin

text \<open>
  The program refines the abstract steps of \<open>NpcSpec\<close>: first the operations of \<open>NpcIptables\<close>, then the
  handlers.
\<close>

section \<open>Operations\<close>

context iptables_tool
begin

lemma refines_AddPolicyChain:
  "refines tbl (go_bind (go_wrap w (AddPolicyChain h ipt name ns)) f) (\<lambda>T. b (snd (st_AddPolicyChain (plc_chain name ns) T)))"
  if "refines tbl (f (plc_chain name ns)) b" for b
  by (rule refines_bind_value[where b = "\<lambda>_. b"])
     (use that AddPolicyChain_spec[of name ns] in \<open>auto simp: go_simps st_AddPolicyChain_def intro!: keeps_wrap\<close>)

lemma refines_InsertRule:
  assumes c: "c = [] \<or> net_name c" and p: "plc_name P"
  shows "refines tbl (InsertRule h ipt c 1 [''-j'', P]) (st_InsertRule c P)"
proof (rule refinesI)
  show "keeps (\<lambda>k. npc_shape (tbl k)) (InsertRule h ipt c 1 [''-j'', P])"
    using c p keeps_InsertRule keeps_InsertRule_no_chain by blast
next
  fix k
  assume sh: "npc_shape (tbl k)"
  have lv: "genie_level c < genie_level P"
    using c p by (auto simp: genie_level_def[of "[]"] GenieBaseNPCChain_def builtin_targets_def chain_name_of_def)
  have ok: "cmd_ok (tbl k) (CCheck c [''-j'', P])" "cmd_ok (tbl k) (CInsert c 1 [''-j'', P])"
    using c p sh lv by (auto simp: jump_ok_genie)
  let ?k = "snd (Exists h ipt ''filter'' c [''-j'', P] k)"
  consider "tbl k P = None" | rs where "tbl k P \<noteq> None" "tbl k c = Some rs" | "tbl k P \<noteq> None" "tbl k c = None"
    by fastforce
  then show "(if fst (st_InsertRule c P (tbl k)) then fst (InsertRule h ipt c 1 [''-j'', P] k) = Ret ()
      else \<exists>e. fst (InsertRule h ipt c 1 [''-j'', P] k) = Err e)
      \<and> tbl (snd (InsertRule h ipt c 1 [''-j'', P] k)) = snd (st_InsertRule c P (tbl k))"
  proof cases
    case 1
    with Exists_usage[OF ok(1)] p show ?thesis
      by (auto simp: InsertRule_def FilterTable_def target_known_def st_InsertRule_def go_simps)
  next
    case 2
    then have "net_name c" using c stored[of k "[]"] by (auto simp: name_ok_def)
    from InsertRule_spec[OF sh this p 2(2,1)] 2 show ?thesis by (simp add: st_InsertRule_def)
  next
    case 3
    with Exists_spec[OF ok(1), of "jump P"]
    have e: "fst (Exists h ipt ''filter'' c [''-j'', P] k) = Ret False" "tbl ?k = tbl k"
      by (simp_all add: target_known_def)
    with Insert_absent[of ?k c 1 "[''-j'', P]" "jump P"] ok(2) 3
    have "\<exists>msg. fst (Insert h ipt ''filter'' c 1 [''-j'', P] ?k) = Err (ExitError 1 msg)"
        "tbl (snd (Insert h ipt ''filter'' c 1 [''-j'', P] ?k)) = tbl k"
      by (simp_all add: target_known_def)
    with e 3 show ?thesis
      by (auto simp: InsertRule_def FilterTable_def exit_status_def st_InsertRule_def go_simps)
  qed
qed

text \<open>A rule for a network, appended once: on every branch.\<close>

definition st_append :: "string \<Rightarrow> rule option \<Rightarrow> step" where
  "st_append c r T =
     (case (r, T c) of (Some r, Some rs) \<Rightarrow> (True, T(c \<mapsto> add_last r rs)) | _ \<Rightarrow> (False, T))"

lemma AppendUnique_step:
  assumes sh: "npc_shape (tbl k)" and f: "spec_fits cn c sp"
    and t: "\<And>r. spec_rule cn sp = Some r \<Longrightarrow> target_known (tbl k) (target r)"
  shows "(if fst (st_append c (spec_rule cn sp) (tbl k)) then fst (AppendUnique h ipt ''filter'' c sp k) = Ret ()
      else \<exists>e. fst (AppendUnique h ipt ''filter'' c sp k) = Err e)
      \<and> tbl (snd (AppendUnique h ipt ''filter'' c sp k)) = snd (st_append c (spec_rule cn sp) (tbl k))"
proof -
  let ?k = "snd (Exists h ipt ''filter'' c sp k)"
  have ok: "cmd_ok (tbl k) (CAppend c sp)" "cmd_ok (tbl k) (CCheck c sp)"
    using f sh by (simp_all add: spec_fits_def jump_ok_genie)
  show ?thesis
  proof (cases "spec_rule cn sp")
    case None
    with Exists_usage[OF ok(2)] show ?thesis by (auto simp: AppendUnique_def st_append_def go_simps)
  next
    case (Some r)
    note e = Exists_spec[OF ok(2) Some t[OF Some]]
    show ?thesis
    proof (cases "tbl k c")
      case None
      with e Append_absent[of ?k c sp] ok Some show ?thesis
        by (auto simp: AppendUnique_def st_append_def go_simps)
    next
      case rs: (Some rs)
      with AppendUnique_spec[OF ok(1) Some t[OF Some] rs] Some show ?thesis
        by (simp add: st_append_def add_last_def)
    qed
  qed
qed

lemma refines_AppendUnique:
  assumes "spec_fits cn c sp" "\<And>r T. spec_rule cn sp = Some r \<Longrightarrow> target_known T (target r)"
  shows "refines tbl (AppendUnique h ipt ''filter'' c sp) (st_append c (spec_rule cn sp))"
proof (rule refinesI)
  show "keeps (\<lambda>k. npc_shape (tbl k)) (AppendUnique h ipt ''filter'' c sp)" using assms(1) by blast
qed (rule AppendUnique_step[OF _ assms])

lemma ensure_base_rule_step:
  assumes sh: "npc_shape (tbl k)" and f: "spec_fits cn GenieBaseNPCChain sp"
    and t: "\<And>r. spec_rule cn sp = Some r \<Longrightarrow> target_known (tbl k) (target r)"
  shows "(if fst (st_append GenieBaseNPCChain (spec_rule cn sp) (tbl k)) then fst (ensure_base_rule h ipt sp k) = Ret ()
      else \<exists>e. fst (ensure_base_rule h ipt sp k) = Err e)
      \<and> tbl (snd (ensure_base_rule h ipt sp k)) = snd (st_append GenieBaseNPCChain (spec_rule cn sp) (tbl k))"
proof -
  let ?k = "snd (Exists h ipt ''filter'' GenieBaseNPCChain sp k)"
  have ok: "cmd_ok (tbl k) (CCheck GenieBaseNPCChain sp)" using f by (simp add: spec_fits_def)
  show ?thesis
  proof (cases "spec_rule cn sp")
    case None
    with Exists_usage[OF ok] show ?thesis by (auto simp: ensure_base_rule_def FilterTable_def st_append_def go_simps)
  next
    case (Some r)
    note e = Exists_spec[OF ok Some t[OF Some]]
    have "tbl ?k = tbl k" by (rule e)
    with AppendUnique_step[of ?k GenieBaseNPCChain sp] sh f t e Some show ?thesis
      by (cases "tbl k GenieBaseNPCChain")
         (auto simp: ensure_base_rule_def FilterTable_def st_append_def add_last_def go_simps fun_upd_idem)
  qed
qed

lemma AddNetworkChain_fails:
  fixes ln defines "c \<equiv> ntk_chain (Name (lnMeta ln)) (Namespace (lnMeta ln))"
  assumes sh: "npc_shape (tbl k)" and s: "addr_ok (SubSubnet (lnSpec ln))"
    and bad: "cn (SubSubnet (lnSpec ln)) = None \<or> tbl k GenieBaseNPCChain = None"
  shows "\<exists>e. fst (AddNetworkChain h ipt ln k) = Err e"
    and "tbl (snd (AddNetworkChain h ipt ln k)) = (tbl k)(c \<mapsto> [reject])"
proof -
  have c [simp]: "net_name c" "name_ok c" "c \<noteq> GenieBaseNPCChain" "c \<notin> set builtin_chains" "c \<notin> set builtin_targets"
    by (simp_all add: c_def)
  then have [simp]: "GenieBaseNPCChain \<noteq> c" by metis
  let ?sp = "[''-d'', SubSubnet (lnSpec ln), ''-j'', c]"
  define k1 where "k1 = snd (ClearChain h ipt ''filter'' c k)"
  define k2 where "k2 = snd (AppendUnique h ipt ''filter'' c [''-j'', ''REJECT''] k1)"
  have "cmd_ok (tbl k) (CNew c)" by simp
  note r1 = ClearChain_spec[OF this, folded k1_def]
  have sh1: "npc_shape (tbl k1)" unfolding r1 by (rule npc_shape_put[OF sh]) auto
  then have "cmd_ok (tbl k1) (CAppend c [''-j'', ''REJECT''])" by (simp add: jump_ok_genie)
  from AppendUnique_spec[OF this, of reject "[]", folded k2_def]
  have r2: "fst (AppendUnique h ipt ''filter'' c [''-j'', ''REJECT''] k1) = Ret ()"
      "tbl k2 = (tbl k)(c \<mapsto> [reject])" by (simp_all add: r1)
  have sh2: "npc_shape (tbl k2)" unfolding r2 by (rule npc_shape_put[OF sh]) (auto simp: rule_fits_net)
  have f: "spec_fits cn GenieBaseNPCChain ?sp" using s by (auto simp: spec_fits_def rule_fits_base)
  have t: "target_known (tbl k2) (target r)" if "spec_rule cn ?sp = Some r" for r
    using that by (auto simp: target_known_def r2)
  have no: "st_append GenieBaseNPCChain (spec_rule cn ?sp) (tbl k2) = (False, tbl k2)"
    using bad by (auto simp: st_append_def r2 split: option.split)
  note e = ensure_base_rule_step[OF sh2 f t, unfolded no]
  note unf = AddNetworkChain_def FilterTable_def Let_def go_simps c_def[symmetric]
  show "\<exists>e. fst (AddNetworkChain h ipt ln k) = Err e"
    and "tbl (snd (AddNetworkChain h ipt ln k)) = (tbl k)(c \<mapsto> [reject])"
    using e r1(1) r2 by (auto simp: unf simp flip: k1_def k2_def)
qed

lemma refines_DeleteIptableChain:
  assumes "name_ok c" "c \<notin> set builtin_chains" "c \<notin> set builtin_targets"
  shows "refines tbl (DeleteIptableChain h ipt ''filter'' c) (st_DeleteIptableChain c)"
  by (rule refinesI)
     (use assms DeleteIptableChain_spec DeleteIptableChain_referenced in
       \<open>auto simp: st_DeleteIptableChain_def intro: keeps_DeleteIptableChain\<close>)

lemma refines_DeleteNetworkChain:
  assumes x: "net_name c"
  shows "refines tbl (DeleteNetworkChain h ipt c) (st_DeleteNetworkChain c)"
proof (rule refinesI)
  fix k
  assume sh: "npc_shape (tbl k)"
  show "(if fst (st_DeleteNetworkChain c (tbl k)) then fst (DeleteNetworkChain h ipt c k) = Ret ()
      else \<exists>e. fst (DeleteNetworkChain h ipt c k) = Err e)
      \<and> tbl (snd (DeleteNetworkChain h ipt c k)) = snd (st_DeleteNetworkChain c (tbl k))"
  proof (cases "tbl k GenieBaseNPCChain")
    case None
    have "cmd_ok (tbl k) (CList GenieBaseNPCChain)" by simp
    from ListRules_absent[OF this None] None show ?thesis
      by (auto simp: DeleteNetworkChain_def FilterTable_def st_DeleteNetworkChain_def go_simps)
  next
    case (Some b)
    have w: "without_refs (tbl k) c = (tbl k)(GenieBaseNPCChain \<mapsto> drop_first 2 (\<lambda>r. target r = c) b)"
      using Some by (simp add: without_refs_def)
    show ?thesis
      using DeleteNetworkChain_spec[OF sh x Some] DeleteNetworkChain_referenced[OF sh x Some]
      unfolding w by (auto simp: st_DeleteNetworkChain_def st_DeleteIptableChain_def Some)
  qed
qed (use x in \<open>auto intro: keeps_DeleteNetworkChain\<close>)

lemma refines_DeleteNetworkChainRule:
  assumes n: "net_name c" "plc_name p"
  shows "refines tbl (DeleteNetworkChainRule h ipt c p) (st_DeleteNetworkChainRule c p)"
proof (rule refinesI)
  fix k
  assume sh: "npc_shape (tbl k)"
  show "(if fst (st_DeleteNetworkChainRule c p (tbl k)) then fst (DeleteNetworkChainRule h ipt c p k) = Ret ()
      else \<exists>e. fst (DeleteNetworkChainRule h ipt c p k) = Err e)
      \<and> tbl (snd (DeleteNetworkChainRule h ipt c p k)) = snd (st_DeleteNetworkChainRule c p (tbl k))"
  proof (cases "tbl k c")
    case None
    have "cmd_ok (tbl k) (CList c)" using n by simp
    from ListRules_absent[OF this None] None show ?thesis
      by (auto simp: DeleteNetworkChainRule_def FilterTable_def st_DeleteNetworkChainRule_def go_simps)
  next
    case (Some rs)
    obtain k' where k': "tbl k' = (tbl k)(c \<mapsto> remove1 (jump p) rs)"
      "DeleteNetworkChainRule h ipt c p k =
        (if \<exists>r \<in> set rs - {jump p}. r \<noteq> reject then (Ret (), k')
         else go_wrap (Errorf_v (''Error deleting network chain ('' @ c @ ''): '')) (DeleteNetworkChain h ipt c) k')"
      using DeleteNetworkChainRule_run[OF sh n Some] .
    have "npc_shape (tbl k')" unfolding k'(1) by (rule npc_shape_remove1[OF sh Some])
    note d = refinesD[OF refines_wrap[OF refines_DeleteNetworkChain[OF n(1)]] this]
    show ?thesis
    proof (cases "\<exists>r \<in> set rs - {jump p}. r \<noteq> reject")
      case True
      then show ?thesis using k' Some by (simp add: st_DeleteNetworkChainRule_def)
    next
      case False
      then have st: "st_DeleteNetworkChainRule c p (tbl k) = st_DeleteNetworkChain c (tbl k')"
        using Some k'(1) by (auto simp: st_DeleteNetworkChainRule_def)
      show ?thesis unfolding st k'(2) if_not_P[OF False] using d by auto
    qed
  qed
qed (use n in \<open>auto intro: keeps_DeleteNetworkChainRule\<close>)

end

section \<open>Handlers\<close>

context npc_host
begin

lemma refines_insertPeerRule:
  assumes c: "plc_name P" and s: "addr_ok s"
  shows "refines tbl (insertPeerRule h npc P s) (st_insertPeerRule cn P s)"
proof -
  let ?s = "[''-s'', s, ''-j'', ''ACCEPT'']" and ?d = "[''-d'', s, ''-j'', ''ACCEPT'']"
  have f: "spec_fits cn P ?s" "spec_fits cn P ?d"
    using c s by (auto simp: spec_fits_def rule_fits_plc)
  have ap: "refines tbl (AppendUnique h ipt ''filter'' P ?s) (st_append P (spec_rule cn ?s))"
      "refines tbl (AppendUnique h ipt ''filter'' P ?d) (st_append P (spec_rule cn ?d))"
    by (rule refines_AppendUnique[OF f(1)], force) (rule refines_AppendUnique[OF f(2)], force)
  have "refines tbl (insertPeerRule h npc P s) (st_then (st_append P (spec_rule cn ?s)) (st_append P (spec_rule cn ?d)))"
    unfolding insertPeerRule_def Let_def ctrl FilterTable_def
    by (intro refines_bind refines_wrap ap)
  then show ?thesis
    by (rule refines_cong) (auto simp: st_insertPeerRule_def st_then_def st_append_def split: option.split)
qed

lemma refines_NetworkUpdate: "refines tbl (handleLogicalNetworkUpdate h npc n ns) (st_NetworkUpdate npc n ns)"
proof (rule refinesI)
  fix k
  assume sh: "npc_shape (tbl k)"
  let ?c = "ntk_chain n ns" and ?m = "handleLogicalNetworkUpdate h npc n ns"
  have t: "tbl (snd (?m k)) = snd (st_NetworkUpdate npc n ns (tbl k))"
    by (simp add: handleLogicalNetworkUpdate_table st_NetworkUpdate_def split: sum.split option.split)
  have l: "cmd_ok (tbl k) (CList GenieBaseNPCChain)" by simp
  have "if fst (st_NetworkUpdate npc n ns (tbl k)) then fst (?m k) = Ret () else \<exists>e. fst (?m k) = Err e"
  proof (cases "LogicalNetworks_Get (logicalNwLister npc) ns n")
    case (Inl e)
    then show ?thesis
      by (simp add: handleLogicalNetworkUpdate_def st_NetworkUpdate_def go_sum_def go_simps)
  next
    case ln: (Inr ln)
    show ?thesis
    proof (cases "tbl k GenieBaseNPCChain")
      case None
      with ListRules_absent[OF l] ln show ?thesis
        by (auto simp: handleLogicalNetworkUpdate_def st_NetworkUpdate_def go_sum_def FilterTable_def ctrl Let_def go_simps)
    next
      case (Some b)
      have all: "\<forall>r \<in> set b. rule_ok cn r \<and> rule_fits GenieBaseNPCChain r"
        using stored[OF Some] npc_shapeD(2)[OF sh Some] by blast
      have hd: "\<not> Contains (chain_line GenieBaseNPCChain) ?c"
      proof
        assume "Contains (chain_line GenieBaseNPCChain) ?c"
        then have "length ?c \<le> length (chain_line GenieBaseNPCChain)" by (rule Contains_length)
        then show False by (simp add: chain_line_def GenieBaseNPCChain_def length_CreateIptableChainName)
      qed
      have "list_ex (\<lambda>l. Contains l ?c) (listing ex GenieBaseNPCChain b) \<longleftrightarrow> (\<exists>r \<in> set b. target r = ?c)"
        using all hd by (auto simp: listing_def list_ex_iff Contains_base_line)
      with replace_base_rules_zero[of ?c "listing ex GenieBaseNPCChain b" n ns _ 0] ListRules_spec[OF l Some] ln Some
      show ?thesis
        by (auto simp: handleLogicalNetworkUpdate_def st_NetworkUpdate_def go_sum_def FilterTable_def ctrl Let_def go_simps
            split: if_splits)
    qed
  qed
  with t show "(if fst (st_NetworkUpdate npc n ns (tbl k)) then fst (?m k) = Ret () else \<exists>e. fst (?m k) = Err e)
      \<and> tbl (snd (?m k)) = snd (st_NetworkUpdate npc n ns (tbl k))" by simp
qed blast

lemma refines_PolicyDelete:
  "refines tbl (handleNetworkPolicyDelete h npc name ns annotation) (st_PolicyDelete npc name ns annotation)"
proof (cases "getLogicalNetworksFromAnnotation annotation")
  case (Inl e)
  then show ?thesis
    by (auto simp: handleNetworkPolicyDelete_def st_PolicyDelete_def go_sum_def)
next
  case (Inr nw)
  then show ?thesis
    by (auto simp: handleNetworkPolicyDelete_def st_PolicyDelete_def go_sum_def Let_def ctrl FilterTable_def
        intro!: refines_bind refines_each refines_log refines_wrap refines_DeleteNetworkChainRule refines_DeleteIptableChain)
qed

text \<open>The loops over listings.\<close>

lemma refines_unlink_rules:
  assumes "plc_name P" "\<forall>r \<in> set rs. rule_ok cn r \<and> rule_fits GenieBaseNPCChain r"
  shows "refines tbl (unlink_policy h npc P m (map (rule_line ex GenieBaseNPCChain) rs))
    (st_each (\<lambda>c. st_log (st_DeleteNetworkChainRule c P)) (each_once m (map target rs)))"
  using assms(2)
proof (induction rs arbitrary: m)
  case (Cons r rs)
  then have "net_name (target r)" by (simp add: rule_fits_base)
  then have "refines tbl (DeleteNetworkChainRule h ipt (target r) P) (st_DeleteNetworkChainRule (target r) P)"
    using assms(1) by (intro refines_DeleteNetworkChainRule)
  then show ?case
    using Cons base_line_token[of r] base_line_prefix(1)[of r]
    by (auto simp: Let_def ctrl intro!: refines_try_bind)
qed auto

lemma refines_unlink:
  assumes p: "plc_name P"
  shows "refines tbl (go_bind (go_wrap w (ListRules h ipt ''filter'' GenieBaseNPCChain)) (unlink_policy h npc P [])) (st_unlink P)"
proof (rule refinesI[OF keeps_unlink_listing])
  fix k
  assume sh: "npc_shape (tbl k)"
  let ?m = "go_bind (go_wrap w (ListRules h ipt ''filter'' GenieBaseNPCChain)) (unlink_policy h npc P [])"
  have l: "cmd_ok (tbl k) (CList GenieBaseNPCChain)" by simp
  show "(if fst (st_unlink P (tbl k)) then fst (?m k) = Ret () else \<exists>e. fst (?m k) = Err e)
      \<and> tbl (snd (?m k)) = snd (st_unlink P (tbl k))"
  proof (cases "tbl k GenieBaseNPCChain")
    case None
    with ListRules_absent[OF l] show ?thesis by (auto simp: st_unlink_def go_simps)
  next
    case (Some b)
    have all: "\<forall>r \<in> set b. rule_ok cn r \<and> rule_fits GenieBaseNPCChain r"
      using stored[OF Some] npc_shapeD(2)[OF sh Some] by blast
    have hd: "\<not> Contains (chain_line GenieBaseNPCChain) GenieNetworkPrefix" by code_simp
    let ?k = "snd (ListRules h ipt ''filter'' GenieBaseNPCChain k)"
    note ls = ListRules_spec[OF l Some]
    have m: "?m k = unlink_policy h npc P [] (map (rule_line ex GenieBaseNPCChain) b) ?k"
      using ls hd by (simp add: go_simps listing_def)
    have "npc_shape (tbl ?k)" using sh ls by simp
    note u = refinesD[OF refines_unlink_rules[OF p all, of "[]"], OF this]
    have st: "st_unlink P (tbl k) = st_each (\<lambda>c. st_log (st_DeleteNetworkChainRule c P)) (each_once [] (map target b)) (tbl ?k)"
      using Some by (simp add: st_unlink_def ls)
    show ?thesis unfolding m st using u by auto
  qed
qed

lemma delete_subnet_spec:
  assumes c: "name_ok c" and T: "tbl k c = Some (pre @ suf)" and cnt: "cnt < 2"
  shows "fst (delete_subnet_rules h npc c s (map (rule_line ex c) suf) (int (Suc (length pre))) cnt k) = Ret ()
    \<and> tbl (snd (delete_subnet_rules h npc c s (map (rule_line ex c) suf) (int (Suc (length pre))) cnt k)) =
        (tbl k)(c \<mapsto> pre @ drop_first (2 - cnt) (\<lambda>r. Contains (rule_line ex c r) s) suf)"
  using T cnt
proof (induction suf arbitrary: k pre cnt)
  case Nil
  then show ?case by (cases "2 - cnt") (auto simp: go_simps fun_upd_idem)
next
  case (Cons a suf)
  show ?case
  proof (cases "Contains (rule_line ex c a) s")
    case True
    let ?n = "Suc (length pre)"
    let ?k = "snd (Delete h ipt ''filter'' c [Itoa (int ?n)] k)"
    have "cmd_ok (tbl k) (CDelete c ?n)" using c by simp
    from Delete_spec[OF this Cons.prems(1)]
    have d: "fst (Delete h ipt ''filter'' c [Itoa (int ?n)] k) = Ret ()" "tbl ?k = (tbl k)(c \<mapsto> pre @ suf)"
      by (simp_all add: drop_nth_append)
    have step: "delete_subnet_rules h npc c s (map (rule_line ex c) (a # suf)) (int ?n) cnt k =
        (if Suc cnt = 2 then (Ret (), ?k)
         else delete_subnet_rules h npc c s (map (rule_line ex c) suf) (int ?n) (Suc cnt) ?k)"
      using True d(1) by (simp add: FilterTable_def ctrl go_simps Let_def del: of_nat_Suc)
    show ?thesis
    proof (cases "Suc cnt = 2")
      case last: True
      then have "2 - cnt = Suc 0" by simp
      then show ?thesis unfolding step using d last True by simp
    next
      case False
      with Cons.prems(2) have "2 - cnt = Suc (2 - Suc cnt)" by arith
      then show ?thesis unfolding step
        using Cons.IH[of ?k pre "Suc cnt"] Cons.prems d False True by (simp add: fun_eq_iff del: of_nat_Suc)
    qed
  next
    case False
    have n: "int (Suc (length pre)) + 1 = int (Suc (Suc (length pre)))" by simp
    obtain j where "2 - cnt = Suc j" using Cons.prems(2) by (cases "2 - cnt") auto
    then show ?thesis
      using Cons.IH[of k "pre @ [a]" cnt] Cons.prems False by (auto simp: n simp del: of_nat_Suc)
  qed
qed

lemma delete_subnet_listing:
  assumes c: "name_ok c" and T: "tbl k c = Some rs"
  shows "fst (delete_subnet_rules h npc c s (listing ex c rs) 0 0 k) = Ret ()"
    and "tbl (snd (delete_subnet_rules h npc c s (listing ex c rs) 0 0 k)) = snd (st_delete_subnet ex c s (tbl k))"
proof -
  let ?d = "\<lambda>cnt k. delete_subnet_rules h npc c s (map (rule_line ex c) rs) 1 cnt k"
  have "fst (delete_subnet_rules h npc c s (listing ex c rs) 0 0 k) = Ret ()
      \<and> tbl (snd (delete_subnet_rules h npc c s (listing ex c rs) 0 0 k)) = snd (st_delete_subnet ex c s (tbl k))"
  proof (cases "Contains (chain_line c) s")
    case True
    let ?k = "snd (Delete h ipt ''filter'' c [Itoa 0] k)"
    have "cmd_ok (tbl k) (CDelete c 0)" using c by simp
    note z = Delete_zero[OF this]
    then have "delete_subnet_rules h npc c s (listing ex c rs) 0 0 k = ?d 1 ?k"
      using True by (auto simp: listing_def FilterTable_def ctrl go_simps)
    with delete_subnet_spec[OF c, of ?k "[]" rs 1 s] z T True show ?thesis
      by (simp add: st_delete_subnet_def)
  next
    case False
    then have "delete_subnet_rules h npc c s (listing ex c rs) 0 0 k = ?d 0 k"
      by (simp add: listing_def)
    with delete_subnet_spec[OF c, of k "[]" rs 0 s] T False show ?thesis
      by (simp add: st_delete_subnet_def)
  qed
  then show "fst (delete_subnet_rules h npc c s (listing ex c rs) 0 0 k) = Ret ()"
    and "tbl (snd (delete_subnet_rules h npc c s (listing ex c rs) 0 0 k)) = snd (st_delete_subnet ex c s (tbl k))"
    by auto
qed

lemma refines_network_delete_info:
  "refines tbl (network_delete_info h npc name ns subnet policy)
     (case Networks policy of
        Some _ \<Rightarrow> st_DeleteNetworkChain (ntk_chain name ns)
      | None \<Rightarrow> st_delete_subnet ex (plc_chain (piName policy) (piNamespace policy)) subnet)"
proof (cases "Networks policy")
  case (Some nw)
  then show ?thesis
    by (auto simp: network_delete_info_def ctrl intro!: refines_wrap refines_DeleteNetworkChain)
next
  case None
  let ?P = "plc_chain (piName policy) (piNamespace policy)"
  have "refines tbl (network_delete_info h npc name ns subnet policy) (st_delete_subnet ex ?P subnet)"
  proof (rule refinesI)
    fix k
    have l: "cmd_ok (tbl k) (CList ?P)" by simp
    show "(if fst (st_delete_subnet ex ?P subnet (tbl k)) then fst (network_delete_info h npc name ns subnet policy k) = Ret ()
          else \<exists>e. fst (network_delete_info h npc name ns subnet policy k) = Err e)
        \<and> tbl (snd (network_delete_info h npc name ns subnet policy k)) = snd (st_delete_subnet ex ?P subnet (tbl k))"
    proof (cases "tbl k ?P")
      case none: None
      with ListRules_absent[OF l] None show ?thesis
        by (auto simp: network_delete_info_def st_delete_subnet_def ctrl FilterTable_def Let_def go_simps)
    next
      case (Some rs)
      let ?k = "snd (ListRules h ipt ''filter'' ?P k)"
      note ls = ListRules_spec[OF l Some]
      have "fst (st_delete_subnet ex ?P subnet T)" for T by (simp add: st_delete_subnet_def split: option.split)
      with ls delete_subnet_listing[of ?P ?k rs subnet] Some None show ?thesis
        by (simp add: network_delete_info_def ctrl FilterTable_def Let_def go_simps)
    qed
  next
    show "keeps (\<lambda>k. npc_shape (tbl k)) (network_delete_info h npc name ns subnet policy)"
      unfolding network_delete_info_def Let_def ctrl FilterTable_def
      by (intro keeps_case_option keeps_wrap keeps_DeleteNetworkChain keeps_bind keeps_try keeps_ListRules
          keeps_case_sum keeps_ret keeps_delete_subnet_rules) simp_all
  qed
  then show ?thesis using None by simp
qed

lemma refines_NetworkDelete:
  "refines tbl (handleLogicalNetworkDelete h npc name ns subnet) (st_NetworkDelete ex npc name ns subnet)"
  unfolding handleLogicalNetworkDelete_def st_NetworkDelete_def
  by (intro refines_each refines_network_delete_info)

end

context npc_env
begin

lemma refines_populate_peer:
  "plc_name P \<Longrightarrow> refines tbl (populate_peer h npc ns P peer) (st_peer cn (logicalNwLister npc) ns P peer)"
  by (auto simp: populate_peer_def st_peer_def intro!: refines_log refines_insertPeerRule subnet_of split: sum.split)

lemma refines_add_peer:
  "plc_name P \<Longrightarrow> refines tbl (add_peer h npc ns P p)
     (if TrimSpace p \<noteq> [] then st_peer cn (logicalNwLister npc) ns P p else st_ok)"
  by (auto simp: add_peer_def st_peer_def Let_def intro!: refines_log refines_insertPeerRule subnet_of split: sum.split)

lemma refines_network_policy_info:
  assumes a: "addr_ok (SubSubnet (lnSpec ln))"
  shows "refines tbl (network_policy_info h npc ln name ns policy) (st_network_info cn npc ln name ns policy)"
proof (cases "Networks policy")
  case None
  with a show ?thesis
    by (auto simp: network_policy_info_def st_network_info_def intro!: refines_log refines_insertPeerRule)
next
  case (Some nw)
  let ?P = "plc_chain (piName policy) ns" and ?c = "ntk_chain (Name (lnMeta ln)) (Namespace (lnMeta ln))"
  let ?add = "st_AddNetworkChain cn ?c (SubSubnet (lnSpec ln))"
  let ?peers = "st_each (st_peer cn (logicalNwLister npc) ns ?P) (filter (\<lambda>p. TrimSpace p \<noteq> []) (peers_of nw name))"
  let ?b = "\<lambda>T. st_then (st_InsertRule (if fst (?add T) then ?c else []) ?P) ?peers"
  have peers: "refines tbl (go_each (add_peer h npc ns ?P) (peers_of nw name)) ?peers"
    unfolding st_each_filter[symmetric] by (intro refines_each refines_add_peer) simp
  have ins: "refines tbl (go_bind (go_wrap w (InsertRule h ipt c 1 [''-j'', ?P])) (\<lambda>_. go_each (add_peer h npc ns ?P) (peers_of nw name)))
      (st_then (st_InsertRule c ?P) ?peers)" if "c = [] \<or> net_name c" for w c
    using that by (intro refines_bind refines_wrap refines_InsertRule peers) auto
  have "refines tbl (network_policy_info h npc ln name ns policy) (\<lambda>T. ?b T (snd (?add T)))"
    unfolding network_policy_info_def Let_def Some option.case ctrl
  proof (rule refines_bind_value)
    show "keeps (\<lambda>k. npc_shape (tbl k)) (go_try (AddNetworkChain h ipt ln))" using a by blast
  next
    fix k
    assume sh: "npc_shape (tbl k)"
    show "\<exists>x. fst (go_try (AddNetworkChain h ipt ln) k) = Ret x
        \<and> refines tbl (go_bind (go_wrap (Errorf_v (''Error adding rule for policy ('' @ piName policy @ '') in network chain (''
              @ (case x of Inl _ \<Rightarrow> [] | Inr c \<Rightarrow> c) @ '') for logical network ('' @ name @ ''): ''))
            (InsertRule h ipt (case x of Inl _ \<Rightarrow> [] | Inr c \<Rightarrow> c) 1 [''-j'', ?P]))
            (\<lambda>_. go_each (add_peer h npc ns ?P) (peers_of nw name))) (?b (tbl k))
        \<and> tbl (snd (go_try (AddNetworkChain h ipt ln) k)) = snd (?add (tbl k))"
    proof (cases "\<exists>s' b. cn (SubSubnet (lnSpec ln)) = Some s' \<and> tbl k GenieBaseNPCChain = Some b")
      case True
      then obtain s' b where sb: "cn (SubSubnet (lnSpec ln)) = Some s'" "tbl k GenieBaseNPCChain = Some b" by blast
      note n = AddNetworkChain_spec[OF sh sb(2) a sb(1)]
      show ?thesis
        by (intro exI[of _ "Inr ?c"]) (use n sb in \<open>auto simp: go_try_def st_AddNetworkChain_def intro!: ins\<close>)
    next
      case False
      then have bad: "cn (SubSubnet (lnSpec ln)) = None \<or> tbl k GenieBaseNPCChain = None" by auto
      note n = AddNetworkChain_fails[OF sh a bad]
      then obtain e where e: "fst (AddNetworkChain h ipt ln k) = Err e" by blast
      have "?add (tbl k) = (False, (tbl k)(?c \<mapsto> [reject]))"
        using bad by (auto simp: st_AddNetworkChain_def split: option.split)
      with e n(2) show ?thesis
        by (intro exI[of _ "Inl e"]) (auto simp: go_try_def intro!: ins)
    qed
  qed
  then show ?thesis
    by (rule refines_cong) (simp add: st_network_info_def Some Let_def case_prod_beta)
qed

lemma refines_NetworkAdd: "refines tbl (handleLogicalNetworkAdd h npc name ns) (st_NetworkAdd cn npc name ns)"
proof (cases "LogicalNetworks_Get (logicalNwLister npc) ns (TrimSpace name)")
  case (Inl e)
  then show ?thesis
    by (simp add: handleLogicalNetworkAdd_def st_NetworkAdd_def Let_def go_sum_def refines_def st_fail_def go_simps)
next
  case (Inr ln)
  have "refines tbl (go_each (network_policy_info h npc ln (TrimSpace name) ns) (ListNetworkPolicies npc (TrimSpace name) ns))
      (st_NetworkAdd cn npc name ns)"
    using Inr by (auto simp: st_NetworkAdd_def Let_def intro!: refines_each refines_network_policy_info subnet_of)
  then show ?thesis
    by (rule refines_cong) (simp add: handleLogicalNetworkAdd_def Let_def Inr go_sum_def go_simps)
qed

lemma refines_populate_network:
  assumes p: "plc_name P"
  shows "refines tbl (populate_network h npc ns P entry) (st_populate_network cn npc ns P entry)"
proof (cases "TrimSpace (fst entry) = []")
  case True
  then show ?thesis by (simp add: populate_network_def st_populate_network_def refines_def go_simps)
next
  case False
  let ?sel = "TrimSpace (fst entry)"
  let ?c = "ntk_chain ?sel ns"
  let ?link = "\<lambda>T. if T ?c = None then st_NetworkAdd cn npc ?sel ns else st_InsertRule ?c P"
  let ?peers = "st_each (st_peer cn (logicalNwLister npc) ns P) (snd entry)"
  have peers: "refines tbl (go_each (populate_peer h npc ns P) (snd entry)) ?peers"
    using p by (intro refines_each refines_populate_peer)
  have link: "refines tbl (if (T ?c \<noteq> None) = False then handleLogicalNetworkAdd h npc ?sel ns
      else InsertRule h ipt ?c 1 [''-j'', P]) (?link T)" for T :: chains
    using p refines_NetworkAdd refines_InsertRule by auto
  have "refines tbl (populate_network h npc ns P entry) (\<lambda>T. st_guard (?link T) ?peers T)"
    unfolding populate_network_def Let_def ctrl if_P[OF False]
  proof (rule refines_bind_value[where b = "\<lambda>T. st_guard (?link T) ?peers" and t = "\<lambda>T. T"])
    show "keeps (\<lambda>k. npc_shape (tbl k)) (ExistsChain h ipt ?c)" by (intro keeps_ExistsChain) simp_all
  next
    fix k
    have "fst (ExistsChain h ipt ?c k) = Ret (tbl k ?c \<noteq> None)" "tbl (snd (ExistsChain h ipt ?c k)) = tbl k"
      by (simp_all add: ExistsChain_spec)
    then show "\<exists>x. fst (ExistsChain h ipt ?c k) = Ret x \<and>
        refines tbl (go_bind (go_try (if x = False then handleLogicalNetworkAdd h npc ?sel ns
            else InsertRule h ipt ?c 1 [''-j'', P]))
          (\<lambda>r. case r of Inl err \<Rightarrow> go_ret () | Inr _ \<Rightarrow> go_each (populate_peer h npc ns P) (snd entry)))
          (st_guard (?link (tbl k)) ?peers) \<and> tbl (snd (ExistsChain h ipt ?c k)) = tbl k"
      using refines_guard[OF link peers] by (intro exI conjI)
  qed
  then show ?thesis
    by (rule refines_cong) (simp add: st_populate_network_def False Let_def)
qed

lemma refines_populate:
  "plc_name P \<Longrightarrow> refines tbl (populatePolicyChain h npc name ns P networks) (st_populate cn npc ns P networks)"
  unfolding populatePolicyChain_def st_populate_def by (intro refines_each refines_populate_network)

text \<open>The handlers of policy objects begin with the networks of the object.\<close>

lemma policy_networks_Some: "networks_of npc name ns = Some nw \<Longrightarrow> policy_networks npc name ns = go_ret nw"
  by (auto simp: networks_of_def policy_networks_def go_sum_def go_simps fun_eq_iff split: sum.splits)

lemma refines_policy_networks:
  assumes "\<And>nw. refines tbl (f nw) (b nw)"
  shows "refines tbl (go_bind (policy_networks npc name ns) f)
    (case networks_of npc name ns of None \<Rightarrow> st_fail | Some nw \<Rightarrow> b nw)"
proof (cases "networks_of npc name ns")
  case None
  then show ?thesis
    by (auto simp: networks_of_def policy_networks_def refines_def st_fail_def go_sum_def go_simps split: sum.splits)
next
  case (Some nw)
  then show ?thesis using assms by (simp add: policy_networks_Some)
qed

lemma st_then_AddPolicyChain: "st_then (st_AddPolicyChain P) b = (\<lambda>T. b (snd (st_AddPolicyChain P T)))"
  by (simp add: fun_eq_iff st_then_def st_AddPolicyChain_def)

lemma refines_PolicyAdd: "refines tbl (handleNetworkPolicyAdd h npc name ns) (st_PolicyAdd cn npc name ns)"
proof -
  have e: "st_populate cn npc ns P [] = st_ok" for P
    using range_all[of "[]"] by (simp add: st_populate_def)
  have "refines tbl (go_when (nw \<noteq> []) (populatePolicyChain h npc name ns (plc_chain name ns) nw))
      (st_populate cn npc ns (plc_chain name ns) nw)" for nw
    by (auto simp: go_when_def e intro: refines_populate)
  then show ?thesis
    unfolding handleNetworkPolicyAdd_def st_PolicyAdd_def st_then_AddPolicyChain ctrl
    by (intro refines_policy_networks refines_AddPolicyChain)
qed

lemma refines_PolicyUpdate: "refines tbl (handleNetworkPolicyUpdate h npc name ns) (st_PolicyUpdate cn npc name ns)"
proof -
  have "refines tbl (if nw \<noteq> [] then populatePolicyChain h npc name ns (plc_chain name ns) nw
        else go_bind (go_wrap w (ListRules h ipt ''filter'' GenieBaseNPCChain)) (unlink_policy h npc (plc_chain name ns) []))
      (if nw \<noteq> [] then st_populate cn npc ns (plc_chain name ns) nw else st_unlink (plc_chain name ns))" for nw w
    by (auto intro: refines_populate refines_unlink)
  then show ?thesis
    unfolding handleNetworkPolicyUpdate_def st_PolicyUpdate_def st_then_AddPolicyChain ctrl FilterTable_def
    by (intro refines_policy_networks refines_AddPolicyChain)
qed

theorem refines_sync: "refines tbl (syncHandler h npc key) (st_sync cn ex npc key)"
proof (cases "unmarshalKeyActionJson key")
  case (Inl e)
  then show ?thesis by (auto simp: syncHandler_def st_sync_def)
next
  case (Inr ka)
  then show ?thesis
    using refines_PolicyAdd refines_PolicyUpdate refines_PolicyDelete refines_NetworkAdd refines_NetworkUpdate refines_NetworkDelete
    by (auto simp: syncHandler_def st_sync_def Let_def)
qed

end

end
