(* ===== verification/Controller.thy ===== *)
theory Controller
  imports Events NpcRefine
begin

text \<open>
  The running network policy controller of \<^verbatim>\<open>networkpolicycontroller.go\<close>: \<open>Run\<close>, the workers it
  starts and the informers that call its event handlers, as one system. A worker alone is the function
  \<open>worker\<close>; the interleaving of the workers, the informers and the stop signal is the step relation
  \<open>npc_step\<close>, whose steps are the operations under the lock of the queue, the call of \<open>syncHandler\<close> under
  \<open>npc.mutex\<close>, and the choices of \<^verbatim>\<open>wait.Until\<close>.
\<close>

section \<open>One worker\<close>

text \<open>
  \<open>processNextWorkItemInQueue\<close> on the queue and the host: \<open>None\<close> where \<open>Get\<close> waits; otherwise a panic or
  the result, with the deferred \<open>Done\<close> run on both ways out. An error of the handler is only logged.
\<close>

definition processNextWorkItemInQueue ::
  "'k host \<Rightarrow> NetworkPolicyController \<Rightarrow> string wq \<times> 'k \<Rightarrow> ((string + bool) \<times> string wq \<times> 'k) option" where
  "processNextWorkItemInQueue h npc s =
     (case wq_Get (fst s) of
        None \<Rightarrow> None
      | Some (None, q) \<Rightarrow> Some (Inr False, q, snd s)
      | Some (Some key, q) \<Rightarrow>
          Some (case fst (syncHandler h npc key (snd s)) of Panic p \<Rightarrow> Inl p | _ \<Rightarrow> Inr True,
                wq_Done key q, snd (syncHandler h npc key (snd s))))"

datatype worker_end = Waits | Quits | Panics string

lemma processNext_queue:
  assumes "processNextWorkItemInQueue h npc s = Some (Inr True, s')"
  shows "length (queue (fst s')) < length (queue (fst s))"
proof (cases "queue (fst s)")
  case Nil
  with assms show ?thesis by (simp add: processNextWorkItemInQueue_def wq_Get_def split: if_splits)
next
  case (Cons key rest)
  with assms show ?thesis
    by (auto simp: processNextWorkItemInQueue_def wq_Get_def wq_Done_def Let_def)
qed

function worker :: "'k host \<Rightarrow> NetworkPolicyController \<Rightarrow> string wq \<times> 'k \<Rightarrow> worker_end \<times> string wq \<times> 'k" where
  "worker h npc s =
     (case processNextWorkItemInQueue h npc s of
        None \<Rightarrow> (Waits, s)
      | Some (r, s') \<Rightarrow>
          (case r of Inl p \<Rightarrow> (Panics p, s') | Inr again \<Rightarrow> if again then worker h npc s' else (Quits, s')))"
  by pat_completeness auto
termination
  by (relation "measure (\<lambda>(h, npc, s). length (queue (fst s)))") (auto dest: processNext_queue)

declare worker.simps [simp del]

text \<open>A worker left alone takes the items in the order of the queue, does the abstract step of each, and
  leaves an empty queue.\<close>

context npc_env
begin

lemma sync_no_panic:
  assumes "npc_shape (tbl k)"
  shows "fst (syncHandler h npc key k) \<noteq> Panic p" "npc_shape (tbl (snd (syncHandler h npc key k)))"
    and "tbl (snd (syncHandler h npc key k)) = snd (st_sync cn ex npc key (tbl k))"
proof -
  have r: "refines tbl (syncHandler h npc key) (st_sync cn ex npc key)" by (rule refines_sync)
  show "fst (syncHandler h npc key k) \<noteq> Panic p"
    using refinesD(1,2)[OF r, OF assms] by (cases "fst (st_sync cn ex npc key (tbl k))") auto
  show "npc_shape (tbl (snd (syncHandler h npc key k)))"
    "tbl (snd (syncHandler h npc key k)) = snd (st_sync cn ex npc key (tbl k))"
    using refinesD(3,4)[OF r, OF assms] by auto
qed

lemma worker_drains:
  assumes "npc_shape (tbl k)" "wq_inv q" "processing q = {}"
  shows "fst (worker h npc (q, k)) = (if shuttingDown q then Quits else Waits)
    \<and> fst (snd (worker h npc (q, k))) = q\<lparr>queue := [], dirty := {}\<rparr>
    \<and> tbl (snd (snd (worker h npc (q, k)))) = fold (\<lambda>key T. snd (st_sync cn ex npc key T)) (queue q) (tbl k)"
  using assms
proof (induction "queue q" arbitrary: q k)
  case Nil
  then have d: "dirty q = {}" and e: "queue q = []" by (auto simp: wq_inv_def)
  have "q\<lparr>queue := [], dirty := {}\<rparr> = q" using d e by simp
  then show ?case
    using Nil by (simp add: worker.simps[of h npc] processNextWorkItemInQueue_def wq_Get_def)
next
  case (Cons key rest)
  note q = Cons.hyps(2)[symmetric]
  let ?q = "q\<lparr>queue := rest, dirty := dirty q - {key}\<rparr>" and ?k = "snd (syncHandler h npc key k)"
  have nd: "wq_Done key (q\<lparr>queue := rest, processing := {key}, dirty := dirty q - {key}\<rparr>) = ?q"
    using Cons.prems(3) by (simp add: wq_Done_def)
  have "processNextWorkItemInQueue h npc (q, k) = Some (Inr True, ?q, ?k)"
    using q nd Cons.prems(3) sync_no_panic(1)[OF Cons.prems(1), of key]
    by (simp add: processNextWorkItemInQueue_def wq_Get_def split: go_res.split)
  then have w: "worker h npc (q, k) = worker h npc (?q, ?k)"
    by (subst worker.simps) simp
  have inv: "wq_inv ?q" using Cons.prems(2,3) q by (auto simp: wq_inv_def)
  have "rest = queue ?q" by simp
  from Cons.hyps(1)[OF this sync_no_panic(2)[OF Cons.prems(1)] inv] Cons.prems(3)
  show ?case
    unfolding w q by (simp add: sync_no_panic(3)[OF Cons.prems(1)])
qed

end

section \<open>The system\<close>

text \<open>
  Where a goroutine of \<^verbatim>\<open>wait.Until(npc.worker, ...)\<close> is: at the top of its loop, in \<open>Get\<close>, with
  an item before, inside and after \<open>syncHandler\<close>, in the pause after \<open>worker\<close> returned, or gone.
\<close>

datatype goroutine = AtTop | InGet | Got string | InSync string | Synced string | Pausing | Gone

fun holds :: "goroutine \<Rightarrow> string option" where
  "holds (Got key) = Some key"
| "holds (InSync key) = Some key"
| "holds (Synced key) = Some key"
| "holds _ = None"

record 'k npc_sys =
  npcWorkqueue :: "string wq"
  controller :: NetworkPolicyController
  mutex :: "nat option"             \<comment> \<open>the goroutine that holds \<open>npc.mutex\<close>\<close>
  goroutines :: "nat \<Rightarrow> goroutine"
  stopCh :: bool                    \<comment> \<open>closed\<close>
  kern :: 'k
  crashed :: bool
  overlapped :: "nat set"           \<comment> \<open>the goroutines inside \<open>syncHandler\<close> together with another\<close>

text \<open>The handlers work on the packet filter by many commands, so that two of them at the same time disturb each
  other. A goroutine that comes in while others are inside overlaps with all of them.\<close>

definition inside :: "'k npc_sys \<Rightarrow> nat set" where
  "inside s = {j. \<exists>key. goroutines s j = InSync key}"

definition overlap :: "nat \<Rightarrow> 'k npc_sys \<Rightarrow> nat set" where
  "overlap i s = (if inside s = {} then overlapped s - {i} else insert i (overlapped s \<union> inside s))"

text \<open>
  \<open>Run\<close> up to the start of the workers: the base chain, then the wait for the caches, whose outcome
  is an argument. With an error the deferred \<open>ShutDown\<close> of the queue follows at once.
\<close>

definition Run_setup :: "'k host \<Rightarrow> bool \<Rightarrow> NetworkPolicyController \<Rightarrow> ('k, NetworkPolicyController) go" where
  "Run_setup h cacheSynced npc =
     go_bind (go_wrap (Errorf_v ''Error creating Genie base npc chain: '') (CreateBaseChain h)) (\<lambda>ipt.
     if \<not> cacheSynced then go_err (ErrorString ''Synchronization of informer caches failed.'')
     else go_ret (npc\<lparr>iptable := ipt\<rparr>))"

definition start_workers :: "nat \<Rightarrow> NetworkPolicyController \<Rightarrow> string wq \<Rightarrow> 'k \<Rightarrow> 'k npc_sys" where
  "start_workers n npc q k =
     \<lparr>npcWorkqueue = q, controller = npc, mutex = None, goroutines = (\<lambda>i. if i < n then AtTop else Gone),
      stopCh = False, kern = k, crashed = False, overlapped = {}\<rparr>"

text \<open>A panic passes through the deferred \<open>HandleCrash\<close>, which panics again.\<close>

definition Run :: "'k host \<Rightarrow> nat \<Rightarrow> bool \<Rightarrow> NetworkPolicyController \<Rightarrow> string wq \<Rightarrow> 'k \<Rightarrow> 'k npc_sys go_res" where
  "Run h n cacheSynced npc q k =
     (case Run_setup h cacheSynced npc k of
        (Ret npc', k') \<Rightarrow> Ret (start_workers n npc' q k')
      | (Err e, k') \<Rightarrow> Err e
      | (Panic p, k') \<Rightarrow> Panic p)"

datatype label =
    Internal
  | Notified "string option"                     \<comment> \<open>an event handler ran; the item it added\<close>
  | SyncRun nat NetworkPolicyController string   \<comment> \<open>a goroutine ran \<open>syncHandler\<close> on an item\<close>

text \<open>
  The steps. \<open>ok\<close> says which contents the caches may have. An informer delivers objects of its own type
  or tombstones. \<open>Return\<close> is the deferred \<open>ShutDown\<close> when \<open>Run\<close> returns after the stop signal. A handler
  that no other overlapped does to the packet filter what \<open>syncHandler\<close> does; one that was overlapped leaves it in any
  state, or panics. A panic in \<open>syncHandler\<close> ends the program.
\<close>

inductive npc_step ::
  "'k host \<Rightarrow> (NetworkPolicyController \<Rightarrow> bool) \<Rightarrow> 'k npc_sys \<Rightarrow> label \<Rightarrow> 'k npc_sys \<Rightarrow> bool"
  for h :: "'k host" and ok :: "NetworkPolicyController \<Rightarrow> bool" where
  Cache: "\<not> crashed s \<Longrightarrow> ok npc \<Longrightarrow> iptable npc = iptable (controller s) \<Longrightarrow>
    npc_step h ok s Internal (s\<lparr>controller := npc\<rparr>)"
| Notify: "\<not> crashed s \<Longrightarrow> well_typed ev \<Longrightarrow> event_handler ev (npcWorkqueue s) = (Ret (), q) \<Longrightarrow>
    npc_step h ok s (Notified (item_of ev)) (s\<lparr>npcWorkqueue := q\<rparr>)"
| Stop: "\<not> crashed s \<Longrightarrow> npc_step h ok s Internal (s\<lparr>stopCh := True\<rparr>)"
| Return: "\<not> crashed s \<Longrightarrow> stopCh s \<Longrightarrow>
    npc_step h ok s Internal (s\<lparr>npcWorkqueue := wq_ShutDown (npcWorkqueue s)\<rparr>)"
| Enter: "\<not> crashed s \<Longrightarrow> goroutines s i = AtTop \<Longrightarrow> \<not> stopCh s \<Longrightarrow>
    npc_step h ok s Internal (s\<lparr>goroutines := (goroutines s)(i := InGet)\<rparr>)"
| Leave: "\<not> crashed s \<Longrightarrow> goroutines s i = AtTop \<or> goroutines s i = Pausing \<Longrightarrow> stopCh s \<Longrightarrow>
    npc_step h ok s Internal (s\<lparr>goroutines := (goroutines s)(i := Gone)\<rparr>)"
| Timer: "\<not> crashed s \<Longrightarrow> goroutines s i = Pausing \<Longrightarrow>
    npc_step h ok s Internal (s\<lparr>goroutines := (goroutines s)(i := AtTop)\<rparr>)"
| Take: "\<not> crashed s \<Longrightarrow> goroutines s i = InGet \<Longrightarrow> wq_Get (npcWorkqueue s) = Some (Some key, q) \<Longrightarrow>
    npc_step h ok s Internal (s\<lparr>npcWorkqueue := q, goroutines := (goroutines s)(i := Got key)\<rparr>)"
| Quit: "\<not> crashed s \<Longrightarrow> goroutines s i = InGet \<Longrightarrow> wq_Get (npcWorkqueue s) = Some (None, q) \<Longrightarrow>
    npc_step h ok s Internal (s\<lparr>npcWorkqueue := q, goroutines := (goroutines s)(i := Pausing)\<rparr>)"
| Lock: "\<not> crashed s \<Longrightarrow> goroutines s i = Got key \<Longrightarrow> mutex s = None \<Longrightarrow>
    npc_step h ok s Internal (s\<lparr>mutex := Some i, goroutines := (goroutines s)(i := InSync key), overlapped := overlap i s\<rparr>)"
| Sync: "\<not> crashed s \<Longrightarrow> goroutines s i = InSync key \<Longrightarrow> i \<notin> overlapped s \<Longrightarrow> syncHandler h (controller s) key (kern s) = (r, k) \<Longrightarrow>
    (\<And>p. r \<noteq> Panic p) \<Longrightarrow>
    npc_step h ok s (SyncRun i (controller s) key)
      (s\<lparr>mutex := None, kern := k, goroutines := (goroutines s)(i := Synced key)\<rparr>)"
| Crash: "\<not> crashed s \<Longrightarrow> goroutines s i = InSync key \<Longrightarrow> i \<notin> overlapped s \<Longrightarrow> syncHandler h (controller s) key (kern s) = (Panic p, k) \<Longrightarrow>
    npc_step h ok s (SyncRun i (controller s) key) (s\<lparr>kern := k, crashed := True\<rparr>)"
| Overlap: "\<not> crashed s \<Longrightarrow> goroutines s i = InSync key \<Longrightarrow> i \<in> overlapped s \<Longrightarrow>
    npc_step h ok s (SyncRun i (controller s) key)
      (s\<lparr>mutex := None, kern := k, goroutines := (goroutines s)(i := Synced key), crashed := b\<rparr>)"
| Finish: "\<not> crashed s \<Longrightarrow> goroutines s i = Synced key \<Longrightarrow>
    npc_step h ok s Internal (s\<lparr>npcWorkqueue := wq_Done key (npcWorkqueue s), goroutines := (goroutines s)(i := InGet)\<rparr>)"

inductive_cases npc_stepE: "npc_step h ok s l s'"

text \<open>Runs, with their labels in order.\<close>

inductive npc_run ::
  "'k host \<Rightarrow> (NetworkPolicyController \<Rightarrow> bool) \<Rightarrow> 'k npc_sys \<Rightarrow> label list \<Rightarrow> 'k npc_sys \<Rightarrow> bool"
  for h :: "'k host" and ok :: "NetworkPolicyController \<Rightarrow> bool" and s0 :: "'k npc_sys" where
  Here: "npc_run h ok s0 [] s0"
| Next: "npc_run h ok s0 ls s \<Longrightarrow> npc_step h ok s l s' \<Longrightarrow> npc_run h ok s0 (ls @ [l]) s'"

end
