(* ===== verification/ControllerFacts.thy ===== *)
theory ControllerFacts
  imports Controller
begin

text \<open>
  Facts about every run of the controller: its invariant, the correspondence of the filter table with the
  sequence of handler runs, the fate of a work item, and progress.
\<close>

section \<open>The start\<close>

context iptables_tool
begin

lemma CreateBaseChain_spec:
  assumes new: "fst (New h k) = Ret ipt" "tbl (snd (New h k)) = tbl k"
    and sh: "npc_shape (tbl k)" and fwd: "tbl k ForwardChain = Some fs"
  shows "fst (CreateBaseChain h k) = Ret ipt
    \<and> tbl (snd (CreateBaseChain h k)) = (tbl k)(GenieBaseNPCChain \<mapsto> [], ForwardChain \<mapsto> add_first (jump GenieBaseNPCChain) fs)"
proof -
  let ?sp = "[''-j'', GenieBaseNPCChain]" and ?T = "(tbl k)(GenieBaseNPCChain \<mapsto> [])"
  let ?k0 = "snd (New h k)"
  let ?k1 = "snd (ClearChain h ipt ''filter'' GenieBaseNPCChain ?k0)"
  let ?k2 = "snd (Exists h ipt ''filter'' ForwardChain ?sp ?k1)"
  have c0: "cmd_ok (tbl ?k0) (CNew GenieBaseNPCChain)" by simp
  have t1: "fst (ClearChain h ipt ''filter'' GenieBaseNPCChain ?k0) = Ret ()" "tbl ?k1 = ?T"
    using ClearChain_spec[OF c0] new(2) by simp_all
  have ne: "ForwardChain \<noteq> GenieBaseNPCChain" by (simp add: ForwardChain_def GenieBaseNPCChain_def)
  have f1: "tbl ?k1 ForwardChain = Some fs" using t1 ne fwd by simp
  have kn: "target_known (tbl ?k1) (target (jump GenieBaseNPCChain))" using t1 by (simp add: target_known_def)
  have c1: "cmd_ok (tbl ?k1) (CCheck ForwardChain ?sp)" by simp
  have e: "fst (Exists h ipt ''filter'' ForwardChain ?sp ?k1) = Ret (jump GenieBaseNPCChain \<in> set fs)" "tbl ?k2 = ?T"
    using Exists_spec[OF c1 _ kn] f1 t1 by simp_all
  have sh2: "npc_shape (tbl ?k2)" using e(2) npc_shape_put[OF sh, of "[]"] by simp
  have "genie_level ForwardChain = 0"
    by (simp add: genie_level_def ForwardChain_def short_not_genie GenieBaseNPCChain_def builtin_targets_def)
  then have j: "jump_ok (tbl ?k2) ForwardChain GenieBaseNPCChain" using jump_ok_genie[OF sh2] by simp
  have i: "fst (Insert h ipt ''filter'' ForwardChain 1 ?sp ?k2) = Ret ()"
      "tbl (snd (Insert h ipt ''filter'' ForwardChain 1 ?sp ?k2)) = ?T(ForwardChain \<mapsto> jump GenieBaseNPCChain # fs)"
    using Insert_spec[of ?k2 ForwardChain 1 ?sp "jump GenieBaseNPCChain" fs] j kn f1 e(2) t1 by (simp_all add: target_known_def)
  have upd: "?T(ForwardChain \<mapsto> fs) = ?T" using f1 t1(2) by (simp add: fun_upd_idem)
  show ?thesis
    unfolding CreateBaseChain_def Let_def FilterTable_def
    using new(1) t1 e i upd by (auto simp: go_simps add_first_def)
qed

end

section \<open>The invariant\<close>

abbreviation held_by :: "'k npc_sys \<Rightarrow> nat \<rightharpoonup> string" where
  "held_by s \<equiv> (\<lambda>i. holds (goroutines s i))"

text \<open>The work items are shared out, the mutex is held by the goroutine inside \<open>syncHandler\<close>, the queue is
  shut down and goroutines leave only after the stop signal.\<close>

definition sched_inv :: "nat \<Rightarrow> 'k npc_sys \<Rightarrow> bool" where
  "sched_inv n s \<longleftrightarrow>
     wq.shared (held_by s) (npcWorkqueue s)
     \<and> (\<forall>i. mutex s = Some i \<longleftrightarrow> (\<exists>key. goroutines s i = InSync key)) \<and> overlapped s \<inter> inside s = {}
     \<and> (shuttingDown (npcWorkqueue s) \<longrightarrow> stopCh s)
     \<and> (\<forall>i < n. goroutines s i = Gone \<longrightarrow> stopCh s)"

definition sys_inv ::
  "'k host \<Rightarrow> IPTables \<Rightarrow> ('k \<Rightarrow> chains) \<Rightarrow> (string \<Rightarrow> string option) \<Rightarrow> (string \<Rightarrow> string list) \<Rightarrow> nat \<Rightarrow> 'k npc_sys \<Rightarrow> bool" where
  "sys_inv h ipt tbl cn ex n s \<longleftrightarrow>
     npc_env h ipt tbl cn ex (controller s) \<and> npc_shape (tbl (kern s)) \<and> \<not> crashed s \<and> sched_inv n s"

lemma holds_upd: "(\<lambda>j. holds (if j = i then x else g j)) = (\<lambda>j. holds (g j))(i := holds x)"
  by (rule ext) simp

lemma shared_same: "wq.shared w q \<Longrightarrow> w i = x \<Longrightarrow> wq.shared (w(i := x)) q"
  by (simp add: fun_upd_idem)

lemma wq_Add_shutting [simp]: "shuttingDown (wq_Add x q) = shuttingDown q"
  and wq_Done_shutting [simp]: "shuttingDown (wq_Done x q) = shuttingDown q"
  by (simp_all add: wq.add_stopped wq.finish_stopped)

lemma wq_Get_shutting: "wq_Get q = Some (r, q') \<Longrightarrow> shuttingDown q' = shuttingDown q"
  by (auto simp: wq_Get_def split: list.splits if_splits)

lemma shared_start: "wq_inv q \<Longrightarrow> processing q = {} \<Longrightarrow> wq.shared (held_by (start_workers n npc q k)) q"
  by (auto simp: wq.shared_def start_workers_def inj_on_def ran_def dom_def split: if_splits)

lemma event_queue:
  assumes "event_handler ev q = (Ret (), q')" "well_typed ev"
  shows "q' = (case item_of ev of None \<Rightarrow> q | Some key \<Rightarrow> wq_Add key q)"
  using event_handler_item[OF assms(2), of q] assms(1) by simp

lemma shared_step:
  assumes "npc_step h ok s l s'" "wq.shared (held_by s) (npcWorkqueue s)"
  shows "wq.shared (held_by s') (npcWorkqueue s')"
  using assms
proof (cases rule: npc_step.cases)
  case (Notify ev q)
  then show ?thesis
    using assms(2) event_queue[OF Notify(5,4)] by (simp add: wq.shared_add split: option.split)
next
  case (Take i key q)
  then show ?thesis using wq.shared_get[OF assms(2) _ Take(5), of i] by (simp add: holds_upd)
next
  case (Quit i q)
  then show ?thesis using assms(2) wq.get_stop[OF Quit(5)] by (simp add: holds_upd shared_same)
next
  case (Finish i key)
  then show ?thesis using wq.shared_finish[OF assms(2), of i key] by (simp add: holds_upd)
qed (use assms(2) in \<open>auto simp: holds_upd shared_same wq.shared_shut\<close>)

lemma mutex_step:
  assumes "npc_step h ok s l s'" "\<forall>i. mutex s = Some i \<longleftrightarrow> (\<exists>key. goroutines s i = InSync key)" "\<not> crashed s'"
  shows "\<forall>i. mutex s' = Some i \<longleftrightarrow> (\<exists>key. goroutines s' i = InSync key)"
  using assms
proof (cases rule: npc_step.cases)
  case (Sync i key r k)
  then have "mutex s = Some i" using assms(2) by blast
  then have "goroutines s j \<noteq> InSync key'" if "j \<noteq> i" for j key' using that assms(2) by (metis option.inject)
  then show ?thesis using Sync by auto
next
  case (Lock i key)
  then have "goroutines s j \<noteq> InSync key'" for j key' using assms(2) by (metis option.distinct(1))
  then show ?thesis using Lock by auto
next
  case (Overlap i key k b)
  then have "mutex s = Some i" using assms(2) by blast
  then have "goroutines s j \<noteq> InSync key'" if "j \<noteq> i" for j key' using that assms(2) by (metis option.inject)
  then show ?thesis using Overlap by auto
qed (auto split: if_splits)

text \<open>No goroutine overlaps another, because the mutex keeps them apart.\<close>

lemma overlap_step:
  assumes "npc_step h ok s l s'" "\<forall>i. mutex s = Some i \<longleftrightarrow> (\<exists>key. goroutines s i = InSync key)" "overlapped s \<inter> inside s = {}"
  shows "overlapped s' \<inter> inside s' = {}"
  using assms
proof (cases rule: npc_step.cases)
  case (Lock i key)
  then have "inside s = {}" using assms(2) by (auto simp: inside_def)
  then show ?thesis using Lock by (auto simp: overlap_def inside_def)
qed (auto simp: inside_def split: if_splits)

lemma sched_step:
  assumes "npc_step h ok s l s'" "sched_inv n s" "\<not> crashed s'"
  shows "sched_inv n s'"
proof -
  have "shuttingDown (npcWorkqueue s') \<longrightarrow> stopCh s'"
    using assms(1,2)
    by (cases rule: npc_step.cases)
       (auto simp: sched_inv_def wq_ShutDown_def dest!: event_queue wq_Get_shutting split: option.splits)
  moreover have "\<forall>i < n. goroutines s' i = Gone \<longrightarrow> stopCh s'"
    using assms(1,2) by (cases rule: npc_step.cases) (auto simp: sched_inv_def)
  ultimately show ?thesis
    using shared_step[OF assms(1)] mutex_step[OF assms(1) _ assms(3)] overlap_step[OF assms(1)] assms(2) unfolding sched_inv_def by blast
qed

lemma kern_step:
  assumes "npc_step h (npc_env h ipt tbl cn ex) s l s'" "npc_env h ipt tbl cn ex (controller s)" "npc_shape (tbl (kern s))"
    and "overlapped s \<inter> inside s = {}"
  shows "npc_env h ipt tbl cn ex (controller s') \<and> npc_shape (tbl (kern s')) \<and> \<not> crashed s'"
  using assms
proof (cases rule: npc_step.cases)
  case (Sync i key r k)
  then show ?thesis using npc_env.sync_no_panic(2)[OF assms(2,3), of key] assms(2) by simp
next
  case (Crash i key p k)
  then show ?thesis using npc_env.sync_no_panic(1)[OF assms(2,3), of key p] by simp
next
  case (Overlap i key k b)
  then show ?thesis using assms(4) by (auto simp: inside_def)
qed auto

lemma sys_inv_step:
  assumes "npc_step h (npc_env h ipt tbl cn ex) s l s'" "sys_inv h ipt tbl cn ex n s"
  shows "sys_inv h ipt tbl cn ex n s'"
  using kern_step[OF assms(1)] sched_step[OF assms(1)] assms(2) unfolding sys_inv_def sched_inv_def by blast

lemma sys_inv_start:
  assumes "npc_env h ipt tbl cn ex npc" "npc_shape (tbl k)" "wq_inv q" "processing q = {}" "\<not> shuttingDown q"
  shows "sys_inv h ipt tbl cn ex n (start_workers n npc q k)"
  using assms shared_start[OF assms(3,4), of n npc k]
  by (simp add: sys_inv_def sched_inv_def) (simp add: start_workers_def)

lemma sys_inv_run:
  assumes "npc_run h (npc_env h ipt tbl cn ex) s0 ls s" "sys_inv h ipt tbl cn ex n s0"
  shows "sys_inv h ipt tbl cn ex n s"
  using assms by (induction rule: npc_run.induct) (auto intro: sys_inv_step)

section \<open>Handler runs in sequence\<close>

text \<open>The handler runs of a sequence of labels, and the items the event handlers added.\<close>

definition sync_runs :: "label list \<Rightarrow> (NetworkPolicyController \<times> string) list" where
  "sync_runs ls = List.map_filter (\<lambda>l. case l of SyncRun _ npc key \<Rightarrow> Some (npc, key) | _ \<Rightarrow> None) ls"

definition notified :: "label list \<Rightarrow> string list" where
  "notified ls = List.map_filter (\<lambda>l. case l of Notified item \<Rightarrow> item | _ \<Rightarrow> None) ls"

lemma sync_runs_append [simp]: "sync_runs (ls @ ls') = sync_runs ls @ sync_runs ls'"
  and notified_append [simp]: "notified (ls @ ls') = notified ls @ notified ls'"
  and sync_runs_Nil [simp]: "sync_runs [] = []" and notified_Nil [simp]: "notified [] = []"
  by (simp_all add: sync_runs_def notified_def map_filter_def)

lemma label_simps [simp]:
  "sync_runs [Internal] = []" "sync_runs [Notified x] = []" "sync_runs [SyncRun i npc key] = [(npc, key)]"
  "notified [Internal] = []" "notified [SyncRun i npc key] = []" "notified [Notified None] = []" "notified [Notified (Some key)] = [key]"
  by (simp_all add: sync_runs_def notified_def map_filter_def)

text \<open>The table after a run is what the handler runs, one after the other, make of the table before it.\<close>

lemma run_serial:
  assumes "npc_run h (npc_env h ipt tbl cn ex) s0 ls s" "sys_inv h ipt tbl cn ex n s0"
  shows "tbl (kern s) = fold (\<lambda>(npc, key) T. snd (st_sync cn ex npc key T)) (sync_runs ls) (tbl (kern s0))"
  using assms
proof (induction rule: npc_run.induct)
  case (Next ls s l s')
  have inv: "npc_env h ipt tbl cn ex (controller s)" "npc_shape (tbl (kern s))" and no: "overlapped s \<inter> inside s = {}"
    using sys_inv_run[OF Next(1) Next.prems] by (auto simp: sys_inv_def sched_inv_def)
  from Next(2) show ?case
  proof (cases rule: npc_step.cases)
    case (Sync i key r k)
    then show ?thesis using Next npc_env.sync_no_panic(3)[OF inv, of key] by simp
  next
    case (Crash i key p k)
    then show ?thesis using npc_env.sync_no_panic(1)[OF inv, of key p] by simp
  next
    case (Overlap i key k b)
    then show ?thesis using no by (auto simp: inside_def)
  qed (use Next in auto)
qed simp

section \<open>The fate of a work item\<close>

text \<open>An item that will be served: it is in the queue, in the hands of a worker that has not finished the handler,
  or in the hands of one that has and that will put it into the queue again.\<close>

definition in_hand :: "string \<Rightarrow> 'k npc_sys \<Rightarrow> bool" where
  "in_hand key s \<longleftrightarrow> key \<in> set (queue (npcWorkqueue s))
     \<or> (\<exists>i. goroutines s i = Got key \<or> goroutines s i = InSync key \<or> goroutines s i = Synced key \<and> key \<in> dirty (npcWorkqueue s))"

text \<open>The same by the set of dirty items, which the invariant of the queue ties to the queue.\<close>

lemma in_hand_iff:
  assumes "wq.shared (held_by s) (npcWorkqueue s)"
  shows "in_hand key s \<longleftrightarrow> key \<in> dirty (npcWorkqueue s) \<or> (\<exists>i. goroutines s i = Got key \<or> goroutines s i = InSync key)"
proof -
  have q: "set (queue (npcWorkqueue s)) = dirty (npcWorkqueue s) - processing (npcWorkqueue s)"
    and p: "processing (npcWorkqueue s) = ran (held_by s)"
    using assms by (auto simp: wq.shared_def wq_inv_def)
  have "\<exists>i. goroutines s i = Got key \<or> goroutines s i = InSync key \<or> goroutines s i = Synced key" if "key \<in> ran (held_by s)"
  proof -
    from that obtain i where "holds (goroutines s i) = Some key" by (auto simp: ran_def)
    then show ?thesis by (cases "goroutines s i") auto
  qed
  with q p show ?thesis unfolding in_hand_def by blast
qed

lemma dirty_Add: "key \<in> dirty q \<Longrightarrow> key \<in> dirty (wq_Add x q)"
  by (simp add: wq.add_pending)

lemma pending_step:
  assumes "npc_step h ok s l s'" "wq_inv (npcWorkqueue s)" "key \<in> dirty (npcWorkqueue s)"
  shows "key \<in> dirty (npcWorkqueue s') \<or> (\<exists>i. goroutines s' i = Got key)"
  using assms
proof (cases rule: npc_step.cases)
  case (Notify ev q)
  then show ?thesis using assms(3) event_queue[OF Notify(5,4)] by (auto intro: dirty_Add split: option.split)
next
  case (Take i key' q)
  then have "dirty q = dirty (npcWorkqueue s) - {key'}" using wq.get_item[OF assms(2) Take(5)] by blast
  then show ?thesis using Take assms(3) by (cases "key = key'") auto
next
  case (Quit i q)
  then show ?thesis using assms(3) wq.get_stop[OF Quit(5)] by simp
qed (use assms(3) in \<open>auto simp: wq.shut_state wq.finish_pending\<close>)

lemma taken_step:
  assumes "npc_step h ok s l s'" "goroutines s j = Got key \<or> goroutines s j = InSync key"
  shows "goroutines s' j = Got key \<or> goroutines s' j = InSync key \<or> key \<in> snd ` set (sync_runs [l])"
  using assms by (cases rule: npc_step.cases) auto

lemma in_hand_step:
  assumes "npc_step h ok s l s'" "in_hand key s" "wq.shared (held_by s) (npcWorkqueue s)"
  shows "in_hand key s' \<or> key \<in> snd ` set (sync_runs [l])"
proof -
  have "wq_inv (npcWorkqueue s)" using assms(3) by (simp add: wq.shared_def)
  then show ?thesis
    using pending_step[OF assms(1)] taken_step[OF assms(1)] assms(2)
    unfolding in_hand_iff[OF assms(3)] in_hand_iff[OF shared_step[OF assms(1,3)]] by blast
qed

lemma run_append:
  assumes "npc_run h ok s1 ls2 s2" "npc_run h ok s0 ls1 s1"
  shows "npc_run h ok s0 (ls1 @ ls2) s2"
  using assms by (induction rule: npc_run.induct) (auto intro: npc_run.Next simp flip: append_assoc)

lemma not_lost:
  assumes "npc_run h (npc_env h ipt tbl cn ex) s1 ls s2" "sys_inv h ipt tbl cn ex n s1" "in_hand key s1"
  shows "in_hand key s2 \<or> key \<in> snd ` set (sync_runs ls)"
  using assms
proof (induction rule: npc_run.induct)
  case (Next ls s l s')
  have "wq.shared (held_by s) (npcWorkqueue s)"
    using sys_inv_run[OF Next(1) Next.prems(1)] by (simp add: sys_inv_def sched_inv_def)
  then show ?case using Next in_hand_step[OF Next(2), of key] by auto
qed simp

section \<open>Progress\<close>

text \<open>The steps a goroutine can take by itself.\<close>

lemma progress:
  assumes inv: "sys_inv h ipt tbl cn ex n s" and "0 < n" "\<not> stopCh s" "key \<in> dirty (npcWorkqueue s)"
  shows "\<exists>i l s'. npc_step h ok s l s' \<and> goroutines s' i \<noteq> goroutines s i"
proof -
  have nc: "\<not> crashed s" and sh: "wq.shared (held_by s) (npcWorkqueue s)"
    and mx: "\<And>i. mutex s = Some i \<longleftrightarrow> (\<exists>key. goroutines s i = InSync key)"
    and gone: "\<And>i. i < n \<Longrightarrow> goroutines s i \<noteq> Gone"
    and env: "npc_env h ipt tbl cn ex (controller s)" "npc_shape (tbl (kern s))" and no: "overlapped s \<inter> inside s = {}"
    using inv assms(3) by (auto simp: sys_inv_def sched_inv_def)
  have sync: ?thesis if g: "goroutines s i = InSync key'" for i key'
  proof -
    obtain r k where r: "syncHandler h (controller s) key' (kern s) = (r, k)" by fastforce
    then have "r \<noteq> Panic p" for p using npc_env.sync_no_panic(1)[OF env, of key' p] by simp
    moreover have "i \<notin> overlapped s" using no g by (auto simp: inside_def)
    ultimately have st: "\<not> crashed s" "goroutines s i = InSync key'" "i \<notin> overlapped s" "\<And>p. r \<noteq> Panic p" using nc g by auto
    from npc_step.Sync[OF st(1-3) r st(4), of ok] show ?thesis by (intro exI[of _ i] exI conjI) (auto simp: g)
  qed
  show ?thesis
  proof (cases "\<exists>i key. holds (goroutines s i) = Some key")
    case True
    then obtain i key' where "holds (goroutines s i) = Some key'" by blast
    then consider "goroutines s i = Got key'" | "goroutines s i = InSync key'" | "goroutines s i = Synced key'"
      by (cases "goroutines s i") auto
    then show ?thesis
    proof cases
      case 1
      show ?thesis
      proof (cases "mutex s")
        case None
        from npc_step.Lock[OF nc 1 None, of h ok] show ?thesis by (intro exI[of _ i] exI conjI) (auto simp: 1)
      next
        case (Some j)
        then show ?thesis using mx sync by blast
      qed
    next
      case 2
      then show ?thesis by (rule sync)
    next
      case 3
      from npc_step.Finish[OF nc 3, of h ok] show ?thesis by (intro exI[of _ i] exI conjI) (auto simp: 3)
    qed
  next
    case False
    then have idle: "ran (held_by s) = {}" by (auto simp: ran_def)
    consider "goroutines s 0 = AtTop" | "goroutines s 0 = Pausing" | "goroutines s 0 = InGet"
      using gone[OF assms(2)] False by (cases "goroutines s 0") (auto dest: spec[of _ 0])
    then show ?thesis
    proof cases
      case 1
      from npc_step.Enter[OF nc 1 assms(3), of h ok] show ?thesis by (intro exI[of _ 0] exI conjI) (auto simp: 1)
    next
      case 2
      from npc_step.Timer[OF nc 2, of h ok] show ?thesis by (intro exI[of _ 0] exI conjI) (auto simp: 2)
    next
      case 3
      obtain y q' where "wq_Get (npcWorkqueue s) = Some (Some y, q')"
        using wq.idle_progress[OF sh idle assms(4)] by blast
      from npc_step.Take[OF nc 3 this, of h ok] show ?thesis by (intro exI[of _ 0] exI conjI) (auto simp: 3)
    qed
  qed
qed

end
