(* ===== verification/Startup.thy ===== *)
theory Startup
  imports Informers ControllerFacts DeltaFifo
begin

text \<open>
  The program of the network policy controller as a whole: \<^verbatim>\<open>network-policy-controller/main.go\<close>,
  \<^verbatim>\<open>signals/signal.go\<close> and \<open>NewNpcController\<close>. The main goroutine builds the clients, the informer factories and
  the controller and enters \<open>Run\<close>; the goroutines it started start the factories, the informers feed their
  stores and listeners, the listeners call the event handlers, and a goroutine waits for signals. The
  process is a step relation over all of them, with the workers' steps of \<open>Controller\<close> inside.
\<close>

section \<open>signals/signal.go\<close>

definition shutdownSignals :: "string list" where
  "shutdownSignals = [''SIGINT'', ''SIGTERM'']"

text \<open>The state is whether \<^verbatim>\<open>onlyOneSignalHandler\<close> is closed.\<close>

definition SetupSignalHandler :: "(bool, unit) go" where
  "SetupSignalHandler closed = (if closed then Panic ''close of closed channel'' else Ret (), True)"

text \<open>The goroutine of the handler waits for the first signal, then for the second, at which it ends the program.\<close>

datatype signal_phase = AwaitsFirst | AwaitsSecond | GotSecond

section \<open>NewNpcController\<close>

text \<open>The informer accessor of \<^verbatim>\<open>k8s.io/client-go/informers\<close> for network policies, generated as the one
  for logical networks.\<close>

definition networkPolicyInformer_Informer :: "accessor \<Rightarrow> factory_state \<Rightarrow> nat \<times> factory_state" where
  "networkPolicyInformer_Informer f =
     InformerFor T_NetworkPolicy (\<lambda>resyncPeriod. \<lparr>infType = T_NetworkPolicy, infNamespace = acNamespace f, infResync = resyncPeriod,
       infIndexers = [NamespaceIndex], infTweak = acTweak f\<rparr>)"

text \<open>The informers behind the fields of the new controller and behind its two registrations.\<close>

record npc_parts =
  policiesLister :: nat
  policiesSynced :: nat
  networksLister :: nat
  networksSynced :: nat
  networksHandlers :: nat
  policiesHandlers :: nat

definition NewNpcController :: "factory_state \<Rightarrow> factory_state \<Rightarrow> npc_parts \<times> factory_state \<times> factory_state" where
  "NewNpcController kube ext =
     (let networkPolicyInformer = \<lparr>acNamespace = fNamespace (fst kube), acTweak = tweakListOptions (fst kube)\<rparr>;
          logicalNwInformer = version_LogicalNetworks (group_V1 (factory_Alpha (fst ext)));
          (pl, kube1) = networkPolicyInformer_Informer networkPolicyInformer kube;
          (ps, kube2) = networkPolicyInformer_Informer networkPolicyInformer kube1;
          (nl, ext1) = logicalNetworkInformer_Informer logicalNwInformer ext;
          (ns, ext2) = logicalNetworkInformer_Informer logicalNwInformer ext1;
          (nh, ext3) = logicalNetworkInformer_Informer logicalNwInformer ext2;
          (ph, kube3) = networkPolicyInformer_Informer networkPolicyInformer kube2
      in (\<lparr>policiesLister = pl, policiesSynced = ps, networksLister = nl, networksSynced = ns, networksHandlers = nh,
           policiesHandlers = ph\<rparr>, kube3, ext3))"

section \<open>The process\<close>

text \<open>Where the main goroutine is: before \<open>CreateBaseChain\<close>, in \<open>WaitForCacheSync\<close>, waiting for the stop
  channel, returning from \<open>Run\<close>, or gone with an exit status: 255 of \<^verbatim>\<open>glog.Fatalf\<close>, 2 of a panic.\<close>

datatype main_pc = MChain | MWait | MServe | MReturning | MExit int

type_synonym inf_state = "threadSafeMap informer_state"
type_synonym refl_state = "threadSafeMap reflector"

record 'k process =
  kubeFactory :: factory_state
  extFactory :: factory_state
  kubeStartPending :: bool        \<comment> \<open>the goroutine of \<open>Start\<close> has not run\<close>
  extStartPending :: bool
  parts :: npc_parts
  npRefl :: refl_state            \<comment> \<open>the informer of network policies with its queue; it stands still before it runs\<close>
  lnRefl :: refl_state            \<comment> \<open>the informer of logical networks\<close>
  npSynced :: bool
  lnSynced :: bool
  mainPc :: main_pc
  runRes :: "unit go_res option"  \<comment> \<open>what \<open>Run\<close> returned, once it has\<close>
  sigPhase :: signal_phase
  sys :: "'k npc_sys"

definition new_informer :: "index_func gomap \<Rightarrow> inf_state" where
  "new_informer ixs =
     \<lparr>inf_store = NewThreadSafeStore ixs, inf_listeners = [], inf_started = False, inf_stopped = False\<rparr>"

text \<open>What the listers of the controller read.\<close>

definition read_caches :: "threadSafeMap Indexer \<Rightarrow> inf_state \<Rightarrow> inf_state \<Rightarrow> NetworkPolicyController \<Rightarrow> NetworkPolicyController" where
  "read_caches ix np ln c =
     c\<lparr>networkPoliciesLister := snapshot as_NP ix (inf_store np), logicalNwLister := snapshot as_LN ix (inf_store ln)\<rparr>"

definition zero_npc :: "(string list gomap \<Rightarrow> string list gomap) \<Rightarrow> NetworkPolicyController" where
  "zero_npc mr = \<lparr>networkPoliciesLister = [], logicalNwLister = [], iptable = \<lparr>path = [], hasCheck = False, hasWait = False\<rparr>, map_range = mr\<rparr>"

definition resyncPeriod :: int where "resyncPeriod = 30 * 10 ^ 9"

text \<open>\<open>main\<close> up to the call of \<open>Run\<close>: the configuration and the client of Kubernetes are given by what their
  constructors return. A failure ends the program with the status of \<^verbatim>\<open>glog.Fatalf\<close>.\<close>

definition main_init ::
  "threadSafeMap Indexer \<Rightarrow> (string list gomap \<Rightarrow> string list gomap) \<Rightarrow> 'd transport \<Rightarrow> go_error + Config \<Rightarrow> (Config \<Rightarrow> go_error option)
    \<Rightarrow> bool \<Rightarrow> 'k \<Rightarrow> 'k process go_res + int" where
  "main_init ix mr t buildConfig kubeNewForConfig handlerClosed k =
     (case SetupSignalHandler handlerClosed of
        (Panic p, _) \<Rightarrow> Inl (Panic p)
      | (_, _) \<Rightarrow>
     (case buildConfig of
        Inl e \<Rightarrow> Inr 255
      | Inr cfg \<Rightarrow>
     (case kubeNewForConfig cfg of
        Some e \<Rightarrow> Inr 255
      | None \<Rightarrow>
     (case fst (Clientset_NewForConfig t cfg 0) of
        Err e \<Rightarrow> Inr 255
      | Panic p \<Rightarrow> Inl (Panic p)
      | Ret extClient \<Rightarrow>
          let (ps, kube, ext) = NewNpcController (NewSharedInformerFactory resyncPeriod, new_world) (NewSharedInformerFactory resyncPeriod, new_world)
          in Inl (Ret
               \<lparr>kubeFactory = kube, extFactory = ext, kubeStartPending = True, extStartPending = True, parts = ps,
                npRefl = new_reflector (AddEventHandler ix (new_informer ns_indexers)),
                lnRefl = new_reflector (AddEventHandler ix (new_informer ns_indexers)),
                npSynced = False, lnSynced = False, mainPc = MChain, runRes = None, sigPhase = AwaitsFirst,
                sys = start_workers 0 (zero_npc mr) NewNamed k\<rparr>)))))"

text \<open>The steps of the workers among those of the controller.\<close>

definition worker_step :: "'k host \<Rightarrow> 'k npc_sys \<Rightarrow> label \<Rightarrow> 'k npc_sys \<Rightarrow> bool" where
  "worker_step h s l s' \<longleftrightarrow> npc_step h (\<lambda>_. False) s l s' \<and> (goroutines s' \<noteq> goroutines s \<or> crashed s')"

fun not_exited :: "main_pc \<Rightarrow> bool" where
  "not_exited (MExit _) = False"
| "not_exited _ = True"

text \<open>A panic in any goroutine ends the program.\<close>

definition die :: "'a go_res \<Rightarrow> 'k process \<Rightarrow> 'k process" where
  "die r p = (case r of Panic _ \<Rightarrow> p\<lparr>mainPc := MExit 2\<rparr> | _ \<Rightarrow> p)"

text \<open>A listener of an informer takes its oldest notification.\<close>

fun take_note :: "nat \<Rightarrow> processorListener list \<Rightarrow> (inote \<times> processorListener list) option" where
  "take_note i [] = None"
| "take_note 0 (l # ls) =
     (case pendingNotifications l of [] \<Rightarrow> None | n # ns \<Rightarrow> Some (n, l\<lparr>pendingNotifications := ns\<rparr> # ls))"
| "take_note (Suc i) (l # ls) = map_option (\<lambda>(n, ls'). (n, l # ls')) (take_note i ls)"

text \<open>The steps. An informer takes the steps of its goroutines once it runs; \<open>ok\<close> says which logical networks the
  caches may hold. \<open>WaitForCacheSync\<close> asks an informer that runs whether it \<open>HasSynced\<close>. When \<open>Run\<close> returns, the
  queue is shut down.\<close>

inductive process_step ::
  "'k host \<Rightarrow> threadSafeMap Indexer \<Rightarrow> (NetworkPolicyController \<Rightarrow> bool) \<Rightarrow> 'k process \<Rightarrow> 'k process \<Rightarrow> bool"
  for h :: "'k host" and ix :: "threadSafeMap Indexer" and ok :: "NetworkPolicyController \<Rightarrow> bool" where
  KubeStart: "not_exited (mainPc p) \<Longrightarrow> kubeStartPending p \<Longrightarrow> (\<And>m. mset (visit m) = mset m) \<Longrightarrow>
    process_step h ix ok p (p\<lparr>kubeStartPending := False, kubeFactory := Start visit (kubeFactory p)\<rparr>)"
| ExtStart: "not_exited (mainPc p) \<Longrightarrow> extStartPending p \<Longrightarrow> (\<And>m. mset (visit m) = mset m) \<Longrightarrow>
    process_step h ix ok p (p\<lparr>extStartPending := False, extFactory := Start visit (extFactory p)\<rparr>)"
| NpFeed: "not_exited (mainPc p) \<Longrightarrow> policiesLister (parts p) \<in> set (running (snd (kubeFactory p))) \<Longrightarrow>
    reflect_step as_NP ix (npRefl p) l np \<Longrightarrow>
    process_step h ix ok p (p\<lparr>npRefl := np, sys := (sys p)\<lparr>controller := read_caches ix (rInformer np) (rInformer (lnRefl p)) (controller (sys p))\<rparr>\<rparr>)"
| LnFeed: "not_exited (mainPc p) \<Longrightarrow> networksLister (parts p) \<in> set (running (snd (extFactory p))) \<Longrightarrow>
    reflect_step as_LN ix (lnRefl p) l ln \<Longrightarrow> ok (read_caches ix (rInformer (npRefl p)) (rInformer ln) (controller (sys p))) \<Longrightarrow>
    process_step h ix ok p (p\<lparr>lnRefl := ln, sys := (sys p)\<lparr>controller := read_caches ix (rInformer (npRefl p)) (rInformer ln) (controller (sys p))\<rparr>\<rparr>)"
| NpPanic: "not_exited (mainPc p) \<Longrightarrow> Pop (HandleDeltas ix) (rFifo (npRefl p), rInformer (npRefl p)) = (PopItem ds (Panic m), f, s) \<Longrightarrow>
    process_step h ix ok p (p\<lparr>mainPc := MExit 2\<rparr>)"
| LnPanic: "not_exited (mainPc p) \<Longrightarrow> Pop (HandleDeltas ix) (rFifo (lnRefl p), rInformer (lnRefl p)) = (PopItem ds (Panic m), f, s) \<Longrightarrow>
    process_step h ix ok p (p\<lparr>mainPc := MExit 2\<rparr>)"
| NpListed: "not_exited (mainPc p) \<Longrightarrow> policiesSynced (parts p) \<in> set (running (snd (kubeFactory p))) \<Longrightarrow> HasSynced (rFifo (npRefl p)) \<Longrightarrow>
    process_step h ix ok p (p\<lparr>npSynced := True\<rparr>)"
| LnListed: "not_exited (mainPc p) \<Longrightarrow> networksSynced (parts p) \<in> set (running (snd (extFactory p))) \<Longrightarrow> HasSynced (rFifo (lnRefl p)) \<Longrightarrow>
    process_step h ix ok p (p\<lparr>lnSynced := True\<rparr>)"
| NpDeliver: "not_exited (mainPc p) \<Longrightarrow> take_note i (inf_listeners (rInformer (npRefl p))) = Some (n, ls) \<Longrightarrow>
    event_handler (np_notification n) (npcWorkqueue (sys p)) = (r, q) \<Longrightarrow>
    process_step h ix ok p (die r (p\<lparr>npRefl := (npRefl p)\<lparr>rInformer := (rInformer (npRefl p))\<lparr>inf_listeners := ls\<rparr>\<rparr>,
      sys := (sys p)\<lparr>npcWorkqueue := q\<rparr>\<rparr>))"
| LnDeliver: "not_exited (mainPc p) \<Longrightarrow> take_note i (inf_listeners (rInformer (lnRefl p))) = Some (n, ls) \<Longrightarrow>
    event_handler (ln_notification n) (npcWorkqueue (sys p)) = (r, q) \<Longrightarrow>
    process_step h ix ok p (die r (p\<lparr>lnRefl := (lnRefl p)\<lparr>rInformer := (rInformer (lnRefl p))\<lparr>inf_listeners := ls\<rparr>\<rparr>,
      sys := (sys p)\<lparr>npcWorkqueue := q\<rparr>\<rparr>))"
| Chain: "mainPc p = MChain \<Longrightarrow> CreateBaseChain h (kern (sys p)) = (Ret ipt, k) \<Longrightarrow>
    process_step h ix ok p (p\<lparr>mainPc := MWait, sys := (sys p)\<lparr>kern := k, controller := (controller (sys p))\<lparr>iptable := ipt\<rparr>\<rparr>\<rparr>)"
| ChainFails: "mainPc p = MChain \<Longrightarrow> CreateBaseChain h (kern (sys p)) = (Err e, k) \<Longrightarrow>
    process_step h ix ok p (p\<lparr>mainPc := MExit 255, runRes := Some (Err (Errorf_v ''Error creating Genie base npc chain: '' e)),
      sys := (sys p)\<lparr>kern := k, npcWorkqueue := wq_ShutDown (npcWorkqueue (sys p))\<rparr>\<rparr>)"
| ChainPanics: "mainPc p = MChain \<Longrightarrow> CreateBaseChain h (kern (sys p)) = (Panic m, k) \<Longrightarrow>
    process_step h ix ok p (p\<lparr>mainPc := MExit 2, sys := (sys p)\<lparr>kern := k\<rparr>\<rparr>)"
| Synced: "mainPc p = MWait \<Longrightarrow> npSynced p \<Longrightarrow> lnSynced p \<Longrightarrow>
    process_step h ix ok p (p\<lparr>mainPc := MServe,
      sys := (start_workers 2 (controller (sys p)) (npcWorkqueue (sys p)) (kern (sys p)))\<lparr>stopCh := stopCh (sys p)\<rparr>\<rparr>)"
| NotSynced: "mainPc p = MWait \<Longrightarrow> stopCh (sys p) \<Longrightarrow>
    process_step h ix ok p (p\<lparr>mainPc := MExit 255, runRes := Some (Err (ErrorString ''Synchronization of informer caches failed.'')),
      sys := (sys p)\<lparr>npcWorkqueue := wq_ShutDown (npcWorkqueue (sys p))\<rparr>\<rparr>)"
| Work: "mainPc p = MServe \<or> mainPc p = MReturning \<Longrightarrow> worker_step h (sys p) l s \<Longrightarrow>
    process_step h ix ok p (p\<lparr>sys := s, mainPc := (if crashed s then MExit 2 else mainPc p)\<rparr>)"
| FirstSignal: "not_exited (mainPc p) \<Longrightarrow> sigPhase p = AwaitsFirst \<Longrightarrow>
    process_step h ix ok p (p\<lparr>sigPhase := AwaitsSecond, sys := (sys p)\<lparr>stopCh := True\<rparr>\<rparr>)"
| SecondSignal: "not_exited (mainPc p) \<Longrightarrow> sigPhase p = AwaitsSecond \<Longrightarrow>
    process_step h ix ok p (p\<lparr>mainPc := MExit 1, sigPhase := GotSecond\<rparr>)"
| Returns: "mainPc p = MServe \<Longrightarrow> stopCh (sys p) \<Longrightarrow>
    process_step h ix ok p (p\<lparr>mainPc := MReturning, runRes := Some (Ret ()), sys := (sys p)\<lparr>npcWorkqueue := wq_ShutDown (npcWorkqueue (sys p))\<rparr>\<rparr>)"
| Ends: "mainPc p = MReturning \<Longrightarrow> process_step h ix ok p (p\<lparr>mainPc := MExit 0\<rparr>)"

end
