(* ===== verification/StartupFacts.thy ===== *)
theory StartupFacts
  imports Startup ReflectorFacts
begin

text \<open>
  The invariant of the process: what holds of the factories, the informers, the caches and the main
  goroutine in every state. While the controller serves, its state is one that a run of the system of
  \<open>Controller\<close> reaches, so that the properties of those runs hold of the process.
\<close>

section \<open>Start\<close>

lemma Accessor_as: "as_LN obj = Some l \<Longrightarrow> Accessor obj = Inr (lnMeta l)" "as_NP obj = Some n \<Longrightarrow> Accessor obj = Inr (npMeta n)"
  by (auto simp: as_LN_def as_NP_def Accessor_def split: cache_obj.splits)

text \<open>All the fields and registrations of the new controller use the one informer of their type.\<close>

definition factories_inv :: "'k process \<Rightarrow> bool" where
  "factories_inv p \<longleftrightarrow>
     factory_inv (kubeFactory p) \<and> factory_inv (extFactory p)
     \<and> map_of (informers (fst (kubeFactory p))) T_NetworkPolicy = Some (policiesLister (parts p))
     \<and> policiesSynced (parts p) = policiesLister (parts p) \<and> policiesHandlers (parts p) = policiesLister (parts p)
     \<and> map_of (informers (fst (extFactory p))) T_LogicalNetwork = Some (networksLister (parts p))
     \<and> networksSynced (parts p) = networksLister (parts p) \<and> networksHandlers (parts p) = networksLister (parts p)
     \<and> (npSynced p \<longrightarrow> policiesLister (parts p) \<in> set (running (snd (kubeFactory p))))
     \<and> (lnSynced p \<longrightarrow> networksLister (parts p) \<in> set (running (snd (extFactory p))))"

text \<open>An informer: its store, its queue and its notifications are of its type.\<close>

definition refl_inv :: "(cache_obj \<Rightarrow> 'o option) \<Rightarrow> refl_state \<Rightarrow> bool" where
  "refl_inv as r \<longleftrightarrow> store_ok (inf_store (rInformer r)) \<and> all_as as (map_of (items (inf_store (rInformer r))))
     \<and> pending_as as (inf_listeners (rInformer r)) \<and> (\<exists>ls. queue_inv as ls r)"

definition informers_inv :: "'k process \<Rightarrow> bool" where
  "informers_inv p \<longleftrightarrow> refl_inv as_NP (npRefl p) \<and> refl_inv as_LN (lnRefl p)
     \<and> (npSynced p \<longrightarrow> HasSynced (rFifo (npRefl p))) \<and> (lnSynced p \<longrightarrow> HasSynced (rFifo (lnRefl p)))"

definition caches_inv :: "threadSafeMap Indexer \<Rightarrow> (string list gomap \<Rightarrow> string list gomap) \<Rightarrow> 'k process \<Rightarrow> bool" where
  "caches_inv ix mr p \<longleftrightarrow>
     networkPoliciesLister (controller (sys p)) = snapshot as_NP ix (inf_store (rInformer (npRefl p)))
     \<and> logicalNwLister (controller (sys p)) = snapshot as_LN ix (inf_store (rInformer (lnRefl p)))
     \<and> subnets_ok (controller (sys p)) \<and> map_range (controller (sys p)) = mr"

definition queue_fresh :: "string wq \<Rightarrow> bool" where
  "queue_fresh q \<longleftrightarrow> wq_inv q \<and> processing q = {} \<and> \<not> shuttingDown q"

text \<open>The table before and after \<open>CreateBaseChain\<close>.\<close>

definition based :: "chains \<Rightarrow> rule list \<Rightarrow> chains" where
  "based T fs = T(GenieBaseNPCChain \<mapsto> [], ForwardChain \<mapsto> add_first (jump GenieBaseNPCChain) fs)"

definition serving ::
  "'k host \<Rightarrow> IPTables \<Rightarrow> ('k \<Rightarrow> chains) \<Rightarrow> (string \<Rightarrow> string option) \<Rightarrow> (string \<Rightarrow> string list) \<Rightarrow> chains \<Rightarrow> 'k npc_sys \<Rightarrow> bool" where
  "serving h ipt tbl cn ex T s \<longleftrightarrow>
     (\<exists>npc q k ls. npc_env h ipt tbl cn ex npc \<and> queue_fresh q \<and> tbl k = T
        \<and> npc_run h (npc_env h ipt tbl cn ex) (start_workers 2 npc q k) ls s)"

text \<open>How the program ends: with status 1 at the second signal, otherwise after \<open>Run\<close>, which no worker outlives when
  it returns an error.\<close>

definition exit_inv :: "'k process \<Rightarrow> int \<Rightarrow> bool" where
  "exit_inv p n \<longleftrightarrow> stopCh (sys p)
     \<and> (case sigPhase p of
          AwaitsFirst \<Rightarrow> False
        | GotSecond \<Rightarrow> n = 1
        | AwaitsSecond \<Rightarrow>
            runRes p = Some (Ret ()) \<and> n = 0 \<and> npSynced p \<and> lnSynced p
            \<or> (\<exists>e. runRes p = Some (Err e)) \<and> n = 255 \<and> goroutines (sys p) = (\<lambda>_. Gone))"

definition main_inv ::
  "'k host \<Rightarrow> IPTables \<Rightarrow> ('k \<Rightarrow> chains) \<Rightarrow> (string \<Rightarrow> string option) \<Rightarrow> (string \<Rightarrow> string list) \<Rightarrow> chains \<Rightarrow> rule list \<Rightarrow> 'k process \<Rightarrow> bool" where
  "main_inv h ipt tbl cn ex T fs p \<longleftrightarrow>
     (stopCh (sys p) \<longleftrightarrow> sigPhase p \<noteq> AwaitsFirst) \<and> (sigPhase p = GotSecond \<longrightarrow> \<not> not_exited (mainPc p)) \<and>
     (case mainPc p of
        MChain \<Rightarrow> tbl (kern (sys p)) = T \<and> queue_fresh (npcWorkqueue (sys p)) \<and> runRes p = None \<and> goroutines (sys p) = (\<lambda>_. Gone)
      | MWait \<Rightarrow> tbl (kern (sys p)) = based T fs \<and> queue_fresh (npcWorkqueue (sys p)) \<and> iptable (controller (sys p)) = ipt
          \<and> runRes p = None \<and> goroutines (sys p) = (\<lambda>_. Gone)
      | MExit n \<Rightarrow> exit_inv p n
      | MServe \<Rightarrow> npSynced p \<and> lnSynced p \<and> runRes p = None \<and> serving h ipt tbl cn ex (based T fs) (sys p)
      | MReturning \<Rightarrow> npSynced p \<and> lnSynced p \<and> runRes p = Some (Ret ()) \<and> stopCh (sys p) \<and> serving h ipt tbl cn ex (based T fs) (sys p))"

section \<open>Parts of the state that a step keeps\<close>

lemma npc_step_mono: "npc_step h (\<lambda>_. False) s l s' \<Longrightarrow> npc_step h ok s l s'"
  by (induction rule: npc_step.induct) (auto intro: npc_step.intros)

lemma worker_step_keeps:
  assumes "worker_step h s l s'"
  shows "stopCh s' = stopCh s" "controller s' = controller s"
proof -
  have st: "npc_step h (\<lambda>_. False) s l s'" and g: "goroutines s' \<noteq> goroutines s \<or> crashed s'"
    using assms by (auto simp: worker_step_def)
  from st show "stopCh s' = stopCh s" by (cases rule: npc_step.cases) (use g in auto)
  from st show "controller s' = controller s" by (cases rule: npc_step.cases) auto
qed

lemma serving_step:
  assumes "serving h ipt tbl cn ex T s" "npc_step h (npc_env h ipt tbl cn ex) s l s'"
  shows "serving h ipt tbl cn ex T s'"
  using assms npc_run.Next unfolding serving_def by blast

lemma serving_inv: "serving h ipt tbl cn ex T s \<Longrightarrow> npc_shape T \<Longrightarrow> sys_inv h ipt tbl cn ex 2 s"
proof -
  assume s: "serving h ipt tbl cn ex T s" and T: "npc_shape T"
  from s obtain npc q k ls where env: "npc_env h ipt tbl cn ex npc" and q: "wq_inv q" "processing q = {}" "\<not> shuttingDown q"
    and k: "tbl k = T" and run: "npc_run h (npc_env h ipt tbl cn ex) (start_workers 2 npc q k) ls s"
    unfolding serving_def queue_fresh_def by blast
  have "npc_shape (tbl k)" using T k by simp
  from sys_inv_run[OF run sys_inv_start[OF env this q]] show ?thesis .
qed

lemma queue_fresh_add: "queue_fresh q \<Longrightarrow> queue_fresh (case item of None \<Rightarrow> q | Some key \<Rightarrow> wq_Add key q)"
proof -
  have "processing (wq_Add key q) = processing q" for key by (simp add: wq_Add_def Let_def)
  then show "queue_fresh q \<Longrightarrow> queue_fresh (case item of None \<Rightarrow> q | Some key \<Rightarrow> wq_Add key q)"
    using wq_inv_Add[of q] by (auto simp: queue_fresh_def split: option.split)
qed

lemma npc_env_read:
  assumes "npc_env h ipt tbl cn ex c" "map_range c' = map_range c" "iptable c' = iptable c" "subnets_ok c'"
  shows "npc_env h ipt tbl cn ex c'"
  using assms by (simp add: npc_env_def npc_env_axioms_def npc_host_def npc_host_axioms_def)

text \<open>A notification taken from a listener has the type of the informer.\<close>

lemma take_note_as:
  assumes "take_note i ls = Some (n, ls')" "pending_as as ls"
  shows "inote_as as n \<and> pending_as as ls'"
  using assms
  by (induction i ls arbitrary: ls' rule: take_note.induct) (auto simp: pending_as_def split: list.splits)

section \<open>The steps keep the invariant\<close>

locale npc_process = iptables_tool h ipt tbl cn ex + map_order visit
  for h :: "'k host" and ipt :: IPTables and tbl :: "'k \<Rightarrow> chains" and cn :: "string \<Rightarrow> string option"
    and ex :: "string \<Rightarrow> string list" and visit :: "string list \<Rightarrow> string list" +
  fixes mr :: "string list gomap \<Rightarrow> string list gomap" and T :: chains and fs :: "rule list"
  assumes New_ok: "fst (New h k) = Ret ipt" and New_tbl: "tbl (snd (New h k)) = tbl k"
    and mr_perm: "mset (mr m) = mset m"
    and T_shape: "npc_shape T" and T_forward: "T ForwardChain = Some fs"
begin

abbreviation ix :: "threadSafeMap Indexer" where
  "ix \<equiv> cache_ops visit DeletionHandlingMetaNamespaceKeyFunc"

abbreviation env :: "NetworkPolicyController \<Rightarrow> bool" where
  "env \<equiv> npc_env h ipt tbl cn ex"

lemma factories_step:
  assumes "process_step h ix subnets_ok p p'" "factories_inv p"
  shows "factories_inv p'"
  using assms
proof (cases rule: process_step.cases)
  case (KubeStart visit)
  have f: "factory_inv (kubeFactory p)" using assms(2) by (simp add: factories_inv_def)
  note S = Start_inv[OF f KubeStart(4)]
  have "policiesLister (parts p) \<in> snd ` set (informers (fst (kubeFactory p)))"
    using assms(2) by (force simp: factories_inv_def dest: map_of_SomeD)
  then show ?thesis using KubeStart(1) assms(2) S by (simp add: factories_inv_def)
next
  case (ExtStart visit)
  have f: "factory_inv (extFactory p)" using assms(2) by (simp add: factories_inv_def)
  note S = Start_inv[OF f ExtStart(4)]
  have "networksLister (parts p) \<in> snd ` set (informers (fst (extFactory p)))"
    using assms(2) by (force simp: factories_inv_def dest: map_of_SomeD)
  then show ?thesis using ExtStart(1) assms(2) S by (simp add: factories_inv_def)
qed (auto simp: factories_inv_def die_def split: go_res.splits)

lemma feed_np:
  assumes "refl_inv as_NP r" "reflect_step as_NP ix r l r'"
  shows "refl_inv as_NP r'" "HasSynced (rFifo r) \<Longrightarrow> HasSynced (rFifo r')"
proof -
  obtain ls where "queue_inv as_NP ls r" using assms(1) by (auto simp: refl_inv_def)
  from np.reflect_step_inv[OF this _ _ _ assms(2)] assms(1)
  show "refl_inv as_NP r'" "HasSynced (rFifo r) \<Longrightarrow> HasSynced (rFifo r')" by (auto simp: refl_inv_def)
qed

lemma feed_ln:
  assumes "refl_inv as_LN r" "reflect_step as_LN ix r l r'"
  shows "refl_inv as_LN r'" "HasSynced (rFifo r) \<Longrightarrow> HasSynced (rFifo r')"
proof -
  obtain ls where "queue_inv as_LN ls r" using assms(1) by (auto simp: refl_inv_def)
  from ln.reflect_step_inv[OF this _ _ _ assms(2)] assms(1)
  show "refl_inv as_LN r'" "HasSynced (rFifo r) \<Longrightarrow> HasSynced (rFifo r')" by (auto simp: refl_inv_def)
qed

text \<open>The loop that pops does not panic.\<close>

lemma pop_calm:
  "refl_inv as_NP r \<Longrightarrow> Pop (HandleDeltas ix) (rFifo r, rInformer r) \<noteq> (PopItem ds (Panic m), f, s)"
  "refl_inv as_LN r \<Longrightarrow> Pop (HandleDeltas ix) (rFifo r, rInformer r) \<noteq> (PopItem ds (Panic m), f, s)"
  using np.Pop_no_panic[of "rFifo r" "rInformer r" ds m f s] ln.Pop_no_panic[of "rFifo r" "rInformer r" ds m f s]
  by (auto simp: refl_inv_def dest: queue_invD(1))

lemma refl_inv_listeners:
  "refl_inv as r \<Longrightarrow> pending_as as ls \<Longrightarrow> refl_inv as (r\<lparr>rInformer := (rInformer r)\<lparr>inf_listeners := ls\<rparr>\<rparr>)"
proof -
  have "queue_inv as l (r\<lparr>rInformer := s\<rparr>) = queue_inv as l r" for l s by (simp add: queue_inv_def split: option.split)
  then show "refl_inv as r \<Longrightarrow> pending_as as ls \<Longrightarrow> refl_inv as (r\<lparr>rInformer := (rInformer r)\<lparr>inf_listeners := ls\<rparr>\<rparr>)" by (simp add: refl_inv_def)
qed

lemma deliver_np:
  assumes "refl_inv as_NP r0" "take_note i (inf_listeners (rInformer r0)) = Some (n, ls)" "event_handler (np_notification n) q = (r, q')"
  shows "r = Ret ()" "well_typed (np_notification n)" "pending_as as_NP ls" "q' = (case item_of (np_notification n) of None \<Rightarrow> q | Some key \<Rightarrow> wq_Add key q)"
proof -
  have t: "inote_as as_NP n \<and> pending_as as_NP ls" using take_note_as[OF assms(2), of as_NP] assms(1) by (simp add: refl_inv_def)
  then show w: "well_typed (np_notification n)" "pending_as as_NP ls" using inote_well_typed(2) by simp_all
  from event_handler_item[OF w(1), of q] assms(3) show "r = Ret ()" "q' = (case item_of (np_notification n) of None \<Rightarrow> q | Some key \<Rightarrow> wq_Add key q)" by simp_all
qed

lemma deliver_ln:
  assumes "refl_inv as_LN r0" "take_note i (inf_listeners (rInformer r0)) = Some (n, ls)" "event_handler (ln_notification n) q = (r, q')"
  shows "r = Ret ()" "well_typed (ln_notification n)" "pending_as as_LN ls" "q' = (case item_of (ln_notification n) of None \<Rightarrow> q | Some key \<Rightarrow> wq_Add key q)"
proof -
  have t: "inote_as as_LN n \<and> pending_as as_LN ls" using take_note_as[OF assms(2), of as_LN] assms(1) by (simp add: refl_inv_def)
  then show w: "well_typed (ln_notification n)" "pending_as as_LN ls" using inote_well_typed(1) by simp_all
  from event_handler_item[OF w(1), of q] assms(3) show "r = Ret ()" "q' = (case item_of (ln_notification n) of None \<Rightarrow> q | Some key \<Rightarrow> wq_Add key q)" by simp_all
qed

lemma informers_step:
  assumes "process_step h ix subnets_ok p p'" "informers_inv p"
  shows "informers_inv p'"
proof -
  have r: "refl_inv as_NP (npRefl p)" "refl_inv as_LN (lnRefl p)" using assms(2) by (simp_all add: informers_inv_def)
  from assms(1) show ?thesis
  proof (cases rule: process_step.cases)
    case (NpFeed l np)
    then show ?thesis using feed_np[OF r(1) NpFeed(4)] assms(2) by (auto simp: informers_inv_def)
  next
    case (LnFeed l ln)
    then show ?thesis using feed_ln[OF r(2) LnFeed(4)] assms(2) by (auto simp: informers_inv_def)
  next
    case (NpDeliver i n ls r q)
    then show ?thesis
      using deliver_np[OF r(1) NpDeliver(3,4)] refl_inv_listeners[OF r(1), of ls] assms(2) by (auto simp: informers_inv_def die_def)
  next
    case (LnDeliver i n ls r q)
    then show ?thesis
      using deliver_ln[OF r(2) LnDeliver(3,4)] refl_inv_listeners[OF r(2), of ls] assms(2) by (auto simp: informers_inv_def die_def)
  qed (use assms(2) in \<open>auto simp: informers_inv_def\<close>)
qed

lemma read_caches_simps [simp]:
  "networkPoliciesLister (read_caches x np ln c) = snapshot as_NP x (inf_store np)"
  "logicalNwLister (read_caches x np ln c) = snapshot as_LN x (inf_store ln)"
  "map_range (read_caches x np ln c) = map_range c" "iptable (read_caches x np ln c) = iptable c"
  by (simp_all add: read_caches_def)

lemma caches_step:
  assumes "process_step h ix subnets_ok p p'" "caches_inv ix mr p"
  shows "caches_inv ix mr p'"
  using assms
proof (cases rule: process_step.cases)
  case (NpFeed l np)
  have "subnets_ok (read_caches ix (rInformer np) (rInformer (lnRefl p)) (controller (sys p)))" using assms(2) by (auto simp: caches_inv_def subnets_ok_def)
  then show ?thesis using NpFeed(1) assms(2) by (simp add: caches_inv_def)
next
  case (LnFeed l ln)
  then show ?thesis using assms(2) by (simp add: caches_inv_def)
next
  case (Chain ipt k)
  then show ?thesis using assms(2) by (auto simp: caches_inv_def subnets_ok_def)
next
  case (Work l s)
  show ?thesis using assms(2) Work(1) worker_step_keeps(2)[OF Work(3)] by (simp add: caches_inv_def)
qed (auto simp: caches_inv_def die_def start_workers_def split: go_res.splits)

abbreviation minv :: "'k process \<Rightarrow> bool" where
  "minv \<equiv> main_inv h ipt tbl cn ex T fs"

abbreviation serves :: "'k npc_sys \<Rightarrow> bool" where
  "serves \<equiv> serving h ipt tbl cn ex (based T fs)"

lemma based_shape: "npc_shape (based T fs)"
  using T_shape by (auto simp: based_def npc_shape_def rule_fits_def ForwardChain_def GenieBaseNPCChain_def short_not_genie)

lemma serves_inv: "serves s \<Longrightarrow> sys_inv h ipt tbl cn ex 2 s"
  by (rule serving_inv[OF _ based_shape])

text \<open>A step of another goroutine than the main one.\<close>

lemma main_inv_update:
  assumes "minv p" "not_exited (mainPc p)" "mainPc p' = mainPc p" "sigPhase p' = sigPhase p"
    and "runRes p' = runRes p" "goroutines (sys p') = goroutines (sys p)"
    and "npSynced p \<longrightarrow> npSynced p'" "lnSynced p \<longrightarrow> lnSynced p'" "stopCh (sys p') = stopCh (sys p)"
    and "kern (sys p') = kern (sys p) \<or> mainPc p = MServe \<or> mainPc p = MReturning"
    and "iptable (controller (sys p')) = iptable (controller (sys p))"
    and "queue_fresh (npcWorkqueue (sys p)) \<Longrightarrow> queue_fresh (npcWorkqueue (sys p')) \<or> mainPc p = MServe \<or> mainPc p = MReturning"
    and "mainPc p = MServe \<or> mainPc p = MReturning \<Longrightarrow> serves (sys p) \<Longrightarrow> serves (sys p')"
  shows "minv p'"
  using assms unfolding main_inv_def by (cases "mainPc p") auto

lemma cache_serves:
  assumes "serves s" "subnets_ok c" "map_range c = map_range (controller s)" "iptable c = iptable (controller s)"
  shows "serves (s\<lparr>controller := c\<rparr>)"
proof -
  have i: "sys_inv h ipt tbl cn ex 2 s" by (rule serves_inv[OF assms(1)])
  then have "env c" using npc_env_read[OF _ assms(3,4,2)] by (auto simp: sys_inv_def)
  moreover have "\<not> crashed s" using i by (simp add: sys_inv_def)
  ultimately have "npc_step h env s Internal (s\<lparr>controller := c\<rparr>)" by (intro npc_step.Cache[OF _ _ assms(4)])
  then show ?thesis by (rule serving_step[OF assms(1)])
qed

lemma notify_serves:
  assumes "serves s" "well_typed ev" "event_handler ev (npcWorkqueue s) = (Ret (), q)"
  shows "serves (s\<lparr>npcWorkqueue := q\<rparr>)"
proof -
  have "\<not> crashed s" using serves_inv[OF assms(1)] by (simp add: sys_inv_def)
  from npc_step.Notify[OF this assms(2,3)] show ?thesis by (rule serving_step[OF assms(1)])
qed

lemma stop_serves: "serves s \<Longrightarrow> serves (s\<lparr>stopCh := True\<rparr>)"
  using serves_inv by (auto simp: sys_inv_def intro: serving_step npc_step.Stop)

lemma return_serves: "serves s \<Longrightarrow> stopCh s \<Longrightarrow> serves (s\<lparr>npcWorkqueue := wq_ShutDown (npcWorkqueue s)\<rparr>)"
  using serves_inv by (auto simp: sys_inv_def intro: serving_step npc_step.Return)

lemma work_serves: "serves s \<Longrightarrow> worker_step h s l s' \<Longrightarrow> serves s'"
  by (auto simp: worker_step_def intro: serving_step npc_step_mono)

lemma base_chain:
  assumes "tbl k = T" "CreateBaseChain h k = (r, k')"
  shows "r = Ret ipt" "tbl k' = based T fs"
  using CreateBaseChain_spec[OF New_ok New_tbl, of k fs] assms T_shape T_forward by (simp_all add: based_def)

lemma enter_serves:
  assumes c: "subnets_ok c" "map_range c = mr" "iptable c = ipt" and q: "queue_fresh q" and k: "tbl k = based T fs"
  shows "serves ((start_workers 2 c q k)\<lparr>stopCh := b\<rparr>)"
proof -
  have "env c"
    using c iptables_tool_axioms mr_perm by (simp add: npc_env_def npc_env_axioms_def npc_host_def npc_host_axioms_def)
  then have s: "serves (start_workers 2 c q k)" unfolding serving_def using q k npc_run.Here by blast
  have "(start_workers 2 c q k)\<lparr>stopCh := False\<rparr> = start_workers 2 c q k" by (simp add: start_workers_def)
  then show ?thesis using s stop_serves[OF s] by (cases b) simp_all
qed

lemma main_step:
  assumes step: "process_step h ix subnets_ok p p'" and inf: "informers_inv p" and cch: "caches_inv ix mr p" and inv: "minv p"
  shows "minv p'"
proof -
  have r: "refl_inv as_NP (npRefl p)" "refl_inv as_LN (lnRefl p)" using inf by (simp_all add: informers_inv_def)
  from step show ?thesis
  proof (cases rule: process_step.cases)
    case (NpFeed l np)
    have "subnets_ok (read_caches ix (rInformer np) (rInformer (lnRefl p)) (controller (sys p)))" using cch by (auto simp: caches_inv_def subnets_ok_def)
    with inv NpFeed(1,2) show ?thesis by (intro main_inv_update[OF inv]) (auto intro: cache_serves)
  next
    case (LnFeed l ln)
    with inv show ?thesis by (intro main_inv_update[OF inv]) (auto intro: cache_serves)
  next
    case (NpPanic ds m f s)
    with pop_calm(1) inf show ?thesis by (auto simp: informers_inv_def)
  next
    case (LnPanic ds m f s)
    with pop_calm(2) inf show ?thesis by (auto simp: informers_inv_def)
  next
    case (NpDeliver i n ls r q)
    note d = deliver_np[OF r(1) NpDeliver(3,4)]
    show ?thesis
      using inv NpDeliver(1,2,4) d queue_fresh_add[of "npcWorkqueue (sys p)" "item_of (np_notification n)"] notify_serves[of "sys p", OF _ d(2)]
      by (intro main_inv_update[OF inv]) (simp_all add: die_def)
  next
    case (LnDeliver i n ls r q)
    note d = deliver_ln[OF r(2) LnDeliver(3,4)]
    show ?thesis
      using inv LnDeliver(1,2,4) d queue_fresh_add[of "npcWorkqueue (sys p)" "item_of (ln_notification n)"] notify_serves[of "sys p", OF _ d(2)]
      by (intro main_inv_update[OF inv]) (simp_all add: die_def)
  next
    case (Chain ipt' k)
    then have "tbl (kern (sys p)) = T" using inv by (simp add: main_inv_def)
    note b = base_chain[OF this Chain(3)]
    show ?thesis using inv Chain(1,2) b by (simp add: main_inv_def)
  next
    case (ChainFails e k)
    then have "tbl (kern (sys p)) = T" using inv by (simp add: main_inv_def)
    from base_chain(1)[OF this ChainFails(3)] show ?thesis by blast
  next
    case (ChainPanics m k)
    then have "tbl (kern (sys p)) = T" using inv by (simp add: main_inv_def)
    from base_chain(1)[OF this ChainPanics(3)] show ?thesis by blast
  next
    case Synced
    have "serves ((start_workers 2 (controller (sys p)) (npcWorkqueue (sys p)) (kern (sys p)))\<lparr>stopCh := stopCh (sys p)\<rparr>)"
      by (rule enter_serves) (use inv cch Synced(2) in \<open>auto simp: main_inv_def caches_inv_def\<close>)
    with Synced inv show ?thesis by (simp add: main_inv_def)
  next
    case (Work l s)
    have sv: "serves (sys p)" using inv Work(2) by (auto simp: main_inv_def)
    have s': "serves s" by (rule work_serves[OF sv Work(3)])
    then have "\<not> crashed s" using serves_inv by (simp add: sys_inv_def)
    with s' inv Work(1,2) worker_step_keeps(1)[OF Work(3)] show ?thesis by (auto simp: main_inv_def)
  next
    case FirstSignal
    with inv stop_serves show ?thesis by (cases "mainPc p") (auto simp: main_inv_def)
  next
    case Returns
    with inv return_serves show ?thesis by (auto simp: main_inv_def)
  qed (use inv in \<open>auto simp: main_inv_def exit_inv_def split: main_pc.splits signal_phase.splits\<close>)
qed

definition proc_inv :: "'k process \<Rightarrow> bool" where
  "proc_inv p \<longleftrightarrow> factories_inv p \<and> informers_inv p \<and> caches_inv ix mr p \<and> minv p"

lemma proc_steps: "(process_step h ix subnets_ok)\<^sup>*\<^sup>* p p' \<Longrightarrow> proc_inv p \<Longrightarrow> proc_inv p'"
  by (induction rule: rtranclp_induct) (auto simp: proc_inv_def intro: factories_step informers_step caches_step main_step)

text \<open>The state in which \<open>main\<close> calls \<open>Run\<close>.\<close>

lemma NewNpcController_parts:
  assumes "NewNpcController (NewSharedInformerFactory d, new_world) (NewSharedInformerFactory d, new_world) = (ps, kube, ext')"
  shows "factory_inv kube" "factory_inv ext'" "map_of (informers (fst kube)) T_NetworkPolicy = Some (policiesLister ps)"
    "policiesSynced ps = policiesLister ps" "policiesHandlers ps = policiesLister ps"
    "map_of (informers (fst ext')) T_LogicalNetwork = Some (networksLister ps)"
    "networksSynced ps = networksLister ps" "networksHandlers ps = networksLister ps"
  using assms
  by (auto simp: NewNpcController_def networkPolicyInformer_Informer_def logicalNetworkInformer_Informer_def InformerFor_def
      NewSharedInformerFactory_def NewSharedInformerFactoryWithOptions_def new_world_def Let_def factory_inv_def
      defaultInformer_def NewFilteredLogicalNetworkInformer_def)

abbreviation fresh_informer :: inf_state where
  "fresh_informer \<equiv> AddEventHandler ix (new_informer ns_indexers)"

lemma fresh_store: "inf_store fresh_informer = NewThreadSafeStore ns_indexers" "store_ok (inf_store fresh_informer)"
  "map_of (items (inf_store fresh_informer)) = Map.empty" "snapshot as ix (inf_store fresh_informer) = []"
proof -
  have "tsm_List visit (NewThreadSafeStore ns_indexers) = []" using visit_perm[of "[]"] by (simp add: tsm_List_def NewThreadSafeStore_def)
  then show "snapshot as ix (inf_store fresh_informer) = []"
    by (simp add: snapshot_def AddEventHandler_def new_informer_def cache_ops_def List.map_filter_def)
  show "inf_store fresh_informer = NewThreadSafeStore ns_indexers" "store_ok (inf_store fresh_informer)"
    "map_of (items (inf_store fresh_informer)) = Map.empty"
    using store_ok_New by (simp_all add: AddEventHandler_def new_informer_def) (simp add: NewThreadSafeStore_def)
qed

lemma refl_inv_new: "refl_inv as (new_reflector fresh_informer)"
  unfolding refl_inv_def
proof (intro conjI exI)
  show "queue_inv as [] (new_reflector fresh_informer)" by (rule queue_inv_new)
qed (use fresh_store(2,3) in \<open>simp_all add: new_reflector_def all_as_def\<close>, simp add: AddEventHandler_def new_informer_def pending_as_def)

lemma proc_init:
  assumes "main_init ix mr t cfg kc closed k = Inl (Ret p)" "tbl k = T"
  shows "proc_inv p" "npRefl p = new_reflector fresh_informer" "lnRefl p = new_reflector fresh_informer"
proof -
  obtain ps kube ext' where c: "NewNpcController (NewSharedInformerFactory resyncPeriod, new_world) (NewSharedInformerFactory resyncPeriod, new_world) = (ps, kube, ext')"
    by (rule prod_cases3)
  have p: "p = \<lparr>kubeFactory = kube, extFactory = ext', kubeStartPending = True, extStartPending = True, parts = ps,
                npRefl = new_reflector (AddEventHandler ix (new_informer ns_indexers)),
                lnRefl = new_reflector (AddEventHandler ix (new_informer ns_indexers)),
                npSynced = False, lnSynced = False, mainPc = MChain, runRes = None, sigPhase = AwaitsFirst,
                sys = start_workers 0 (zero_npc mr) NewNamed k\<rparr>"
    using assms(1) c unfolding main_init_def by (auto split: go_res.splits sum.splits option.splits prod.splits)
  have "factories_inv p" using NewNpcController_parts[OF c] by (simp add: p factories_inv_def)
  moreover have "informers_inv p" using refl_inv_new[of as_NP] refl_inv_new[of as_LN] by (simp add: p informers_inv_def)
  moreover have "caches_inv ix mr p"
    using fresh_store(4)[of as_NP] fresh_store(4)[of as_LN]
    by (simp add: p caches_inv_def start_workers_def zero_npc_def subnets_ok_def new_reflector_def)
  moreover have "minv p"
    using assms(2) wq_inv_NewNamed by (simp add: p main_inv_def start_workers_def queue_fresh_def) (simp add: NewNamed_def)
  ultimately show "proc_inv p" by (simp add: proc_inv_def)
  show "npRefl p = new_reflector fresh_informer" "lnRefl p = new_reflector fresh_informer" by (simp_all add: p)
qed

text \<open>A first list without objects makes an informer synchronised.\<close>

lemma first_feed:
  "reflect_step as ix (new_reflector fresh_informer) (Listed []) ((new_reflector fresh_informer)\<lparr>rFifo := no_item, rWatching := True\<rparr>)"
  "HasSynced no_item"
proof -
  have k: "ix_ListKeys ix (inf_store fresh_informer) = []" by (rule ln.empty_keys[OF fresh_store(2,3)])
  have "fifo_Replace ix (inf_store fresh_informer) [] NewDeltaFIFO = (Ret (), no_item)"
    by (simp add: fifo_Replace_def k NewDeltaFIFO_def no_item_def go_simps)
  from reflect_step.List[of "new_reflector fresh_informer" as "[]" ix "Ret ()" no_item "[]"] this
  show "reflect_step as ix (new_reflector fresh_informer) (Listed []) ((new_reflector fresh_informer)\<lparr>rFifo := no_item, rWatching := True\<rparr>)"
    by (simp add: new_reflector_def)
  show "HasSynced no_item" by (simp add: no_item_def HasSynced_def)
qed

end

end
