(* ===== verification/NpcAuthority.thy ===== *)
theory NpcAuthority
  imports NpcRefine
begin

text \<open>
  Where the rules of the controller's chains come from. A rule is authorised when an annotation of a
  policy in the cache, or a logical network in the cache, calls for it; a run of \<open>syncHandler\<close> adds
  authorised rules only. The proof is on the abstract steps.
\<close>

section \<open>Invariants of abstract steps\<close>

definition st_inv :: "(chains \<Rightarrow> bool) \<Rightarrow> step \<Rightarrow> bool" where
  "st_inv I a \<longleftrightarrow> (\<forall>T. I T \<longrightarrow> I (snd (a T)))"

lemma st_invI: "(\<And>T. I T \<Longrightarrow> I (snd (a T))) \<Longrightarrow> st_inv I a"
  by (simp add: st_inv_def)

lemma st_invD: "st_inv I a \<Longrightarrow> I T \<Longrightarrow> I (snd (a T))"
  by (simp add: st_inv_def)

lemma st_inv_ok [intro]: "st_inv I st_ok"
  and st_inv_fail [intro]: "st_inv I st_fail"
  and st_inv_then [intro]: "st_inv I a \<Longrightarrow> st_inv I b \<Longrightarrow> st_inv I (st_then a b)"
  and st_inv_log [intro]: "st_inv I a \<Longrightarrow> st_inv I (st_log a)"
  and st_inv_guard [intro]: "st_inv I a \<Longrightarrow> st_inv I b \<Longrightarrow> st_inv I (st_guard a b)"
  by (auto simp: st_inv_def st_defs st_guard_def)

lemma st_inv_each [intro]: "(\<And>x. x \<in> set xs \<Longrightarrow> st_inv I (f x)) \<Longrightarrow> st_inv I (st_each f xs)"
  by (induction xs) auto

section \<open>Authorised rules\<close>

text \<open>The networks of the cached policies of a namespace: name of the policy, selector, peers.\<close>

definition policy_entry :: "NetworkPolicyController \<Rightarrow> string \<Rightarrow> string \<Rightarrow> string \<Rightarrow> string list \<Rightarrow> bool" where
  "policy_entry npc ns name sel peers \<longleftrightarrow>
     (\<exists>np nw. np \<in> set (NetworkPolicies_List (networkPoliciesLister npc) ns) \<and> Name (npMeta np) = name
        \<and> getLogicalNetworksFromAnnotation (map_get (Annotations (npMeta np)) GenieNetworkPolicy) = Inr nw
        \<and> (sel, peers) \<in> set nw)"

inductive authorised :: "(string \<Rightarrow> string option) \<Rightarrow> NetworkPolicyController \<Rightarrow> string \<Rightarrow> string \<Rightarrow> rule \<Rightarrow> bool"
  for cn npc ns where
  peer_from: "policy_entry npc ns name sel peers \<Longrightarrow> peer \<in> set peers \<Longrightarrow>
     LogicalNetworks_Get (logicalNwLister npc) ns (TrimSpace peer) = Inr l \<Longrightarrow> cn (SubSubnet (lnSpec l)) = Some s \<Longrightarrow>
     authorised cn npc ns (plc_chain name ns) (from_net s ''ACCEPT'')"
| peer_to: "policy_entry npc ns name sel peers \<Longrightarrow> peer \<in> set peers \<Longrightarrow>
     LogicalNetworks_Get (logicalNwLister npc) ns (TrimSpace peer) = Inr l \<Longrightarrow> cn (SubSubnet (lnSpec l)) = Some s \<Longrightarrow>
     authorised cn npc ns (plc_chain name ns) (to_net s ''ACCEPT'')"
| link: "policy_entry npc ns name sel peers \<Longrightarrow>
     authorised cn npc ns (ntk_chain (TrimSpace sel) ns) (jump (plc_chain name ns))"
| close: "l \<in> set (logicalNwLister npc) \<Longrightarrow>
     authorised cn npc ns (ntk_chain (Name (lnMeta l)) (Namespace (lnMeta l))) reject"
| gate_to: "l \<in> set (logicalNwLister npc) \<Longrightarrow> cn (SubSubnet (lnSpec l)) = Some s \<Longrightarrow>
     authorised cn npc ns GenieBaseNPCChain (to_net s (ntk_chain (Name (lnMeta l)) (Namespace (lnMeta l))))"
| gate_from: "l \<in> set (logicalNwLister npc) \<Longrightarrow> cn (SubSubnet (lnSpec l)) = Some s \<Longrightarrow>
     authorised cn npc ns GenieBaseNPCChain (from_net s (ntk_chain (Name (lnMeta l)) (Namespace (lnMeta l))))"

text \<open>Every rule of \<open>T\<close> is a rule of \<open>T0\<close> or authorised.\<close>

definition within :: "(string \<Rightarrow> rule \<Rightarrow> bool) \<Rightarrow> chains \<Rightarrow> chains \<Rightarrow> bool" where
  "within A T0 T \<longleftrightarrow>
     (\<forall>c rs r. c \<noteq> [] \<longrightarrow> T c = Some rs \<longrightarrow> r \<in> set rs \<longrightarrow> A c r \<or> (\<exists>rs0. T0 c = Some rs0 \<and> r \<in> set rs0))"

lemma within_refl: "within A T T"
  by (auto simp: within_def)

lemma within_put:
  "within A T0 T \<Longrightarrow> (\<And>r. r \<in> set rs \<Longrightarrow> A c r \<or> (\<exists>rs'. T c = Some rs' \<and> r \<in> set rs')) \<Longrightarrow> within A T0 (T(c \<mapsto> rs))"
  unfolding within_def by (metis fun_upd_apply option.inject)

lemma within_drop: "within A T0 T \<Longrightarrow> within A T0 (T(c := None))"
  by (auto simp: within_def)

lemma within_empty: "within A T0 T \<Longrightarrow> within A T0 (T(c \<mapsto> []))"
  by (auto intro: within_put)

section \<open>The steps stay within\<close>

lemma within_AddPolicyChain [intro]: "st_inv (within A T0) (st_AddPolicyChain P)"
  by (auto simp: st_inv_def st_AddPolicyChain_def intro: within_empty)

lemma within_AddNetworkChain [intro]:
  assumes "A c reject" "\<And>s'. cn s = Some s' \<Longrightarrow> A GenieBaseNPCChain (to_net s' c) \<and> A GenieBaseNPCChain (from_net s' c)"
  shows "st_inv (within A T0) (st_AddNetworkChain cn c s)"
proof (rule st_invI)
  fix T
  assume w: "within A T0 T"
  then have c: "within A T0 (T(c \<mapsto> [reject]))" by (rule within_put) (simp add: assms(1))
  show "within A T0 (snd (st_AddNetworkChain cn c s T))"
  proof (cases "\<exists>s' b. cn s = Some s' \<and> T GenieBaseNPCChain = Some b")
    case True
    then obtain s' b where sb: "cn s = Some s'" "T GenieBaseNPCChain = Some b" by blast
    show ?thesis
    proof (cases "c = GenieBaseNPCChain")
      case True
      with sb assms(2)[OF sb(1)] w show ?thesis
        by (auto simp: st_AddNetworkChain_def intro: within_put)
    next
      case False
      have "within A T0 (T(c \<mapsto> [reject], GenieBaseNPCChain \<mapsto> add_last (from_net s' c) (add_last (to_net s' c) b)))"
        by (rule within_put[OF c]) (use False sb assms(2)[OF sb(1)] in auto)
      with sb show ?thesis by (simp add: st_AddNetworkChain_def)
    qed
  next
    case False
    with c show ?thesis by (auto simp: st_AddNetworkChain_def split: option.split)
  qed
qed

lemma within_InsertRule [intro]: "c = [] \<or> A c (jump P) \<Longrightarrow> st_inv (within A T0) (st_InsertRule c P)"
  by (auto simp: st_inv_def st_InsertRule_def within_def add_first_def split: option.split if_splits)

lemma within_DeleteIptableChain [intro]: "st_inv (within A T0) (st_DeleteIptableChain c)"
  by (auto simp: st_inv_def st_DeleteIptableChain_def intro: within_empty within_drop)

lemma within_DeleteNetworkChain [intro]: "st_inv (within A T0) (st_DeleteNetworkChain c)"
proof (rule st_invI)
  fix T
  assume w: "within A T0 T"
  show "within A T0 (snd (st_DeleteNetworkChain c T))"
  proof (cases "T GenieBaseNPCChain")
    case (Some b)
    have "within A T0 (T(GenieBaseNPCChain \<mapsto> drop_first 2 (\<lambda>r. target r = c) b))"
      by (rule within_put[OF w]) (use Some set_drop_first in \<open>fastforce\<close>)
    then have "within A T0 (snd (st_DeleteIptableChain c (T(GenieBaseNPCChain \<mapsto> drop_first 2 (\<lambda>r. target r = c) b))))"
      by (rule st_invD[OF within_DeleteIptableChain])
    with Some show ?thesis by (simp add: st_DeleteNetworkChain_def)
  qed (simp add: w st_DeleteNetworkChain_def)
qed

lemma within_DeleteNetworkChainRule [intro]: "st_inv (within A T0) (st_DeleteNetworkChainRule c P)"
proof (rule st_invI)
  fix T
  assume w: "within A T0 T"
  show "within A T0 (snd (st_DeleteNetworkChainRule c P T))"
  proof (cases "T c")
    case (Some rs)
    have r: "within A T0 (T(c \<mapsto> remove1 (jump P) rs))"
      by (rule within_put[OF w]) (use Some set_remove1_subset[of "jump P" rs] in auto)
    then have "within A T0 (snd (st_DeleteNetworkChain c (T(c \<mapsto> remove1 (jump P) rs))))"
      by (rule st_invD[OF within_DeleteNetworkChain])
    with r Some show ?thesis
      by (auto simp: st_DeleteNetworkChainRule_def Let_def)
  qed (simp add: w st_DeleteNetworkChainRule_def)
qed

lemma within_insertPeerRule [intro]:
  "(\<And>s'. cn s = Some s' \<Longrightarrow> A P (from_net s' ''ACCEPT'') \<and> A P (to_net s' ''ACCEPT'')) \<Longrightarrow>
   st_inv (within A T0) (st_insertPeerRule cn P s)"
  by (auto simp: st_inv_def st_insertPeerRule_def intro: within_put split: option.split)

lemma within_delete_subnet [intro]: "st_inv (within A T0) (st_delete_subnet ex P s)"
proof (rule st_invI)
  fix T
  assume w: "within A T0 T"
  show "within A T0 (snd (st_delete_subnet ex P s T))"
  proof (cases "T P")
    case (Some rs)
    have "within A T0 (T(P \<mapsto> drop_first n Q rs))" for n Q
      by (rule within_put[OF w]) (use Some set_drop_first[of n Q rs] in auto)
    with Some show ?thesis by (simp add: st_delete_subnet_def)
  qed (simp add: w st_delete_subnet_def)
qed

lemma within_unlink [intro]: "st_inv (within A T0) (st_unlink P)"
proof (rule st_invI)
  fix T
  assume w: "within A T0 T"
  have "st_inv (within A T0) (st_each (\<lambda>c. st_log (st_DeleteNetworkChainRule c P)) cs)" for cs by blast
  with w show "within A T0 (snd (st_unlink P T))"
    by (auto simp: st_unlink_def st_inv_def split: option.split)
qed

section \<open>Keys of cached objects\<close>

text \<open>Names and namespaces of Kubernetes objects have no slash, and names are not empty.\<close>

definition meta_ok :: "ObjectMeta \<Rightarrow> bool" where
  "meta_ok m = (Name m \<noteq> [] \<and> CHR ''/'' \<notin> set (Name m) \<and> CHR ''/'' \<notin> set (Namespace m))"

definition names_ok :: "NetworkPolicyController \<Rightarrow> bool" where
  "names_ok npc = (list_all (\<lambda>p. meta_ok (npMeta p)) (networkPoliciesLister npc) \<and> list_all (\<lambda>l. meta_ok (lnMeta l)) (logicalNwLister npc))"

lemma key_names:
  assumes "meta_ok m" "namespace_key m = ns @ ''/'' @ name"
  shows "Namespace m = ns" "Name m = name"
proof -
  have "CHR ''/'' \<in> set (namespace_key m)" using assms(2) by simp
  then have n: "Namespace m \<noteq> []" using assms(1) by (auto simp: namespace_key_def meta_ok_def)
  with assms have e: "Namespace m @ CHR ''/'' # Name m = ns @ CHR ''/'' # name"
    by (simp add: namespace_key_def)
  have no: "CHR ''/'' \<notin> set (Namespace m)" "CHR ''/'' \<notin> set (Name m)" using assms(1) by (auto simp: meta_ok_def)
  from arg_cong[OF e, of "\<lambda>s. Split s ''/''"] no
  have "[Namespace m, Name m] = Split (ns @ CHR ''/'' # name) ''/''" by (simp add: Split_append Split_no_sep)
  moreover have "CHR ''/'' \<notin> set ns"
  proof
    assume "CHR ''/'' \<in> set ns"
    then obtain a b where "ns = a @ CHR ''/'' # b" "CHR ''/'' \<notin> set a" by (metis split_list_first)
    then have "[Namespace m, Name m] = a # Split (b @ CHR ''/'' # name) ''/''"
      using calculation by (simp add: Split_append)
    moreover have "Split (b @ CHR ''/'' # name) ''/'' = [Name m] \<Longrightarrow> False"
      using Join_Split[of "''/''" "b @ CHR ''/'' # name"] no by auto
    ultimately show False by auto
  qed
  ultimately have "[Namespace m, Name m] = ns # Split name ''/''" by (simp add: Split_append)
  then have "Namespace m = ns" and s: "Split name ''/'' = [Name m]" by auto
  then show "Namespace m = ns" "Name m = name"
    using Join_Split[of "''/''" name] unfolding s by auto
qed

lemma LogicalNetworks_Get_names:
  assumes "names_ok npc" "LogicalNetworks_Get (logicalNwLister npc) ns n = Inr l"
  shows "l \<in> set (logicalNwLister npc)" "Namespace (lnMeta l) = ns" "Name (lnMeta l) = n" "n \<noteq> []"
proof -
  note m = LogicalNetworks_Get_mem[OF assms(2)]
  then show "l \<in> set (logicalNwLister npc)" by simp
  then have ok: "meta_ok (lnMeta l)" using assms(1) by (auto simp: names_ok_def list_all_iff)
  with m key_names show "Namespace (lnMeta l) = ns" "Name (lnMeta l) = n" by blast+
  with ok show "n \<noteq> []" by (auto simp: meta_ok_def)
qed

lemma networks_of_entry:
  assumes ok: "names_ok npc" and nw: "networks_of npc name ns = Some nw" and e: "(sel, peers) \<in> set nw"
  shows "policy_entry npc ns name sel peers"
proof -
  from nw obtain np where np: "NetworkPolicies_Get (networkPoliciesLister npc) ns name = Inr np"
      "getLogicalNetworksFromAnnotation (map_get (Annotations (npMeta np)) GenieNetworkPolicy) = Inr nw"
    by (auto simp: networks_of_def split: sum.splits)
  then have mem: "np \<in> set (networkPoliciesLister npc)" "namespace_key (npMeta np) = ns @ ''/'' @ name"
    by (auto simp: NetworkPolicies_Get_def find_Some_iff split: option.splits)
  then have "meta_ok (npMeta np)" using ok by (auto simp: names_ok_def list_all_iff)
  from key_names[OF this mem(2)] mem(1) np(2) e show ?thesis
    by (auto simp: policy_entry_def NetworkPolicies_List_def)
qed

section \<open>The handlers\<close>

lemma within_peer:
  assumes "policy_entry npc ns name sel peers" "peer \<in> set peers"
  shows "st_inv (within (authorised cn npc ns) T0) (st_peer cn (logicalNwLister npc) ns (plc_chain name ns) peer)"
  using assms by (auto simp: st_peer_def split: sum.split intro!: st_inv_log within_insertPeerRule
      intro: authorised.peer_from authorised.peer_to)

lemma map_of_peers: "peers_of nw name \<noteq> [] \<Longrightarrow> (name, peers_of nw name) \<in> set nw"
  by (auto simp: peers_of_def map_of_SomeD split: option.splits)

text \<open>What the entries of \<open>ListNetworkPolicies\<close> stand for.\<close>

lemma policy_infos_None:
  assumes "name \<noteq> []" "info \<in> set (policy_infos npc name np)" "Networks info = None"
    and "\<And>m. set (map_range npc m) = set m"
  shows "\<exists>nw sel peers p. getLogicalNetworksFromAnnotation (map_get (Annotations (npMeta np)) GenieNetworkPolicy) = Inr nw
    \<and> (sel, peers) \<in> set nw \<and> p \<in> set peers \<and> TrimSpace p = name \<and> piName info = Name (npMeta np)"
  using assms by (auto simp: policy_infos_def Let_def peers_of_def split: if_splits sum.splits) blast

lemma ListNetworkPolicies_entry:
  assumes range: "\<And>m. mset (map_range npc m) = mset m" and n: "name \<noteq> []"
    and i: "info \<in> set (ListNetworkPolicies npc name ns)"
  shows "Networks info = Some nw \<Longrightarrow> policy_entry npc ns (piName info) name (peers_of nw name) \<and> peers_of nw name \<noteq> []"
    and "Networks info = None \<Longrightarrow> \<exists>sel peers p. policy_entry npc ns (piName info) sel peers \<and> p \<in> set peers \<and> TrimSpace p = name"
proof -
  obtain np where np: "np \<in> set (NetworkPolicies_List (networkPoliciesLister npc) ns)" "info \<in> set (policy_infos npc name np)"
    using i by (auto simp: ListNetworkPolicies_def)
  let ?a = "map_get (Annotations (npMeta np)) GenieNetworkPolicy"
  have set_range: "set (map_range npc m) = set m" for m using range by (metis set_mset_mset)
  show "Networks info = Some nw \<Longrightarrow> policy_entry npc ns (piName info) name (peers_of nw name) \<and> peers_of nw name \<noteq> []"
    using np n map_of_peers unfolding policy_infos_def policy_entry_def
    by (auto simp: Let_def set_range split: if_splits sum.splits)
  show "Networks info = None \<Longrightarrow> \<exists>sel peers p. policy_entry npc ns (piName info) sel peers \<and> p \<in> set peers \<and> TrimSpace p = name"
    using policy_infos_None[OF n np(2) _ set_range] np(1) unfolding policy_entry_def by metis
qed

lemma within_network_info:
  assumes ok: "names_ok npc" and range: "\<And>m. mset (map_range npc m) = mset m"
    and ln: "LogicalNetworks_Get (logicalNwLister npc) ns name = Inr ln" and n: "name \<noteq> []" "TrimSpace name = name"
    and i: "info \<in> set (ListNetworkPolicies npc name ns)"
  shows "st_inv (within (authorised cn npc ns) T0) (st_network_info cn npc ln name ns info)"
proof (cases "Networks info")
  case None
  with ListNetworkPolicies_entry(2)[OF range n(1) i]
  obtain sel peers p where e: "policy_entry npc ns (piName info) sel peers" "p \<in> set peers" "TrimSpace p = name" by blast
  with ln have "LogicalNetworks_Get (logicalNwLister npc) ns (TrimSpace p) = Inr ln" by simp
  then have "st_inv (within (authorised cn npc ns) T0) (st_insertPeerRule cn (plc_chain (piName info) ns) (SubSubnet (lnSpec ln)))"
    using e by (auto intro!: within_insertPeerRule intro: authorised.peer_from authorised.peer_to)
  with None show ?thesis by (auto simp: st_network_info_def)
next
  case (Some nw)
  note e = ListNetworkPolicies_entry(1)[OF range n(1) i Some]
  note l = LogicalNetworks_Get_names[OF ok ln]
  let ?c = "ntk_chain name ns" and ?P = "plc_chain (piName info) ns"
  let ?A = "within (authorised cn npc ns) T0"
  have add: "st_inv ?A (st_AddNetworkChain cn ?c (SubSubnet (lnSpec ln)))"
    using l authorised.close[of ln npc cn ns] authorised.gate_to[of ln npc cn _ ns] authorised.gate_from[of ln npc cn _ ns]
    by (intro within_AddNetworkChain) auto
  have ins: "st_inv ?A (st_InsertRule (if ok then ?c else []) ?P)" for ok
    using authorised.link[of npc ns "piName info" name "peers_of nw name" cn] e n(2) by (intro within_InsertRule) auto
  have peers: "st_inv ?A (st_each (st_peer cn (logicalNwLister npc) ns ?P) (filter Q (peers_of nw name)))" for Q
    using e by (intro st_inv_each within_peer[of npc ns "piName info" name "peers_of nw name"]) auto
  show ?thesis
    using st_inv_then[OF ins peers] add Some l
    by (auto simp: st_network_info_def st_inv_def Let_def case_prod_beta)
qed


lemma within_NetworkAdd:
  assumes ok: "names_ok npc" and range: "\<And>m. mset (map_range npc m) = mset m"
  shows "st_inv (within (authorised cn npc ns) T0) (st_NetworkAdd cn npc name ns)"
proof (cases "LogicalNetworks_Get (logicalNwLister npc) ns (TrimSpace name)")
  case (Inr ln)
  have "st_inv (within (authorised cn npc ns) T0)
      (st_each (st_network_info cn npc ln (TrimSpace name) ns) (ListNetworkPolicies npc (TrimSpace name) ns))"
    by (intro st_inv_each within_network_info[OF ok range Inr]) (simp_all add: LogicalNetworks_Get_names(4)[OF ok Inr])
  with Inr show ?thesis by (simp add: st_NetworkAdd_def Let_def)
qed (auto simp: st_NetworkAdd_def Let_def)

lemma within_populate:
  assumes ok: "names_ok npc" and range: "\<And>m. mset (map_range npc m) = mset m"
    and nw: "networks_of npc name ns = Some nw"
  shows "st_inv (within (authorised cn npc ns) T0) (st_populate cn npc ns (plc_chain name ns) nw)"
  unfolding st_populate_def
proof (rule st_inv_each)
  fix entry
  assume "entry \<in> set (map_range npc nw)"
  then have "(fst entry, snd entry) \<in> set nw" using range by (metis prod.collapse set_mset_mset)
  then have e: "policy_entry npc ns name (fst entry) (snd entry)" by (rule networks_of_entry[OF ok nw])
  let ?c = "ntk_chain (TrimSpace (fst entry)) ns" and ?A = "within (authorised cn npc ns) T0"
  have "st_inv ?A (st_guard a (st_each (st_peer cn (logicalNwLister npc) ns (plc_chain name ns)) (snd entry)))"
    if "a = st_NetworkAdd cn npc (TrimSpace (fst entry)) ns \<or> a = st_InsertRule ?c (plc_chain name ns)" for a
    using that within_NetworkAdd[OF ok range] authorised.link[OF e, of cn]
    by (auto intro!: st_inv_guard st_inv_each within_peer[OF e] within_InsertRule)
  then show "st_inv ?A (st_populate_network cn npc ns (plc_chain name ns) entry)"
    by (auto simp: st_inv_def st_populate_network_def Let_def)
qed

lemma within_sync:
  assumes ok: "names_ok npc" and range: "\<And>m. mset (map_range npc m) = mset m"
    and ka: "unmarshalKeyActionJson key = Inr ka"
  shows "st_inv (within (authorised cn npc (map_get ka ''namespace'')) T0) (st_sync cn ex npc key)"
proof -
  let ?ns = "map_get ka ''namespace''" and ?name = "map_get ka ''name''"
  let ?I = "st_inv (within (authorised cn npc ?ns) T0)"
  have "?I (st_PolicyAdd cn npc ?name ?ns)" "?I (st_PolicyUpdate cn npc ?name ?ns)"
    using within_populate[OF ok range] by (auto simp: st_PolicyAdd_def st_PolicyUpdate_def split: option.split)
  moreover have "?I (st_PolicyDelete npc ?name ?ns args)" for args
    by (auto simp: st_PolicyDelete_def split: sum.split)
  moreover have "?I (st_NetworkUpdate npc ?name ?ns)"
    by (auto simp: st_NetworkUpdate_def st_inv_def split: sum.split option.split)
  moreover have "?I (st_NetworkDelete ex npc ?name ?ns args)" for args
    unfolding st_NetworkDelete_def by (rule st_inv_each) (auto split: option.split)
  ultimately show ?thesis
    using within_NetworkAdd[OF ok range] ka by (auto simp: st_sync_def Let_def)
qed

end
