(* ===== verification/NpcFunctional.thy ===== *)
theory NpcFunctional
  imports NpcAuthority
begin

text \<open>
  What the handlers achieve, on the abstract steps: the table a policy leaves when it is added, what is
  left of a policy that is deleted or loses its networks, and what the addition of a network does to
  the chain of the network.
\<close>

lemma plc_not_net [simp]: "CreateIptableChainName GeniePolicyPrefix s \<noteq> CreateIptableChainName GenieNetworkPrefix t"
  using net_not_plc ntk_chain_name plc_chain_name by metis

lemma genie_not_base [simp]:
  "CreateIptableChainName GeniePolicyPrefix s \<noteq> GenieBaseNPCChain" "CreateIptableChainName GenieNetworkPrefix s \<noteq> GenieBaseNPCChain"
  by (rule genie_name_ok(4), simp)+

lemmas genie_not_base' [simp] = genie_not_base[symmetric] plc_not_net[symmetric]

section \<open>Adding a policy\<close>

text \<open>The rules the peers of a network call for.\<close>

definition peer_rules :: "(string \<Rightarrow> string option) \<Rightarrow> LogicalNetwork list \<Rightarrow> string \<Rightarrow> string \<Rightarrow> rule list" where
  "peer_rules cn ls ns peer =
     (case LogicalNetworks_Get ls ns (TrimSpace peer) of
        Inl _ \<Rightarrow> []
      | Inr l \<Rightarrow>
          (case cn (SubSubnet (lnSpec l)) of
             None \<Rightarrow> []
           | Some s \<Rightarrow> [from_net s ''ACCEPT'', to_net s ''ACCEPT'']))"

lemma st_peer_exact:
  "T P = Some rs \<Longrightarrow> st_peer cn ls ns P peer T = (True, T(P \<mapsto> fold add_last (peer_rules cn ls ns peer) rs))"
  by (auto simp: st_peer_def st_log_def st_insertPeerRule_def peer_rules_def st_ok_def fun_upd_idem split: sum.split option.split)

lemma st_each_peer_exact:
  "T P = Some rs \<Longrightarrow>
   st_each (st_peer cn ls ns P) peers T = (True, T(P \<mapsto> fold add_last (concat (map (peer_rules cn ls ns) peers)) rs))"
proof (induction peers arbitrary: T rs)
  case Nil
  then show ?case by (simp add: st_ok_def fun_upd_idem)
next
  case (Cons p ps)
  have "st_each (st_peer cn ls ns P) (p # ps) T =
      st_each (st_peer cn ls ns P) ps (T(P \<mapsto> fold add_last (peer_rules cn ls ns p) rs))"
    by (simp add: st_then_def st_peer_exact[of T P rs, OF Cons.prems])
  also have "\<dots> = (True, T(P \<mapsto> fold add_last (concat (map (peer_rules cn ls ns) (p # ps))) rs))"
    by (subst Cons.IH) simp_all
  finally show ?case .
qed

lemma set_fold_add_last [simp]: "set (fold add_last xs ys) = set xs \<union> set ys"
  by (induction xs arbitrary: ys) auto

lemma add_first_idem [simp]: "add_first x (add_first x xs) = add_first x xs"
  by (simp add: add_first_def)

text \<open>The networks a list of entries selects, and the rules it calls for.\<close>

definition selects :: "string \<Rightarrow> string list gomap \<Rightarrow> string \<Rightarrow> bool" where
  "selects ns nw c \<longleftrightarrow> (\<exists>(sel, peers) \<in> set nw. TrimSpace sel \<noteq> [] \<and> c = ntk_chain (TrimSpace sel) ns)"

definition called_for :: "(string \<Rightarrow> string option) \<Rightarrow> NetworkPolicyController \<Rightarrow> string \<Rightarrow> string list gomap \<Rightarrow> rule set" where
  "called_for cn npc ns nw =
     (\<Union>(sel, peers) \<in> set nw. if TrimSpace sel = [] then {} else \<Union>p \<in> set peers. set (peer_rules cn (logicalNwLister npc) ns p))"

definition all_linked :: "string \<Rightarrow> string list gomap \<Rightarrow> chains \<Rightarrow> bool" where
  "all_linked ns nw T \<longleftrightarrow> (\<forall>(sel, peers) \<in> set nw. TrimSpace sel \<noteq> [] \<longrightarrow> T (ntk_chain (TrimSpace sel) ns) \<noteq> None)"

lemma st_populate_network_exact:
  assumes "T (plc_chain name ns) = Some rs" "TrimSpace (fst e) \<noteq> [] \<Longrightarrow> T (ntk_chain (TrimSpace (fst e)) ns) \<noteq> None"
  shows "st_populate_network cn npc ns (plc_chain name ns) e T =
    (True, if TrimSpace (fst e) = [] then T
       else T(ntk_chain (TrimSpace (fst e)) ns := map_option (add_first (jump (plc_chain name ns))) (T (ntk_chain (TrimSpace (fst e)) ns)),
              plc_chain name ns \<mapsto> fold add_last (concat (map (peer_rules cn (logicalNwLister npc) ns) (snd e))) rs))"
proof (cases "TrimSpace (fst e) = []")
  case True
  then show ?thesis by (simp add: st_populate_network_def)
next
  case False
  then obtain cs where cs: "T (ntk_chain (TrimSpace (fst e)) ns) = Some cs" using assms(2) by blast
  with False assms(1) show ?thesis
    by (simp add: st_populate_network_def st_guard_def st_InsertRule_def st_each_peer_exact)
qed

lemma st_populate_exact:
  assumes "T (plc_chain name ns) = Some rs" "all_linked ns es T"
  shows "\<exists>rs'. st_each (st_populate_network cn npc ns (plc_chain name ns)) es T =
     (True, \<lambda>c. if c = plc_chain name ns then Some rs'
                else if selects ns es c then map_option (add_first (jump (plc_chain name ns))) (T c) else T c)
     \<and> set rs' = set rs \<union> called_for cn npc ns es"
  using assms
proof (induction es arbitrary: T rs)
  case Nil
  then show ?case by (auto simp: st_ok_def selects_def called_for_def fun_eq_iff)
next
  case (Cons e es)
  let ?P = "plc_chain name ns" and ?sel = "TrimSpace (fst e)"
  let ?c = "ntk_chain ?sel ns"
  show ?case
  proof (cases "?sel = []")
    case True
    then have "st_populate_network cn npc ns ?P e T = (True, T)" by (simp add: st_populate_network_def)
    moreover have "selects ns (e # es) = selects ns es" "called_for cn npc ns (e # es) = called_for cn npc ns es"
      using True by (auto simp: selects_def called_for_def fun_eq_iff)
    moreover have "all_linked ns es T" using Cons.prems(2) by (simp add: all_linked_def)
    ultimately show ?thesis using Cons.IH[of T rs, OF Cons.prems(1)] by (simp add: st_then_def cong: if_cong)
  next
    case False
    let ?rs = "fold add_last (concat (map (peer_rules cn (logicalNwLister npc) ns) (snd e))) rs"
    let ?T = "T(?c := map_option (add_first (jump ?P)) (T ?c), ?P \<mapsto> ?rs)"
    have n: "T ?c \<noteq> None" using Cons.prems(2) False by (auto simp: all_linked_def)
    then have e: "st_populate_network cn npc ns ?P e T = (True, ?T)"
      using st_populate_network_exact[of T name ns rs e cn npc, OF Cons.prems(1)] False by simp
    have "?T x \<noteq> None" if "T x \<noteq> None" for x using that n by simp
    then have l: "all_linked ns es ?T" using Cons.prems(2) unfolding all_linked_def by fastforce
    have "?T ?P = Some ?rs" by simp
    from Cons.IH[of ?T ?rs, OF this l] obtain rs' where ih:
      "st_each (st_populate_network cn npc ns ?P) es ?T =
        (True, \<lambda>c. if c = ?P then Some rs' else if selects ns es c then map_option (add_first (jump ?P)) (?T c) else ?T c)"
      "set rs' = set ?rs \<union> called_for cn npc ns es" by (elim exE conjE)
    have "set rs' = set rs \<union> called_for cn npc ns (e # es)"
      using ih(2) False by (auto simp: called_for_def split: if_splits)
    moreover have "(\<lambda>c. if c = ?P then Some rs' else if selects ns es c then map_option (add_first (jump ?P)) (?T c) else ?T c) =
        (\<lambda>c. if c = ?P then Some rs' else if selects ns (e # es) c then map_option (add_first (jump ?P)) (T c) else T c)"
      using False by (auto simp: fun_eq_iff selects_def option.map_comp comp_def)
    ultimately show ?thesis using e ih(1) by (auto simp: st_then_def)
  qed
qed

lemma selects_range: "mset es = mset nw \<Longrightarrow> selects ns es = selects ns nw"
  and called_for_range: "mset es = mset nw \<Longrightarrow> called_for cn npc ns es = called_for cn npc ns nw"
  and all_linked_range: "mset es = mset nw \<Longrightarrow> all_linked ns es = all_linked ns nw"
  by (drule mset_eq_setD, simp add: selects_def called_for_def all_linked_def fun_eq_iff)+

lemma st_PolicyAdd_exact:
  assumes range: "\<And>m. mset (map_range npc m) = mset m"
    and nw: "networks_of npc name ns = Some nw" and l: "all_linked ns nw T"
  obtains rs where "st_PolicyAdd cn npc name ns T =
      (True, \<lambda>c. if c = plc_chain name ns then Some rs
                 else if selects ns nw c then map_option (add_first (jump (plc_chain name ns))) (T c) else T c)"
    and "set rs = called_for cn npc ns nw"
proof -
  let ?P = "plc_chain name ns" and ?es = "map_range npc nw"
  let ?T = "T(?P \<mapsto> [])"
  have "?T x \<noteq> None" if "T x \<noteq> None" for x using that by simp
  then have "all_linked ns ?es ?T" using l unfolding all_linked_range[OF range] all_linked_def by fastforce
  from st_populate_exact[of ?T name ns "[]", OF _ this, of cn npc] obtain rs where rs:
    "st_each (st_populate_network cn npc ns ?P) ?es ?T =
      (True, \<lambda>c. if c = ?P then Some rs else if selects ns ?es c then map_option (add_first (jump ?P)) (?T c) else ?T c)"
    "set rs = called_for cn npc ns ?es" by auto
  have "(\<lambda>c. if c = ?P then Some rs else if selects ns ?es c then map_option (add_first (jump ?P)) (?T c) else ?T c) =
      (\<lambda>c. if c = ?P then Some rs else if selects ns nw c then map_option (add_first (jump ?P)) (T c) else T c)"
    by (auto simp: fun_eq_iff selects_range[OF range])
  then have "st_PolicyAdd cn npc name ns T =
      (True, \<lambda>c. if c = ?P then Some rs else if selects ns nw c then map_option (add_first (jump ?P)) (T c) else T c)"
    using rs(1) nw by (simp add: st_PolicyAdd_def st_then_def st_AddPolicyChain_def st_populate_def)
  moreover have "set rs = called_for cn npc ns nw" using rs(2) by (simp add: called_for_range[OF range])
  ultimately show ?thesis by (rule that)
qed

text \<open>Filling the policy chain never fails.\<close>

lemma st_each_ok: "(\<And>x T. x \<in> set xs \<Longrightarrow> fst (f x T)) \<Longrightarrow> fst (st_each f xs T)"
  by (induction xs arbitrary: T) (auto simp: st_defs)

lemma st_peer_ok: "fst (st_peer cn ls ns P peer T)"
  by (simp add: st_peer_def st_defs split: sum.split)

lemma st_populate_ok: "fst (st_populate cn npc ns P nw T)"
  unfolding st_populate_def
  by (rule st_each_ok) (auto simp: st_populate_network_def st_guard_def Let_def intro!: st_each_ok st_peer_ok)

section \<open>Deleting a policy\<close>

text \<open>The chains that refer to a chain.\<close>

definition refs_in :: "chains \<Rightarrow> string \<Rightarrow> string set" where
  "refs_in T P = {c. \<exists>rs r. T c = Some rs \<and> r \<in> set rs \<and> target r = P}"

lemma referenced_refs: "referenced T P \<longleftrightarrow> refs_in T P \<noteq> {}"
  by (auto simp: referenced_def refs_in_def)

lemma refs_in_put: "refs_in (T(c \<mapsto> rs)) P = (if P \<in> target ` set rs then insert c (refs_in T P) else refs_in T P - {c})"
  by (auto simp: refs_in_def)

lemma refs_in_drop: "refs_in (T(c := None)) P = refs_in T P - {c}"
  by (auto simp: refs_in_def)

lemma refs_in_put_mono: "set rs' \<subseteq> set rs \<Longrightarrow> T c = Some rs \<Longrightarrow> refs_in (T(c \<mapsto> rs')) P \<subseteq> refs_in T P"
  by (auto simp: refs_in_def split: if_splits)

lemma refs_in_DeleteIptableChain: "refs_in (snd (st_DeleteIptableChain c T)) P \<subseteq> refs_in T P - {c}"
  by (auto simp: st_DeleteIptableChain_def refs_in_put refs_in_drop)

lemma refs_in_DeleteNetworkChain: "refs_in (snd (st_DeleteNetworkChain c T)) P \<subseteq> refs_in T P"
proof (cases "T GenieBaseNPCChain")
  case (Some b)
  have "refs_in (T(GenieBaseNPCChain \<mapsto> drop_first 2 (\<lambda>r. target r = c) b)) P \<subseteq> refs_in T P"
    using Some by (intro refs_in_put_mono) (rule set_drop_first)
  then show ?thesis
    using refs_in_DeleteIptableChain[of c "T(GenieBaseNPCChain \<mapsto> drop_first 2 (\<lambda>r. target r = c) b)" P] Some
    by (auto simp: st_DeleteNetworkChain_def)
qed (simp add: st_DeleteNetworkChain_def)

text \<open>A network chain of the controller's shape jumps to a policy chain by one rule.\<close>

definition single_jumps :: "string \<Rightarrow> chains \<Rightarrow> bool" where
  "single_jumps P T \<longleftrightarrow> (\<forall>c rs. T c = Some rs \<longrightarrow> net_name c \<longrightarrow> distinct rs \<and> (\<forall>r \<in> set rs. target r = P \<longrightarrow> r = jump P))"

lemma npc_shape_single:
  assumes sh: "npc_shape T" and p: "plc_name P"
  shows "single_jumps P T"
  unfolding single_jumps_def
proof (intro allI impI conjI ballI)
  fix c rs r
  assume c: "T c = Some rs" "net_name c"
  show "distinct rs" using npc_shapeD(1)[OF sh c(1)] c(2) by simp
  assume r: "r \<in> set rs" "target r = P"
  have "P \<noteq> ''REJECT''" using p by (auto simp: chain_name_of_def)
  with npc_shapeD(2)[OF sh c(1) r(1)] c(2) r(2) show "r = jump P" by (auto simp: rule_fits_net)
qed

lemma refs_in_DeleteNetworkChainRule:
  assumes s: "single_jumps P T" and c: "net_name c"
  shows "refs_in (snd (st_DeleteNetworkChainRule c P T)) P \<subseteq> refs_in T P - {c}"
proof (cases "T c")
  case None
  then show ?thesis by (auto simp: st_DeleteNetworkChainRule_def refs_in_def)
next
  case (Some rs)
  have "P \<notin> target ` set (remove1 (jump P) rs)"
    using s c Some by (auto simp: single_jumps_def)
  then have "refs_in (T(c \<mapsto> remove1 (jump P) rs)) P = refs_in T P - {c}"
    by (simp add: refs_in_put)
  then show ?thesis
    using refs_in_DeleteNetworkChain[of c "T(c \<mapsto> remove1 (jump P) rs)" P] Some
    by (auto simp: st_DeleteNetworkChainRule_def Let_def)
qed

lemma single_jumps_put:
  "single_jumps P T \<Longrightarrow> (net_name c \<Longrightarrow> distinct rs' \<and> (\<exists>rs. T c = Some rs \<and> set rs' \<subseteq> set rs) \<or> rs' = []) \<Longrightarrow> single_jumps P (T(c \<mapsto> rs'))"
  unfolding single_jumps_def by (metis distinct.simps(1) empty_iff empty_set fun_upd_apply option.inject subsetD)

lemma single_jumps_drop: "single_jumps P T \<Longrightarrow> single_jumps P (T(c := None))"
  by (simp add: single_jumps_def)

lemma single_jumps_DeleteIptableChain: "st_inv (single_jumps P) (st_DeleteIptableChain c)"
  by (auto simp: st_inv_def st_DeleteIptableChain_def intro: single_jumps_put single_jumps_drop)

lemma single_jumps_DeleteNetworkChain: "st_inv (single_jumps P) (st_DeleteNetworkChain c)"
proof (rule st_invI)
  fix T
  assume s: "single_jumps P T"
  show "single_jumps P (snd (st_DeleteNetworkChain c T))"
  proof (cases "T GenieBaseNPCChain")
    case (Some b)
    have "single_jumps P (T(GenieBaseNPCChain \<mapsto> drop_first 2 (\<lambda>r. target r = c) b))"
      by (rule single_jumps_put[OF s]) simp
    then have "single_jumps P (snd (st_DeleteIptableChain c (T(GenieBaseNPCChain \<mapsto> drop_first 2 (\<lambda>r. target r = c) b))))"
      by (rule st_invD[OF single_jumps_DeleteIptableChain])
    with Some show ?thesis by (simp add: st_DeleteNetworkChain_def)
  qed (simp add: s st_DeleteNetworkChain_def)
qed

lemma single_jumps_DeleteNetworkChainRule: "st_inv (single_jumps P) (st_DeleteNetworkChainRule c Q)"
proof (rule st_invI)
  fix T
  assume s: "single_jumps P T"
  show "single_jumps P (snd (st_DeleteNetworkChainRule c Q T))"
  proof (cases "T c")
    case (Some rs)
    have r: "single_jumps P (T(c \<mapsto> remove1 (jump Q) rs))"
      using s Some set_remove1_subset[of "jump Q" rs]
      by (intro single_jumps_put) (auto simp: single_jumps_def distinct_remove1)
    then have "single_jumps P (snd (st_DeleteNetworkChain c (T(c \<mapsto> remove1 (jump Q) rs))))"
      by (rule st_invD[OF single_jumps_DeleteNetworkChain])
    with r Some show ?thesis by (auto simp: st_DeleteNetworkChainRule_def Let_def)
  qed (simp add: s st_DeleteNetworkChainRule_def)
qed

lemma refs_in_unlink_all:
  assumes "single_jumps P T" "\<forall>l \<in> set ls. net_name (f l)"
  shows "refs_in (snd (st_each (\<lambda>l. st_log (st_DeleteNetworkChainRule (f l) P)) ls T)) P \<subseteq> refs_in T P - f ` set ls"
    and "fst (st_each (\<lambda>l. st_log (st_DeleteNetworkChainRule (f l) P)) ls T)"
proof -
  show "refs_in (snd (st_each (\<lambda>l. st_log (st_DeleteNetworkChainRule (f l) P)) ls T)) P \<subseteq> refs_in T P - f ` set ls"
    using assms
  proof (induction ls arbitrary: T)
    case (Cons l ls)
    let ?T = "snd (st_DeleteNetworkChainRule (f l) P T)"
    have "single_jumps P ?T" by (rule st_invD[OF single_jumps_DeleteNetworkChainRule Cons.prems(1)])
    with Cons refs_in_DeleteNetworkChainRule[of P T "f l"] show ?case
      by (auto simp: st_then_def st_log_def)
  qed (simp add: st_ok_def)
qed (auto simp: st_log_def intro!: st_each_ok)

lemma st_PolicyDelete_exact:
  assumes sh: "npc_shape T" and nw: "getLogicalNetworksFromAnnotation annotation = Inr nw"
    and range: "\<And>m. mset (map_range npc m) = mset m"
    and refs: "refs_in T (plc_chain name ns) \<subseteq> {ntk_chain (TrimSpace sel) ns | sel peers. (sel, peers) \<in> set nw}"
  shows "fst (st_PolicyDelete npc name ns annotation T)"
    and "snd (st_PolicyDelete npc name ns annotation T) (plc_chain name ns) = None"
    and "refs_in (snd (st_PolicyDelete npc name ns annotation T)) (plc_chain name ns) = {}"
proof -
  let ?P = "plc_chain name ns" and ?f = "\<lambda>lnw. ntk_chain (TrimSpace lnw) ns"
  let ?loop = "st_each (\<lambda>lnw. st_log (st_DeleteNetworkChainRule (?f lnw) ?P)) (map fst (map_range npc nw)) T"
  have "set (map_range npc nw) = set nw" using range by (metis set_mset_mset)
  then have img: "{ntk_chain (TrimSpace sel) ns | sel peers. (sel, peers) \<in> set nw} = ?f ` set (map fst (map_range npc nw))"
    by (force simp: image_iff)
  have "single_jumps ?P T" by (rule npc_shape_single[OF sh]) simp
  from refs_in_unlink_all[of ?P T "map fst (map_range npc nw)" ?f, OF this] refs
  have l: "fst ?loop" "refs_in (snd ?loop) ?P = {}" unfolding img by auto
  then have "\<not> referenced ((snd ?loop)(?P \<mapsto> [])) ?P" by (simp add: referenced_refs refs_in_put)
  then have d: "st_PolicyDelete npc name ns annotation T = (True, (snd ?loop)(?P := None))"
    using nw l(1) by (simp add: st_PolicyDelete_def st_then_def st_DeleteIptableChain_def)
  show "fst (st_PolicyDelete npc name ns annotation T)" unfolding d by simp
  show "snd (st_PolicyDelete npc name ns annotation T) ?P = None" unfolding d by simp
  show "refs_in (snd (st_PolicyDelete npc name ns annotation T)) ?P = {}"
    unfolding d using l(2) by (simp add: refs_in_drop)
qed

text \<open>A policy whose annotation lists no network any more is taken out of every network chain the base
  chain leads to.\<close>

lemma set_each_once: "set (each_once m xs) = set xs - set m"
  by (induction m xs rule: each_once.induct) auto

lemma st_unlink_exact:
  assumes sh: "npc_shape T" and b: "T GenieBaseNPCChain = Some b" and p: "plc_name P"
  shows "fst (st_unlink P T)" and "refs_in (snd (st_unlink P T)) P \<subseteq> refs_in T P - target ` set b"
proof -
  have "\<forall>c \<in> set (each_once [] (map target b)). net_name c"
    using npc_shapeD(2)[OF sh b] by (auto simp: set_each_once rule_fits_base)
  from refs_in_unlink_all[of P T _ "\<lambda>c. c", OF npc_shape_single[OF sh p] this] b
  show "fst (st_unlink P T)" "refs_in (snd (st_unlink P T)) P \<subseteq> refs_in T P - target ` set b"
    by (auto simp: st_unlink_def set_each_once)
qed

section \<open>Adding a network\<close>

text \<open>What one entry of the list of policies does to the chain of the network.\<close>

definition links_ready :: "string \<Rightarrow> NetworkPolicyInfo list \<Rightarrow> chains \<Rightarrow> bool" where
  "links_ready ns infos T \<longleftrightarrow> T GenieBaseNPCChain \<noteq> None
     \<and> (\<forall>i \<in> set infos. Networks i \<noteq> None \<longrightarrow> T (plc_chain (piName i) ns) \<noteq> None)"

lemma st_each_peer_other: "c \<noteq> P \<Longrightarrow> snd (st_each (st_peer cn ls ns P) ps T) c = T c"
proof (induction ps arbitrary: T)
  case (Cons p ps)
  have "snd (st_peer cn ls ns P p T) c = T c"
    using Cons.prems by (auto simp: st_peer_def st_log_def st_insertPeerRule_def st_ok_def split: sum.split option.split)
  with Cons show ?case by (auto simp: st_then_def)
qed (simp add: st_ok_def)

lemma st_each_peer_keeps: "T Q \<noteq> None \<Longrightarrow> snd (st_each (st_peer cn ls ns P) ps T) Q \<noteq> None"
proof (induction ps arbitrary: T)
  case (Cons p ps)
  have "snd (st_peer cn ls ns P p T) Q \<noteq> None"
    using Cons.prems by (auto simp: st_peer_def st_log_def st_insertPeerRule_def st_ok_def split: sum.split option.split)
  with Cons show ?case by (auto simp: st_then_def)
qed (simp add: st_ok_def)

abbreviation own_chain :: "LogicalNetwork \<Rightarrow> string" where
  "own_chain ln \<equiv> ntk_chain (Name (lnMeta ln)) (Namespace (lnMeta ln))"

lemma network_info_select:
  assumes sub: "cn (SubSubnet (lnSpec ln)) = Some s'" and "Networks i = Some nw" "links_ready ns is T" "i \<in> set is"
  shows "fst (st_network_info cn npc ln name ns i T)"
    and "snd (st_network_info cn npc ln name ns i T) (own_chain ln) = Some [jump (plc_chain (piName i) ns), reject]"
    and "links_ready ns is (snd (st_network_info cn npc ln name ns i T))"
proof -
  let ?P = "plc_chain (piName i) ns" and ?c = "own_chain ln"
  obtain b where b: "T GenieBaseNPCChain = Some b" "T ?P \<noteq> None" using assms by (auto simp: links_ready_def)
  define T1 where "T1 = T(?c \<mapsto> [jump ?P, reject], GenieBaseNPCChain \<mapsto> add_last (from_net s' ?c) (add_last (to_net s' ?c) b))"
  have "?P \<noteq> ''REJECT''" using genie_name_shape(1)[of ?P] by auto
  then have e: "st_network_info cn npc ln name ns i T =
      st_each (st_peer cn (logicalNwLister npc) ns ?P) (filter (\<lambda>p. TrimSpace p \<noteq> []) (peers_of nw name)) T1"
    using b sub assms(2)
    by (auto simp: st_network_info_def Let_def st_AddNetworkChain_def st_then_def st_InsertRule_def add_first_def T1_def fun_upd_twist)
  show "fst (st_network_info cn npc ln name ns i T)" unfolding e by (intro st_each_ok st_peer_ok)
  show "snd (st_network_info cn npc ln name ns i T) ?c = Some [jump ?P, reject]"
    unfolding e by (simp add: st_each_peer_other T1_def)
  have "T1 Q \<noteq> None" if "T Q \<noteq> None" for Q using that by (simp add: T1_def)
  then show "links_ready ns is (snd (st_network_info cn npc ln name ns i T))"
    using assms(3) st_each_peer_keeps unfolding e links_ready_def by blast
qed

lemma network_info_peer:
  assumes "Networks i = None" "links_ready ns is T"
  shows "fst (st_network_info cn npc ln name ns i T)"
    and "snd (st_network_info cn npc ln name ns i T) (own_chain ln) = T (own_chain ln)"
    and "links_ready ns is (snd (st_network_info cn npc ln name ns i T))"
  using assms by (auto simp: st_network_info_def Let_def st_log_def st_insertPeerRule_def links_ready_def split: option.split)

lemma network_infos_ready:
  assumes sub: "cn (SubSubnet (lnSpec ln)) = Some s'"
  shows "set is \<subseteq> set js \<Longrightarrow> links_ready ns js T \<Longrightarrow>
     fst (st_each (st_network_info cn npc ln name ns) is T)
     \<and> links_ready ns js (snd (st_each (st_network_info cn npc ln name ns) is T))
     \<and> ((\<forall>i \<in> set is. Networks i = None) \<longrightarrow> snd (st_each (st_network_info cn npc ln name ns) is T) (own_chain ln) = T (own_chain ln))"
proof (induction "is" arbitrary: T)
  case (Cons i "is")
  let ?T = "snd (st_network_info cn npc ln name ns i T)"
  have i: "fst (st_network_info cn npc ln name ns i T)" "links_ready ns js ?T"
    using network_info_select[of cn ln s', OF sub, of i _ ns js T] network_info_peer[of i ns js T] Cons.prems
    by (cases "Networks i"; auto)+
  have "Networks i = None \<Longrightarrow> ?T (own_chain ln) = T (own_chain ln)"
    using network_info_peer(2)[of i ns js T] Cons.prems by blast
  with i Cons.IH[of ?T] Cons.prems show ?case by (auto simp: st_then_def)
qed (simp add: st_ok_def)

lemma st_each_append: "st_each f (xs @ ys) = st_then (st_each f xs) (st_each f ys)"
  by (induction xs) (auto simp: fun_eq_iff st_then_def)

text \<open>Of the policies that select the network, the last one of the list alone stays linked.\<close>

lemma network_infos_last:
  assumes sub: "cn (SubSubnet (lnSpec ln)) = Some s'" and r: "links_ready ns (pre @ i # post) T"
    and i: "Networks i = Some nw" and post: "\<forall>j \<in> set post. Networks j = None"
  shows "fst (st_each (st_network_info cn npc ln name ns) (pre @ i # post) T)
    \<and> snd (st_each (st_network_info cn npc ln name ns) (pre @ i # post) T) (own_chain ln) =
        Some [jump (plc_chain (piName i) ns), reject]"
proof -
  let ?js = "pre @ i # post" and ?f = "st_network_info cn npc ln name ns"
  let ?T1 = "snd (st_each ?f pre T)"
  let ?T2 = "snd (?f i ?T1)"
  have 1: "fst (st_each ?f pre T)" "links_ready ns ?js ?T1"
    using network_infos_ready[of cn ln s', OF sub, of pre ?js ns T npc name] r by auto
  have 2: "fst (?f i ?T1)" "?T2 (own_chain ln) = Some [jump (plc_chain (piName i) ns), reject]" "links_ready ns ?js ?T2"
    using network_info_select[of cn ln s', OF sub i 1(2), of npc name] by auto
  have 3: "fst (st_each ?f post ?T2)" "snd (st_each ?f post ?T2) (own_chain ln) = ?T2 (own_chain ln)"
    using network_infos_ready[of cn ln s', OF sub, of post ?js ns ?T2 npc name] 2(3) post by auto
  show ?thesis using 1 2 3 by (simp add: st_each_append st_then_def)
qed

section \<open>Deleting a network\<close>

text \<open>The base chain leads to the network's chain by its two rules at most, and nothing else does.\<close>

definition gate_only :: "string \<Rightarrow> chains \<Rightarrow> bool" where
  "gate_only c T \<longleftrightarrow>
     (\<exists>b. T GenieBaseNPCChain = Some b \<and> length (filter (\<lambda>r. target r = c) b) \<le> 2 \<and> refs_in T c \<subseteq> {GenieBaseNPCChain})"

definition gone :: "string \<Rightarrow> chains \<Rightarrow> bool" where
  "gone c T \<longleftrightarrow> T c = None \<and> refs_in T c = {}"

lemma st_DeleteNetworkChain_exact:
  assumes "gate_only c T" "c \<noteq> GenieBaseNPCChain"
  shows "fst (st_DeleteNetworkChain c T)" "gate_only c (snd (st_DeleteNetworkChain c T))"
    "gone c (snd (st_DeleteNetworkChain c T))"
proof -
  obtain b where b: "T GenieBaseNPCChain = Some b" "length (filter (\<lambda>r. target r = c) b) \<le> 2" "refs_in T c \<subseteq> {GenieBaseNPCChain}"
    using assms(1) by (auto simp: gate_only_def)
  let ?b = "filter (\<lambda>r. target r \<noteq> c) b"
  let ?T = "T(GenieBaseNPCChain \<mapsto> ?b)"
  have r: "refs_in ?T c = {}" using b(3) by (auto simp: refs_in_put)
  then have "st_DeleteNetworkChain c T = (True, ?T(c := None))"
    using b by (simp add: st_DeleteNetworkChain_def st_DeleteIptableChain_def drop_first_all referenced_refs refs_in_put)
  then show "fst (st_DeleteNetworkChain c T)" "gate_only c (snd (st_DeleteNetworkChain c T))"
    "gone c (snd (st_DeleteNetworkChain c T))"
    using r assms(2) by (auto simp: gate_only_def gone_def refs_in_drop)
qed

lemma st_delete_subnet_exact:
  assumes "P \<noteq> GenieBaseNPCChain" "P \<noteq> c"
  shows "fst (st_delete_subnet ex P s T)" "gate_only c T \<Longrightarrow> gate_only c (snd (st_delete_subnet ex P s T))"
    "gone c T \<Longrightarrow> gone c (snd (st_delete_subnet ex P s T))"
proof -
  have sub: "refs_in (snd (st_delete_subnet ex P s T)) c \<subseteq> refs_in T c"
  proof (cases "T P")
    case (Some rs)
    then show ?thesis by (simp add: st_delete_subnet_def) (intro refs_in_put_mono[of _ rs] conjI impI set_drop_first; simp)
  qed (simp add: st_delete_subnet_def)
  have other: "snd (st_delete_subnet ex P s T) x = T x" if "x \<noteq> P" for x
    using that by (simp add: st_delete_subnet_def split: option.split)
  show "fst (st_delete_subnet ex P s T)" by (simp add: st_delete_subnet_def split: option.split)
  show "gate_only c T \<Longrightarrow> gate_only c (snd (st_delete_subnet ex P s T))"
    using sub other[of GenieBaseNPCChain] assms unfolding gate_only_def by (metis subset_trans)
  show "gone c T \<Longrightarrow> gone c (snd (st_delete_subnet ex P s T))"
    using sub other[of c] assms unfolding gone_def by (metis subset_empty)
qed

lemma st_NetworkDelete_exact:
  assumes "gate_only (ntk_chain name ns) T"
  shows "fst (st_NetworkDelete ex npc name ns subnet T)"
    and "(\<exists>i \<in> set (ListNetworkPolicies npc name ns). Networks i \<noteq> None) \<Longrightarrow>
      gone (ntk_chain name ns) (snd (st_NetworkDelete ex npc name ns subnet T))"
proof -
  let ?c = "ntk_chain name ns"
  let ?f = "\<lambda>policy. case Networks policy of
      Some _ \<Rightarrow> st_DeleteNetworkChain ?c
    | None \<Rightarrow> st_delete_subnet ex (plc_chain (piName policy) (piNamespace policy)) subnet"
  have step: "fst (?f i T) \<and> gate_only ?c (snd (?f i T)) \<and> (gone ?c T \<or> Networks i \<noteq> None \<longrightarrow> gone ?c (snd (?f i T)))"
    if "gate_only ?c T" for i T
    using that st_DeleteNetworkChain_exact[OF that] st_delete_subnet_exact[of "plc_chain (piName i) (piNamespace i)" ?c]
    by (cases "Networks i") auto
  have "gate_only ?c T \<Longrightarrow> fst (st_each ?f is T) \<and>
      (gone ?c T \<or> (\<exists>i \<in> set is. Networks i \<noteq> None) \<longrightarrow> gone ?c (snd (st_each ?f is T)))" for "is" T
  proof (induction "is" arbitrary: T)
    case (Cons i "is")
    then show ?case using step[of T i] Cons.IH[of "snd (?f i T)"] by (auto simp: st_then_def)
  qed (simp add: st_ok_def)
  from this[OF assms, of "ListNetworkPolicies npc name ns"]
  show "fst (st_NetworkDelete ex npc name ns subnet T)"
    and "(\<exists>i \<in> set (ListNetworkPolicies npc name ns). Networks i \<noteq> None) \<Longrightarrow>
      gone ?c (snd (st_NetworkDelete ex npc name ns subnet T))"
    by (simp_all add: st_NetworkDelete_def)
qed

end
