(* ===== verification/Verdict.thy ===== *)
theory Verdict
  imports NpcFunctional
begin

text \<open>
  What the chains mean for a packet: the walk of the packet filter through a chain, the chains it
  jumps to and back. \<open>mt r\<close> says whether the packet matches the rule \<open>r\<close>. The walk has the number of
  jumps it may nest as its fuel; in a table of the controller's shape two are enough, and more change
  nothing.
\<close>

datatype verdict = Accept | Reject | Pass

fun walk :: "chains \<Rightarrow> (rule \<Rightarrow> bool) \<Rightarrow> nat \<Rightarrow> rule list \<Rightarrow> verdict" where
  "walk T mt d [] = Pass"
| "walk T mt d (r # rs) =
     (if \<not> mt r then walk T mt d rs
      else if target r = ''ACCEPT'' then Accept
      else if target r = ''REJECT'' \<or> target r = ''DROP'' then Reject
      else if target r = ''RETURN'' then Pass
      else (case d of
              0 \<Rightarrow> Pass
            | Suc d' \<Rightarrow>
                (case T (target r) of
                   None \<Rightarrow> walk T mt d rs
                 | Some rs' \<Rightarrow>
                     (case walk T mt d' rs' of Pass \<Rightarrow> walk T mt d rs | v \<Rightarrow> v))))"

definition packet_match :: "(string \<Rightarrow> 'a \<Rightarrow> bool) \<Rightarrow> 'a \<times> 'a \<Rightarrow> rule \<Rightarrow> bool" where
  "packet_match inn pk r = (pred_option (\<lambda>n. inn n (fst pk)) (src r) \<and> pred_option (\<lambda>n. inn n (snd pk)) (dst r))"

section \<open>Policy chains and network chains\<close>

definition accepts :: "chains \<Rightarrow> (rule \<Rightarrow> bool) \<Rightarrow> string \<Rightarrow> bool" where
  "accepts T mt p \<longleftrightarrow> (\<exists>prs. T p = Some prs \<and> (\<exists>r \<in> set prs. mt r))"

lemma walk_policy:
  "\<forall>r \<in> set rs. target r = ''ACCEPT'' \<Longrightarrow> walk T mt d rs = (if \<exists>r \<in> set rs. mt r then Accept else Pass)"
  by (induction rs) auto

lemma genie_not_builtin:
  assumes "net_name c \<or> plc_name c"
  shows "c \<noteq> ''ACCEPT''" "c \<noteq> ''REJECT''" "c \<noteq> ''DROP''" "c \<noteq> ''RETURN''"
  using genie_name_shape(1)[OF assms] by auto

lemma walk_jump_policy:
  assumes sh: "npc_shape T" and p: "plc_name p" "mt (jump p)"
  shows "walk T mt (Suc d) (jump p # rs) = (if accepts T mt p then Accept else walk T mt (Suc d) rs)"
proof (cases "T p")
  case None
  then show ?thesis using p genie_not_builtin[of p] by (simp add: accepts_def)
next
  case (Some prs)
  have "\<forall>r \<in> set prs. target r = ''ACCEPT''"
    using npc_shapeD(2)[OF sh Some] p(1) by (auto simp: rule_fits_plc)
  from walk_policy[OF this] show ?thesis
    using Some p genie_not_builtin[of p] by (simp add: accepts_def)
qed

text \<open>A network chain that is closed: jumps to policy chains, then the rejection of the rest.\<close>

definition closed :: "string list \<Rightarrow> rule list \<Rightarrow> bool" where
  "closed ps rs \<longleftrightarrow> rs = map jump ps @ [reject] \<and> (\<forall>p \<in> set ps. plc_name p)"

lemma walk_network:
  assumes sh: "npc_shape T" and c: "closed ps rs" and m: "\<And>t. mt (jump t)"
  shows "walk T mt (Suc d) rs = (if \<exists>p \<in> set ps. accepts T mt p then Accept else Reject)"
proof -
  have "\<forall>p \<in> set ps. plc_name p \<Longrightarrow>
      walk T mt (Suc d) (map jump ps @ [reject]) = (if \<exists>p \<in> set ps. accepts T mt p then Accept else Reject)"
  proof (induction ps)
    case (Cons p ps)
    then show ?case using walk_jump_policy[OF sh, of p mt d "map jump ps @ [reject]"] m
      by (simp del: walk.simps)
  qed (simp add: m)
  with c show ?thesis by (simp add: closed_def)
qed

section \<open>The base chain\<close>

lemma walk_base:
  assumes sh: "npc_shape T" and m: "\<And>t. mt (jump t)"
    and fits: "\<forall>r \<in> set b. rule_fits GenieBaseNPCChain r"
    and cl: "\<forall>r \<in> set b. \<exists>ps rs. T (target r) = Some rs \<and> closed ps rs"
  shows "walk T mt (Suc (Suc d)) b =
    (case find mt b of
       None \<Rightarrow> Pass
     | Some r \<Rightarrow> if \<exists>p. jump p \<in> set (the (T (target r))) \<and> plc_name p \<and> accepts T mt p then Accept else Reject)"
  using fits cl
proof (induction b)
  case (Cons r b)
  then obtain ps rs where r: "T (target r) = Some rs" "closed ps rs" by auto
  have n: "net_name (target r)" using Cons.prems by (simp add: rule_fits_base)
  have "(\<exists>p \<in> set ps. accepts T mt p) \<longleftrightarrow> (\<exists>p. jump p \<in> set rs \<and> plc_name p \<and> accepts T mt p)"
    using r(2) genie_not_builtin(2) by (auto simp: closed_def image_iff)
  with Cons r n genie_not_builtin[of "target r"] walk_network[OF sh r(2), where mt = mt, OF m]
  show ?case by auto
qed simp

text \<open>Two nested jumps are enough.\<close>

lemma walk_depth_policy: "\<forall>r \<in> set rs. target r = ''ACCEPT'' \<Longrightarrow> walk T mt d rs = walk T mt 0 rs"
  by (simp add: walk_policy)

lemma walk_depth_network:
  assumes sh: "npc_shape T" and c: "net_name c" "\<forall>r \<in> set rs. rule_fits c r"
  shows "walk T mt (Suc d) rs = walk T mt 1 rs"
  using c(2)
proof (induction rs)
  case (Cons r rs)
  then have r: "r = reject \<or> plc_name (target r)" using c(1) by (auto simp: rule_fits_net)
  have "walk T mt d prs = walk T mt 0 prs" if "T (target r) = Some prs" "plc_name (target r)" for prs
    using npc_shapeD(2)[OF sh that(1)] that(2) by (intro walk_depth_policy) (auto simp: rule_fits_plc)
  with Cons r show ?case by (auto split: option.split verdict.split)
qed simp

lemma walk_depth_base:
  assumes sh: "npc_shape T" and b: "\<forall>r \<in> set b. rule_fits GenieBaseNPCChain r" and d: "2 \<le> d"
  shows "walk T mt d b = walk T mt 2 b"
proof -
  have e': "d = Suc (Suc (d - 2))" using d by simp
  then obtain e where e: "d = Suc (Suc e)" by blast
  have "walk T mt (Suc (Suc e)) b = walk T mt (Suc 1) b"
    using b
  proof (induction b)
    case (Cons r b)
    have n: "net_name (target r)" using Cons.prems by (simp add: rule_fits_base)
    have "walk T mt (Suc e) rs = walk T mt 1 rs" if "T (target r) = Some rs" for rs
      using npc_shapeD(2)[OF sh that] n by (intro walk_depth_network[OF sh n]) auto
    with Cons show ?case by (auto split: option.split verdict.split)
  qed simp
  then show ?thesis by (simp add: e numeral_2_eq_2)
qed

section \<open>After a policy is added\<close>

lemma closed_add_first:
  assumes "closed ps rs" "plc_name P"
  obtains ps' where "closed ps' (add_first (jump P) rs)" "set ps' = insert P (set ps)"
proof (cases "P \<in> set ps")
  case True
  then have "add_first (jump P) rs = rs" using assms by (auto simp: closed_def add_first_def)
  with assms(1) True that[of ps] show ?thesis by auto
next
  case False
  then have "jump P \<notin> set rs" using assms genie_not_builtin(2)[of P] by (auto simp: closed_def)
  then have "add_first (jump P) rs = map jump (P # ps) @ [reject]" using assms by (simp add: closed_def add_first_def)
  with assms that[of "P # ps"] show ?thesis by (simp add: closed_def)
qed

lemma walk_after_policy:
  assumes sh: "npc_shape T'" and m: "\<And>t. mt (jump t)"
    and T: "T c = Some rs" "closed ps rs" and n: "net_name c" "plc_name P"
    and T': "T' c = map_option (add_first (jump P)) (T c)" "T' P = Some prs" "set prs = G"
      "\<And>p. plc_name p \<Longrightarrow> p \<noteq> P \<Longrightarrow> T' p = T p"
  shows "walk T' mt (Suc d) (the (T' c)) =
    (if (\<exists>r \<in> G. mt r) \<or> (\<exists>p \<in> set ps - {P}. accepts T mt p) then Accept else Reject)"
proof -
  obtain ps' where ps': "closed ps' (add_first (jump P) rs)" "set ps' = insert P (set ps)"
    using closed_add_first[OF T(2) n(2)] .
  have "accepts T' mt P \<longleftrightarrow> (\<exists>r \<in> G. mt r)" using T'(2,3) by (simp add: accepts_def)
  moreover have "accepts T' mt p = accepts T mt p" if "p \<in> set ps - {P}" for p
    using that T'(4)[of p] T(2) by (auto simp: accepts_def closed_def)
  ultimately have "(\<exists>p \<in> set ps'. accepts T' mt p) \<longleftrightarrow> (\<exists>r \<in> G. mt r) \<or> (\<exists>p \<in> set ps - {P}. accepts T mt p)"
    unfolding ps'(2) by auto
  then show ?thesis
    using walk_network[OF sh ps'(1), where mt = mt and d = d, OF m] T'(1) T(1) by simp
qed

end
