(* ===== verification/NpcProperties.thy ===== *)
theory NpcProperties
  imports Verdict
begin

text \<open>
  The properties of the network policy controller, over its own definitions: the locales' facts written
  out, each with a run on the reference host.
\<close>

section \<open>Tables of the reference host\<close>

text \<open>Two linked networks, before and after the policy of the cluster.\<close>

definition red :: string where "red = ntk_chain ''red'' ''ns''"
definition pol :: string where "pol = plc_chain ''pol'' ''ns''"

definition table0 :: ref_table where
  "table0 = [(GenieBaseNPCChain, [])]"

definition table1 :: ref_table where
  "table1 = [(GenieBaseNPCChain, [to_net ''10.1.0.0/16'' red, from_net ''10.1.0.0/16'' red]), (red, [reject])]"

definition table2 :: ref_table where
  "table2 = [(GenieBaseNPCChain, [to_net ''10.1.0.0/16'' red, from_net ''10.1.0.0/16'' red]), (red, [jump pol, reject]), (pol, [])]"

lemma ref_cn_red: "ref_cn ''10.1.0.0/16'' = Some ''10.1.0.0/16''"
  and ref_cn_blue: "ref_cn ''10.2.0.0/16'' = Some ''10.2.0.0/16''"
  by code_simp+

lemma red_pol [simp]: "net_name red" "plc_name pol" "red \<noteq> pol" "pol \<noteq> red" "GenieBaseNPCChain \<noteq> red" "GenieBaseNPCChain \<noteq> pol"
  "red \<noteq> GenieBaseNPCChain" "pol \<noteq> GenieBaseNPCChain" "pol \<noteq> ''REJECT''"
  by (simp_all add: red_def pol_def genie_not_builtin)

lemma red_eq [simp]: "CreateIptableChainName GenieNetworkPrefix ''redns'' = red" "CreateIptableChainName GeniePolicyPrefix ''polns'' = pol"
  by (simp_all add: red_def pol_def)

lemma clean_tables: "clean table0 = table0" "clean table1 = table1" "clean table2 = table2"
  by (rule clean_id, simp add: table_clean_def table0_def table1_def table2_def rule_ok_def ref_cn_red)+

lemma tbl_tables:
  "ref_tbl table0 = [GenieBaseNPCChain \<mapsto> []]"
  "ref_tbl table1 = [GenieBaseNPCChain \<mapsto> [to_net ''10.1.0.0/16'' red, from_net ''10.1.0.0/16'' red], red \<mapsto> [reject]]"
  "ref_tbl table2 = [GenieBaseNPCChain \<mapsto> [to_net ''10.1.0.0/16'' red, from_net ''10.1.0.0/16'' red], red \<mapsto> [jump pol, reject], pol \<mapsto> []]"
  by (auto simp: ref_tbl_def clean_tables fun_eq_iff) (auto simp: table0_def table1_def table2_def)

lemma shape_tables: "npc_shape (ref_tbl table0)" "npc_shape (ref_tbl table1)" "npc_shape (ref_tbl table2)"
  unfolding tbl_tables
  by (auto simp: npc_shape_def rule_fits_base rule_fits_net rule_fits_plc split: if_splits)

lemma demo_networks: "networks_of demo_npc ''pol'' ''ns'' = Some [(''red'', [''blue''])]"
  by code_simp

lemma demo_names: "names_ok demo_npc"
  by code_simp

lemma TrimSpace_red: "TrimSpace ''red'' = ''red''" "TrimSpace ''blue'' = ''blue''"
  by code_simp+

lemma demo_linked: "all_linked ''ns'' [(''red'', [''blue''])] (ref_tbl table1)"
  by (simp add: all_linked_def TrimSpace_red tbl_tables)

lemma demo_called_for:
  "called_for ref_cn demo_npc ''ns'' [(''red'', [''blue''])] = {from_net ''10.2.0.0/16'' ''ACCEPT'', to_net ''10.2.0.0/16'' ''ACCEPT''}"
proof -
  have "peer_rules ref_cn (logicalNwLister demo_npc) ''ns'' ''blue'' =
      [from_net ''10.2.0.0/16'' ''ACCEPT'', to_net ''10.2.0.0/16'' ''ACCEPT'']" by code_simp
  then show ?thesis by (simp add: called_for_def TrimSpace_red)
qed

lemma demo_selects: "selects ''ns'' [(''red'', [''blue''])] c \<longleftrightarrow> c = red"
  by (simp add: selects_def TrimSpace_red)

text \<open>The parts of the environment's contract.\<close>

lemma npc_env_tool: "npc_env h ipt tbl cn ex npc \<Longrightarrow> iptables_tool h ipt tbl cn ex"
  by (intro npc_host.axioms(1) npc_env.axioms(1))

lemma npc_env_host: "npc_env h ipt tbl cn ex npc \<Longrightarrow> npc_host h ipt tbl cn ex npc"
  by (rule npc_env.axioms(1))

section \<open>Every run of the controller\<close>

text \<open>C1: \<open>syncHandler\<close>, for every work item and every cache, does to the filter table exactly what the
  abstract step \<open>st_sync\<close> says, succeeds exactly when that step succeeds, never panics, and leaves the
  controller's chains in shape.\<close>

theorem syncHandler_refines:
  assumes "npc_env h ipt tbl cn ex npc" "npc_shape (tbl k)"
  shows "(if fst (st_sync cn ex npc key (tbl k)) then fst (syncHandler h npc key k) = Ret ()
          else \<exists>e. fst (syncHandler h npc key k) = Err e)
      \<and> tbl (snd (syncHandler h npc key k)) = snd (st_sync cn ex npc key (tbl k))
      \<and> npc_shape (tbl (snd (syncHandler h npc key k)))"
  using npc_env.refines_sync[OF assms(1), of key] assms(2) unfolding refines_def by blast

definition demo_key :: string where
  "demo_key = Marshal_string_map [(''kind'', ''networkpolicy''), (''name'', ''pol''), (''namespace'', ''ns''),
     (''action'', ''ADD''), (''args'', [])]"

lemma demo_key_parsed: "unmarshalKeyActionJson demo_key =
    Inr (Some [(''action'', ''ADD''), (''args'', []), (''kind'', ''networkpolicy''), (''name'', ''pol''), (''namespace'', ''ns'')])"
  by code_simp

theorem syncHandler_refines_witness:
  "npc_shape (ref_tbl table1) \<and>
   ((if fst (st_sync ref_cn ref_ex demo_npc demo_key (ref_tbl table1)) then fst (syncHandler ref_host demo_npc demo_key table1) = Ret ()
     else \<exists>e. fst (syncHandler ref_host demo_npc demo_key table1) = Err e)
    \<and> ref_tbl (snd (syncHandler ref_host demo_npc demo_key table1)) = snd (st_sync ref_cn ref_ex demo_npc demo_key (ref_tbl table1))
    \<and> npc_shape (ref_tbl (snd (syncHandler ref_host demo_npc demo_key table1))))"
  by (rule conjI[OF shape_tables(2) syncHandler_refines[OF demo.npc_env_axioms shape_tables(2)]])

text \<open>C2: a run of \<open>syncHandler\<close> adds no rule of its own making: every rule of the table it leaves was there
  before, or is called for by an annotation of a cached policy of the namespace or by a cached logical
  network.\<close>

theorem syncHandler_authorised:
  assumes env: "npc_env h ipt tbl cn ex npc" and ok: "names_ok npc" and sh: "npc_shape (tbl k)"
    and ka: "unmarshalKeyActionJson key = Inr ka"
    and rule: "tbl (snd (syncHandler h npc key k)) c = Some rs" "r \<in> set rs"
  shows "authorised cn npc (map_get ka ''namespace'') c r \<or> (\<exists>rs0. tbl k c = Some rs0 \<and> r \<in> set rs0)"
proof -
  let ?A = "authorised cn npc (map_get ka ''namespace'')"
  have "c \<noteq> []" using iptables_tool.stored[OF npc_env_tool[OF env] rule(1)] by (auto simp: name_ok_def)
  moreover have "within ?A (tbl k) (snd (st_sync cn ex npc key (tbl k)))"
    using within_sync[OF ok npc_env.range_all[OF env] ka] within_refl by (rule st_invD)
  moreover have "tbl (snd (syncHandler h npc key k)) = snd (st_sync cn ex npc key (tbl k))"
    using npc_env.refines_sync[OF env] sh by (simp add: refines_def)
  ultimately show ?thesis using rule unfolding within_def by metis
qed

lemma demo_sync_table: "ref_tbl (snd (syncHandler ref_host demo_npc demo_key table1)) = snd (st_PolicyAdd ref_cn demo_npc ''pol'' ''ns'' (ref_tbl table1))"
proof -
  have "st_sync ref_cn ref_ex demo_npc demo_key = st_PolicyAdd ref_cn demo_npc ''pol'' ''ns''"
    by (simp add: st_sync_def demo_key_parsed map_get_def)
  then show ?thesis using demo.refines_sync[of demo_key] shape_tables(2) by (simp add: refines_def)
qed

theorem syncHandler_authorised_witness:
  "\<exists>rs. ref_tbl (snd (syncHandler ref_host demo_npc demo_key table1)) red = Some rs \<and> jump pol \<in> set rs
     \<and> (authorised ref_cn demo_npc ''ns'' red (jump pol) \<or> (\<exists>rs0. ref_tbl table1 red = Some rs0 \<and> jump pol \<in> set rs0))"
proof -
  obtain rs where "st_PolicyAdd ref_cn demo_npc ''pol'' ''ns'' (ref_tbl table1) =
      (True, \<lambda>c. if c = plc_chain ''pol'' ''ns'' then Some rs
         else if selects ''ns'' [(''red'', [''blue''])] c then map_option (add_first (jump (plc_chain ''pol'' ''ns''))) (ref_tbl table1 c)
         else ref_tbl table1 c)"
    by (rule st_PolicyAdd_exact[OF demo.range_all demo_networks demo_linked, of ref_cn])
  note this[unfolded demo_selects, folded pol_def]
  then have run: "ref_tbl (snd (syncHandler ref_host demo_npc demo_key table1)) red = Some [jump pol, reject]"
    unfolding demo_sync_table by (simp add: tbl_tables add_first_def)
  from syncHandler_authorised[OF demo.npc_env_axioms demo_names shape_tables(2) demo_key_parsed run, of "jump pol"] run
  show ?thesis by (auto simp: map_get_def)
qed

section \<open>Policies\<close>

lemma run_PolicyAdd:
  assumes env: "npc_env h ipt tbl cn ex npc" and sh: "npc_shape (tbl k)"
    and nw: "networks_of npc name ns = Some nw" and l: "all_linked ns nw (tbl k)"
  obtains rs where "fst (handleNetworkPolicyAdd h npc name ns k) = Ret ()" "set rs = called_for cn npc ns nw"
    "tbl (snd (handleNetworkPolicyAdd h npc name ns k)) =
       (\<lambda>c. if c = plc_chain name ns then Some rs
            else if selects ns nw c then map_option (add_first (jump (plc_chain name ns))) (tbl k c) else tbl k c)"
    "npc_shape (tbl (snd (handleNetworkPolicyAdd h npc name ns k)))"
proof -
  obtain rs where rs: "st_PolicyAdd cn npc name ns (tbl k) =
      (True, \<lambda>c. if c = plc_chain name ns then Some rs
                 else if selects ns nw c then map_option (add_first (jump (plc_chain name ns))) (tbl k c) else tbl k c)"
      "set rs = called_for cn npc ns nw"
    using st_PolicyAdd_exact[OF npc_env.range_all[OF env] nw l] .
  note r = refinesD[OF npc_env.refines_PolicyAdd[OF env, of name ns], OF sh, unfolded rs(1)]
  show ?thesis by (rule that[OF _ rs(2)]) (use r in auto)
qed

text \<open>C3: adding a policy whose selected networks have their chains leaves exactly this table: the policy
  chain holds the rules its peers call for and no other, the chain of every selected network begins with
  the jump to it (once), and nothing else changes. The handler reports success.\<close>

theorem handleNetworkPolicyAdd_exact:
  assumes "npc_env h ipt tbl cn ex npc" "npc_shape (tbl k)"
    and "networks_of npc name ns = Some nw" "all_linked ns nw (tbl k)"
  shows "fst (handleNetworkPolicyAdd h npc name ns k) = Ret () \<and>
    (\<exists>rs. set rs = called_for cn npc ns nw \<and>
       tbl (snd (handleNetworkPolicyAdd h npc name ns k)) =
         (\<lambda>c. if c = plc_chain name ns then Some rs
              else if selects ns nw c then map_option (add_first (jump (plc_chain name ns))) (tbl k c) else tbl k c))"
  by (rule run_PolicyAdd[OF assms]) blast

theorem handleNetworkPolicyAdd_exact_witness:
  "fst (handleNetworkPolicyAdd ref_host demo_npc ''pol'' ''ns'' table1) = Ret () \<and>
   (\<exists>rs. set rs = {from_net ''10.2.0.0/16'' ''ACCEPT'', to_net ''10.2.0.0/16'' ''ACCEPT''} \<and>
      ref_tbl (snd (handleNetworkPolicyAdd ref_host demo_npc ''pol'' ''ns'' table1)) pol = Some rs \<and>
      ref_tbl (snd (handleNetworkPolicyAdd ref_host demo_npc ''pol'' ''ns'' table1)) red = Some [jump pol, reject])"
  using handleNetworkPolicyAdd_exact[OF demo.npc_env_axioms shape_tables(2) demo_networks demo_linked]
  unfolding demo_called_for demo_selects pol_def[symmetric]
  by (elim conjE exE, intro conjI exI) (auto simp: tbl_tables add_first_def)

text \<open>C4: what a policy means for a packet. After the policy is added, a packet whose first match in the
  base chain leads to a selected network is accepted when a rule the policy's peers call for matches it,
  or a policy linked before accepts it; otherwise it is rejected.\<close>

theorem handleNetworkPolicyAdd_verdict:
  assumes env: "npc_env h ipt tbl cn ex npc" and sh: "npc_shape (tbl k)"
    and nw: "networks_of npc name ns = Some nw" "all_linked ns nw (tbl k)"
    and m: "\<And>t. mt (jump t)"
    and b: "tbl k GenieBaseNPCChain = Some b" "\<And>r. r \<in> set b \<Longrightarrow> \<exists>ps rs. tbl k (target r) = Some rs \<and> closed ps rs"
    and r: "find mt b = Some r" "selects ns nw (target r)" and d: "2 \<le> d"
  shows "walk (tbl (snd (handleNetworkPolicyAdd h npc name ns k))) mt d
      (the (tbl (snd (handleNetworkPolicyAdd h npc name ns k)) GenieBaseNPCChain)) =
    (if (\<exists>g \<in> called_for cn npc ns nw. mt g)
        \<or> (\<exists>p. jump p \<in> set (the (tbl k (target r))) \<and> p \<noteq> plc_chain name ns \<and> plc_name p \<and> accepts (tbl k) mt p)
     then Accept else Reject)"
proof -
  let ?P = "plc_chain name ns" and ?T' = "tbl (snd (handleNetworkPolicyAdd h npc name ns k))"
  obtain rs where rs: "set rs = called_for cn npc ns nw"
      "?T' = (\<lambda>c. if c = ?P then Some rs else if selects ns nw c then map_option (add_first (jump ?P)) (tbl k c) else tbl k c)"
      "npc_shape ?T'"
    using run_PolicyAdd[OF env sh nw] by metis
  have fits: "\<forall>r \<in> set b. rule_fits GenieBaseNPCChain r" using npc_shapeD(2)[OF sh b(1)] by blast
  have net: "net_name (target r)" if "r \<in> set b" for r using fits that by (simp add: rule_fits_base)
  have notP: "target r \<noteq> ?P" if "r \<in> set b" for r using net[OF that] net_not_plc plc_chain_name by metis
  have "\<not> selects ns nw GenieBaseNPCChain" by (auto simp: selects_def)
  then have base: "?T' GenieBaseNPCChain = Some b" using b(1) by (simp add: rs(2))
  have cl: "\<forall>r \<in> set b. \<exists>ps rs. ?T' (target r) = Some rs \<and> closed ps rs"
  proof
    fix r
    assume r: "r \<in> set b"
    obtain ps rs0 where 0: "tbl k (target r) = Some rs0" "closed ps rs0" using b(2)[OF r] by blast
    obtain ps' where "closed ps' (add_first (jump ?P) rs0)" using closed_add_first[OF 0(2) plc_chain_name] .
    then show "\<exists>ps rs. ?T' (target r) = Some rs \<and> closed ps rs"
      using 0 notP[OF r] by (auto simp: rs(2))
  qed
  have rb: "r \<in> set b" using r(1) by (auto simp: find_Some_iff)
  obtain rs0 where 0: "tbl k (target r) = Some rs0" using b(2)[OF rb] by blast
  have T'r: "the (?T' (target r)) = add_first (jump ?P) rs0" using 0 notP[OF rb] r(2) by (simp add: rs(2))
  have acc: "accepts ?T' mt p \<longleftrightarrow> (if p = ?P then \<exists>g \<in> called_for cn npc ns nw. mt g else accepts (tbl k) mt p)"
    if "plc_name p" for p
  proof -
    have "\<not> selects ns nw p" using that net_not_plc ntk_chain_name by (auto simp: selects_def)
    then show ?thesis using rs(1) by (auto simp: accepts_def rs(2))
  qed
  have "walk ?T' mt d b = walk ?T' mt 2 b" by (rule walk_depth_base[OF rs(3) fits d])
  also have "\<dots> = (if \<exists>p. jump p \<in> set (add_first (jump ?P) rs0) \<and> plc_name p \<and> accepts ?T' mt p then Accept else Reject)"
    using walk_base[of ?T' mt b 0, OF rs(3) m fits cl] r(1) T'r by (simp add: numeral_2_eq_2)
  finally show ?thesis using base acc 0 by (auto split: if_splits)
qed

definition demo_packet :: "rule \<Rightarrow> bool" where
  "demo_packet = packet_match (\<lambda>n a. n = a) (''10.2.0.0/16'', ''10.1.0.0/16'')"

lemma demo_packet_simps [simp]: "demo_packet (jump t)" "demo_packet (to_net n t) \<longleftrightarrow> n = ''10.1.0.0/16''" "demo_packet (from_net n t) \<longleftrightarrow> n = ''10.2.0.0/16''"
  by (simp_all add: demo_packet_def packet_match_def)

theorem handleNetworkPolicyAdd_verdict_witness:
  "walk (ref_tbl (snd (handleNetworkPolicyAdd ref_host demo_npc ''pol'' ''ns'' table1))) demo_packet 2
     (the (ref_tbl (snd (handleNetworkPolicyAdd ref_host demo_npc ''pol'' ''ns'' table1)) GenieBaseNPCChain)) = Accept"
proof -
  have cl: "\<exists>ps rs. ref_tbl table1 (target r) = Some rs \<and> closed ps rs"
    if "r \<in> set [to_net ''10.1.0.0/16'' red, from_net ''10.1.0.0/16'' red]" for r
    using that by (auto simp: tbl_tables closed_def)
  have base: "ref_tbl table1 GenieBaseNPCChain = Some [to_net ''10.1.0.0/16'' red, from_net ''10.1.0.0/16'' red]"
    by (simp add: tbl_tables)
  have first: "find demo_packet [to_net ''10.1.0.0/16'' red, from_net ''10.1.0.0/16'' red] = Some (to_net ''10.1.0.0/16'' red)"
    by simp
  show ?thesis
    using handleNetworkPolicyAdd_verdict[OF demo.npc_env_axioms shape_tables(2) demo_networks demo_linked, where mt = demo_packet,
        OF demo_packet_simps(1) base cl first, of 2]
    by (simp add: demo_called_for demo_selects)
qed

text \<open>C5: deleting a policy whose annotation lists every network chain that still jumps to it removes the
  policy chain and every jump to it, and reports success.\<close>

theorem handleNetworkPolicyDelete_complete:
  assumes env: "npc_env h ipt tbl cn ex npc" and sh: "npc_shape (tbl k)"
    and nw: "getLogicalNetworksFromAnnotation annotation = Inr nw"
    and refs: "refs_in (tbl k) (plc_chain name ns) \<subseteq> {ntk_chain (TrimSpace sel) ns | sel peers. (sel, peers) \<in> set nw}"
  shows "fst (handleNetworkPolicyDelete h npc name ns annotation k) = Ret ()
    \<and> tbl (snd (handleNetworkPolicyDelete h npc name ns annotation k)) (plc_chain name ns) = None
    \<and> \<not> referenced (tbl (snd (handleNetworkPolicyDelete h npc name ns annotation k))) (plc_chain name ns)"
proof -
  note e = st_PolicyDelete_exact[OF sh nw npc_env.range_all[OF env] refs]
  note r = refinesD[OF npc_host.refines_PolicyDelete[OF npc_env_host[OF env], of name ns annotation], OF sh]
  show ?thesis unfolding r(3) referenced_refs using r(1)[OF e(1)] e(2,3) by simp
qed

lemma demo_annotation_parsed: "getLogicalNetworksFromAnnotation demo_annotation = Inr [(''red'', [''blue''])]"
  by code_simp

theorem handleNetworkPolicyDelete_complete_witness:
  "fst (handleNetworkPolicyDelete ref_host demo_npc ''pol'' ''ns'' demo_annotation table2) = Ret ()
   \<and> ref_tbl (snd (handleNetworkPolicyDelete ref_host demo_npc ''pol'' ''ns'' demo_annotation table2)) pol = None
   \<and> \<not> referenced (ref_tbl (snd (handleNetworkPolicyDelete ref_host demo_npc ''pol'' ''ns'' demo_annotation table2))) pol"
proof -
  have "refs_in (ref_tbl table2) pol \<subseteq> {ntk_chain (TrimSpace sel) ''ns'' | sel peers. (sel, peers) \<in> set [(''red'', [''blue''])]}"
    by (auto simp: refs_in_def tbl_tables TrimSpace_red split: if_splits)
  from handleNetworkPolicyDelete_complete[OF demo.npc_env_axioms shape_tables(3) demo_annotation_parsed, of "''pol''" "''ns''",
      unfolded pol_def[symmetric], OF this]
  show ?thesis .
qed

text \<open>C6: updating a policy to an annotation without networks empties its chain and takes its jump out of
  every network chain the base chain leads to; the handler reports success.\<close>

theorem handleNetworkPolicyUpdate_unlinks:
  assumes env: "npc_env h ipt tbl cn ex npc" and sh: "npc_shape (tbl k)"
    and nw: "networks_of npc name ns = Some []" and b: "tbl k GenieBaseNPCChain = Some b"
  shows "fst (handleNetworkPolicyUpdate h npc name ns k) = Ret ()
    \<and> refs_in (tbl (snd (handleNetworkPolicyUpdate h npc name ns k))) (plc_chain name ns) \<inter> target ` set b = {}"
proof -
  let ?P = "plc_chain name ns"
  let ?T = "(tbl k)(?P \<mapsto> [])"
  have sh': "npc_shape ?T" by (rule npc_shape_put[OF sh]) auto
  have b': "?T GenieBaseNPCChain = Some b" using b by simp
  have st: "st_PolicyUpdate cn npc name ns (tbl k) = st_unlink ?P ?T"
    by (simp add: st_PolicyUpdate_def nw st_then_def st_AddPolicyChain_def)
  have "fst (st_unlink ?P ?T)" "refs_in (snd (st_unlink ?P ?T)) ?P \<subseteq> refs_in ?T ?P - target ` set b"
    by (intro st_unlink_exact[OF sh' b'] plc_chain_name)+
  note u = this
  note r = refinesD[OF npc_env.refines_PolicyUpdate[OF env, of name ns], OF sh, unfolded st]
  show ?thesis unfolding r(3) using r(1)[OF u(1)] u(2) by auto
qed

definition empty_npc :: NetworkPolicyController where
  "empty_npc = demo_npc\<lparr>networkPoliciesLister := [\<lparr>npMeta = \<lparr>Name = ''pol'', Namespace = ''ns'', ResourceVersion = ''2'',
     Annotations = Some [(GenieNetworkPolicy, ''[]'')], Labels = None\<rparr>\<rparr>]\<rparr>"

interpretation emptied: npc_env ref_host ref_ipt ref_tbl ref_cn ref_ex empty_npc
  by unfold_locales (use demo.subnets in \<open>simp_all add: empty_npc_def demo_npc_def subnets_ok_def\<close>)

theorem handleNetworkPolicyUpdate_unlinks_witness:
  "fst (handleNetworkPolicyUpdate ref_host empty_npc ''pol'' ''ns'' table2) = Ret ()
   \<and> refs_in (ref_tbl (snd (handleNetworkPolicyUpdate ref_host empty_npc ''pol'' ''ns'' table2))) pol
       \<inter> target ` set [to_net ''10.1.0.0/16'' red, from_net ''10.1.0.0/16'' red] = {}"
proof -
  have nw: "networks_of empty_npc ''pol'' ''ns'' = Some []" by code_simp
  have b: "ref_tbl table2 GenieBaseNPCChain = Some [to_net ''10.1.0.0/16'' red, from_net ''10.1.0.0/16'' red]"
    by (simp add: tbl_tables)
  show ?thesis
    using handleNetworkPolicyUpdate_unlinks[OF emptied.npc_env_axioms shape_tables(3) nw b] unfolding pol_def[symmetric] .
qed

text \<open>C7: \<open>handleNetworkPolicyAdd\<close> reports success exactly when the policy object is in the cache and its
  annotation parses; it never panics, whatever the networks and their subnets are.\<close>

theorem handleNetworkPolicyAdd_outcome:
  assumes "npc_env h ipt tbl cn ex npc" "npc_shape (tbl k)"
  shows "(case networks_of npc name ns of
      Some nw \<Rightarrow> fst (handleNetworkPolicyAdd h npc name ns k) = Ret ()
    | None \<Rightarrow> \<exists>e. fst (handleNetworkPolicyAdd h npc name ns k) = Err e)"
proof -
  note r = refinesD[OF npc_env.refines_PolicyAdd[OF assms(1), of name ns], OF assms(2)]
  show ?thesis
  proof (cases "networks_of npc name ns")
    case None
    then show ?thesis using r(2) by (simp add: st_PolicyAdd_def st_fail_def)
  next
    case (Some nw)
    then have "fst (st_PolicyAdd cn npc name ns (tbl k))"
      by (simp add: st_PolicyAdd_def st_then_def st_AddPolicyChain_def st_populate_ok)
    with r(1) Some show ?thesis by simp
  qed
qed

theorem handleNetworkPolicyAdd_outcome_witness:
  "fst (handleNetworkPolicyAdd ref_host demo_npc ''pol'' ''ns'' table0) = Ret ()
   \<and> (\<exists>e. fst (handleNetworkPolicyAdd ref_host demo_npc ''other'' ''ns'' table0) = Err e)"
proof -
  have "networks_of demo_npc ''other'' ''ns'' = None" by code_simp
  with demo_networks handleNetworkPolicyAdd_outcome[OF demo.npc_env_axioms shape_tables(1), of "''pol''" "''ns''"]
    handleNetworkPolicyAdd_outcome[OF demo.npc_env_axioms shape_tables(1), of "''other''" "''ns''"]
  show ?thesis by simp
qed

section \<open>Logical networks\<close>

text \<open>C8: adding a logical network whose policies have their chains succeeds and leaves the network's chain
  with one jump and the rejection: the jump to the last listed policy that selects the network. The jumps
  to the policies listed before it are gone, since the chain is cleared for every policy.\<close>

theorem handleLogicalNetworkAdd_last_policy:
  assumes env: "npc_env h ipt tbl cn ex npc" and sh: "npc_shape (tbl k)"
    and ln: "LogicalNetworks_Get (logicalNwLister npc) ns (TrimSpace name) = Inr ln"
    and sub: "cn (SubSubnet (lnSpec ln)) = Some s"
    and infos: "ListNetworkPolicies npc (TrimSpace name) ns = pre @ i # post"
    and i: "Networks i = Some nw" and post: "list_all (\<lambda>j. Networks j = None) post"
    and ready: "links_ready ns (pre @ i # post) (tbl k)"
  shows "fst (handleLogicalNetworkAdd h npc name ns k) = Ret ()
    \<and> tbl (snd (handleLogicalNetworkAdd h npc name ns k)) (own_chain ln) = Some [jump (plc_chain (piName i) ns), reject]"
proof -
  have st: "st_NetworkAdd cn npc name ns (tbl k) = st_each (st_network_info cn npc ln (TrimSpace name) ns) (pre @ i # post) (tbl k)"
    by (simp add: st_NetworkAdd_def Let_def ln infos)
  have p: "\<forall>j \<in> set post. Networks j = None" using post by (simp add: list_all_iff)
  note e = network_infos_last[of cn ln s, OF sub ready i p, of npc "TrimSpace name"]
  note r = refinesD[OF npc_env.refines_NetworkAdd[OF env, of name ns], OF sh, unfolded st]
  show ?thesis unfolding r(3) using r(1) e by simp
qed

definition two_npc :: NetworkPolicyController where
  "two_npc = demo_npc\<lparr>networkPoliciesLister := [demo_policy ''pol'', demo_policy ''pol2'']\<rparr>"

interpretation two: npc_env ref_host ref_ipt ref_tbl ref_cn ref_ex two_npc
  by unfold_locales (use demo.subnets in \<open>simp_all add: two_npc_def demo_npc_def subnets_ok_def\<close>)

definition pol2 :: string where "pol2 = plc_chain ''pol2'' ''ns''"

definition table3 :: ref_table where
  "table3 = [(GenieBaseNPCChain, []), (pol, []), (pol2, [])]"

lemma table3_facts: "npc_shape (ref_tbl table3)" "ref_tbl table3 GenieBaseNPCChain = Some []"
  "ref_tbl table3 pol \<noteq> None" "ref_tbl table3 pol2 \<noteq> None"
proof -
  have n: "plc_name pol2" by (simp add: pol2_def)
  then have "pol2 \<noteq> GenieBaseNPCChain" by simp
  then have "clean table3 = table3"
    using n by (intro clean_id) (simp add: table_clean_def table3_def)
  then have t: "ref_tbl table3 = map_of [(GenieBaseNPCChain, []), (pol, []), (pol2, [])]"
    by (simp add: ref_tbl_def table3_def)
  show "npc_shape (ref_tbl table3)" unfolding t by (auto simp: npc_shape_def split: if_splits)
  show "ref_tbl table3 GenieBaseNPCChain = Some []" unfolding t by simp
  show "ref_tbl table3 pol \<noteq> None" unfolding t by simp
  show "ref_tbl table3 pol2 \<noteq> None" unfolding t using \<open>pol2 \<noteq> GenieBaseNPCChain\<close> by auto
qed

theorem handleLogicalNetworkAdd_last_policy_witness:
  "fst (handleLogicalNetworkAdd ref_host two_npc ''red'' ''ns'' table3) = Ret ()
   \<and> ref_tbl (snd (handleLogicalNetworkAdd ref_host two_npc ''red'' ''ns'' table3)) red = Some [jump pol2, reject]"
proof -
  let ?ln = "demo_network ''red'' ''10.1.0.0/16''"
  let ?i = "\<lambda>n. \<lparr>piName = n, piNamespace = ''ns'', Networks = Some [(''red'', [''blue''])]\<rparr>"
  have ln: "LogicalNetworks_Get (logicalNwLister two_npc) ''ns'' (TrimSpace ''red'') = Inr ?ln" by code_simp
  have sub: "ref_cn (SubSubnet (lnSpec ?ln)) = Some ''10.1.0.0/16''" by code_simp
  have infos: "ListNetworkPolicies two_npc (TrimSpace ''red'') ''ns'' = [?i ''pol''] @ ?i ''pol2'' # []" by code_simp
  have ready: "links_ready ''ns'' ([?i ''pol''] @ ?i ''pol2'' # []) (ref_tbl table3)"
    using table3_facts by (simp add: links_ready_def pol2_def)
  have own: "own_chain ?ln = red" by (simp add: demo_network_def)
  show ?thesis
    using handleLogicalNetworkAdd_last_policy[OF two.npc_env_axioms table3_facts(1) ln sub infos _ _ ready]
    unfolding own by (simp add: pol2_def)
qed

text \<open>C9: updating a logical network never changes the filter table. When the base chain has a rule for the
  network the handler ends with an error, because it asks for the deletion of rule 0.\<close>

theorem handleLogicalNetworkUpdate_inert:
  assumes env: "npc_env h ipt tbl cn ex npc" and sh: "npc_shape (tbl k)"
  shows "tbl (snd (handleLogicalNetworkUpdate h npc name ns k)) = tbl k
    \<and> (ntk_chain name ns \<in> target ` set (case tbl k GenieBaseNPCChain of None \<Rightarrow> [] | Some b \<Rightarrow> b)
       \<longrightarrow> (\<exists>e. fst (handleLogicalNetworkUpdate h npc name ns k) = Err e))"
proof -
  note r = refinesD[OF npc_host.refines_NetworkUpdate[OF npc_env_host[OF env], of name ns], OF sh]
  have t: "snd (st_NetworkUpdate npc name ns (tbl k)) = tbl k"
    by (simp add: st_NetworkUpdate_def split: sum.split option.split)
  have "\<not> fst (st_NetworkUpdate npc name ns (tbl k))"
    if "ntk_chain name ns \<in> target ` set (case tbl k GenieBaseNPCChain of None \<Rightarrow> [] | Some b \<Rightarrow> b)"
    using that by (auto simp: st_NetworkUpdate_def split: sum.split option.splits)
  with r(2,3) t show ?thesis by auto
qed

theorem handleLogicalNetworkUpdate_inert_witness:
  "ref_tbl (snd (handleLogicalNetworkUpdate ref_host demo_npc ''red'' ''ns'' table1)) = ref_tbl table1
   \<and> (\<exists>e. fst (handleLogicalNetworkUpdate ref_host demo_npc ''red'' ''ns'' table1) = Err e)"
proof -
  have "ref_tbl table1 GenieBaseNPCChain = Some [to_net ''10.1.0.0/16'' red, from_net ''10.1.0.0/16'' red]"
    by (simp add: tbl_tables)
  with handleLogicalNetworkUpdate_inert[OF demo.npc_env_axioms shape_tables(2), of "''red''" "''ns''"]
  show ?thesis by simp
qed

text \<open>C10: deleting a logical network that a policy selects removes the network's chain and every jump to it,
  when the base chain leads to it by at most two rules and no other chain does; the handler reports
  success.\<close>

theorem handleLogicalNetworkDelete_complete:
  assumes env: "npc_env h ipt tbl cn ex npc" and sh: "npc_shape (tbl k)"
    and gate: "gate_only (ntk_chain name ns) (tbl k)"
    and sel: "i \<in> set (ListNetworkPolicies npc name ns)" "Networks i = Some nw"
  shows "fst (handleLogicalNetworkDelete h npc name ns subnet k) = Ret ()
    \<and> tbl (snd (handleLogicalNetworkDelete h npc name ns subnet k)) (ntk_chain name ns) = None
    \<and> \<not> referenced (tbl (snd (handleLogicalNetworkDelete h npc name ns subnet k))) (ntk_chain name ns)"
proof -
  note e = st_NetworkDelete_exact[OF gate, where ex = ex and npc = npc and subnet = subnet]
  note r = refinesD[OF npc_host.refines_NetworkDelete[OF npc_env_host[OF env], of name ns subnet], OF sh]
  have "gone (ntk_chain name ns) (snd (st_NetworkDelete ex npc name ns subnet (tbl k)))" using e(2) sel by auto
  then show ?thesis unfolding r(3) referenced_refs using r(1)[OF e(1)] by (simp add: gone_def)
qed

theorem handleLogicalNetworkDelete_complete_witness:
  "fst (handleLogicalNetworkDelete ref_host demo_npc ''red'' ''ns'' ''10.1.0.0/16'' table1) = Ret ()
   \<and> ref_tbl (snd (handleLogicalNetworkDelete ref_host demo_npc ''red'' ''ns'' ''10.1.0.0/16'' table1)) red = None
   \<and> \<not> referenced (ref_tbl (snd (handleLogicalNetworkDelete ref_host demo_npc ''red'' ''ns'' ''10.1.0.0/16'' table1))) red"
proof -
  let ?i = "\<lparr>piName = ''pol'', piNamespace = ''ns'', Networks = Some [(''red'', [''blue''])]\<rparr>"
  have "refs_in (ref_tbl table1) red \<subseteq> {GenieBaseNPCChain}"
    using genie_not_builtin(2)[of red] by (auto simp: refs_in_def tbl_tables split: if_splits)
  then have gate: "gate_only (ntk_chain ''red'' ''ns'') (ref_tbl table1)" by (simp add: gate_only_def tbl_tables)
  have l: "ListNetworkPolicies demo_npc ''red'' ''ns'' = [?i]" by code_simp
  show ?thesis
    using handleLogicalNetworkDelete_complete[OF demo.npc_env_axioms shape_tables(2) gate, of ?i "[(''red'', [''blue''])]" "''10.1.0.0/16''"] l
    by simp
qed

section \<open>Names of chains\<close>

text \<open>C11: the name of a chain has 26 bytes, so the kernel's limit of 28 holds, begins with its prefix, goes on
  with lower-case hexadecimal digits, and is no name the packet filter reserves, for the chain of a policy
  and for that of a network; no two of the chain of a policy, that of a network and the base chain share a name.\<close>

theorem chain_names_wellformed:
  "length (CreateIptableChainName GeniePolicyPrefix s) = 26 \<and> chain_name_of GeniePolicyPrefix (CreateIptableChainName GeniePolicyPrefix s)
   \<and> name_ok (CreateIptableChainName GeniePolicyPrefix s) \<and> CreateIptableChainName GeniePolicyPrefix s \<notin> set (builtin_chains @ builtin_targets)
   \<and> length (CreateIptableChainName GenieNetworkPrefix t) = 26 \<and> chain_name_of GenieNetworkPrefix (CreateIptableChainName GenieNetworkPrefix t)
   \<and> name_ok (CreateIptableChainName GenieNetworkPrefix t) \<and> CreateIptableChainName GenieNetworkPrefix t \<notin> set (builtin_chains @ builtin_targets)
   \<and> CreateIptableChainName GeniePolicyPrefix s \<noteq> CreateIptableChainName GenieNetworkPrefix t
   \<and> GenieBaseNPCChain \<notin> {CreateIptableChainName GeniePolicyPrefix s, CreateIptableChainName GenieNetworkPrefix t}"
  by (simp add: length_CreateIptableChainName)

text \<open>C12: the name and the namespace of a policy are joined without a separator, so that two policies of
  different namespaces can share a chain: adding the second clears the rules of the first.\<close>

theorem AddPolicyChain_shared:
  assumes "iptables_tool h ipt tbl cn ex" "name @ ns = name' @ ns'"
  shows "fst (AddPolicyChain h ipt name' ns' k) = Ret (plc_chain name ns)
    \<and> tbl (snd (AddPolicyChain h ipt name' ns' k)) (plc_chain name ns) = Some []"
  using iptables_tool.AddPolicyChain_spec[OF assms(1), of name' ns' k] assms(2) by simp

theorem AddPolicyChain_shared_witness:
  "fst (AddPolicyChain ref_host ref_ipt ''web'' ''dev'' [(plc_chain ''we'' ''bdev'', [from_net ''10.2.0.0/16'' ''ACCEPT''])]) = Ret (plc_chain ''we'' ''bdev'')
   \<and> ref_tbl (snd (AddPolicyChain ref_host ref_ipt ''web'' ''dev'' [(plc_chain ''we'' ''bdev'', [from_net ''10.2.0.0/16'' ''ACCEPT''])])) (plc_chain ''we'' ''bdev'') = Some []"
  by (rule AddPolicyChain_shared[OF ref.iptables_tool_axioms]) simp

end
