(* ===== verification/ControllerProperties.thy ===== *)
theory ControllerProperties
  imports ControllerFacts NpcProperties
begin

text \<open>
  The properties of the running controller: its start, its event handlers, one worker, and every run of
  the system of workers and informers.
\<close>

section \<open>The start\<close>

text \<open>When the packet filter has a \<open>FORWARD\<close> chain and no malformed chain of the controller,
  \<open>CreateBaseChain\<close> succeeds, empties the base chain, makes \<open>FORWARD\<close> jump to it, as its first rule unless it
  already does, and changes nothing else; the controller then starts its workers on that table when the
  caches are synchronised, and reports an error otherwise.\<close>

theorem Run_base_chain:
  assumes "iptables_tool h ipt tbl cn ex" "fst (New h k) = Ret ipt" "tbl (snd (New h k)) = tbl k"
    and "npc_shape (tbl k)" "tbl k ForwardChain = Some fs"
  shows "if synced then \<exists>k'. Run h n synced npc q k = Ret (start_workers n (npc\<lparr>iptable := ipt\<rparr>) q k')
            \<and> tbl k' = (tbl k)(GenieBaseNPCChain \<mapsto> [], ForwardChain \<mapsto> add_first (jump GenieBaseNPCChain) fs)
            \<and> npc_shape (tbl k')
         else \<exists>e. Run h n synced npc q k = Err e"
proof -
  note c = iptables_tool.CreateBaseChain_spec[OF assms]
  have "npc_shape ((tbl k)(GenieBaseNPCChain \<mapsto> [], ForwardChain \<mapsto> add_first (jump GenieBaseNPCChain) fs))"
    using assms(4) by (auto simp: npc_shape_def rule_fits_def ForwardChain_def GenieBaseNPCChain_def short_not_genie)
  with c show ?thesis by (auto simp: Run_def Run_setup_def go_simps)
qed

definition table_fwd :: ref_table where
  "table_fwd = [(''FORWARD'', [])]"

lemma tbl_fwd: "ref_tbl table_fwd = [''FORWARD'' \<mapsto> []]"
proof -
  have "clean table_fwd = table_fwd" by (rule clean_id) (simp add: table_clean_def table_fwd_def name_ok_def builtin_targets_def)
  then show ?thesis by (simp add: ref_tbl_def) (simp add: table_fwd_def)
qed

lemma New_ref: "New ref_host table = (Ret ref_ipt, table)"
proof -
  have d: "nat_digits (Suc 0) = ''1''" "nat_digits 6 = ''6''" by code_simp+
  have "extractIptablesVersion ''iptables v1.6.1'' = Inr (1, 6, 1)"
    using extractIptablesVersion_print[of "''iptables ''" "[]" 1 6 1] by (simp add: d)
  then show ?thesis
    by (simp add: New_def ref_host_def ref_exec_def getIptablesCommandSupport_def getIptablesVersionString_def go_simps
        iptablesHasCheckCommand_def iptablesHasWaitCommand_def ref_ipt_def)
qed

theorem Run_base_chain_witness:
  "npc_shape (ref_tbl table_fwd) \<and>
   (\<exists>k'. Run ref_host 2 True demo_npc NewNamed table_fwd = Ret (start_workers 2 (demo_npc\<lparr>iptable := ref_ipt\<rparr>) NewNamed k')
      \<and> ref_tbl k' = (ref_tbl table_fwd)(GenieBaseNPCChain \<mapsto> [], ForwardChain \<mapsto> add_first (jump GenieBaseNPCChain) [])
      \<and> npc_shape (ref_tbl k'))"
proof -
  have sh: "npc_shape (ref_tbl table_fwd)" by (simp add: tbl_fwd npc_shape_def)
  have f: "ref_tbl table_fwd ForwardChain = Some []" by (simp add: tbl_fwd ForwardChain_def)
  show ?thesis
    using sh Run_base_chain[OF ref.iptables_tool_axioms _ _ sh f, where synced = True and n = 2 and npc = demo_npc and q = NewNamed]
    by (simp add: New_ref)
qed

text \<open>The version of the packet filter program is read from the text \<^verbatim>\<open>iptables --version\<close>
  prints: whatever stands before the first \<open>v\<close> and after the number, the three decimal numbers below \<open>2 ^ 63\<close>
  are read back; and a program that supports \<^verbatim>\<open>--wait\<close> is never taken for one without \<^verbatim>\<open>-C\<close>.\<close>

theorem version_roundtrip:
  assumes "CHR ''v'' \<notin> set p" "rest = [] \<or> \<not> is_digit (hd rest)" "a < 2 ^ 63" "b < 2 ^ 63" "c < 2 ^ 63"
  shows "extractIptablesVersion (p @ ''v'' @ nat_digits a @ ''.'' @ nat_digits b @ ''.'' @ nat_digits c @ rest) = Inr (int a, int b, int c)
    \<and> (iptablesHasWaitCommand (int a) (int b) (int c) \<longrightarrow> iptablesHasCheckCommand (int a) (int b) (int c))"
  using extractIptablesVersion_print[OF assms] wait_implies_check by blast

theorem version_roundtrip_witness:
  "extractIptablesVersion (''iptables '' @ ''v'' @ nat_digits 1 @ ''.'' @ nat_digits 6 @ ''.'' @ nat_digits 1 @ [CHR 0x0A]) = Inr (1, 6, 1)"
proof -
  have "\<not> is_digit (CHR 0x0A)" by code_simp
  then show ?thesis using version_roundtrip[of "''iptables ''" "[CHR 0x0A]" 1 6 1] by simp
qed

section \<open>Events\<close>

text \<open>C18: an event handler adds exactly the item the change asks for: one for every added object, one for
  a logical network whose version and subnet changed, one for a policy whose version changed and whose
  annotation changed or is missing on one side, one for every deleted object, also out of a tombstone. It
  never fails on objects of the informer's type, and panics, without touching the queue, on others.\<close>

theorem event_handler_exact:
  "if well_typed ev
   then event_handler ev q = (Ret (), case item_of ev of None \<Rightarrow> q | Some key \<Rightarrow> wq_Add key q)
   else \<exists>p. event_handler ev q = (Panic p, q)"
  using event_handler_item[of ev q] event_handler_ill_typed[of ev q] by simp

text \<open>C19: a notification reaches its handler: when the texts involved are valid UTF-8, \<open>syncHandler\<close> on the
  JSON text an event handler queued is the handler for the kind and the action of the event, called with
  the name and the namespace of the object and, for a deletion, the subnet or the annotation it had.\<close>

theorem syncHandler_dispatch:
  assumes "item_of ev = Some key" "texts_ok ev"
  shows "syncHandler h npc key = meant_handler h npc ev"
  using assms by (rule syncHandler_item)

definition demo_event :: notification where
  "demo_event = NpAdded (ObjNP (demo_policy ''pol''))"

theorem syncHandler_dispatch_witness:
  "syncHandler ref_host demo_npc (event_key ''networkpolicy'' (npMeta (demo_policy ''pol'')) ''ADD'' [])
     = handleNetworkPolicyAdd ref_host demo_npc ''pol'' ''ns''"
proof -
  have "texts_ok demo_event" by code_simp
  moreover have "item_of demo_event = Some (event_key ''networkpolicy'' (npMeta (demo_policy ''pol'')) ''ADD'' [])"
    by (simp add: demo_event_def)
  ultimately show ?thesis
    using syncHandler_dispatch[of demo_event _ ref_host demo_npc] by (auto simp: demo_event_def demo_policy_def)
qed

section \<open>One worker\<close>

text \<open>C17: a worker left alone with a queue terminates: it takes every queued item once, in order, applies
  the abstract step of each to the filter table, and then waits, or quits when the queue is shut down,
  with an empty queue and no item left in processing.\<close>

theorem worker_terminates:
  assumes "npc_env h ipt tbl cn ex npc" "npc_shape (tbl k)" "wq_inv q" "processing q = {}"
  shows "fst (worker h npc (q, k)) = (if shuttingDown q then Quits else Waits)
    \<and> fst (snd (worker h npc (q, k))) = q\<lparr>queue := [], dirty := {}\<rparr>
    \<and> tbl (snd (snd (worker h npc (q, k)))) = fold (\<lambda>key T. snd (st_sync cn ex npc key T)) (queue q) (tbl k)"
  by (rule npc_env.worker_drains[OF assms])

lemma wq_inv_one: "wq_inv (wq_Add key NewNamed)" "processing (wq_Add key NewNamed) = {}" "\<not> shuttingDown (wq_Add key NewNamed)"
  "queue (wq_Add key NewNamed) = [key]"
  using wq_inv_Add[OF wq_inv_NewNamed] by (simp_all add: wq_Add_def NewNamed_def)

theorem worker_terminates_witness:
  "fst (worker ref_host demo_npc (wq_Add demo_key NewNamed, table1)) = Waits
   \<and> ref_tbl (snd (snd (worker ref_host demo_npc (wq_Add demo_key NewNamed, table1)))) = snd (st_sync ref_cn ref_ex demo_npc demo_key (ref_tbl table1))"
  using worker_terminates[OF demo.npc_env_axioms shape_tables(2) wq_inv_one(1,2), of demo_key] wq_inv_one(3)[of demo_key]
  by (simp add: wq_inv_one(4))

section \<open>Every run\<close>

text \<open>The start the controller makes after \<open>Run_setup\<close>, and a run of it: a policy is added, a worker takes
  the item and runs the handler.\<close>

definition demo_start :: "ref_table npc_sys" where
  "demo_start = start_workers 2 demo_npc NewNamed table1"

definition pol_key :: string where
  "pol_key = event_key ''networkpolicy'' (npMeta (demo_policy ''pol'')) ''ADD'' []"

abbreviation demo_ok :: "NetworkPolicyController \<Rightarrow> bool" where
  "demo_ok \<equiv> npc_env ref_host ref_ipt ref_tbl ref_cn ref_ex"

lemma demo_start_inv: "sys_inv ref_host ref_ipt ref_tbl ref_cn ref_ex 2 demo_start"
  unfolding demo_start_def
  by (rule sys_inv_start[OF demo.npc_env_axioms shape_tables(2)]) (simp_all add: wq_inv_NewNamed, simp_all add: NewNamed_def)

definition demo_notified :: "ref_table npc_sys" where
  "demo_notified = demo_start\<lparr>npcWorkqueue := wq_Add pol_key NewNamed\<rparr>"

lemma demo_notify: "npc_step ref_host demo_ok demo_start (Notified (Some pol_key)) demo_notified"
proof -
  have w: "well_typed demo_event" by (simp add: demo_event_def is_NP_def)
  have i: "item_of demo_event = Some pol_key" by (simp add: demo_event_def pol_key_def)
  have "event_handler demo_event (npcWorkqueue demo_start) = (Ret (), wq_Add pol_key NewNamed)"
    using event_handler_item[OF w, of NewNamed] i by (simp add: demo_start_def start_workers_def)
  from npc_step.Notify[OF _ w this, of ref_host demo_ok] i show ?thesis
    by (simp add: demo_notified_def) (simp add: demo_start_def start_workers_def)
qed

lemma demo_sync_run:
  "\<exists>s. npc_run ref_host demo_ok demo_notified [Internal, Internal, Internal, SyncRun 0 demo_npc pol_key] s"
proof -
  let ?h = ref_host and ?s0 = demo_notified
  let ?s1 = "?s0\<lparr>goroutines := (goroutines ?s0)(0 := InGet)\<rparr>"
  note d = demo_notified_def demo_start_def start_workers_def
  have 1: "npc_step ?h demo_ok ?s0 Internal ?s1" by (rule npc_step.Enter) (simp_all add: d)
  obtain q where q: "wq_Get (npcWorkqueue ?s1) = Some (Some pol_key, q)"
    by (simp add: d wq_Get_def wq_inv_one)
  let ?s2 = "?s1\<lparr>npcWorkqueue := q, goroutines := (goroutines ?s1)(0 := Got pol_key)\<rparr>"
  have 2: "npc_step ?h demo_ok ?s1 Internal ?s2" by (rule npc_step.Take[OF _ _ q]) (simp_all add: d)
  let ?s3 = "?s2\<lparr>mutex := Some 0, goroutines := (goroutines ?s2)(0 := InSync pol_key), overlapped := overlap 0 ?s2\<rparr>"
  have 3: "npc_step ?h demo_ok ?s2 Internal ?s3" by (rule npc_step.Lock) (simp_all add: d)
  obtain r k where r: "syncHandler ?h (controller ?s3) pol_key (kern ?s3) = (r, k)" by fastforce
  then have "syncHandler ?h demo_npc pol_key table1 = (r, k)" by (simp add: d)
  then have np: "r \<noteq> Panic p" for p using demo.sync_no_panic(1)[OF shape_tables(2), of pol_key p] by simp
  have 4: "npc_step ?h demo_ok ?s3 (SyncRun 0 (controller ?s3) pol_key)
      (?s3\<lparr>mutex := None, kern := k, goroutines := (goroutines ?s3)(0 := Synced pol_key)\<rparr>)"
    by (rule npc_step.Sync[OF _ _ _ r np]) (simp_all add: d overlap_def inside_def)
  have c: "controller ?s3 = demo_npc" by (simp add: d)
  have "npc_run ?h demo_ok ?s0 ((([] @ [Internal]) @ [Internal]) @ [Internal]) ?s3"
    by (rule npc_run.Next[OF npc_run.Next[OF npc_run.Next[OF npc_run.Here 1] 2] 3])
  from npc_run.Next[OF this 4] show ?thesis unfolding c by auto
qed

lemma demo_run: "\<exists>s. npc_run ref_host demo_ok demo_start [Notified (Some pol_key), Internal, Internal, Internal, SyncRun 0 demo_npc pol_key] s"
proof -
  obtain s where "npc_run ref_host demo_ok demo_notified [Internal, Internal, Internal, SyncRun 0 demo_npc pol_key] s"
    using demo_sync_run by blast
  from run_append[OF this npc_run.Next[OF npc_run.Here demo_notify]] show ?thesis by auto
qed

text \<open>C13: in every state the running controller can reach, whatever the order of notifications, cache
  changes, the stop signal and the workers' steps: no handler has panicked, no item is in the hands of two
  workers, at most one worker is inside \<open>syncHandler\<close>, the queue holds each item once and no item that is
  being processed, and the controller's chains are in shape.\<close>

theorem run_safe:
  assumes "npc_env h ipt tbl cn ex npc" "npc_shape (tbl k)" "wq_inv q" "processing q = {}" "\<not> shuttingDown q"
    and "npc_run h (npc_env h ipt tbl cn ex) (start_workers n npc q k) ls s"
  shows "\<not> crashed s \<and> npc_shape (tbl (kern s)) \<and> wq_inv (npcWorkqueue s)
    \<and> (holds (goroutines s i) = Some key \<longrightarrow> holds (goroutines s j) = Some key \<longrightarrow> i = j)
    \<and> (goroutines s i = InSync key \<longrightarrow> goroutines s j = InSync key' \<longrightarrow> i = j)"
proof -
  have inv: "sys_inv h ipt tbl cn ex n s" using sys_inv_run[OF assms(6) sys_inv_start[OF assms(1-5)]] .
  then have sh: "wq.shared (held_by s) (npcWorkqueue s)"
    and mx: "\<forall>i. mutex s = Some i \<longleftrightarrow> (\<exists>key. goroutines s i = InSync key)"
    by (auto simp: sys_inv_def sched_inv_def)
  have "goroutines s i = InSync key \<Longrightarrow> goroutines s j = InSync key' \<Longrightarrow> i = j" using mx by (metis option.inject)
  then show ?thesis
    using inv sh wq.shared_exclusive[OF sh, of i key j] unfolding sys_inv_def wq.shared_def by blast
qed

theorem run_safe_witness:
  "\<exists>s. npc_run ref_host demo_ok (start_workers 2 demo_npc NewNamed table1)
        [Notified (Some pol_key), Internal, Internal, Internal, SyncRun 0 demo_npc pol_key] s \<and> npc_shape (ref_tbl (kern s))"
proof -
  obtain s where s: "npc_run ref_host demo_ok (start_workers 2 demo_npc NewNamed table1)
      [Notified (Some pol_key), Internal, Internal, Internal, SyncRun 0 demo_npc pol_key] s"
    using demo_run unfolding demo_start_def by blast
  have "processing NewNamed = {}" "\<not> shuttingDown NewNamed" by (simp_all add: NewNamed_def)
  from s run_safe[OF demo.npc_env_axioms shape_tables(2) wq_inv_NewNamed this s] show ?thesis by blast
qed

text \<open>C14: the concurrent controller behaves like a sequential one: after any run, the filter table is what
  the abstract steps of the handler runs, applied one after the other in the order in which the workers
  entered them, each on the cache contents of its time, make of the table at the start. Handlers that were inside
  \<open>syncHandler\<close> at the same time could leave the table in any state; the mutex keeps them apart.\<close>

theorem run_serialisable:
  assumes "npc_env h ipt tbl cn ex npc" "npc_shape (tbl k)" "wq_inv q" "processing q = {}" "\<not> shuttingDown q"
    and "npc_run h (npc_env h ipt tbl cn ex) (start_workers n npc q k) ls s"
  shows "tbl (kern s) = fold (\<lambda>(npc, key) T. snd (st_sync cn ex npc key T)) (sync_runs ls) (tbl k)"
  using run_serial[OF assms(6) sys_inv_start[OF assms(1-5)]] by (simp add: start_workers_def)

theorem run_serialisable_witness:
  "\<exists>s. npc_run ref_host demo_ok (start_workers 2 demo_npc NewNamed table1)
        [Notified (Some pol_key), Internal, Internal, Internal, SyncRun 0 demo_npc pol_key] s
     \<and> ref_tbl (kern s) = snd (st_sync ref_cn ref_ex demo_npc pol_key (ref_tbl table1))"
proof -
  obtain s where s: "npc_run ref_host demo_ok (start_workers 2 demo_npc NewNamed table1)
      [Notified (Some pol_key), Internal, Internal, Internal, SyncRun 0 demo_npc pol_key] s"
    using demo_run unfolding demo_start_def by blast
  have i: "processing NewNamed = {}" "\<not> shuttingDown NewNamed" by (simp_all add: NewNamed_def)
  have "sync_runs [Notified (Some pol_key), Internal, Internal, Internal, SyncRun 0 demo_npc pol_key] = [(demo_npc, pol_key)]"
    by (simp add: sync_runs_def map_filter_def)
  with s run_serialisable[OF demo.npc_env_axioms shape_tables(2) wq_inv_NewNamed i s] show ?thesis by auto
qed

text \<open>C15: no notification is lost: once an event handler has queued an item on a running controller, then at
  every later moment \<open>syncHandler\<close> has been run on the item since, or the item is in the queue, or it is in the hands
  of a worker that has still to run \<open>syncHandler\<close> on it or, when it was being processed at the time of the notification, of one
  that has run it and will put the item into the queue again.\<close>

theorem item_not_lost:
  assumes "npc_env h ipt tbl cn ex npc" "npc_shape (tbl k)" "wq_inv q" "processing q = {}" "\<not> shuttingDown q"
    and "npc_run h (npc_env h ipt tbl cn ex) (start_workers n npc q k) ls1 s1"
    and "npc_step h (npc_env h ipt tbl cn ex) s1 (Notified (Some key)) s2" "\<not> shuttingDown (npcWorkqueue s1)"
    and "npc_run h (npc_env h ipt tbl cn ex) s2 ls2 s3"
  shows "in_hand key s3 \<or> key \<in> snd ` set (sync_runs ls2)"
proof -
  have inv: "sys_inv h ipt tbl cn ex n s2"
    using sys_inv_step[OF assms(7) sys_inv_run[OF assms(6) sys_inv_start[OF assms(1-5)]]] .
  then have sh: "wq.shared (held_by s2) (npcWorkqueue s2)" by (simp add: sys_inv_def sched_inv_def)
  have "key \<in> dirty (npcWorkqueue s2)"
    using assms(7,8) by (cases rule: npc_step.cases) (auto dest!: event_queue simp: wq.add_pending split: option.split)
  then have "in_hand key s2" by (simp add: in_hand_iff[OF sh])
  then show ?thesis by (rule not_lost[OF assms(9) inv])
qed

theorem item_not_lost_witness:
  "\<exists>s. npc_run ref_host demo_ok demo_notified [Internal, Internal, Internal, SyncRun 0 demo_npc pol_key] s
     \<and> (in_hand pol_key s \<or> pol_key \<in> snd ` set (sync_runs [Internal, Internal, Internal, SyncRun 0 demo_npc pol_key]))"
proof -
  obtain s where s: "npc_run ref_host demo_ok demo_notified [Internal, Internal, Internal, SyncRun 0 demo_npc pol_key] s"
    using demo_sync_run by blast
  have i: "processing NewNamed = {}" "\<not> shuttingDown NewNamed" "\<not> shuttingDown (npcWorkqueue demo_start)"
    by (simp_all add: NewNamed_def demo_start_def start_workers_def)
  have "npc_run ref_host demo_ok (start_workers 2 demo_npc NewNamed table1) [] demo_start"
    unfolding demo_start_def by (rule npc_run.Here)
  from s item_not_lost[OF demo.npc_env_axioms shape_tables(2) wq_inv_NewNamed i(1,2) this demo_notify i(3) s]
  show ?thesis by blast
qed

text \<open>C16: the controller does not get stuck: as long as an item is waiting and no stop signal has come, some
  worker can take a step, into or out of \<open>Get\<close>, the mutex or a handler.\<close>

theorem run_progress:
  assumes "npc_env h ipt tbl cn ex npc" "npc_shape (tbl k)" "wq_inv q" "processing q = {}" "\<not> shuttingDown q"
    and "npc_run h (npc_env h ipt tbl cn ex) (start_workers n npc q k) ls s"
    and "0 < n" "\<not> stopCh s" "key \<in> dirty (npcWorkqueue s)"
  shows "\<exists>i l s'. npc_step h (npc_env h ipt tbl cn ex) s l s' \<and> goroutines s' i \<noteq> goroutines s i"
  by (rule progress[OF sys_inv_run[OF assms(6) sys_inv_start[OF assms(1-5)]] assms(7-9)])

theorem run_progress_witness:
  "\<exists>i l s'. npc_step ref_host demo_ok demo_notified l s' \<and> goroutines s' i \<noteq> goroutines demo_notified i"
proof -
  have i: "processing NewNamed = {}" "\<not> shuttingDown NewNamed" by (simp_all add: NewNamed_def)
  have r: "npc_run ref_host demo_ok (start_workers 2 demo_npc NewNamed table1) ([] @ [Notified (Some pol_key)]) demo_notified"
    using npc_run.Next[OF npc_run.Here demo_notify] unfolding demo_start_def .
  have "\<not> stopCh demo_notified" "pol_key \<in> dirty (npcWorkqueue demo_notified)"
    by (simp_all add: demo_notified_def demo_start_def start_workers_def wq_Add_def NewNamed_def)
  from run_progress[OF demo.npc_env_axioms shape_tables(2) wq_inv_NewNamed i r _ this] show ?thesis by simp
qed

end
