(* ===== verification/Libcni.thy ===== *)
theory Libcni
  imports GenieBase
begin

text \<open>
  The node the CNI plugin runs on, as a record of operations over an arbitrary state \<open>'s\<close>, and the
  parts of the vendored library \<^verbatim>\<open>github.com/containernetworking/cni\<close> the plugin calls:
  \<^verbatim>\<open>types.LoadArgs\<close>, the reading of configuration files (\<^verbatim>\<open>libcni/conf.go\<close>) and the running of
  delegate plugins (\<^verbatim>\<open>libcni/api.go\<close>, \<^verbatim>\<open>pkg/invoke\<close>).
\<close>

section \<open>The node\<close>

datatype dir_result = DirEntries "(string \<times> bool) list" | DirMissing go_error | DirFailed go_error

text \<open>The result of a plugin: addresses are the texts their \<open>String\<close> method gives; the JSON form is
  what \<open>Marshal\<close> writes of it.\<close>

datatype cni_result =
    Result020 (ip4: "string option") (ip6: "string option") (result_json: json)
  | ResultCurrent (ips: "string list") (result_json: json)

record http_response =
  StatusCode :: int
  respBody :: "go_error + string"

record ConfigOverrides =
  coServer :: string
  coClientCertificate :: string
  coClientKey :: string
  coCertificateAuthority :: string
  coToken :: string

text \<open>
  The first group are services and the file system, the second the programs of the node, the third what
  the runtime and vendored packages decide: Unicode tables, the syntax of addresses, the decoding of
  Kubernetes metadata, of cAdvisor's statistics and of plugin results.
\<close>

record ('s, 'c) node =
  new_client :: "string \<Rightarrow> ConfigOverrides \<Rightarrow> ('s, 'c) go"
  pods_Get :: "'c \<Rightarrow> string \<Rightarrow> string \<Rightarrow> ('s, Pod) go"
  pods_Patch :: "'c \<Rightarrow> string \<Rightarrow> string \<Rightarrow> string \<Rightarrow> ('s, Pod) go"
  rest_GetRaw :: "'c \<Rightarrow> string \<Rightarrow> ('s, string) go"
  http_Get :: "string \<Rightarrow> ('s, http_response option) go"
  http_Post :: "string \<Rightarrow> string \<Rightarrow> ('s, http_response option) go"
  ReadDir :: "string \<Rightarrow> 's \<Rightarrow> dir_result"
  ReadFile :: "string \<Rightarrow> ('s, string) go"
  WriteFile :: "string \<Rightarrow> string \<Rightarrow> ('s, unit) go"
  is_regular :: "string \<Rightarrow> 's \<Rightarrow> bool"
  exec_plugin :: "string \<Rightarrow> string \<Rightarrow> string list \<Rightarrow> ('s, string) go"
  sh_Output :: "string \<Rightarrow> ('s, string) go"
  print_result :: "cni_result \<Rightarrow> string \<Rightarrow> ('s, unit) go"
  is_print :: "string \<Rightarrow> bool"
  parse_ip :: "string \<Rightarrow> bool"
  decode_meta :: "json \<Rightarrow> go_error option"
  decode_stats :: "string \<Rightarrow> go_error + container_stats list"
  decode_result :: "string \<Rightarrow> string \<Rightarrow> go_error + cni_result"
  Environ :: "string list"       \<comment> \<open>\<open>os.Environ()\<close>\<close>

definition of_sum :: "go_error + 'a \<Rightarrow> ('s, 'a) go" where
  "of_sum x = (case x of Inl e \<Rightarrow> go_err e | Inr v \<Rightarrow> go_ret v)"

section \<open>types.LoadArgs\<close>

definition UnmarshalText_bool :: "string \<Rightarrow> bool option" where
  "UnmarshalText_bool data =
     (let s = map ascii_lower data
      in if s = ''1'' \<or> s = ''true'' then Some True else if s = ''0'' \<or> s = ''false'' then Some False else None)"

text \<open>
  One pair of the arguments: an error, an unknown key (\<open>None\<close>), or the updated structure. The key of
  the embedded structure itself names a field that is no \<^verbatim>\<open>TextUnmarshaler\<close>, and panics.
\<close>

definition pair_error :: "(string \<Rightarrow> bool) \<Rightarrow> string \<Rightarrow> string \<Rightarrow> string \<Rightarrow> go_error" where
  "pair_error isp k v err = ErrorString (''ARGS: error parsing value of pair '' @ Quote isp (k @ ''='' @ v) @ '': '' @ err @ '')'')"

definition load_pair :: "(string \<Rightarrow> bool) \<Rightarrow> (string \<Rightarrow> bool) \<Rightarrow> string \<Rightarrow> string \<Rightarrow> K8sArgs \<Rightarrow> K8sArgs option go_res" where
  "load_pair isp ip k v a =
     (if k = ''IgnoreUnknown'' then
        (case UnmarshalText_bool v of
           Some b \<Rightarrow> Ret (Some (a\<lparr>IgnoreUnknown := b\<rparr>))
         | None \<Rightarrow> Err (pair_error isp k v (''Boolean unmarshal error: invalid input '' @ map ascii_lower v)))
      else if k = ''K8S_POD_NAME'' then Ret (Some (a\<lparr>K8S_POD_NAME := v\<rparr>))
      else if k = ''K8S_POD_NAMESPACE'' then Ret (Some (a\<lparr>K8S_POD_NAMESPACE := v\<rparr>))
      else if k = ''K8S_POD_INFRA_CONTAINER_ID'' then Ret (Some (a\<lparr>K8S_POD_INFRA_CONTAINER_ID := v\<rparr>))
      else if k = ''IP'' then
        if v = [] \<or> ip v then Ret (Some a)
        else Err (pair_error isp k v (''invalid IP address: '' @ v))
      else if k = ''CommonArgs'' then Panic ''interface conversion: not encoding.TextUnmarshaler''
      else Ret None)"

fun load_pairs :: "(string \<Rightarrow> bool) \<Rightarrow> (string \<Rightarrow> bool) \<Rightarrow> string list \<Rightarrow> string list \<Rightarrow> K8sArgs \<Rightarrow> (string list \<times> K8sArgs) go_res" where
  "load_pairs isp ip [] unknownArgs a = Ret (unknownArgs, a)"
| "load_pairs isp ip (pair # pairs) unknownArgs a =
     (case Split pair ''='' of
        [k, v] \<Rightarrow>
          (case load_pair isp ip k v a of
             Ret (Some a') \<Rightarrow> load_pairs isp ip pairs unknownArgs a'
           | Ret None \<Rightarrow> load_pairs isp ip pairs (unknownArgs @ [pair]) a
           | Err e \<Rightarrow> Err e
           | Panic p \<Rightarrow> Panic p)
      | _ \<Rightarrow> Err (ErrorString (''ARGS: invalid pair '' @ Quote isp pair)))"

definition LoadArgs :: "(string \<Rightarrow> bool) \<Rightarrow> (string \<Rightarrow> bool) \<Rightarrow> string \<Rightarrow> K8sArgs \<Rightarrow> K8sArgs go_res" where
  "LoadArgs isp ip args container =
     (if args = [] then Ret container
      else case load_pairs isp ip (Split args '';'') [] container of
          Ret (unknownArgs, a) \<Rightarrow>
            if unknownArgs \<noteq> [] \<and> \<not> IgnoreUnknown a
            then Err (ErrorString (''ARGS: unknown args ['' @ Join (map (Quote isp) unknownArgs) '' '' @ '']'')) else Ret a
        | Err e \<Rightarrow> Err e
        | Panic p \<Rightarrow> Panic p)"

section \<open>Configuration files\<close>

text \<open>\<^verbatim>\<open>types.NetConf\<close> of the library. The addresses of the name servers are only checked.\<close>

record CniNetConf =
  cnVersion :: string
  cnName :: string
  cnType :: string
  Capabilities :: "(string \<times> bool) list"
  ipamType :: string

record NetworkConfig =
  Network :: "CniNetConf option"
  confBytes :: string

record NetworkConfigList =
  listName :: string
  listVersion :: string
  listPlugins :: "NetworkConfig list"
  listBytes :: string

fun put_bools :: "(string \<times> json) list \<Rightarrow> bool gomap \<Rightarrow> go_error + bool gomap" where
  "put_bools [] m = Inr m"
| "put_bools ((k, v) # ms) m =
     (case put_bool v False of Inl e \<Rightarrow> Inl e | Inr b \<Rightarrow> put_bools ms (map_put k b m))"

definition put_bool_map :: "json \<Rightarrow> bool gomap \<Rightarrow> go_error + bool gomap" where
  "put_bool_map v old = (case v of JObj ms \<Rightarrow> put_bools ms old | JNull \<Rightarrow> Inr [] | _ \<Rightarrow> Inl json_type_error)"

definition check_strings :: "'r setter" where
  "check_strings v r =
     (case v of
        JArr vs \<Rightarrow> if list_all (\<lambda>x. case x of JStr _ \<Rightarrow> True | JNull \<Rightarrow> True | _ \<Rightarrow> False) vs then Inr r else Inl json_type_error
      | JNull \<Rightarrow> Inr r
      | _ \<Rightarrow> Inl json_type_error)"

definition check_string :: "'r setter" where
  "check_string v r = (case v of JStr _ \<Rightarrow> Inr r | JNull \<Rightarrow> Inr r | _ \<Rightarrow> Inl json_type_error)"

definition dns_fields :: "(string \<times> 'r setter) list" where
  "dns_fields = [(''nameservers'', check_strings), (''domain'', check_string), (''search'', check_strings), (''options'', check_strings)]"

definition CniNetConf_fields :: "(string \<times> CniNetConf setter) list" where
  "CniNetConf_fields =
     [(''cniversion'', field put_string cnVersion cnVersion_update),
      (''name'', field put_string cnName cnName_update),
      (''type'', field put_string cnType cnType_update),
      (''capabilities'', field put_bool_map Capabilities Capabilities_update),
      (''ipam'', put_struct [(''type'', field put_string ipamType ipamType_update)]),
      (''dns'', put_struct dns_fields)]"

definition zero_CniNetConf :: CniNetConf where
  "zero_CniNetConf = \<lparr>cnVersion = [], cnName = [], cnType = [], Capabilities = [], ipamType = []\<rparr>"

text \<open>A document \<open>null\<close> leaves the pointer to the network nil.\<close>

definition ConfFromBytes :: "string \<Rightarrow> go_error + NetworkConfig" where
  "ConfFromBytes bytes =
     (case json_parse bytes of
        None \<Rightarrow> Inl (Errorf_v ''error parsing configuration: '' json_syntax_error)
      | Some JNull \<Rightarrow> Inr \<lparr>Network = None, confBytes = bytes\<rparr>
      | Some v \<Rightarrow>
          (case put_struct CniNetConf_fields v zero_CniNetConf of
             Inl e \<Rightarrow> Inl (Errorf_v ''error parsing configuration: '' e)
           | Inr c \<Rightarrow> Inr \<lparr>Network = Some c, confBytes = bytes\<rparr>))"

definition ConfFromFile :: "('s, 'c) node \<Rightarrow> string \<Rightarrow> ('s, NetworkConfig) go" where
  "ConfFromFile nd filename =
     go_bind (go_wrap (Errorf_v (''error reading '' @ filename @ '': '')) (ReadFile nd filename)) (\<lambda>bytes.
     of_sum (ConfFromBytes bytes))"

fun plugin_confs :: "json list \<Rightarrow> nat \<Rightarrow> go_error + NetworkConfig list" where
  "plugin_confs [] i = Inr []"
| "plugin_confs (conf # confs) i =
     (case ConfFromBytes (Marshal_any conf) of
        Inl e \<Rightarrow> Inl (Errorf_v (''Failed to parse plugin config '' @ Itoa (int i) @ '': '') e)
      | Inr c \<Rightarrow> map_sum id ((#) c) (plugin_confs confs (Suc i)))"

definition ConfListFromBytes :: "string \<Rightarrow> go_error + NetworkConfigList" where
  "ConfListFromBytes bytes =
     (case Unmarshal_any_map bytes of
        Inl e \<Rightarrow> Inl (Errorf_v ''error parsing configuration list: '' e)
      | Inr m \<Rightarrow>
          let rawList = (case m of None \<Rightarrow> Map.empty | Some al \<Rightarrow> map_of al) in
          (case rawList ''name'' of
             Some (JStr name) \<Rightarrow>
               (case (case rawList ''cniVersion'' of None \<Rightarrow> Some [] | Some (JStr v) \<Rightarrow> Some v | Some _ \<Rightarrow> None) of
                  None \<Rightarrow> Inl (ErrorString ''error parsing configuration list: invalid cniVersion type'')
                | Some cniVersion \<Rightarrow>
                    (case rawList ''plugins'' of
                       Some (JArr plugins) \<Rightarrow>
                         if plugins = [] then Inl (ErrorString ''error parsing configuration list: no plugins in list'')
                         else map_sum id (\<lambda>ps. \<lparr>listName = name, listVersion = cniVersion, listPlugins = ps, listBytes = bytes\<rparr>)
                                (plugin_confs plugins 0)
                     | Some _ \<Rightarrow> Inl (ErrorString ''error parsing configuration list: invalid 'plugins' type'')
                     | None \<Rightarrow> Inl (ErrorString ''error parsing configuration list: no 'plugins' key'')))
           | Some _ \<Rightarrow> Inl (ErrorString ''error parsing configuration list: invalid name type'')
           | None \<Rightarrow> Inl (ErrorString ''error parsing configuration list: no name'')))"

definition ConfListFromFile :: "('s, 'c) node \<Rightarrow> string \<Rightarrow> ('s, NetworkConfigList) go" where
  "ConfListFromFile nd filename =
     go_bind (go_wrap (Errorf_v (''error reading '' @ filename @ '': '')) (ReadFile nd filename)) (\<lambda>bytes.
     of_sum (ConfListFromBytes bytes))"

text \<open>The network of the configuration is dereferenced after its bytes are read again.\<close>

definition ConfListFromConf :: "NetworkConfig \<Rightarrow> NetworkConfigList go_res" where
  "ConfListFromConf original =
     (case Unmarshal_any_map (confBytes original) of
        Inl e \<Rightarrow> Err e
      | Inr rawConfig \<Rightarrow>
          (case Network original of
             None \<Rightarrow> Panic ''invalid memory address or nil pointer dereference''
           | Some n \<Rightarrow>
               let raw = (case rawConfig of None \<Rightarrow> JNull | Some m \<Rightarrow> JObj m);
                   b = Marshal_any (JObj [(''name'', JStr (cnName n)), (''cniVersion'', JStr (cnVersion n)), (''plugins'', JArr [raw])])
               in (case ConfListFromBytes b of Inl e \<Rightarrow> Err e | Inr l \<Rightarrow> Ret l)))"

definition ConfFiles :: "('s, 'c) node \<Rightarrow> string \<Rightarrow> string list \<Rightarrow> ('s, string list) go" where
  "ConfFiles nd dir extensions s =
     (case ReadDir nd dir s of
        DirEntries files \<Rightarrow>
          (Ret (concat (map (\<lambda>(name, isDir).
             if isDir then []
             else map (\<lambda>_. path_Join [dir, name]) (filter (\<lambda>ext. filepath_Ext name = ext) extensions)) files)), s)
      | DirMissing e \<Rightarrow> (Ret [], s)
      | DirFailed e \<Rightarrow> (Err e, s))"

section \<open>Running plugins\<close>

record RuntimeConf =
  rtContainerID :: string
  rtNetNS :: string
  rtIfName :: string
  rtArgs :: "(string \<times> string) list"

definition FindInPath :: "('s, 'c) node \<Rightarrow> string \<Rightarrow> string list \<Rightarrow> ('s, string) go" where
  "FindInPath nd plugin paths s =
     (if plugin = [] then (Err (ErrorString ''no plugin name provided''), s)
      else if paths = [] then (Err (ErrorString ''no paths provided''), s)
      else (case find (\<lambda>p. is_regular nd p s) (map (\<lambda>p. path_Join [p, plugin]) paths) of
         Some p \<Rightarrow> (Ret p, s)
       | None \<Rightarrow> (Err (ErrorString (''failed to find plugin '' @ plugin @ '' in path '' @ Join paths '' '')), s)))"

definition InjectConf :: "NetworkConfig \<Rightarrow> (string \<times> json) list \<Rightarrow> NetworkConfig go_res" where
  "InjectConf original newValues =
     (case Unmarshal_any_map (confBytes original) of
        Inl e \<Rightarrow> Err (Errorf_v ''unmarshal existing network bytes: '' e)
      | Inr None \<Rightarrow> Panic ''assignment to entry in nil map''
      | Inr (Some config) \<Rightarrow>
          (case ConfFromBytes (Marshal_any (JObj (fold (\<lambda>(k, v). map_put k v) newValues config))) of
             Inl e \<Rightarrow> Err e
           | Inr c \<Rightarrow> Ret c))"

text \<open>\<open>buildOneConfig\<close>: no capability argument is ever passed by the plugin, so that
  \<open>injectRuntimeConfig\<close> injects nothing.\<close>

definition buildOneConfig :: "NetworkConfigList \<Rightarrow> NetworkConfig \<Rightarrow> cni_result option \<Rightarrow> NetworkConfig go_res" where
  "buildOneConfig clist orig prevResult =
     InjectConf orig
       ([(''name'', JStr (listName clist)), (''cniVersion'', JStr (listVersion clist))]
        @ (case prevResult of None \<Rightarrow> [] | Some r \<Rightarrow> [(''prevResult'', result_json r)]))"

definition of_res :: "'a go_res \<Rightarrow> ('s, 'a) go" where
  "of_res r s = (r, s)"

definition plugin_type :: "NetworkConfig \<Rightarrow> ('s, string) go" where
  "plugin_type c =
     (case Network c of None \<Rightarrow> go_panic ''invalid memory address or nil pointer dereference'' | Some n \<Rightarrow> go_ret (cnType n))"

definition stringify :: "(string \<times> string) list \<Rightarrow> string" where
  "stringify pluginArgs = Join (map (\<lambda>(k, v). Join [k, v] ''='') pluginArgs) '';''"

text \<open>The environment of a delegate: that of the process, with its own variables of the specification, and then the new ones.\<close>

definition AsEnv :: "string list \<Rightarrow> string \<Rightarrow> RuntimeConf \<Rightarrow> string list \<Rightarrow> string list" where
  "AsEnv environ action rt paths =
     environ @
     [''CNI_COMMAND='' @ action, ''CNI_CONTAINERID='' @ rtContainerID rt, ''CNI_NETNS='' @ rtNetNS rt,
      ''CNI_ARGS='' @ stringify (rtArgs rt), ''CNI_IFNAME='' @ rtIfName rt, ''CNI_PATH='' @ Join paths '':'']"

text \<open>\<^verbatim>\<open>os/exec\<close> starts a process with one entry for each variable: the last value, in the place of the first. Entries without
  an equals sign stay.\<close>

definition env_key :: "string \<Rightarrow> string option" where
  "env_key kv = (if CHR ''='' \<in> set kv then Some (takeWhile (\<lambda>c. c \<noteq> CHR ''='') kv) else None)"

fun put_env :: "string \<Rightarrow> string list \<Rightarrow> string list" where
  "put_env kv [] = [kv]"
| "put_env kv (e # out) = (if env_key e = env_key kv then kv # out else e # put_env kv out)"

definition dedupEnv :: "string list \<Rightarrow> string list" where
  "dedupEnv env = fold (\<lambda>kv out. if env_key kv = None then out @ [kv] else put_env kv out) env []"

definition ExecPlugin :: "('s, 'c) node \<Rightarrow> string \<Rightarrow> string \<Rightarrow> string list \<Rightarrow> ('s, string) go" where
  "ExecPlugin nd pluginPath stdinData environ = exec_plugin nd pluginPath stdinData (dedupEnv environ)"

definition add_plugin ::
  "('s, 'c) node \<Rightarrow> string list \<Rightarrow> NetworkConfigList \<Rightarrow> RuntimeConf \<Rightarrow> NetworkConfig \<Rightarrow> cni_result option \<Rightarrow> ('s, cni_result option) go" where
  "add_plugin nd paths clist rt net prevResult =
     go_bind (plugin_type net) (\<lambda>t.
     go_bind (FindInPath nd t paths) (\<lambda>pluginPath.
     go_bind (of_res (buildOneConfig clist net prevResult)) (\<lambda>newConf.
     go_bind (ExecPlugin nd pluginPath (confBytes newConf) (AsEnv (Environ nd) ''ADD'' rt paths)) (\<lambda>out.
     go_bind (of_sum (decode_result nd (confBytes newConf) out)) (\<lambda>r. go_ret (Some r))))))"

definition AddNetworkList ::
  "('s, 'c) node \<Rightarrow> string list \<Rightarrow> NetworkConfigList \<Rightarrow> RuntimeConf \<Rightarrow> ('s, cni_result option) go" where
  "AddNetworkList nd paths clist rt = go_fold (add_plugin nd paths clist rt) (listPlugins clist) None"

definition del_plugin ::
  "('s, 'c) node \<Rightarrow> string list \<Rightarrow> NetworkConfigList \<Rightarrow> RuntimeConf \<Rightarrow> NetworkConfig \<Rightarrow> ('s, unit) go" where
  "del_plugin nd paths clist rt net =
     go_bind (plugin_type net) (\<lambda>t.
     go_bind (FindInPath nd t paths) (\<lambda>pluginPath.
     go_bind (of_res (buildOneConfig clist net None)) (\<lambda>newConf.
     go_bind (ExecPlugin nd pluginPath (confBytes newConf) (AsEnv (Environ nd) ''DEL'' rt paths)) (\<lambda>_. go_ret ()))))"

definition DelNetworkList :: "('s, 'c) node \<Rightarrow> string list \<Rightarrow> NetworkConfigList \<Rightarrow> RuntimeConf \<Rightarrow> ('s, unit) go" where
  "DelNetworkList nd paths clist rt = go_each (del_plugin nd paths clist rt) (rev (listPlugins clist))"

section \<open>Results\<close>

text \<open>\<^verbatim>\<open>current.NewResultFromResult\<close>: the addresses of the converted result.\<close>

definition NewResultFromResult :: "cni_result \<Rightarrow> go_error + string list" where
  "NewResultFromResult r =
     (case r of
        Result020 a b _ \<Rightarrow>
          let l = (case a of None \<Rightarrow> [] | Some x \<Rightarrow> [x]) @ (case b of None \<Rightarrow> [] | Some x \<Rightarrow> [x])
          in if l = [] then Inl (ErrorString ''cannot convert: no valid IP addresses'') else Inr l
      | ResultCurrent l _ \<Rightarrow> Inr l)"

end
