(* ===== verification/GenieCrd.thy ===== *)
theory GenieCrd
  imports Libcni
begin

text \<open>
  \<^verbatim>\<open>genie/genie-crd-processor.go\<close>: from the annotation \<^verbatim>\<open>networks\<close> of a pod, through the logical
  and physical network objects of the API server, to the plugins and interfaces of the pod.
\<close>

section \<open>Objects of the API server\<close>

definition check_meta :: "('s, 'c) node \<Rightarrow> 'r setter" where
  "check_meta nd v r = (case decode_meta nd v of None \<Rightarrow> Inr r | Some e \<Rightarrow> Inl e)"

definition object_fields :: "('s, 'c) node \<Rightarrow> (string \<times> 'r setter) list \<Rightarrow> (string \<times> 'r setter) list" where
  "object_fields nd spec =
     [(''kind'', check_string), (''apiversion'', check_string), (''metadata'', check_meta nd), (''spec'', put_struct spec)]"

definition zero_LogicalNetworkSpec :: LogicalNetworkSpec where
  "zero_LogicalNetworkSpec = \<lparr>PhysicalNet = [], SubSubnet = [], Plugin = []\<rparr>"

definition Unmarshal_LogicalNetwork :: "('s, 'c) node \<Rightarrow> string \<Rightarrow> go_error + LogicalNetworkSpec" where
  "Unmarshal_LogicalNetwork nd text' =
     Unmarshal_struct (object_fields nd
       [(''physicalnet'', field put_string PhysicalNet PhysicalNet_update),
        (''sub_subnet'', field put_string SubSubnet SubSubnet_update),
        (''plugin'', field put_string Plugin Plugin_update)]) text' zero_LogicalNetworkSpec"

definition zero_PhysicalNetwork :: PhysicalNetwork where
  "zero_PhysicalNetwork = \<lparr>ReferNic = [], sharedStatus = \<lparr>shPlugin = [], shSubnet = [], DedicatedStatus = False\<rparr>\<rparr>"

definition Unmarshal_PhysicalNetwork :: "('s, 'c) node \<Rightarrow> string \<Rightarrow> go_error + PhysicalNetwork" where
  "Unmarshal_PhysicalNetwork nd text' =
     Unmarshal_struct (object_fields nd
       [(''refer_nic'', field put_string ReferNic ReferNic_update),
        (''sharedstatus'', field (put_struct
           [(''plugin'', field put_string shPlugin shPlugin_update),
            (''subnet'', field put_string shSubnet shSubnet_update),
            (''dedicatednet'', field put_bool DedicatedStatus DedicatedStatus_update)]) sharedStatus sharedStatus_update)])
       text' zero_PhysicalNetwork"

section \<open>GetPluginInfoFromPhysicalNw\<close>

definition crd_path :: "string \<Rightarrow> string \<Rightarrow> string \<Rightarrow> string" where
  "crd_path namespace kind name = ''/apis/alpha.network.k8s.io/v1/namespaces/'' @ namespace @ ''/'' @ kind @ ''/'' @ name"

text \<open>Both results are returned, the plugin information also with an error.\<close>

definition GetPluginInfoFromPhysicalNw ::
  "('s, 'c) node \<Rightarrow> string \<Rightarrow> string \<Rightarrow> 'c \<Rightarrow> PluginInfo \<Rightarrow> ('s, PluginInfo \<times> go_error option) go" where
  "GetPluginInfoFromPhysicalNw nd phyNwName namespace client pluginInfo =
     go_bind (go_try (rest_GetRaw nd client (crd_path namespace ''physicalnetworks'' phyNwName))) (\<lambda>r.
     case r of
       Inl e \<Rightarrow> go_ret (pluginInfo, Some (ErrorString (''CNI Genie failed to get physical network object for the network ''
                 @ phyNwName @ '', namespace '' @ namespace @ [CHR 0x0A])))
     | Inr physicalNwObj \<Rightarrow>
         (case Unmarshal_PhysicalNetwork nd physicalNwObj of
            Inl e \<Rightarrow> go_ret (pluginInfo, Some (Errorf_v ''CNI Genie failed to physical network info: '' e))
          | Inr info \<Rightarrow>
              let p1 = pluginInfo\<lparr>Refer_nic := ReferNic info\<rparr>;
                  p2 = (if DedicatedStatus (sharedStatus info) = True
                        then p1\<lparr>PluginName := shPlugin (sharedStatus info)\<rparr> else p1)
              in go_ret (p2\<lparr>Subnet := shSubnet (sharedStatus info)\<rparr>, None)))"

section \<open>GetPluginInfoFromNwAnnot\<close>

definition nic :: "nat \<Rightarrow> string" where
  "nic i = ''eth'' @ Itoa (int i)"

lemma nic_inj: "nic i = nic j \<longleftrightarrow> i = j"
  by (auto simp: nic_def dest: nat_digits_inj)

text \<open>The inner loop, which looks for the first unused name from \<open>i\<close> on.\<close>

function find_nic :: "string list \<Rightarrow> nat \<Rightarrow> nat" where
  "find_nic used i = (if nic i \<in> set used then find_nic used (i + 1) else i)"
  by pat_completeness auto
termination
proof (relation "measure (\<lambda>(used, i). card {j. i \<le> j \<and> nic j \<in> set used})")
  fix used i
  assume i: "nic i \<in> set used"
  have "inj nic" by (rule injI) (simp add: nic_inj)
  then have fin: "finite {j. nic j \<in> set used}" using finite_vimageI[of "set used" nic] by (simp add: vimage_def)
  have "{j. i + 1 \<le> j \<and> nic j \<in> set used} \<subset> {j. i \<le> j \<and> nic j \<in> set used}"
  proof (rule psubsetI)
    have "i \<in> {j. i \<le> j \<and> nic j \<in> set used}" "i \<notin> {j. i + 1 \<le> j \<and> nic j \<in> set used}" using i by simp_all
    then show "{j. i + 1 \<le> j \<and> nic j \<in> set used} \<noteq> {j. i \<le> j \<and> nic j \<in> set used}" by metis
  qed auto
  moreover have "finite {j. i \<le> j \<and> nic j \<in> set used}" by (rule finite_subset[OF _ fin]) auto
  ultimately show "((used, i + 1), used, i) \<in> measure (\<lambda>(used, i). card {j. i \<le> j \<and> nic j \<in> set used})"
    by (simp add: psubset_card_mono)
qed simp

declare find_nic.simps [simp del]

record nw_loop =
  usedIntfMap :: "string list"
  nextI :: nat
  pluginInfoList :: "PluginInfo list"

text \<open>The name of the network and of its interface, and the loop's state after the choice.\<close>

definition choose_interface :: "string \<Rightarrow> nw_loop \<Rightarrow> string \<times> string \<times> nw_loop" where
  "choose_interface logicalNw st =
     (if Contains logicalNw '':'' then
        let netNIfName = Split logicalNw '':'' in (netNIfName ! 0, netNIfName ! 1, st)
      else
        let i = find_nic (usedIntfMap st) (nextI st)
        in (logicalNw, nic i, st\<lparr>usedIntfMap := nic i # usedIntfMap st, nextI := i\<rparr>))"

text \<open>The body of the outer loop. The error of \<open>GetPluginInfoFromPhysicalNw\<close> is never looked at, and
  the plugin information of the loop only keeps its first two fields from one round to the next.\<close>

definition network_plugin :: "('s, 'c) node \<Rightarrow> string \<Rightarrow> string \<Rightarrow> 'c \<Rightarrow> string \<Rightarrow> nw_loop \<Rightarrow> ('s, nw_loop) go" where
  "network_plugin nd networkAnnot namespace client logicalNw st0 =
     (case choose_interface logicalNw st0 of
        (networkName, ifName, st) \<Rightarrow>
          go_bind (go_try (rest_GetRaw nd client (crd_path namespace ''logicalnetworks'' networkName))) (\<lambda>r.
          case r of
            Inl e \<Rightarrow> go_err (ErrorString (''CNI Genie failed to get logical network object for the network ''
                      @ networkAnnot @ '', namespace '' @ namespace @ [CHR 0x0A]))
          | Inr logicalNwObj \<Rightarrow>
              (case Unmarshal_LogicalNetwork nd logicalNwObj of
                 Inl e \<Rightarrow> go_err (Errorf_v ''CNI Genie failed to logical network info: '' e)
               | Inr spec \<Rightarrow>
                   if PhysicalNet spec = []
                   then go_err (ErrorString (''CNI Genie failed to find physical network mapping in logical network ''
                          @ networkName @ '', namespace '' @ namespace @ [CHR 0x0A]))
                   else
                     let pluginInfo = \<lparr>PluginName = Plugin spec, IfName = ifName, Subnet = [], Refer_nic = []\<rparr> in
                     go_bind (GetPluginInfoFromPhysicalNw nd (PhysicalNet spec) namespace client pluginInfo) (\<lambda>(info, err).
                     let info' = (if PhysicalNet spec = [] then info\<lparr>Subnet := SubSubnet spec\<rparr> else info)
                     in go_ret (st\<lparr>pluginInfoList := pluginInfoList st @ [info']\<rparr>)))))"

definition GetPluginInfoFromNwAnnot :: "('s, 'c) node \<Rightarrow> string \<Rightarrow> string \<Rightarrow> 'c \<Rightarrow> ('s, PluginInfo list) go" where
  "GetPluginInfoFromNwAnnot nd networkAnnot namespace client =
     go_bind (go_fold (network_plugin nd networkAnnot namespace client) (Split networkAnnot '','')
                \<lparr>usedIntfMap = [], nextI = 0, pluginInfoList = []\<rparr>) (\<lambda>st.
     go_ret (pluginInfoList st))"

end
