(* ===== verification/RestFacts.thy ===== *)
theory RestFacts
  imports RestClient GenieCrd
begin

text \<open>
  The paths of the requests: what \<^verbatim>\<open>path.Join\<close> makes of clean segments, which requests the typed client
  sends, and how the paths the plugin formats by itself compare with them.
\<close>

section \<open>Paths of clean segments\<close>

text \<open>A segment that \<^verbatim>\<open>path.Clean\<close> keeps as it is, and the absolute path of segments.\<close>

definition seg :: "string \<Rightarrow> bool" where
  "seg s \<longleftrightarrow> s \<noteq> [] \<and> s \<noteq> ''.'' \<and> s \<noteq> ''..'' \<and> CHR ''/'' \<notin> set s"

definition apath :: "string list \<Rightarrow> string" where
  "apath ss = ''/'' @ Join ss ''/''"

lemma split_from_sep: "split_from [c] cur (s @ c # t) = split_from [c] cur s @ split_from [c] [] t"
  by (induction s arbitrary: cur) auto

lemma Split_sep: "Split (s @ c # t) [c] = Split s [c] @ Split t [c]"
  by (simp add: Split_def split_from_sep)

lemma Split_Nil: "Split [] [c] = [[]]"
  by (simp add: Split_def)

lemma Split_Join_concat: "es \<noteq> [] \<Longrightarrow> Split (Join es [c]) [c] = concat (map (\<lambda>e. Split e [c]) es)"
  by (induction es "[c]" rule: Join.induct) (simp_all add: Split_sep)

lemma Split_apath: "list_all seg ss \<Longrightarrow> filter (\<lambda>x. x \<noteq> []) (Split (apath ss) ''/'') = ss"
proof -
  assume ss: "list_all seg ss"
  have "Split (apath ss) ''/'' = [] # Split (Join ss ''/'') ''/''"
    using Split_sep[of "[]" "CHR ''/''" "Join ss ''/''"] by (simp add: apath_def Split_Nil)
  moreover have "filter (\<lambda>x. x \<noteq> []) ss = ss" using ss by (simp add: filter_id_conv list_all_iff seg_def)
  moreover have "ss \<noteq> [] \<Longrightarrow> Split (Join ss ''/'') ''/'' = ss"
    using ss by (intro Split_Join) (auto simp: list_all_iff seg_def)
  ultimately show ?thesis by (cases "ss = []") (simp_all add: Split_Nil)
qed

lemma clean_parts_segs: "list_all (\<lambda>x. x = [] \<or> seg x) xs \<Longrightarrow> clean_parts rooted out xs = rev out @ filter (\<lambda>x. x \<noteq> []) xs"
  by (induction xs arbitrary: out) (auto simp: seg_def)

text \<open>A rooted path is cleaned to segments.\<close>

lemma clean_parts_seg:
  assumes "list_all (\<lambda>x. CHR ''/'' \<notin> set x) xs" "list_all seg out"
  shows "list_all seg (clean_parts True out xs)"
  using assms
proof (induction "True" out xs rule: clean_parts.induct)
  case (2 out c cs)
  then show ?case by (cases out) (auto simp: seg_def)
qed (simp add: list_all_iff)

text \<open>Below the root \<^verbatim>\<open>..\<close> removes the last segment.\<close>

lemma clean_parts_append:
  assumes "list_all (\<lambda>x. x = [] \<or> seg x) xs"
  shows "clean_parts True [] (xs @ ys) = clean_parts True (rev (filter (\<lambda>x. x \<noteq> []) xs)) ys"
proof -
  have "clean_parts True out (xs @ ys) = clean_parts True (rev (filter (\<lambda>x. x \<noteq> []) xs) @ out) ys" for out
    using assms by (induction xs arbitrary: out) (auto simp: seg_def)
  from this[of "[]"] show ?thesis by simp
qed

lemma path_Join_abs:
  assumes "prefix ''/'' a"
  shows "path_Join (a # ts) = apath (clean_parts True [] (concat (map (\<lambda>e. Split e ''/'') (a # ts))))"
proof -
  obtain p where p: "a = CHR ''/'' # p" using assms by (auto simp: prefix_def)
  have "prefix ''/'' (Join (a # ts) ''/'')" using p by (cases ts) simp_all
  then show ?thesis
    using p by (simp add: path_Join_def path_Clean_def Let_def apath_def Split_Join_concat)
qed

lemma prefix_apath [simp]: "prefix ''/'' (apath ss)"
  by (simp add: apath_def)

definition base_ok :: "string \<Rightarrow> bool" where
  "base_ok b \<longleftrightarrow> prefix ''/'' b \<and> list_all (\<lambda>x. x = [] \<or> seg x) (Split b ''/'')"

definition base_segs :: "string \<Rightarrow> string list" where
  "base_segs b = filter (\<lambda>x. x \<noteq> []) (Split b ''/'')"

lemma base_segs_seg: "base_ok b \<Longrightarrow> list_all seg (base_segs b)"
  by (auto simp: base_ok_def base_segs_def list_all_iff)

lemma seg_parts: "x = [] \<or> seg x \<Longrightarrow> Split x ''/'' = [x]"
  by (auto simp: seg_def Split_no_sep Split_Nil)

lemma seg_Split: "seg x \<Longrightarrow> Split x ''/'' = [x]"
  by (simp add: seg_parts)

lemma base_ok_apath: "list_all seg ss \<Longrightarrow> base_ok (apath ss) \<and> base_segs (apath ss) = ss"
proof -
  assume ss: "list_all seg ss"
  have f: "filter (\<lambda>x. x \<noteq> []) (Split (apath ss) ''/'') = ss" by (rule Split_apath[OF ss])
  then have "x \<in> set (Split (apath ss) ''/'') \<Longrightarrow> x \<noteq> [] \<Longrightarrow> x \<in> set ss" for x
    using arg_cong[where f = set, OF f] unfolding set_filter by blast
  with ss f show ?thesis by (auto simp: base_ok_def base_segs_def list_all_iff)
qed

text \<open>Joining clean paths and segments to a clean absolute path.\<close>

lemma path_Join_segs:
  assumes "base_ok b" "list_all (\<lambda>x. x = [] \<or> seg x) ts"
  shows "path_Join (b # ts) = apath (base_segs b @ filter (\<lambda>x. x \<noteq> []) ts)"
proof -
  have "concat (map (\<lambda>e. Split e ''/'') ts) = ts" using assms(2) by (induction ts) (auto simp: seg_parts)
  then show ?thesis
    using assms path_Join_abs[of b ts] by (simp add: base_ok_def clean_parts_segs base_segs_def)
qed

lemma path_Join_apath:
  assumes "list_all seg ss" "list_all (\<lambda>x. x = [] \<or> seg x) ts"
  shows "path_Join (apath ss # ts) = apath (ss @ filter (\<lambda>x. x \<noteq> []) ts)"
  using path_Join_segs[of "apath ss" ts] base_ok_apath[OF assms(1)] assms(2) by simp

lemma path_Join_two:
  assumes "base_ok a" "base_ok b"
  shows "path_Join [a, b] = apath (base_segs a @ base_segs b)"
  using assms path_Join_abs[of a "[b]"] by (simp add: base_ok_def base_segs_def clean_parts_segs)

lemma apath_inj: "list_all seg ss \<Longrightarrow> list_all seg ts \<Longrightarrow> apath ss = apath ts \<longleftrightarrow> ss = ts"
  by (metis Split_apath)

section \<open>The path of an object\<close>

definition object_path :: "string \<Rightarrow> string \<Rightarrow> string \<Rightarrow> string \<Rightarrow> string" where
  "object_path b ns resource name = apath (base_segs b @ [''apis'', GroupName, ''v1'', ''namespaces'', ns, resource, name])"

text \<open>A name \<^verbatim>\<open>IsValidPathSegmentName\<close> accepts.\<close>

definition path_ok :: "string \<Rightarrow> bool" where
  "path_ok s \<longleftrightarrow> s \<noteq> [] \<and> IsValidPathSegmentName s = []"

lemma Contains_char: "Contains s [c] \<longleftrightarrow> c \<in> set s"
  by (auto simp: Contains_iff in_set_conv_decomp)

lemma path_ok_seg: "path_ok s \<Longrightarrow> seg s"
  by (auto simp: path_ok_def IsValidPathSegmentName_def seg_def Contains_char split: if_splits)

lemma seg_consts: "seg ''apis''" "seg GroupName" "seg ''v1''" "seg ''namespaces''" "seg ''logicalnetworks''" "seg ''physicalnetworks''"
  by (simp_all add: seg_def GroupName_def)

text \<open>A client of this API group: what \<open>NewForConfig\<close> makes of a server with a clean base path.\<close>

definition alpha_client :: "RESTClient \<Rightarrow> bool" where
  "alpha_client c \<longleftrightarrow> base_ok (rcBasePath c) \<and> versionedAPIPath c = DefaultVersionedAPIPath ''/apis'' SchemeGroupVersion"

lemma base_ok_slash: "base_ok ''/'' \<and> base_segs ''/'' = []"
  using base_ok_apath[of "[]"] by (simp add: apath_def)

lemma api_path: "DefaultVersionedAPIPath ''/apis'' SchemeGroupVersion = apath [''apis'', GroupName, ''v1'']"
proof -
  have apis: "''/apis'' = apath [''apis'']" by (simp add: apath_def)
  have "path_Join [''/'', ''/apis''] = apath [''apis'']"
    unfolding apis using path_Join_two[of "''/''" "apath [''apis'']"] base_ok_slash base_ok_apath[of "[''apis'']"] seg_consts
    by simp
  then show ?thesis
    using path_Join_apath[of "[''apis'']" "[GroupName, ''v1'']"] seg_consts
    by (simp add: DefaultVersionedAPIPath_def SchemeGroupVersion_def) (simp add: GroupName_def)
qed

lemma base_ok_slash_end: "base_ok b \<Longrightarrow> base_ok (b @ ''/'') \<and> base_segs (b @ ''/'') = base_segs b"
  using Split_sep[of b "CHR ''/''" "[]"] by (auto simp: base_ok_def base_segs_def Split_Nil)

lemma RESTClientFor_fields:
  assumes "RESTClientFor t cfg n = (Ret rc, n')" "cfgGroupVersion cfg = Some gv"
  shows "\<exists>b. server_path t cfg = Inr b \<and> rcBasePath rc \<in> {b, b @ ''/''} \<and> versionedAPIPath rc = DefaultVersionedAPIPath (APIPath cfg) gv"
  using assms
  by (cases "server_path t cfg"; cases "TransportFor t cfg")
    (auto simp: RESTClientFor_def NewRESTClient_def Let_def NewTokenBucketRateLimiter_def go_simps split: if_splits sum.splits)

lemma NewForConfig_alpha_client:
  assumes "AlphaV1_NewForConfig t cfg n = (Ret client, n')"
    and "\<And>cfg b. server_path t cfg = Inr b \<Longrightarrow> base_ok b"
  shows "alpha_client (restClient client)"
proof -
  let ?cfg = "projr (setConfigDefaults t cfg)"
  have c: "cfgGroupVersion ?cfg = Some SchemeGroupVersion" "APIPath ?cfg = ''/apis''" "setConfigDefaults t cfg = Inr ?cfg"
    by (simp_all add: setConfigDefaults_def Let_def)
  have "go_bind (RESTClientFor t ?cfg) (\<lambda>client. go_ret \<lparr>restClient = client\<rparr>) n = (Ret client, n')"
    using assms(1) unfolding AlphaV1_NewForConfig_def by (subst (asm) c(3)) simp
  then obtain n1 rc where "RESTClientFor t ?cfg n = (Ret rc, n1)" "restClient client = rc"
    by (cases "RESTClientFor t ?cfg n") (auto simp: go_simps split: go_res.splits)
  then obtain b where b: "server_path t ?cfg = Inr b" "rcBasePath rc \<in> {b, b @ ''/''}" "versionedAPIPath rc = DefaultVersionedAPIPath ''/apis'' SchemeGroupVersion"
    using RESTClientFor_fields[OF _ c(1)] c(2) by metis
  have "base_ok (rcBasePath rc)" using b(2) assms(2)[OF b(1)] base_ok_slash_end by auto
  then show ?thesis using b(3) \<open>restClient client = rc\<close> by (simp add: alpha_client_def)
qed

text \<open>The part of a request that fixes what it addresses.\<close>

definition target_of :: "Request \<Rightarrow> string \<times> string \<times> string \<times> bool \<times> string \<times> string \<times> string \<times> string" where
  "target_of r = (rqVerb r, pathPrefix r, subpath r, namespaceSet r, rqNamespace r, rqResource r, resourceName r, subresource r)"

lemma target_of_path: "target_of r = target_of r' \<Longrightarrow> URL_path r = URL_path r'"
  by (simp add: target_of_def URL_path_def Let_def)

lemma target_of_SetHeader [simp]: "target_of (SetHeader k v r) = target_of r" "rqErr (SetHeader k v r) = rqErr r"
  by (simp_all add: target_of_def SetHeader_def)

lemma target_of_steps [simp]:
  "target_of (rq_VersionedParams e r) = target_of r" "target_of (rq_Body_object ct b r) = target_of r" "target_of (rq_Body_bytes d r) = target_of r"
  by (auto simp: rq_VersionedParams_def rq_Body_object_def rq_Body_bytes_def unless_err_def split: sum.split option.split)
    (auto simp: target_of_def SetHeader_def)

lemma rqErr_steps [simp]:
  "rqErr (rq_VersionedParams e r) = (case rqErr r of None \<Rightarrow> (case e of Inl x \<Rightarrow> Some x | Inr _ \<Rightarrow> None) | y \<Rightarrow> y)"
  "rqErr (rq_Body_object ct b r) = (case rqErr r of None \<Rightarrow> (case b of Some (Inl x) \<Rightarrow> Some x | _ \<Rightarrow> None) | y \<Rightarrow> y)"
  "rqErr (rq_Body_bytes d r) = rqErr r"
  by (auto simp: rq_VersionedParams_def rq_Body_object_def rq_Body_bytes_def unless_err_def SetHeader_def split: sum.split option.split)

text \<open>A request for a named object.\<close>

definition named_request :: "RESTClient \<Rightarrow> string \<Rightarrow> string \<Rightarrow> string \<Rightarrow> Request" where
  "named_request c verb ns name = rq_Name name (rq_Resource ''logicalnetworks'' (rq_Namespace ns (NewRequest c verb)))"

lemma NewRequest_fields:
  assumes "alpha_client c"
  shows "target_of (NewRequest c verb) = (verb, apath (base_segs (rcBasePath c) @ [''apis'', GroupName, ''v1'']), [], False, [], [], [], [])"
    "rqErr (NewRequest c verb) = None"
proof -
  have b: "base_ok (rcBasePath c)" using assms by (simp add: alpha_client_def)
  have "path_Join [''/'', rcBasePath c] = apath (base_segs (rcBasePath c))"
    using path_Join_two[OF conjunct1[OF base_ok_slash] b] base_ok_slash by simp
  then have "path_Join [path_Join [''/'', rcBasePath c], versionedAPIPath c] = apath (base_segs (rcBasePath c) @ [''apis'', GroupName, ''v1''])"
    using path_Join_two[of "apath (base_segs (rcBasePath c))" "apath [''apis'', GroupName, ''v1'']"]
      base_ok_apath[OF base_segs_seg[OF b]] base_ok_apath[of "[''apis'', GroupName, ''v1'']"] seg_consts assms
    by (simp add: alpha_client_def api_path)
  then show "target_of (NewRequest c verb) = (verb, apath (base_segs (rcBasePath c) @ [''apis'', GroupName, ''v1'']), [], False, [], [], [], [])"
    "rqErr (NewRequest c verb) = None"
    by (simp_all add: NewRequest_def Let_def target_of_def SetHeader_def)
qed

lemma named_request_valid:
  assumes "alpha_client c" "path_ok ns" "path_ok name"
  shows "rqErr (named_request c verb ns name) = None"
    "target_of (named_request c verb ns name) =
       (verb, apath (base_segs (rcBasePath c) @ [''apis'', GroupName, ''v1'']), [], True, ns, ''logicalnetworks'', name, [])"
proof -
  note n = NewRequest_fields[OF assms(1), of verb]
  have v: "IsValidPathSegmentName ''logicalnetworks'' = []" by (simp add: IsValidPathSegmentName_def Contains_char)
  show "rqErr (named_request c verb ns name) = None"
    "target_of (named_request c verb ns name) =
       (verb, apath (base_segs (rcBasePath c) @ [''apis'', GroupName, ''v1'']), [], True, ns, ''logicalnetworks'', name, [])"
    using n assms(2,3) v
    by (auto simp: named_request_def rq_Name_def rq_Resource_def rq_Namespace_def unless_err_def target_of_def path_ok_def)
qed

lemma named_request_invalid:
  assumes "alpha_client c" "\<not> path_ok name \<or> IsValidPathSegmentName ns \<noteq> []"
  shows "rqErr (named_request c verb ns name) \<noteq> None"
  using NewRequest_fields[OF assms(1), of verb] assms(2)
  by (auto simp: named_request_def rq_Name_def rq_Resource_def rq_Namespace_def unless_err_def target_of_def path_ok_def with_err_def)

lemma named_request_empty_ns:
  assumes "alpha_client c" "path_ok name"
  shows "rqVerb (named_request c verb [] name) = verb" "namespaceSet (named_request c verb [] name)"
    "resourceName (named_request c verb [] name) = name" "rqNamespace (named_request c verb [] name) = []"
proof -
  have v: "IsValidPathSegmentName ''logicalnetworks'' = []" "IsValidPathSegmentName [] = []"
    by (simp_all add: IsValidPathSegmentName_def Contains_char)
  show "rqVerb (named_request c verb [] name) = verb" "namespaceSet (named_request c verb [] name)"
    "resourceName (named_request c verb [] name) = name" "rqNamespace (named_request c verb [] name) = []"
    using NewRequest_fields[OF assms(1), of verb] assms(2) v
    by (auto simp: named_request_def rq_Name_def rq_Resource_def rq_Namespace_def unless_err_def target_of_def path_ok_def)
qed

lemma named_request_path:
  assumes "alpha_client c" "path_ok ns" "path_ok name" "target_of r = target_of (named_request c verb ns name)"
  shows "URL_path r = object_path (rcBasePath c) ns ''logicalnetworks'' name"
proof -
  let ?b = "base_segs (rcBasePath c) @ [''apis'', GroupName, ''v1'']"
  have b: "list_all seg ?b" using assms(1) base_segs_seg seg_consts by (simp add: alpha_client_def)
  have s: "seg ns" "seg name" using assms(2,3) path_ok_seg by auto
  have t: "target_of r = (verb, apath ?b, [], True, ns, ''logicalnetworks'', name, [])"
    using named_request_valid(2)[OF assms(1-3)] assms(4) by simp
  have l: "map ascii_lower ''logicalnetworks'' = ''logicalnetworks''" by code_simp
  have j1: "path_Join [apath ?b, ''namespaces'', ns] = apath (?b @ [''namespaces'', ns])"
    using path_Join_apath[OF b, of "[''namespaces'', ns]"] s seg_consts by (simp add: seg_def)
  have j2: "path_Join [apath (?b @ [''namespaces'', ns]), ''logicalnetworks''] = apath (?b @ [''namespaces'', ns, ''logicalnetworks''])"
    using path_Join_apath[of "?b @ [''namespaces'', ns]" "[''logicalnetworks'']"] b s seg_consts by (simp add: seg_def)
  have j3: "path_Join [apath (?b @ [''namespaces'', ns, ''logicalnetworks'']), name, [], []] = apath (?b @ [''namespaces'', ns, ''logicalnetworks'', name])"
    using path_Join_apath[of "?b @ [''namespaces'', ns, ''logicalnetworks'']" "[name, [], []]"] b s seg_consts by (simp add: seg_def)
  show ?thesis
    using t s l j1 j2 j3 by (simp add: target_of_def URL_path_def Let_def object_path_def seg_def)
qed

section \<open>The operations of the typed client\<close>

lemma request_err: "rqErr r \<noteq> None \<Longrightarrow> \<exists>e. request ex r = go_err e"
  by (auto simp: request_def)

text \<open>A request whose target is a named object: sent as it is, or refused.\<close>

lemma request_named:
  assumes c: "alpha_client c" and r: "target_of r = target_of (named_request c verb ns name)"
    and e: "rqErr (named_request c verb ns name) \<noteq> None \<Longrightarrow> rqErr r \<noteq> None" and v: "verb \<in> {''GET'', ''PUT'', ''DELETE''}"
  shows "path_ok ns \<Longrightarrow> path_ok name \<Longrightarrow> rqErr r = None \<Longrightarrow> request ex r = ex r"
    and "\<not> (path_ok ns \<and> path_ok name) \<Longrightarrow> \<exists>e. request ex r = go_err e"
proof -
  show "path_ok ns \<Longrightarrow> path_ok name \<Longrightarrow> rqErr r = None \<Longrightarrow> request ex r = ex r"
    using named_request_valid(2)[OF c, of ns name verb] r by (auto simp: request_def target_of_def path_ok_def)
  assume n: "\<not> (path_ok ns \<and> path_ok name)"
  show "\<exists>e. request ex r = go_err e"
  proof (cases "rqErr r = None")
    case True
    with e have "rqErr (named_request c verb ns name) = None" by blast
    then have p: "path_ok name" "IsValidPathSegmentName ns = []" using named_request_invalid[OF c] by blast+
    with n have "ns = []" by (simp add: path_ok_def)
    with named_request_empty_ns[OF c p(1), of verb] r v True p(1) show ?thesis
      by (auto simp: request_def target_of_def path_ok_def)
  qed (rule request_err)
qed

lemma Into_err [simp]: "Into d (go_err e) = go_err e"
  by (simp add: Into_def)

lemma ops_named:
  "rq_Name name (rq_Resource ''logicalnetworks'' (rq_Namespace ns (rc_Get c))) = named_request c ''GET'' ns name"
  "rq_Name name (rq_Resource ''logicalnetworks'' (rq_Namespace ns (rc_Put c))) = named_request c ''PUT'' ns name"
  "rq_Name name (rq_Resource ''logicalnetworks'' (rq_Namespace ns (rc_Delete c))) = named_request c ''DELETE'' ns name"
  by (simp_all add: named_request_def rc_Get_def rc_Put_def rc_Delete_def)

lemma err_kept: "rqErr r \<noteq> None \<Longrightarrow> rqErr (rq_VersionedParams e r) \<noteq> None" "rqErr r \<noteq> None \<Longrightarrow> rqErr (rq_Body_object ct b r) \<noteq> None"
  by auto

section \<open>The paths the plugin formats\<close>

lemma crd_path_apath:
  "crd_path ns kind name = apath [''apis'', GroupName, ''v1'', ''namespaces'', ns, kind, name]"
  by (simp add: crd_path_def apath_def GroupName_def)

text \<open>\<open>AbsPath\<close> of one absolute segment with no slash at its end.\<close>

lemma AbsPath_one:
  assumes "rqErr r = None" "base_ok (rqBasePath r)" "prefix ''/'' p" "\<not> HasSuffix p ''/''"
  shows "pathPrefix (rq_AbsPath [p] r) = apath (base_segs (rqBasePath r) @ clean_parts True [] (Split p ''/''))"
proof -
  have "path_Join [p] = apath (clean_parts True [] (Split p ''/''))" using path_Join_abs[OF assms(3), of "[]"] by simp
  have s: "list_all seg (clean_parts True [] (Split p ''/''))"
    by (rule clean_parts_seg) (auto simp: list_all_iff dest: Split_parts)
  then have "path_Join [rqBasePath r, path_Join [p]] = apath (base_segs (rqBasePath r) @ clean_parts True [] (Split p ''/''))"
    using path_Join_two[OF assms(2), of "path_Join [p]"] base_ok_apath[OF s] \<open>path_Join [p] = _\<close> by simp
  then show ?thesis using assms(1,4) by (simp add: rq_AbsPath_def unless_err_def)
qed

lemma AbsPath_other: "rqErr r = None \<Longrightarrow> rq_AbsPath ss r = r\<lparr>pathPrefix := pathPrefix (rq_AbsPath ss r)\<rparr>"
  by (simp add: rq_AbsPath_def unless_err_def Let_def)

end
