(* ===== verification/RestProperties.thy ===== *)
theory RestProperties
  imports RestFacts
begin

text \<open>
  The properties of the requests for network objects: those of the generated client, and those the plugin
  makes of the names in a pod's annotation.
\<close>

section \<open>Witness data\<close>

definition demo_rest :: RESTClient where
  "demo_rest = \<lparr>rcBasePath = ''/'', versionedAPIPath = DefaultVersionedAPIPath ''/apis'' SchemeGroupVersion,
     rcContentType = ''application/json'', rcAcceptContentTypes = [], rcThrottle = None\<rparr>"

definition demo_networks :: logicalNetworks where
  "demo_networks = \<lparr>lnsClient = demo_rest, lnsNs = ''ns''\<rparr>"

definition demo_get :: GetOptions where
  "demo_get = \<lparr>goResourceVersion = [], goIncludeUninitialized = False\<rparr>"

text \<open>A server that records the paths it is asked for.\<close>

definition demo_api :: "(string list, unit, unit) api" where
  "demo_api = \<lparr>encode_GetOptions = \<lambda>_. Inr [], encode_ListOptions = \<lambda>_. Inr [], encode_LogicalNetwork = \<lambda>l. Inr (Name (lnMeta l)),
     encode_DeleteOptions = \<lambda>_. Inr ''{}'', decode_LogicalNetwork = \<lambda>_. Inl (ErrorString ''empty''),
     decode_LogicalNetworkList = \<lambda>_. Inr [], exchange = \<lambda>r s. (Ret [], URL_path r # s), open_watch = \<lambda>r s. (Ret (), URL_path r # s)\<rparr>"

lemma demo_alpha: "alpha_client demo_rest" "rcBasePath demo_rest = ''/''"
  using base_ok_slash by (simp_all add: alpha_client_def demo_rest_def)

lemma demo_segs: "path_ok ''ns''" "path_ok ''red''" "path_ok ''other''"
  by (simp_all add: path_ok_def IsValidPathSegmentName_def)

section \<open>The typed client\<close>

lemma Get_request:
  "logicalNetworks_Get a c name opts =
     Into (decode_LogicalNetwork a) (request (exchange a) (rq_VersionedParams (encode_GetOptions a opts) (named_request (lnsClient c) ''GET'' (lnsNs c) name)))"
  by (simp add: logicalNetworks_Get_def ops_named)

lemma Update_request:
  "logicalNetworks_Update a c ln =
     Into (decode_LogicalNetwork a) (request (exchange a) (rq_Body_object (rcContentType (lnsClient c)) (Some (encode_LogicalNetwork a ln))
       (named_request (lnsClient c) ''PUT'' (lnsNs c) (Name (lnMeta ln)))))"
  by (simp add: logicalNetworks_Update_def ops_named)

lemma Delete_request:
  "logicalNetworks_Delete a c name dopts =
     go_bind (request (exchange a) (rq_Body_object (rcContentType (lnsClient c)) (map_option (encode_DeleteOptions a) dopts)
       (named_request (lnsClient c) ''DELETE'' (lnsNs c) name))) (\<lambda>_. go_ret ())"
  by (simp add: logicalNetworks_Delete_def ops_named)

text \<open>What such a request addresses when it is sent.\<close>

lemma sent_path:
  assumes "alpha_client c" "path_ok ns" "path_ok name" "target_of r = target_of (named_request c verb ns name)"
  shows "rqVerb r = verb \<and> URL_path r = object_path (rcBasePath c) ns ''logicalnetworks'' name"
  using named_request_path[OF assms] named_request_valid(2)[OF assms(1-3)] assms(4) by (simp add: target_of_def)

lemma named_call:
  assumes "alpha_client c" "target_of r = target_of (named_request c verb ns name)" "verb \<in> {''GET'', ''PUT'', ''DELETE''}"
    and "rqErr (named_request c verb ns name) \<noteq> None \<Longrightarrow> rqErr r \<noteq> None" "rqErr (named_request c verb ns name) = None \<Longrightarrow> rqErr r = None"
  shows "if path_ok ns \<and> path_ok name
     then request ex r = ex r \<and> rqVerb r = verb \<and> URL_path r = object_path (rcBasePath c) ns ''logicalnetworks'' name
     else \<exists>e. request ex r = go_err e"
  using request_named[OF assms(1,2,4,3), of ex] named_request_valid(1)[OF assms(1), of ns name verb] sent_path[OF assms(1) _ _ assms(2)] assms(5)
  by auto

lemma object_path_inj:
  assumes "base_ok b" "path_ok ns1" "path_ok n1" "path_ok ns2" "path_ok n2"
    and "object_path b ns1 ''logicalnetworks'' n1 = object_path b ns2 ''logicalnetworks'' n2"
  shows "ns1 = ns2 \<and> n1 = n2"
  using assms base_segs_seg[OF assms(1)] seg_consts path_ok_seg by (auto simp: object_path_def apath_inj)

text \<open>C27: the generated client addresses the object it is asked for and no other. When the namespace and the
  name are path segments, \<open>Get\<close>, \<open>Update\<close> and \<open>Delete\<close> send one request, with their verb, to the path of that
  object, and no two objects share a path; with any other name or namespace (empty, a dot segment, one with a
  slash or a percent sign) they return an error and send nothing.\<close>

theorem typed_client_confined:
  assumes "alpha_client (lnsClient c)" "encode_GetOptions a opts = Inr ps" "encode_LogicalNetwork a ln = Inr d"
    and "map_option (encode_DeleteOptions a) dopts = map_option Inr dtext"
  shows "(if path_ok (lnsNs c) \<and> path_ok name
          then (\<exists>r. logicalNetworks_Get a c name opts = Into (decode_LogicalNetwork a) (exchange a r) \<and> rqVerb r = ''GET''
                  \<and> URL_path r = object_path (rcBasePath (lnsClient c)) (lnsNs c) ''logicalnetworks'' name)
             \<and> (\<exists>r. logicalNetworks_Delete a c name dopts = go_bind (exchange a r) (\<lambda>_. go_ret ()) \<and> rqVerb r = ''DELETE''
                  \<and> URL_path r = object_path (rcBasePath (lnsClient c)) (lnsNs c) ''logicalnetworks'' name)
          else (\<exists>e. logicalNetworks_Get a c name opts = go_err e) \<and> (\<exists>e. logicalNetworks_Delete a c name dopts = go_err e))
    \<and> (if path_ok (lnsNs c) \<and> path_ok (Name (lnMeta ln))
       then \<exists>r. logicalNetworks_Update a c ln = Into (decode_LogicalNetwork a) (exchange a r) \<and> rqVerb r = ''PUT''
              \<and> URL_path r = object_path (rcBasePath (lnsClient c)) (lnsNs c) ''logicalnetworks'' (Name (lnMeta ln))
       else \<exists>e. logicalNetworks_Update a c ln = go_err e)
    \<and> (path_ok ns1 \<longrightarrow> path_ok n1 \<longrightarrow> path_ok ns2 \<longrightarrow> path_ok n2 \<longrightarrow>
       object_path (rcBasePath (lnsClient c)) ns1 ''logicalnetworks'' n1 = object_path (rcBasePath (lnsClient c)) ns2 ''logicalnetworks'' n2
       \<longrightarrow> ns1 = ns2 \<and> n1 = n2)"
proof -
  let ?c = "lnsClient c" and ?ns = "lnsNs c" and ?ex = "exchange a"
  let ?g = "rq_VersionedParams (encode_GetOptions a opts) (named_request ?c ''GET'' ?ns name)"
  let ?d = "rq_Body_object (rcContentType ?c) (map_option (encode_DeleteOptions a) dopts) (named_request ?c ''DELETE'' ?ns name)"
  let ?u = "rq_Body_object (rcContentType ?c) (Some (encode_LogicalNetwork a ln)) (named_request ?c ''PUT'' ?ns (Name (lnMeta ln)))"
  have d: "rqErr (named_request ?c ''DELETE'' ?ns name) = None \<Longrightarrow> rqErr ?d = None" using assms(4) by (cases dopts; cases dtext) auto
  note g = named_call[OF assms(1), where r = ?g and verb = "''GET''" and ns = ?ns and name = name and ex = ?ex, OF _ _ err_kept(1)]
  note dl = named_call[OF assms(1), where r = ?d and verb = "''DELETE''" and ns = ?ns and name = name and ex = ?ex, OF _ _ err_kept(2) d]
  note u = named_call[OF assms(1), where r = ?u and verb = "''PUT''" and ns = ?ns and name = "Name (lnMeta ln)" and ex = ?ex, OF _ _ err_kept(2)]
  have "base_ok (rcBasePath ?c)" using assms(1) by (simp add: alpha_client_def)
  note inj = object_path_inj[OF this, of ns1 n1 ns2 n2]
  show ?thesis
    unfolding Get_request Delete_request Update_request using g dl u inj assms(2,3) by (auto split: if_splits)
qed

theorem typed_client_confined_witness:
  "(\<exists>r. logicalNetworks_Get demo_api demo_networks ''red'' demo_get = Into (decode_LogicalNetwork demo_api) (exchange demo_api r)
      \<and> URL_path r = ''/apis/alpha.network.k8s.io/v1/namespaces/ns/logicalnetworks/red'')
   \<and> (\<exists>e. logicalNetworks_Get demo_api demo_networks ''../red'' demo_get = go_err e)"
proof -
  have d: "lnsClient demo_networks = demo_rest" "lnsNs demo_networks = ''ns''" by (simp_all add: demo_networks_def)
  have e: "encode_GetOptions demo_api demo_get = Inr []" "\<And>ln. encode_LogicalNetwork demo_api ln = Inr (Name (lnMeta ln))"
    "map_option (encode_DeleteOptions demo_api) None = map_option Inr None" by (simp_all add: demo_api_def)
  have bad: "\<not> path_ok ''../red''" by (simp add: path_ok_def IsValidPathSegmentName_def)
  have p: "object_path ''/'' ''ns'' ''logicalnetworks'' ''red'' = ''/apis/alpha.network.k8s.io/v1/namespaces/ns/logicalnetworks/red''"
    using base_ok_slash by (simp add: object_path_def apath_def GroupName_def)
  let ?ln = "\<lparr>lnMeta = meta_in ''ns'', lnSpec = \<lparr>PhysicalNet = [], SubSubnet = [], Plugin = []\<rparr>\<rparr>"
  note th = typed_client_confined[of demo_networks demo_api demo_get "[]", unfolded d, OF demo_alpha(1) e(1) e(2)[of ?ln] e(3)]
  show ?thesis
    using conjunct1[OF th[of "''red''" "[]" "[]" "[]" "[]"]] conjunct1[OF th[of "''../red''" "[]" "[]" "[]" "[]"]] demo_segs bad unfolding demo_alpha(2) p by auto
qed

section \<open>The plugin\<close>

text \<open>A path the plugin formats, as the request it makes of it resolves it.\<close>

definition plugin_request :: "RESTClient \<Rightarrow> string \<Rightarrow> string \<Rightarrow> string \<Rightarrow> Request" where
  "plugin_request c namespace kind name = rq_AbsPath [crd_path namespace kind name] (rc_Get c)"

lemma seg_last: "seg x \<Longrightarrow> x \<noteq> []" "seg x \<Longrightarrow> last x \<noteq> CHR ''/''"
  by (simp add: seg_def) (metis last_in_set seg_def)

lemma plugin_request_path:
  assumes "base_ok (rcBasePath c)" "name \<noteq> []" "last name \<noteq> CHR ''/''"
  shows "URL_path (plugin_request c ns kind name) =
    apath (base_segs (rcBasePath c) @ clean_parts True [] (Split (crd_path ns kind name) ''/''))"
proof -
  let ?r = "rc_Get c"
  have r: "rqErr ?r = None" "rqBasePath ?r = rcBasePath c" "\<not> namespaceSet ?r" "rqResource ?r = []" "resourceName ?r = []" "subpath ?r = []" "subresource ?r = []"
    by (simp_all add: rc_Get_def NewRequest_def Let_def SetHeader_def)
  have s: "\<not> HasSuffix (crd_path ns kind name) ''/''"
    using assms(2,3) by (cases name rule: rev_cases) (simp_all add: crd_path_def HasSuffix_def)
  have "prefix ''/'' (crd_path ns kind name)" by (simp add: crd_path_def)
  from AbsPath_one[OF r(1) _ this s] assms(1) r(2)
  have p: "pathPrefix (rq_AbsPath [crd_path ns kind name] ?r) = apath (base_segs (rcBasePath c) @ clean_parts True [] (Split (crd_path ns kind name) ''/''))"
    by simp
  have o: "rq_AbsPath [crd_path ns kind name] ?r = ?r\<lparr>pathPrefix := pathPrefix (rq_AbsPath [crd_path ns kind name] ?r)\<rparr>"
    by (rule AbsPath_other[OF r(1)])
  show ?thesis unfolding plugin_request_def by (subst o) (simp add: URL_path_def Let_def r p)
qed

lemma Split_crd_path:
  "Split (crd_path ns kind name) ''/'' =
     [[], ''apis'', GroupName, ''v1'', ''namespaces''] @ Split ns ''/'' @ Split kind ''/'' @ Split name ''/''"
proof -
  have "crd_path ns kind name = Join [[], ''apis'', GroupName, ''v1'', ''namespaces'', ns, kind, name] [CHR ''/'']"
    by (simp add: crd_path_def GroupName_def)
  then have "Split (crd_path ns kind name) ''/'' = concat (map (\<lambda>e. Split e ''/'') [[], ''apis'', GroupName, ''v1'', ''namespaces'', ns, kind, name])"
    using Split_Join_concat[of "[[], ''apis'', GroupName, ''v1'', ''namespaces'', ns, kind, name]" "CHR ''/''"] by simp
  then show ?thesis using seg_consts by (simp add: seg_parts)
qed

text \<open>Names that are path segments give the path of the object.\<close>

lemma plugin_request_ok:
  assumes "base_ok (rcBasePath c)" "seg m" "seg name"
  shows "URL_path (plugin_request c m ''logicalnetworks'' name) = object_path (rcBasePath c) m ''logicalnetworks'' name"
proof -
  let ?ps = "[[], ''apis'', GroupName, ''v1'', ''namespaces'', m, ''logicalnetworks'', name]"
  have n: "x \<noteq> []" if "seg x" for x using that by (simp add: seg_def)
  have "Split (crd_path m ''logicalnetworks'' name) ''/'' = ?ps"
    using assms(2,3) seg_consts(5) by (simp only: Split_crd_path seg_Split append_Cons append_Nil)
  moreover have "list_all (\<lambda>x. x = [] \<or> seg x) ?ps" using assms(2,3) seg_consts by simp
  moreover have "filter (\<lambda>x. x \<noteq> []) ?ps = [''apis'', GroupName, ''v1'', ''namespaces'', m, ''logicalnetworks'', name]"
    using n[OF assms(2)] n[OF assms(3)] n[OF seg_consts(2)] by simp
  ultimately show ?thesis
    using plugin_request_path[OF assms(1) seg_last[OF assms(3)], of m "''logicalnetworks''"] by (simp only: clean_parts_segs object_path_def rev.simps append_Nil)
qed

text \<open>C28: for a namespace and a name that are path segments, the request the plugin makes for a logical or
  physical network is the one the generated client makes for that object. The plugin does not check them,
  though: a name of the annotation \<^verbatim>\<open>networks\<close> that climbs out of the namespace is taken as it is, and the
  request it gives is the request for a logical network of another namespace, where the generated client
  refuses the name.\<close>

theorem plugin_path_traversal:
  assumes "base_ok (rcBasePath c)" "path_ok ns" "path_ok other" "path_ok name" "CHR '':'' \<notin> set other" "CHR '':'' \<notin> set name"
    and "alpha_client (lnsClient lc)"
  shows "URL_path (plugin_request c ns ''logicalnetworks'' name) = object_path (rcBasePath c) ns ''logicalnetworks'' name
    \<and> (let evil = ''../../'' @ other @ ''/logicalnetworks/'' @ name in
       fst (choose_interface evil st) = evil
       \<and> URL_path (plugin_request c ns ''logicalnetworks'' evil) = URL_path (plugin_request c other ''logicalnetworks'' name)
       \<and> (\<exists>e. logicalNetworks_Get a lc evil opts = go_err e))"
proof -
  let ?evil = "''../../'' @ other @ ''/logicalnetworks/'' @ name"
  have s: "seg ns" "seg other" "seg name" using assms(2-4) path_ok_seg by auto
  note l = seg_last
  note ok = plugin_request_ok[OF assms(1) _ s(3)]
  have sp: "Split ?evil ''/'' = [''..'', ''..'', other, ''logicalnetworks'', name]"
  proof -
    have "?evil = Join [''..'', ''..'', other, ''logicalnetworks'', name] [CHR ''/'']" by simp
    then show ?thesis
      using Split_Join[of "[''..'', ''..'', other, ''logicalnetworks'', name]" "CHR ''/''"] s by (simp add: seg_def)
  qed
  have "last ?evil = last name" "?evil \<noteq> []" using l(1)[OF s(3)] by simp_all
  then have "URL_path (plugin_request c ns ''logicalnetworks'' ?evil) =
      apath (base_segs (rcBasePath c) @ clean_parts True [] (Split (crd_path ns ''logicalnetworks'' ?evil) ''/''))"
    using plugin_request_path[OF assms(1), of ?evil ns] l(2)[OF s(3)] by simp
  also have "clean_parts True [] (Split (crd_path ns ''logicalnetworks'' ?evil) ''/'') =
      clean_parts True [] (([[], ''apis'', GroupName, ''v1'', ''namespaces'', ns, ''logicalnetworks'']) @ [''..'', ''..'', other, ''logicalnetworks'', name])"
    using sp s(1) seg_consts by (simp only: Split_crd_path seg_Split append.assoc append_Cons append_Nil)
  also have "\<dots> = [''apis'', GroupName, ''v1'', ''namespaces'', other, ''logicalnetworks'', name]"
    using s seg_consts by (subst clean_parts_append) (simp_all add: seg_def)
  finally have t: "URL_path (plugin_request c ns ''logicalnetworks'' ?evil) = URL_path (plugin_request c other ''logicalnetworks'' name)"
    by (simp only: ok[OF s(2)] object_path_def)
  have bad: "\<not> path_ok ?evil" by (simp add: path_ok_def IsValidPathSegmentName_def Contains_char)
  have "\<exists>e. request (exchange a) (rq_VersionedParams (encode_GetOptions a opts) (named_request (lnsClient lc) ''GET'' (lnsNs lc) ?evil)) = go_err e"
    using request_named(2)[OF assms(7), of _ "''GET''" "lnsNs lc" ?evil "exchange a", OF _ err_kept(1)] bad by simp
  then have "\<exists>e. logicalNetworks_Get a lc ?evil opts = go_err e" unfolding Get_request by auto
  moreover have "fst (choose_interface ?evil st) = ?evil"
    using assms(5,6) by (simp add: choose_interface_def Contains_char Let_def)
  ultimately show ?thesis using ok[OF s(1)] t by (simp only: Let_def simp_thms)
qed

theorem plugin_path_traversal_witness:
  "URL_path (plugin_request demo_rest ''ns'' ''logicalnetworks'' ''../../other/logicalnetworks/red'')
     = URL_path (plugin_request demo_rest ''other'' ''logicalnetworks'' ''red'')"
proof -
  have b: "base_ok (rcBasePath demo_rest)" using demo_alpha(1) by (simp add: alpha_client_def)
  have c: "CHR '':'' \<notin> set ''other''" "CHR '':'' \<notin> set ''red''" by simp_all
  have a: "alpha_client (lnsClient demo_networks)" using demo_alpha(1) by (simp add: demo_networks_def)
  from plugin_path_traversal[OF b demo_segs(1) demo_segs(3) demo_segs(2) c a, of "\<lparr>usedIntfMap = [], nextI = 0, pluginInfoList = []\<rparr>" demo_api demo_get]
  show ?thesis unfolding Let_def append_Cons append_Nil by blast
qed

end
