(* ===== verification/DeepCopy.thy ===== *)
theory DeepCopy
  imports Types
begin

text \<open>
  \<^verbatim>\<open>utils/logicalnetwork.deepcopy.go\<close> and the copies of \<^verbatim>\<open>zz_generated.deepcopy.go\<close> it calls: the deep copies of the
  network objects, over an explicit store of memory cells. A struct holds its strings and numbers itself and its
  maps, slices and pointers by address, down to the causes of a failed initializer. A copy is equal to the original and
  shares no cell with anything that existed before. What each \<open>DeepCopyInto\<close> promises is the locale \<open>copier\<close>.
\<close>

section \<open>Memory\<close>

record TypeMeta =
  tmKind :: string
  APIVersion :: string

record ListMeta =
  lmSelfLink :: string
  lmResourceVersion :: string
  lmContinue :: string

text \<open>An address is that of a cell; \<open>None\<close> is nil.\<close>

type_synonym ref = "nat option"

record hmeta =
  hmName :: string
  hmGenerateName :: string
  hmNamespace :: string
  hmSelfLink :: string
  hmUID :: string
  hmResourceVersion :: string
  hmGeneration :: int
  hmCreationTimestamp :: int
  hmDeletionTimestamp :: ref
  hmDeletionGracePeriodSeconds :: ref
  hmLabels :: ref
  hmAnnotations :: ref
  hmOwnerReferences :: ref
  hmInitializers :: ref
  hmFinalizers :: ref
  hmClusterName :: string

record howner =
  orAPIVersion :: string
  orKind :: string
  orName :: string
  orUID :: string
  orController :: ref
  orBlockOwnerDeletion :: ref

record hinitializers =
  inPending :: ref
  inResult :: ref

record hstatus =
  stTypeMeta :: TypeMeta
  stListMeta :: ListMeta
  stStatus :: string
  stMessage :: string
  stReason :: string
  stDetails :: ref
  stCode :: int

record hdetails =
  sdName :: string
  sdGroup :: string
  sdKind :: string
  sdUID :: string
  sdCauses :: ref
  sdRetryAfterSeconds :: int

record StatusCause =
  scType :: string
  scMessage :: string
  scField :: string

record hnet =
  hnTypeMeta :: TypeMeta
  hnMeta :: hmeta
  hnApiVersion :: string
  hnSpec :: LogicalNetworkSpec

record hlist =
  hlTypeMeta :: TypeMeta
  hlListMeta :: ListMeta
  hlItems :: ref

text \<open>A cell: what a pointer points to, a map, or the array of a slice. An \<open>Initializer\<close> is its name.\<close>

datatype cell =
    CTime int | CInt int | CBool bool | CMap "string gomap" | CStrings "string list" | CPending "string list"
  | CCauses "StatusCause list" | CDetails hdetails | CStatus hstatus | CInitializers hinitializers | COwners "howner list"
  | CNet hnet | CNets "hnet list" | CList hlist

record heap =
  cells :: "nat \<rightharpoonup> cell"
  next_free :: nat

definition alloc :: "cell \<Rightarrow> heap \<Rightarrow> nat \<times> heap" where
  "alloc c h = (next_free h, h\<lparr>cells := (cells h)(next_free h \<mapsto> c), next_free := next_free h + 1\<rparr>)"

definition put_cell :: "nat \<Rightarrow> cell \<Rightarrow> heap \<Rightarrow> heap" where
  "put_cell p c h = h\<lparr>cells := (cells h)(p \<mapsto> c)\<rparr>"

section \<open>Copies\<close>

text \<open>A field that holds an address: nil stays, otherwise the copy is a new cell. Which address a new cell has cannot be
  observed; it is allocated when its contents are complete.\<close>

type_synonym 'a copy = "'a \<Rightarrow> heap \<Rightarrow> 'a \<times> heap"

definition copy_ref :: "cell copy \<Rightarrow> ref copy" where
  "copy_ref f r h =
     (case r of
        None \<Rightarrow> (None, h)
      | Some p \<Rightarrow>
          (case cells h p of
             None \<Rightarrow> (Some p, h)
           | Some c \<Rightarrow> (case f c h of (c', h1) \<Rightarrow> (case alloc c' h1 of (q, h2) \<Rightarrow> (Some q, h2)))))"

fun copy_fields :: "(cell copy \<times> ref) list \<Rightarrow> heap \<Rightarrow> ref list \<times> heap" where
  "copy_fields [] h = ([], h)"
| "copy_fields ((f, r) # rs) h =
     (case copy_ref f r h of (r', h1) \<Rightarrow> (case copy_fields rs h1 of (rs', h2) \<Rightarrow> (r' # rs', h2)))"

text \<open>The elements of a slice of structs, one by one.\<close>

fun copy_each :: "'a copy \<Rightarrow> 'a list copy" where
  "copy_each f [] h = ([], h)"
| "copy_each f (x # xs) h = (case f x h of (x', h1) \<Rightarrow> (case copy_each f xs h1 of (xs', h2) \<Rightarrow> (x' # xs', h2)))"

text \<open>Contents without addresses: assigned or copied as a whole, and a map key by key.\<close>

definition copy_plain :: "cell copy" where
  "copy_plain c h = (case c of CMap m \<Rightarrow> CMap (fold (\<lambda>(k, v) out. map_put k v out) m []) | _ \<Rightarrow> c, h)"

fun set_details_refs :: "ref list \<Rightarrow> hdetails \<Rightarrow> hdetails" where
  "set_details_refs [c] d = d\<lparr>sdCauses := c\<rparr>"
| "set_details_refs _ d = d"

definition StatusDetails_DeepCopyInto :: "hdetails copy" where
  "StatusDetails_DeepCopyInto d h = (case copy_fields [(copy_plain, sdCauses d)] h of (rs, h') \<Rightarrow> (set_details_refs rs d, h'))"

definition copy_details :: "cell copy" where
  "copy_details c h = (case c of CDetails d \<Rightarrow> (case StatusDetails_DeepCopyInto d h of (d', h') \<Rightarrow> (CDetails d', h')) | _ \<Rightarrow> (c, h))"

fun set_status_refs :: "ref list \<Rightarrow> hstatus \<Rightarrow> hstatus" where
  "set_status_refs [d] s = s\<lparr>stDetails := d\<rparr>"
| "set_status_refs _ s = s"

definition Status_DeepCopyInto :: "hstatus copy" where
  "Status_DeepCopyInto s h = (case copy_fields [(copy_details, stDetails s)] h of (rs, h') \<Rightarrow> (set_status_refs rs s, h'))"

definition copy_status :: "cell copy" where
  "copy_status c h = (case c of CStatus s \<Rightarrow> (case Status_DeepCopyInto s h of (s', h') \<Rightarrow> (CStatus s', h')) | _ \<Rightarrow> (c, h))"

fun set_initializers_refs :: "ref list \<Rightarrow> hinitializers \<Rightarrow> hinitializers" where
  "set_initializers_refs [p, r] i = i\<lparr>inPending := p, inResult := r\<rparr>"
| "set_initializers_refs _ i = i"

definition Initializers_DeepCopyInto :: "hinitializers copy" where
  "Initializers_DeepCopyInto i h =
     (case copy_fields [(copy_plain, inPending i), (copy_status, inResult i)] h of (rs, h') \<Rightarrow> (set_initializers_refs rs i, h'))"

definition copy_initializers :: "cell copy" where
  "copy_initializers c h =
     (case c of CInitializers i \<Rightarrow> (case Initializers_DeepCopyInto i h of (i', h') \<Rightarrow> (CInitializers i', h')) | _ \<Rightarrow> (c, h))"

fun set_owner_refs :: "ref list \<Rightarrow> howner \<Rightarrow> howner" where
  "set_owner_refs [c, b] x = x\<lparr>orController := c, orBlockOwnerDeletion := b\<rparr>"
| "set_owner_refs _ x = x"

definition OwnerReference_DeepCopyInto :: "howner copy" where
  "OwnerReference_DeepCopyInto x h =
     (case copy_fields [(copy_plain, orController x), (copy_plain, orBlockOwnerDeletion x)] h of (rs, h') \<Rightarrow> (set_owner_refs rs x, h'))"

definition copy_owners :: "cell copy" where
  "copy_owners c h = (case c of COwners xs \<Rightarrow> (case copy_each OwnerReference_DeepCopyInto xs h of (xs', h') \<Rightarrow> (COwners xs', h')) | _ \<Rightarrow> (c, h))"

fun set_meta_refs :: "ref list \<Rightarrow> hmeta \<Rightarrow> hmeta" where
  "set_meta_refs [dt, gp, l, an, ow, ini, fi] m =
     m\<lparr>hmDeletionTimestamp := dt, hmDeletionGracePeriodSeconds := gp, hmLabels := l, hmAnnotations := an, hmOwnerReferences := ow,
       hmInitializers := ini, hmFinalizers := fi\<rparr>"
| "set_meta_refs _ m = m"

definition ObjectMeta_DeepCopyInto :: "hmeta copy" where
  "ObjectMeta_DeepCopyInto m h =
     (case copy_fields [(copy_plain, hmDeletionTimestamp m), (copy_plain, hmDeletionGracePeriodSeconds m), (copy_plain, hmLabels m),
        (copy_plain, hmAnnotations m), (copy_owners, hmOwnerReferences m), (copy_initializers, hmInitializers m), (copy_plain, hmFinalizers m)] h of
        (rs, h') \<Rightarrow> (set_meta_refs rs m, h'))"

text \<open>The struct \<open>DeepCopyInto\<close> of a logical network writes.\<close>

definition copied_net :: "hnet copy" where
  "copied_net n h = (case ObjectMeta_DeepCopyInto (hnMeta n) h of (m, h') \<Rightarrow> (n\<lparr>hnMeta := m\<rparr>, h'))"

definition LogicalNetwork_DeepCopyInto :: "nat \<Rightarrow> nat \<Rightarrow> heap \<Rightarrow> heap" where
  "LogicalNetwork_DeepCopyInto inp out h =
     (case cells h inp of
        Some (CNet n) \<Rightarrow> (case copied_net n (put_cell out (CNet n) h) of (n', h') \<Rightarrow> put_cell out (CNet n') h')
      | _ \<Rightarrow> h)"

definition zero_meta :: hmeta where
  "zero_meta = \<lparr>hmName = [], hmGenerateName = [], hmNamespace = [], hmSelfLink = [], hmUID = [], hmResourceVersion = [], hmGeneration = 0,
     hmCreationTimestamp = 0, hmDeletionTimestamp = None, hmDeletionGracePeriodSeconds = None, hmLabels = None, hmAnnotations = None,
     hmOwnerReferences = None, hmInitializers = None, hmFinalizers = None, hmClusterName = []\<rparr>"

definition zero_net :: hnet where
  "zero_net = \<lparr>hnTypeMeta = \<lparr>tmKind = [], APIVersion = []\<rparr>, hnMeta = zero_meta, hnApiVersion = [],
     hnSpec = \<lparr>PhysicalNet = [], SubSubnet = [], Plugin = []\<rparr>\<rparr>"

definition LogicalNetwork_DeepCopy :: "ref copy" where
  "LogicalNetwork_DeepCopy inp h =
     (case inp of
        None \<Rightarrow> (None, h)
      | Some p \<Rightarrow> (case alloc (CNet zero_net) h of (out, h') \<Rightarrow> (Some out, LogicalNetwork_DeepCopyInto p out h')))"

definition LogicalNetwork_DeepCopyObject :: "ref copy" where
  "LogicalNetwork_DeepCopyObject inp h = (case LogicalNetwork_DeepCopy inp h of (None, h') \<Rightarrow> (None, h') | (Some c, h') \<Rightarrow> (Some c, h'))"

definition copy_nets :: "cell copy" where
  "copy_nets c h = (case c of CNets ns \<Rightarrow> (case copy_each copied_net ns h of (ns', h') \<Rightarrow> (CNets ns', h')) | _ \<Rightarrow> (c, h))"

fun set_list_refs :: "ref list \<Rightarrow> hlist \<Rightarrow> hlist" where
  "set_list_refs [r] l = l\<lparr>hlItems := r\<rparr>"
| "set_list_refs _ l = l"

definition copied_list :: "hlist copy" where
  "copied_list l h = (case copy_fields [(copy_nets, hlItems l)] h of (rs, h') \<Rightarrow> (set_list_refs rs l, h'))"

definition LogicalNetworkList_DeepCopyInto :: "nat \<Rightarrow> nat \<Rightarrow> heap \<Rightarrow> heap" where
  "LogicalNetworkList_DeepCopyInto inp out h =
     (case cells h inp of
        Some (CList l) \<Rightarrow> (case copied_list l (put_cell out (CList l) h) of (l', h') \<Rightarrow> put_cell out (CList l') h')
      | _ \<Rightarrow> h)"

definition zero_list :: hlist where
  "zero_list = \<lparr>hlTypeMeta = \<lparr>tmKind = [], APIVersion = []\<rparr>, hlListMeta = \<lparr>lmSelfLink = [], lmResourceVersion = [], lmContinue = []\<rparr>, hlItems = None\<rparr>"

definition LogicalNetworkList_DeepCopy :: "ref copy" where
  "LogicalNetworkList_DeepCopy inp h =
     (case inp of
        None \<Rightarrow> (None, h)
      | Some p \<Rightarrow> (case alloc (CList zero_list) h of (out, h') \<Rightarrow> (Some out, LogicalNetworkList_DeepCopyInto p out h')))"

definition LogicalNetworkList_DeepCopyObject :: "ref copy" where
  "LogicalNetworkList_DeepCopyObject inp h =
     (case LogicalNetworkList_DeepCopy inp h of (None, h') \<Rightarrow> (None, h') | (Some c, h') \<Rightarrow> (Some c, h'))"

section \<open>What an address is worth\<close>

text \<open>The types of the cells, and the addresses a cell holds with the type of what they lead to.\<close>

datatype kind = KTime | KInt | KBool | KMap | KStrings | KPending | KCauses | KDetails | KStatus | KInitializers | KOwners | KNet | KNets | KList

fun kind_of :: "cell \<Rightarrow> kind" where
  "kind_of (CTime _) = KTime" | "kind_of (CInt _) = KInt" | "kind_of (CBool _) = KBool" | "kind_of (CMap _) = KMap"
| "kind_of (CStrings _) = KStrings" | "kind_of (CPending _) = KPending" | "kind_of (CCauses _) = KCauses" | "kind_of (CDetails _) = KDetails"
| "kind_of (CStatus _) = KStatus" | "kind_of (CInitializers _) = KInitializers" | "kind_of (COwners _) = KOwners" | "kind_of (CNet _) = KNet"
| "kind_of (CNets _) = KNets" | "kind_of (CList _) = KList"

type_synonym typed_ref = "kind \<times> ref"

definition details_refs :: "hdetails \<Rightarrow> typed_ref list" where
  "details_refs d = [(KCauses, sdCauses d)]"

definition status_refs :: "hstatus \<Rightarrow> typed_ref list" where
  "status_refs s = [(KDetails, stDetails s)]"

definition initializers_refs :: "hinitializers \<Rightarrow> typed_ref list" where
  "initializers_refs i = [(KPending, inPending i), (KStatus, inResult i)]"

definition owner_refs :: "howner \<Rightarrow> typed_ref list" where
  "owner_refs x = [(KBool, orController x), (KBool, orBlockOwnerDeletion x)]"

definition meta_refs :: "hmeta \<Rightarrow> typed_ref list" where
  "meta_refs m = [(KTime, hmDeletionTimestamp m), (KInt, hmDeletionGracePeriodSeconds m), (KMap, hmLabels m), (KMap, hmAnnotations m),
     (KOwners, hmOwnerReferences m), (KInitializers, hmInitializers m), (KStrings, hmFinalizers m)]"

definition net_refs :: "hnet \<Rightarrow> typed_ref list" where
  "net_refs n = meta_refs (hnMeta n)"

definition list_refs :: "hlist \<Rightarrow> typed_ref list" where
  "list_refs l = [(KNets, hlItems l)]"

fun cell_refs :: "cell \<Rightarrow> typed_ref list" where
  "cell_refs (CDetails d) = details_refs d"
| "cell_refs (CStatus s) = status_refs s"
| "cell_refs (CInitializers i) = initializers_refs i"
| "cell_refs (COwners xs) = concat (map owner_refs xs)"
| "cell_refs (CNet n) = net_refs n"
| "cell_refs (CNets ns) = concat (map net_refs ns)"
| "cell_refs (CList l) = list_refs l"
| "cell_refs _ = []"

text \<open>The same without its addresses.\<close>

definition plain_owner :: "howner \<Rightarrow> howner" where
  "plain_owner = set_owner_refs [None, None]"

definition plain_net :: "hnet \<Rightarrow> hnet" where
  "plain_net n = n\<lparr>hnMeta := set_meta_refs [None, None, None, None, None, None, None] (hnMeta n)\<rparr>"

fun plain_cell :: "cell \<Rightarrow> cell" where
  "plain_cell (CDetails d) = CDetails (set_details_refs [None] d)"
| "plain_cell (CStatus s) = CStatus (set_status_refs [None] s)"
| "plain_cell (CInitializers i) = CInitializers (set_initializers_refs [None, None] i)"
| "plain_cell (COwners xs) = COwners (map plain_owner xs)"
| "plain_cell (CNet n) = CNet (plain_net n)"
| "plain_cell (CNets ns) = CNets (map plain_net ns)"
| "plain_cell (CList l) = CList (set_list_refs [None] l)"
| "plain_cell c = c"

text \<open>All that is reached from an address in at most \<open>d\<close> steps: its contents, its cells, and whether every address in it
  leads to a cell of the type of its field, the last of them to one without addresses.\<close>

datatype tree = Dangling | Node cell "tree option list"

fun deep :: "nat \<Rightarrow> heap \<Rightarrow> ref \<Rightarrow> tree option" where
  "deep d h None = None"
| "deep 0 h (Some p) = Some Dangling"
| "deep (Suc d) h (Some p) =
     Some (case cells h p of None \<Rightarrow> Dangling | Some c \<Rightarrow> Node (plain_cell c) (map (\<lambda>(k, r). deep d h r) (cell_refs c)))"

fun deep_cells :: "nat \<Rightarrow> heap \<Rightarrow> ref \<Rightarrow> nat set" where
  "deep_cells d h None = {}"
| "deep_cells 0 h (Some p) = {}"
| "deep_cells (Suc d) h (Some p) =
     insert p (case cells h p of None \<Rightarrow> {} | Some c \<Rightarrow> (\<Union>(k, r) \<in> set (cell_refs c). deep_cells d h r))"

fun deep_ok :: "nat \<Rightarrow> heap \<Rightarrow> typed_ref \<Rightarrow> bool" where
  "deep_ok d h (k, None) = True"
| "deep_ok 0 h (k, Some p) = False"
| "deep_ok (Suc d) h (k, Some p) = (case cells h p of None \<Rightarrow> False | Some c \<Rightarrow> kind_of c = k \<and> list_all (deep_ok d h) (cell_refs c))"

text \<open>From a list of networks the causes of a failed initializer are six steps away, and nothing is further.\<close>

definition depth :: nat where "depth = 6"

definition heap_ok :: "heap \<Rightarrow> bool" where
  "heap_ok h \<longleftrightarrow> (\<forall>p \<in> dom (cells h). p < next_free h) \<and> (\<forall>p m. cells h p = Some (CMap m) \<longrightarrow> distinct (map fst m))"

text \<open>Heap extension: the cells below \<open>k\<close> stay.\<close>

definition keeps_below :: "nat \<Rightarrow> heap \<Rightarrow> heap \<Rightarrow> bool" where
  "keeps_below k h h' \<longleftrightarrow> (\<forall>p < k. cells h' p = cells h p) \<and> next_free h \<le> next_free h'"

lemma keeps_below_trans:
  "keeps_below (next_free h) h h1 \<Longrightarrow> keeps_below (next_free h1) h1 h2 \<Longrightarrow> keeps_below (next_free h) h h2"
  by (auto simp: keeps_below_def)

text \<open>What is reached depends on the cells reached only.\<close>

lemma deep_frame:
  assumes "deep_ok d h (k, r)" "\<And>p. p \<in> deep_cells d h r \<Longrightarrow> cells h' p = cells h p"
  shows "deep d h' r = deep d h r \<and> deep_ok d h' (k, r) \<and> deep_cells d h' r = deep_cells d h r"
  using assms
proof (induction d arbitrary: k r)
  case (Suc d)
  show ?case
  proof (cases r)
    case (Some p)
    with Suc.prems(1) obtain c where c: "cells h p = Some c" "kind_of c = k" "list_all (deep_ok d h) (cell_refs c)" by (auto split: option.splits)
    have c': "cells h' p = Some c" using Suc.prems(2)[of p] Some c(1) by simp
    have f: "deep d h' r' = deep d h r' \<and> deep_ok d h' (k', r') \<and> deep_cells d h' r' = deep_cells d h r'" if "(k', r') \<in> set (cell_refs c)" for k' r'
    proof (rule Suc.IH)
      show "deep_ok d h (k', r')" using c(3) that by (auto simp: list_all_iff)
      show "cells h' q = cells h q" if "q \<in> deep_cells d h r'" for q
        using Suc.prems(2)[of q] Some c(1) that \<open>(k', r') \<in> set (cell_refs c)\<close> by force
    qed
    have "map (\<lambda>(k, r). deep d h' r) (cell_refs c) = map (\<lambda>(k, r). deep d h r) (cell_refs c)" by (rule map_cong[OF refl]) (use f in auto)
    moreover have "list_all (deep_ok d h') (cell_refs c)" using f by (auto simp: list_all_iff)
    moreover have "(\<Union>(k, r) \<in> set (cell_refs c). deep_cells d h' r) = (\<Union>(k, r) \<in> set (cell_refs c). deep_cells d h r)"
      by (rule SUP_cong[OF refl]) (use f in auto)
    ultimately show ?thesis using Some c c' by simp
  qed simp
next
  case 0
  then show ?case by (cases r) simp_all
qed

lemma deep_below: "heap_ok h \<Longrightarrow> deep_ok d h (k, r) \<Longrightarrow> deep_cells d h r \<subseteq> {..<next_free h}"
proof (induction d arbitrary: k r)
  case (Suc d)
  show ?case
  proof (cases r)
    case (Some p)
    with Suc.prems(2) obtain c where c: "cells h p = Some c" "list_all (deep_ok d h) (cell_refs c)" by (auto split: option.splits)
    have "p < next_free h" using c(1) Suc.prems(1) by (auto simp: heap_ok_def)
    moreover have "deep_cells d h r' \<subseteq> {..<next_free h}" if "(k', r') \<in> set (cell_refs c)" for k' r'
      using Suc.IH[OF Suc.prems(1), of k' r'] c(2) that by (auto simp: list_all_iff)
    ultimately show ?thesis using Some c(1) by auto
  qed simp
next
  case 0
  then show ?case by (cases r) simp_all
qed

lemma deep_kept:
  assumes "heap_ok h" "deep_ok d h (k, r)" "\<And>p. p < next_free h \<Longrightarrow> cells h' p = cells h p"
  shows "deep d h' r = deep d h r" "deep_ok d h' (k, r)"
  using deep_frame[OF assms(2), of h'] deep_below[OF assms(1,2)] assms(3) by auto

section \<open>What a copy promises\<close>

definition reached :: "nat \<Rightarrow> heap \<Rightarrow> typed_ref list \<Rightarrow> nat set" where
  "reached d h rs = (\<Union>(k, r) \<in> set rs. deep_cells d h r)"

lemma reached_simps [simp]: "reached d h [] = {}" "reached d h (rs @ ss) = reached d h rs \<union> reached d h ss"
  "reached d h ((k, r) # rs) = deep_cells d h r \<union> reached d h rs"
  by (simp_all add: reached_def)

lemma reached_cong: "(\<And>k r. (k, r) \<in> set rs \<Longrightarrow> deep_cells d h' r = deep_cells d h r) \<Longrightarrow> reached d h' rs = reached d h rs"
  unfolding reached_def by (rule SUP_cong[OF refl]) auto

text \<open>The addresses \<open>rs'\<close> made between \<open>h\<close> and \<open>h'\<close> are worth in \<open>h'\<close> what \<open>rs\<close> are in \<open>h\<close>, and all they reach is new.\<close>

definition copied :: "nat \<Rightarrow> heap \<Rightarrow> heap \<Rightarrow> typed_ref list \<Rightarrow> typed_ref list \<Rightarrow> bool" where
  "copied d h h' rs rs' \<longleftrightarrow> heap_ok h' \<and> keeps_below (next_free h) h h'
     \<and> map (\<lambda>(k, r). deep d h' r) rs' = map (\<lambda>(k, r). deep d h r) rs \<and> list_all (deep_ok d h') rs'
     \<and> reached d h' rs' \<subseteq> {next_free h..<next_free h'}"

lemma copied_Nil [simp]: "heap_ok h \<Longrightarrow> copied d h h [] []"
  by (simp add: copied_def keeps_below_def)

lemma copied_append:
  assumes "copied d h h1 rs rs'" "copied d h1 h2 ss ss'" "heap_ok h" "list_all (deep_ok d h) ss"
  shows "copied d h h2 (rs @ ss) (rs' @ ss')"
proof -
  have ok1: "heap_ok h1" and k: "keeps_below (next_free h) h h1" "keeps_below (next_free h1) h1 h2" and r: "list_all (deep_ok d h1) rs'"
    using assms(1,2) by (simp_all add: copied_def)
  have s: "deep d h1 r' = deep d h r'" if "(k', r') \<in> set ss" for k' r'
    by (rule deep_kept(1)[OF assms(3)]) (use that assms(4) k(1) in \<open>auto simp: list_all_iff keeps_below_def\<close>)
  have f: "deep d h2 r' = deep d h1 r' \<and> deep_ok d h2 (k', r') \<and> deep_cells d h2 r' = deep_cells d h1 r'" if "(k', r') \<in> set rs'" for k' r'
  proof (rule deep_frame)
    show "deep_ok d h1 (k', r')" using r that by (auto simp: list_all_iff)
    then show "cells h2 q = cells h1 q" if "q \<in> deep_cells d h1 r'" for q
      using deep_below[OF ok1] that k(2) by (fastforce simp: keeps_below_def)
  qed
  have "map (\<lambda>(k, r). deep d h2 r) rs' = map (\<lambda>(k, r). deep d h1 r) rs'" by (rule map_cong[OF refl]) (use f in auto)
  moreover have "map (\<lambda>(k, r). deep d h1 r) ss = map (\<lambda>(k, r). deep d h r) ss" by (rule map_cong[OF refl]) (use s in auto)
  moreover have "list_all (deep_ok d h2) rs'" using f by (auto simp: list_all_iff)
  moreover have "reached d h2 rs' = reached d h1 rs'" by (rule reached_cong) (use f in blast)
  moreover have "next_free h \<le> next_free h1" "next_free h1 \<le> next_free h2" using k by (simp_all add: keeps_below_def)
  then have "{next_free h..<next_free h1} \<subseteq> {next_free h..<next_free h2}" "{next_free h1..<next_free h2} \<subseteq> {next_free h..<next_free h2}" by auto
  moreover note keeps_below_trans[OF k]
  ultimately show ?thesis
    using assms(1,2) unfolding copied_def map_append list_all_append reached_simps by (metis Un_least subset_trans)
qed

text \<open>The contract of a \<open>DeepCopyInto\<close>, for a struct or a cell \<open>x\<close> with the addresses \<open>refs x\<close> and the rest \<open>strip x\<close>.\<close>

locale copier =
  fixes Q :: "'a \<Rightarrow> bool" and refs :: "'a \<Rightarrow> typed_ref list" and strip :: "'a \<Rightarrow> 'a" and f :: "'a copy"
  assumes copy_law: "heap_ok h \<Longrightarrow> Q x \<Longrightarrow> list_all (deep_ok d h) (refs x) \<Longrightarrow> f x h = (x', h') \<Longrightarrow>
    Q x' \<and> strip x' = strip x \<and> copied d h h' (refs x) (refs x')"
begin

lemma copy_each_law:
  assumes "heap_ok h" "list_all Q xs" "list_all (deep_ok d h) (concat (map refs xs))" "copy_each f xs h = (xs', h')"
  shows "list_all Q xs' \<and> map strip xs' = map strip xs \<and> copied d h h' (concat (map refs xs)) (concat (map refs xs'))"
  using assms
proof (induction xs arbitrary: h xs' h')
  case (Cons x xs)
  obtain x1 h1 where 1: "f x h = (x1, h1)" by (rule prod.exhaust)
  obtain xs2 h2 where 2: "copy_each f xs h1 = (xs2, h2)" by (rule prod.exhaust)
  have e: "xs' = x1 # xs2" "h' = h2" using Cons.prems(4) 1 2 by auto
  have a: "Q x1" "strip x1 = strip x" "copied d h h1 (refs x) (refs x1)" using copy_law[OF Cons.prems(1) _ _ 1] Cons.prems(2,3) by auto
  have ok1: "heap_ok h1" and k: "keeps_below (next_free h) h h1" using a(3) by (simp_all add: copied_def)
  have d: "list_all (deep_ok d h) (concat (map refs xs))" using Cons.prems(3) by simp
  have "deep_ok d h1 (k', r')" if "(k', r') \<in> set (concat (map refs xs))" for k' r'
    by (rule deep_kept(2)[OF Cons.prems(1)]) (use that d k in \<open>auto simp: list_all_iff keeps_below_def\<close>)
  then have "list_all (deep_ok d h1) (concat (map refs xs))" unfolding list_all_iff by auto
  from Cons.IH[OF ok1 _ this 2] Cons.prems(2)
  have b: "list_all Q xs2" "map strip xs2 = map strip xs" "copied d h1 h2 (concat (map refs xs)) (concat (map refs xs2))" by simp_all
  from copied_append[OF a(3) b(3) Cons.prems(1) d] a b e show ?case by simp
qed simp

end

text \<open>A copy of the cells of a type.\<close>

abbreviation cell_copier :: "kind \<Rightarrow> cell copy \<Rightarrow> bool" where
  "cell_copier k \<equiv> copier (\<lambda>c. kind_of c = k \<and> (\<forall>m. c = CMap m \<longrightarrow> distinct (map fst m))) cell_refs plain_cell"

lemma plain_kind [simp]: "kind_of (plain_cell c) = kind_of c"
  by (cases c) simp_all

lemma heap_ok_alloc: "heap_ok h \<Longrightarrow> (\<And>m. c = CMap m \<Longrightarrow> distinct (map fst m)) \<Longrightarrow> heap_ok (snd (alloc c h))"
  by (auto simp: heap_ok_def alloc_def less_Suc_eq)

lemma heap_ok_put: "heap_ok h \<Longrightarrow> p < next_free h \<Longrightarrow> (\<And>m. c \<noteq> CMap m) \<Longrightarrow> heap_ok (put_cell p c h)"
  by (auto simp: heap_ok_def put_cell_def)

lemma copy_ref_law:
  assumes f: "cell_copier k f" and "heap_ok h" "deep_ok d h (k, r)" "copy_ref f r h = (r', h')"
  shows "copied d h h' [(k, r)] [(k, r')]"
proof (cases r)
  case None
  with assms(2,4) show ?thesis by (simp add: copy_ref_def copied_def keeps_below_def)
next
  case (Some p)
  with assms(3) obtain e c where d: "d = Suc e" "cells h p = Some c" "kind_of c = k" "list_all (deep_ok e h) (cell_refs c)"
    by (cases d) (auto split: option.splits)
  obtain c' h1 where c': "f c h = (c', h1)" by (rule prod.exhaust)
  have "\<forall>m. c = CMap m \<longrightarrow> distinct (map fst m)" using assms(2) d(2) by (auto simp: heap_ok_def)
  with copier.copy_law[OF f assms(2) _ d(4) c'] d(3)
  have l: "kind_of c' = k" "\<And>m. c' = CMap m \<Longrightarrow> distinct (map fst m)" "plain_cell c' = plain_cell c" "copied e h h1 (cell_refs c) (cell_refs c')" by auto
  let ?q = "next_free h1"
  have h': "r' = Some ?q" "h' = snd (alloc c' h1)" using assms(4) Some d(2) c' by (auto simp: copy_ref_def alloc_def)
  have ok1: "heap_ok h1" and kb: "keeps_below (next_free h) h h1" using l(4) by (simp_all add: copied_def)
  have ok: "heap_ok h'" unfolding h' by (rule heap_ok_alloc[OF ok1 l(2)])
  have nf: "next_free h' = Suc ?q" "cells h' ?q = Some c'" "\<And>p. p < ?q \<Longrightarrow> cells h' p = cells h1 p" "next_free h \<le> ?q"
    using kb by (simp_all add: h' alloc_def keeps_below_def)
  have f: "deep e h' r1 = deep e h1 r1 \<and> deep_ok e h' (k1, r1) \<and> deep_cells e h' r1 = deep_cells e h1 r1" if "(k1, r1) \<in> set (cell_refs c')" for k1 r1
  proof (rule deep_frame)
    show o: "deep_ok e h1 (k1, r1)" using l(4) that by (auto simp: copied_def list_all_iff)
    show "cells h' q = cells h1 q" if "q \<in> deep_cells e h1 r1" for q using deep_below[OF ok1 o] that nf(3) by auto
  qed
  have "map (\<lambda>(k, r). deep e h' r) (cell_refs c') = map (\<lambda>(k, r). deep e h1 r) (cell_refs c')" by (rule map_cong[OF refl]) (use f in auto)
  also have "\<dots> = map (\<lambda>(k, r). deep e h r) (cell_refs c)" using l(4) unfolding copied_def by blast
  finally have v: "deep d h' r' = deep d h r" using l(3) d(1,2) Some h'(1) nf(2) by (simp del: map_eq_conv)
  have o: "deep_ok d h' (k, r')" using f l(1) d(1) h'(1) nf(2) by (auto simp: list_all_iff)
  have "reached e h' (cell_refs c') = reached e h1 (cell_refs c')" by (rule reached_cong) (use f in blast)
  then have "deep_cells d h' r' = insert ?q (reached e h1 (cell_refs c'))" using d(1) h'(1) nf(2) by (simp add: reached_def)
  moreover have "insert ?q {next_free h..<next_free h1} \<subseteq> {next_free h..<next_free h'}" using nf by auto
  ultimately have "deep_cells d h' r' \<subseteq> {next_free h..<next_free h'}" using l(4) unfolding copied_def by blast
  moreover have "keeps_below (next_free h) h h'" using kb nf by (auto simp: keeps_below_def)
  ultimately show ?thesis using v o ok by (simp add: copied_def)
qed

lemma copy_fields_law:
  assumes "list_all2 cell_copier ks (map fst fs)" "heap_ok h" "list_all (deep_ok d h) (zip ks (map snd fs))" "copy_fields fs h = (rs, h')"
  shows "length rs = length ks \<and> copied d h h' (zip ks (map snd fs)) (zip ks rs)"
  using assms
proof (induction fs arbitrary: ks h rs h')
  case (Cons fr fs)
  obtain g r where fr: "fr = (g, r)" by (rule prod.exhaust)
  obtain k ks' where ks: "ks = k # ks'" "cell_copier k g" "list_all2 cell_copier ks' (map fst fs)"
    using Cons.prems(1) fr by (auto simp: list_all2_Cons2)
  obtain r1 h1 where 1: "copy_ref g r h = (r1, h1)" by (rule prod.exhaust)
  obtain rs2 h2 where 2: "copy_fields fs h1 = (rs2, h2)" by (rule prod.exhaust)
  have e: "rs = r1 # rs2" "h' = h2" using Cons.prems(4) 1 2 fr by auto
  have a: "copied d h h1 [(k, r)] [(k, r1)]" by (rule copy_ref_law[OF ks(2) Cons.prems(2) _ 1]) (use Cons.prems(3) ks(1) fr in simp)
  have ok1: "heap_ok h1" and kb: "keeps_below (next_free h) h h1" using a by (simp_all add: copied_def)
  have d: "list_all (deep_ok d h) (zip ks' (map snd fs))" using Cons.prems(3) ks(1) by simp
  have "deep_ok d h1 (k1, r1)" if "(k1, r1) \<in> set (zip ks' (map snd fs))" for k1 r1
    by (rule deep_kept(2)[OF Cons.prems(2)]) (use that d kb in \<open>auto simp: list_all_iff keeps_below_def\<close>)
  then have "list_all (deep_ok d h1) (zip ks' (map snd fs))" unfolding list_all_iff by auto
  from Cons.IH[OF ks(3) ok1 this 2] have b: "length rs2 = length ks'" "copied d h1 h2 (zip ks' (map snd fs)) (zip ks' rs2)" by simp_all
  from copied_append[OF a b(2) Cons.prems(2) d] b(1) show ?case using ks(1) e fr by simp
qed simp

text \<open>A struct whose fields are copied is copied.\<close>

lemma copier_fields:
  assumes "\<And>x h. f x h = (case copy_fields (zip gs (fl x)) h of (rs, h') \<Rightarrow> (upd rs x, h'))"
    and "list_all2 cell_copier ks gs" "\<And>x. length (fl x) = length ks"
    and "\<And>rs x. length rs = length ks \<Longrightarrow> fl (upd rs x) = rs" "\<And>rs x. length rs = length ks \<Longrightarrow> strip (upd rs x) = strip x"
    and refs: "\<And>x. refs x = zip ks (fl x)"
  shows "copier (\<lambda>_. True) refs strip f"
  unfolding copier_def refs
proof (intro allI impI)
  fix h x d x' h' assume h: "heap_ok h" "list_all (deep_ok d h) (zip ks (fl x))" and c: "f x h = (x', h')"
  obtain rs h1 where rs: "copy_fields (zip gs (fl x)) h = (rs, h1)" by (rule prod.exhaust)
  have e: "x' = upd rs x" "h' = h1" using c rs assms(1)[of x h] by simp_all
  have l: "length gs = length ks" using assms(2) by (simp add: list_all2_lengthD)
  then have z: "map fst (zip gs (fl x)) = gs" "map snd (zip gs (fl x)) = fl x" using assms(3)[of x] by simp_all
  from copy_fields_law[of ks "zip gs (fl x)" h d rs h1] z assms(2) h rs
  have r: "length rs = length ks" "copied d h h1 (zip ks (fl x)) (zip ks rs)" by simp_all
  show "True \<and> strip x' = strip x \<and> copied d h h' (zip ks (fl x)) (zip ks (fl x'))"
    using r assms(4,5)[OF r(1)] e by simp
qed

text \<open>From structs, and slices of them, to cells.\<close>

lemma copier_cell:
  assumes s: "copier (\<lambda>_. True) refs strip f"
    and "\<And>c. kind_of c = k \<Longrightarrow> \<exists>x. c = C x" "\<And>x. kind_of (C x) = k" "\<And>x m. C x \<noteq> CMap m"
    and "\<And>x. cell_refs (C x) = refs x" "\<And>x. plain_cell (C x) = C (strip x)"
    and "\<And>x h. g (C x) h = (case f x h of (x', h') \<Rightarrow> (C x', h'))"
  shows "cell_copier k g"
proof
  fix h c d c' h' assume h: "heap_ok h" "kind_of c = k \<and> (\<forall>m. c = CMap m \<longrightarrow> distinct (map fst m))" "list_all (deep_ok d h) (cell_refs c)" "g c h = (c', h')"
  obtain x where c: "c = C x" using assms(2) h(2) by blast
  obtain x' h1 where x': "f x h = (x', h1)" by (rule prod.exhaust)
  have e: "c' = C x'" "h' = h1" using h(4) assms(7)[of x h] c x' by simp_all
  from copier.copy_law[OF s h(1) TrueI _ x', of d] h(3)
  show "(kind_of c' = k \<and> (\<forall>m. c' = CMap m \<longrightarrow> distinct (map fst m))) \<and> plain_cell c' = plain_cell c \<and> copied d h h' (cell_refs c) (cell_refs c')"
    using assms(3-6) c e by simp
qed

lemma copier_each: "copier (\<lambda>_. True) refs strip f \<Longrightarrow> copier (\<lambda>_. True) (\<lambda>xs. concat (map refs xs)) (map strip) (copy_each f)"
  using copier.copy_each_law[of "\<lambda>_. True" refs strip f] by (intro copier.intro) (simp add: list_all_iff)

lemma fold_map_put_same:
  assumes "distinct (map fst (out @ m))"
  shows "fold (\<lambda>(k, v) out. map_put k v out) m out = out @ m"
  using assms
proof (induction m arbitrary: out)
  case (Cons kv m)
  obtain k v where kv: "kv = (k, v)" by (rule prod.exhaust)
  have "map_put k v out = out @ [(k, v)]"
    using Cons.prems kv by (induction out) (auto split: prod.split)
  with Cons.IH[of "out @ [(k, v)]"] Cons.prems kv show ?case by simp
qed simp

lemma copier_plain:
  assumes "\<And>c. kind_of c = k \<Longrightarrow> cell_refs c = []"
  shows "cell_copier k copy_plain"
proof
  fix h c d c' h' assume h: "heap_ok h" "kind_of c = k \<and> (\<forall>m. c = CMap m \<longrightarrow> distinct (map fst m))" "copy_plain c h = (c', h')"
  have "c' = c \<and> h' = h"
    using h(2,3) fold_map_put_same[of "[]"] by (cases c) (auto simp: copy_plain_def)
  then show "(kind_of c' = k \<and> (\<forall>m. c' = CMap m \<longrightarrow> distinct (map fst m))) \<and> plain_cell c' = plain_cell c \<and> copied d h h' (cell_refs c) (cell_refs c')"
    using h(1,2) assms[of c] by simp
qed

section \<open>The copies of the program\<close>

lemma plain_copiers: "cell_copier KTime copy_plain" "cell_copier KInt copy_plain" "cell_copier KBool copy_plain" "cell_copier KMap copy_plain"
  "cell_copier KStrings copy_plain" "cell_copier KPending copy_plain" "cell_copier KCauses copy_plain"
proof -
  have "cell_refs c = []" if "kind_of c \<in> {KTime, KInt, KBool, KMap, KStrings, KPending, KCauses}" for c using that by (cases c) simp_all
  then show "cell_copier KTime copy_plain" "cell_copier KInt copy_plain" "cell_copier KBool copy_plain" "cell_copier KMap copy_plain"
    "cell_copier KStrings copy_plain" "cell_copier KPending copy_plain" "cell_copier KCauses copy_plain" by (simp_all add: copier_plain)
qed

lemmas lists_of_length = length_Suc_conv eval_nat_numeral

interpretation details: copier "\<lambda>_. True" details_refs "set_details_refs [None]" StatusDetails_DeepCopyInto
  by (rule copier_fields[where fl = "\<lambda>d. [sdCauses d]" and gs = "[copy_plain]" and ks = "[KCauses]" and upd = set_details_refs])
    (auto simp: StatusDetails_DeepCopyInto_def details_refs_def plain_copiers lists_of_length)

lemma details_cell: "cell_copier KDetails copy_details"
proof (rule copier_cell[OF details.copier_axioms, where C = CDetails])
  show "\<exists>x. c = CDetails x" if "kind_of c = KDetails" for c using that by (cases c) simp_all
qed (simp_all add: copy_details_def)

interpretation status: copier "\<lambda>_. True" status_refs "set_status_refs [None]" Status_DeepCopyInto
  by (rule copier_fields[where fl = "\<lambda>s. [stDetails s]" and gs = "[copy_details]" and ks = "[KDetails]" and upd = set_status_refs])
    (auto simp: Status_DeepCopyInto_def status_refs_def details_cell lists_of_length)

lemma status_cell: "cell_copier KStatus copy_status"
proof (rule copier_cell[OF status.copier_axioms, where C = CStatus])
  show "\<exists>x. c = CStatus x" if "kind_of c = KStatus" for c using that by (cases c) simp_all
qed (simp_all add: copy_status_def)

interpretation initializers: copier "\<lambda>_. True" initializers_refs "set_initializers_refs [None, None]" Initializers_DeepCopyInto
  by (rule copier_fields[where fl = "\<lambda>i. [inPending i, inResult i]" and gs = "[copy_plain, copy_status]" and ks = "[KPending, KStatus]" and upd = set_initializers_refs])
    (auto simp: Initializers_DeepCopyInto_def initializers_refs_def plain_copiers status_cell lists_of_length)

lemma initializers_cell: "cell_copier KInitializers copy_initializers"
proof (rule copier_cell[OF initializers.copier_axioms, where C = CInitializers])
  show "\<exists>x. c = CInitializers x" if "kind_of c = KInitializers" for c using that by (cases c) simp_all
qed (simp_all add: copy_initializers_def)

interpretation owner: copier "\<lambda>_. True" owner_refs plain_owner OwnerReference_DeepCopyInto
  by (rule copier_fields[where fl = "\<lambda>x. [orController x, orBlockOwnerDeletion x]" and gs = "[copy_plain, copy_plain]" and ks = "[KBool, KBool]" and upd = set_owner_refs])
    (auto simp: OwnerReference_DeepCopyInto_def owner_refs_def plain_owner_def plain_copiers lists_of_length)

lemma owners_cell: "cell_copier KOwners copy_owners"
proof (rule copier_cell[OF copier_each[OF owner.copier_axioms], where C = COwners])
  show "\<exists>x. c = COwners x" if "kind_of c = KOwners" for c using that by (cases c) simp_all
qed (simp_all add: copy_owners_def)

interpretation net: copier "\<lambda>_. True" net_refs plain_net copied_net
  by (rule copier_fields[where fl = "\<lambda>n. map snd (meta_refs (hnMeta n))"
        and gs = "[copy_plain, copy_plain, copy_plain, copy_plain, copy_owners, copy_initializers, copy_plain]"
        and ks = "[KTime, KInt, KMap, KMap, KOwners, KInitializers, KStrings]" and upd = "\<lambda>rs n. n\<lparr>hnMeta := set_meta_refs rs (hnMeta n)\<rparr>"])
    (auto simp: copied_net_def ObjectMeta_DeepCopyInto_def net_refs_def meta_refs_def plain_net_def plain_copiers owners_cell initializers_cell
      lists_of_length split: prod.split)

lemma nets_cell: "cell_copier KNets copy_nets"
proof (rule copier_cell[OF copier_each[OF net.copier_axioms], where C = CNets])
  show "\<exists>x. c = CNets x" if "kind_of c = KNets" for c using that by (cases c) simp_all
qed (simp_all add: copy_nets_def)

interpretation netlist: copier "\<lambda>_. True" list_refs "set_list_refs [None]" copied_list
  by (rule copier_fields[where fl = "\<lambda>l. [hlItems l]" and gs = "[copy_nets]" and ks = "[KNets]" and upd = set_list_refs])
    (auto simp: copied_list_def list_refs_def nets_cell lists_of_length)

text \<open>A new object: zeroed, assigned, then copied into.\<close>

lemma new_object:
  assumes s: "copier (\<lambda>_. True) refs strip f"
    and C: "\<And>x. kind_of (C x) = k" "\<And>x m. C x \<noteq> CMap m" "\<And>x. cell_refs (C x) = refs x" "\<And>x. plain_cell (C x) = C (strip x)"
    and h: "heap_ok h" "deep_ok (Suc d) h (k, Some a)" "cells h a = Some (C x)"
    and x': "f x (put_cell (next_free h) (C x) (snd (alloc (C z) h))) = (x', h3)"
  shows "copied (Suc d) h (put_cell (next_free h) (C x') h3) [(k, Some a)] [(k, Some (next_free h))]"
proof -
  let ?b = "next_free h"
  let ?h2 = "put_cell ?b (C x) (snd (alloc (C z) h))" and ?H = "put_cell ?b (C x') h3"
  have nf: "next_free ?h2 = Suc ?b" by (simp add: put_cell_def alloc_def)
  have ok2: "heap_ok ?h2" by (rule heap_ok_put[OF heap_ok_alloc[OF h(1)]]) (simp_all add: alloc_def C(2))
  have same: "cells ?h2 p = cells h p" if "p < ?b" for p using that by (simp add: put_cell_def alloc_def)
  have r: "deep_ok d h (k1, r1)" if "(k1, r1) \<in> set (refs x)" for k1 r1 using h(2,3) that by (auto simp: C list_all_iff)
  have r2: "deep d ?h2 r1 = deep d h r1" "deep_ok d ?h2 (k1, r1)" if "(k1, r1) \<in> set (refs x)" for k1 r1
    using deep_kept[OF h(1) r[OF that] same] by simp_all
  have "list_all (deep_ok d ?h2) (refs x)" using r2(2) by (auto simp: list_all_iff)
  from copier.copy_law[OF s ok2 TrueI this x'] have l: "strip x' = strip x" "copied d ?h2 h3 (refs x) (refs x')" by simp_all
  have ok3: "heap_ok h3" and kb: "keeps_below (Suc ?b) ?h2 h3" and fresh: "reached d h3 (refs x') \<subseteq> {Suc ?b..<next_free h3}"
    using l(2) nf by (simp_all add: copied_def)
  have le: "Suc ?b \<le> next_free h3" using kb nf by (simp add: keeps_below_def)
  have f: "deep d ?H r1 = deep d h3 r1 \<and> deep_ok d ?H (k1, r1) \<and> deep_cells d ?H r1 = deep_cells d h3 r1" if "(k1, r1) \<in> set (refs x')" for k1 r1
  proof (rule deep_frame)
    show "deep_ok d h3 (k1, r1)" using l(2) that by (auto simp: copied_def list_all_iff)
    show "cells ?H q = cells h3 q" if "q \<in> deep_cells d h3 r1" for q
      using fresh that \<open>(k1, r1) \<in> set (refs x')\<close> by (fastforce simp: put_cell_def reached_def)
  qed
  have "map (\<lambda>(k, r). deep d ?H r) (refs x') = map (\<lambda>(k, r). deep d h3 r) (refs x')" by (rule map_cong[OF refl]) (use f in auto)
  also have "\<dots> = map (\<lambda>(k, r). deep d ?h2 r) (refs x)" using l(2) unfolding copied_def by blast
  also have "\<dots> = map (\<lambda>(k, r). deep d h r) (refs x)" by (rule map_cong[OF refl]) (use r2 in auto)
  finally have v: "deep (Suc d) ?H (Some ?b) = deep (Suc d) h (Some a)" using l(1) h(3) by (simp add: put_cell_def C del: map_eq_conv)
  have o: "deep_ok (Suc d) ?H (k, Some ?b)" using f by (auto simp: list_all_iff C put_cell_def)
  have "reached d ?H (refs x') = reached d h3 (refs x')" by (rule reached_cong) (use f in blast)
  then have "deep_cells (Suc d) ?H (Some ?b) = insert ?b (reached d h3 (refs x'))" by (simp add: C reached_def put_cell_def)
  moreover have "insert ?b {Suc ?b..<next_free h3} \<subseteq> {?b..<next_free ?H}" using le by (auto simp: put_cell_def)
  ultimately have "deep_cells (Suc d) ?H (Some ?b) \<subseteq> {?b..<next_free ?H}" using fresh by blast
  moreover have "heap_ok ?H" by (rule heap_ok_put[OF ok3]) (use le C(2) in simp_all)
  moreover have "keeps_below ?b h ?H" using kb same nf le by (auto simp: keeps_below_def put_cell_def)
  ultimately show ?thesis using v o by (simp add: copied_def)
qed

lemma LogicalNetwork_DeepCopy_law:
  assumes "heap_ok h" "deep_ok (Suc d) h (KNet, Some a)"
  shows "\<exists>h'. LogicalNetwork_DeepCopy (Some a) h = (Some (next_free h), h') \<and> copied (Suc d) h h' [(KNet, Some a)] [(KNet, Some (next_free h))]"
proof -
  obtain c where c: "cells h a = Some c" "kind_of c = KNet" using assms(2) by (auto split: option.splits)
  obtain n where n: "c = CNet n" using c(2) by (cases c) simp_all
  let ?b = "next_free h" and ?h1 = "snd (alloc (CNet zero_net) h)"
  obtain n' h3 where n': "copied_net n (put_cell ?b (CNet n) ?h1) = (n', h3)" by (rule prod.exhaust)
  have "a < ?b" using c(1) assms(1) by (auto simp: heap_ok_def)
  then have "LogicalNetwork_DeepCopy (Some a) h = (Some ?b, put_cell ?b (CNet n') h3)"
    using c(1) n n' by (simp add: LogicalNetwork_DeepCopy_def LogicalNetwork_DeepCopyInto_def alloc_def)
  moreover have "copied (Suc d) h (put_cell ?b (CNet n') h3) [(KNet, Some a)] [(KNet, Some ?b)]"
    by (rule new_object[OF net.copier_axioms, where C = CNet]) (use assms c n n' in simp_all)
  ultimately show ?thesis by blast
qed

lemma LogicalNetworkList_DeepCopy_law:
  assumes "heap_ok h" "deep_ok (Suc d) h (KList, Some a)"
  shows "\<exists>h'. LogicalNetworkList_DeepCopy (Some a) h = (Some (next_free h), h') \<and> copied (Suc d) h h' [(KList, Some a)] [(KList, Some (next_free h))]"
proof -
  obtain c where c: "cells h a = Some c" "kind_of c = KList" using assms(2) by (auto split: option.splits)
  obtain l where l: "c = CList l" using c(2) by (cases c) simp_all
  let ?b = "next_free h" and ?h1 = "snd (alloc (CList zero_list) h)"
  obtain l' h3 where l': "copied_list l (put_cell ?b (CList l) ?h1) = (l', h3)" by (rule prod.exhaust)
  have "a < ?b" using c(1) assms(1) by (auto simp: heap_ok_def)
  then have "LogicalNetworkList_DeepCopy (Some a) h = (Some ?b, put_cell ?b (CList l') h3)"
    using c(1) l l' by (simp add: LogicalNetworkList_DeepCopy_def LogicalNetworkList_DeepCopyInto_def alloc_def)
  moreover have "copied (Suc d) h (put_cell ?b (CList l') h3) [(KList, Some a)] [(KList, Some ?b)]"
    by (rule new_object[OF netlist.copier_axioms, where C = CList]) (use assms c l l' in simp_all)
  ultimately show ?thesis by blast
qed

end
