(* ===== verification/ProcessProperties.thy ===== *)
theory ProcessProperties
  imports StartupFacts ControllerProperties RestProperties DeepCopy
begin

text \<open>
  The properties of the controller's program as a whole and of the generated code it is built on: the
  informers, stores and listers, the informer factory, the deep copies, and the process from \<open>main\<close> to the
  exit.
\<close>

section \<open>Informers and listers\<close>

abbreviation store_ops :: "(string list \<Rightarrow> string list) \<Rightarrow> threadSafeMap Indexer" where
  "store_ops visit \<equiv> cache_ops visit DeletionHandlingMetaNamespaceKeyFunc"

context map_order
begin

lemma informer_batches:
  assumes "store_ok (inf_store s)" "all_as as_LN (map_of (items (inf_store s)))" "pending_as as_LN (inf_listeners s)"
    and "list_all (list_all (delta_as as_LN)) dss"
  shows "\<exists>s'. go_each (HandleDeltas (store_ops visit)) dss s = (Ret (), s') \<and> store_ok (inf_store s')
    \<and> all_as as_LN (map_of (items (inf_store s'))) \<and> pending_as as_LN (inf_listeners s')
    \<and> map_of (items (inf_store s')) = fold apply_delta (concat dss) (map_of (items (inf_store s)))"
  using assms
proof (induction dss arbitrary: s)
  case Nil
  then show ?case by (simp add: go_ret_def)
next
  case (Cons ds dss)
  have d: "list_all (delta_as as_LN) ds" "list_all (list_all (delta_as as_LN)) dss" using Cons.prems(4) by simp_all
  obtain s1 where s1: "HandleDeltas (store_ops visit) ds s = (Ret (), s1)" "store_ok (inf_store s1)"
      "all_as as_LN (map_of (items (inf_store s1)))" "pending_as as_LN (inf_listeners s1)"
      "map_of (items (inf_store s1)) = fold apply_delta ds (map_of (items (inf_store s)))"
    using ln.HandleDeltas_typed[OF Cons.prems(1-3) d(1)] by blast
  from Cons.IH[OF s1(2-4) d(2)] s1(1,5) show ?case by (auto simp: go_each_Cons go_bind_def)
qed

lemmas ln_listers = ln.get_as_snapshot ln.ListAll_snapshot ln.ListAllByNamespace_snapshot
lemmas np_listers = np.get_as_snapshot np.ListAllByNamespace_snapshot

lemma new_informer_typed:
  "store_ok (inf_store (AddEventHandler (store_ops visit) (new_informer ns_indexers)))"
  "map_of (items (inf_store (AddEventHandler (store_ops visit) (new_informer ns_indexers)))) = Map.empty"
  "pending_as as (inf_listeners (AddEventHandler (store_ops visit) (new_informer ns_indexers)))"
  using store_ok_New by (simp_all add: AddEventHandler_def new_informer_def pending_as_def) (simp add: NewThreadSafeStore_def)

end

text \<open>C21: whatever batches of changes of logical networks an informer receives, none of its calls fails: every
  store operation succeeds, the store holds what the changes made of an empty one, every notification it has
  for the controller is one the registered event handlers take without a panic, and the lister never meets an
  object of another type: \<open>Get\<close> returns what the handlers of the controller are modelled to read from the
  snapshot of the store, and \<open>List\<close>, for all namespaces or one, the matching objects of that snapshot.\<close>

theorem informer_lister_typed:
  assumes "\<forall>ks. mset (visit ks) = mset ks" "list_all (list_all (delta_as as_LN)) dss"
  shows "\<exists>s. go_each (HandleDeltas (store_ops visit)) dss (AddEventHandler (store_ops visit) (new_informer ns_indexers)) = (Ret (), s)
    \<and> map_of (items (inf_store s)) = fold apply_delta (concat dss) Map.empty
    \<and> (\<forall>l \<in> set (inf_listeners s). \<forall>q. fst (listener_run ln_notification (pendingNotifications l) q) = Ret ())
    \<and> (\<forall>ns name. logicalNetworkNamespaceLister_Get (logicalNetworkLister_LogicalNetworks (NewLogicalNetworkLister (store_ops visit)) ns) name (inf_store s)
         = (case LogicalNetworks_Get (snapshot as_LN (store_ops visit) (inf_store s)) ns name of Inl e \<Rightarrow> Err e | Inr x \<Rightarrow> Ret x))
    \<and> (\<forall>sel. logicalNetworkLister_List (NewLogicalNetworkLister (store_ops visit)) sel (inf_store s)
         = Ret (filter (\<lambda>x. sel (Labels (lnMeta x))) (snapshot as_LN (store_ops visit) (inf_store s)), None))
    \<and> (\<forall>ns sel. ns \<noteq> [] \<longrightarrow> (\<exists>xs.
         logicalNetworkNamespaceLister_List (logicalNetworkLister_LogicalNetworks (NewLogicalNetworkLister (store_ops visit)) ns) sel (inf_store s) = Ret (xs, None)
         \<and> mset xs = mset (filter (\<lambda>x. Namespace (lnMeta x) = ns \<and> sel (Labels (lnMeta x))) (snapshot as_LN (store_ops visit) (inf_store s)))))"
proof -
  have mo: "map_order visit" using assms(1) by (simp add: map_order_def)
  let ?s0 = "AddEventHandler (store_ops visit) (new_informer ns_indexers)"
  note n = map_order.new_informer_typed[OF mo]
  have a: "all_as as_LN (map_of (items (inf_store ?s0)))" unfolding n(2) by (simp add: all_as_def)
  obtain s where s: "go_each (HandleDeltas (store_ops visit)) dss ?s0 = (Ret (), s)" "store_ok (inf_store s)"
      "all_as as_LN (map_of (items (inf_store s)))" "pending_as as_LN (inf_listeners s)"
      "map_of (items (inf_store s)) = fold apply_delta (concat dss) Map.empty"
    using map_order.informer_batches[OF mo n(1) a n(3) assms(2)] unfolding n(2) by blast
  note lr = map_order.ln_listers[OF mo s(2,3)]
  have "fst (listener_run ln_notification (pendingNotifications l) q) = Ret ()" if "l \<in> set (inf_listeners s)" for l q
  proof -
    have "well_typed (ln_notification m)" if "m \<in> set (pendingNotifications l)" for m
      using s(4) \<open>l \<in> set (inf_listeners s)\<close> that inote_well_typed(1) by (auto simp: pending_as_def list_all_iff)
    from listener_run_typed[OF this] show ?thesis by simp
  qed
  then show ?thesis
    using s(1,5) lr
    by (intro exI[of _ s]) (simp add: logicalNetworkNamespaceLister_Get_def logicalNetworkLister_LogicalNetworks_def
        NewLogicalNetworkLister_def logicalNetworkLister_List_def logicalNetworkNamespaceLister_List_def LogicalNetworks_Get_def
        split: option.split)
qed

text \<open>The same of the lister of network policies.\<close>

lemma policy_lister_snapshot:
  assumes "map_order visit" "store_ok c" "all_as as_NP (map_of (items c))"
  shows "networkPolicyNamespaceLister_Get \<lparr>npnl_indexer = store_ops visit, npnl_namespace = ns\<rparr> name c
      = (case NetworkPolicies_Get (snapshot as_NP (store_ops visit) c) ns name of Inl e \<Rightarrow> Err e | Inr x \<Rightarrow> Ret x)"
    and "ns \<noteq> [] \<Longrightarrow> \<exists>xs. networkPolicyNamespaceLister_List \<lparr>npnl_indexer = store_ops visit, npnl_namespace = ns\<rparr> (\<lambda>_. True) c = Ret (xs, None)
      \<and> mset xs = mset (NetworkPolicies_List (snapshot as_NP (store_ops visit) c) ns)"
  using map_order.np_listers(1)[OF assms] map_order.np_listers(2)[OF assms, of ns "\<lambda>_. True"]
  by (simp_all add: networkPolicyNamespaceLister_Get_def NetworkPolicies_Get_def networkPolicyNamespaceLister_List_def NetworkPolicies_List_def
      split: option.split)

definition demo_ln :: LogicalNetwork where
  "demo_ln = \<lparr>lnMeta = (meta_in ''ns'')\<lparr>Name := ''red''\<rparr>, lnSpec = \<lparr>PhysicalNet = [], SubSubnet = ''10.1.0.0/16'', Plugin = []\<rparr>\<rparr>"

definition demo_deltas :: "Delta list" where
  "demo_deltas = [\<lparr>deltaType = Added, deltaObject = ObjLN demo_ln\<rparr>]"

theorem informer_lister_typed_witness:
  "\<exists>s. go_each (HandleDeltas (store_ops id)) [demo_deltas] (AddEventHandler (store_ops id) (new_informer ns_indexers)) = (Ret (), s)
     \<and> map_of (items (inf_store s)) = [''ns/red'' \<mapsto> ObjLN demo_ln]"
proof -
  have t: "list_all (list_all (delta_as as_LN)) [demo_deltas]" by (simp add: demo_deltas_def delta_as_def as_LN_def)
  have m: "fold apply_delta (concat [demo_deltas]) Map.empty = [''ns/red'' \<mapsto> ObjLN demo_ln]"
    by (simp add: demo_deltas_def apply_delta_def delta_key_def DeletionHandlingMetaNamespaceKeyFunc_def MetaNamespaceKeyFunc_def
        Accessor_def namespace_key_def demo_ln_def meta_in_def)
  from informer_lister_typed[of id "[demo_deltas]"] t show ?thesis unfolding m by auto
qed

section \<open>The informer factory\<close>

text \<open>C25: however the goroutines of a program interleave their calls of \<open>InformerFor\<close> and \<open>Start\<close> on a factory,
  no informer is run twice, the informer of a type is of that type and stays the same one, asking again
  returns it, and after \<open>Start\<close> every informer asked for so far runs.\<close>

theorem factory_once:
  assumes "factory_step\<^sup>*\<^sup>* (NewSharedInformerFactory d, new_world) (f, w)"
  shows "distinct (running w)
    \<and> (map_of (informers f) t = Some i \<longrightarrow> infType (informers_made w ! i) = t
         \<and> fst (InformerFor t newFunc (f, w)) = i
         \<and> (factory_step\<^sup>*\<^sup>* (f, w) s \<longrightarrow> map_of (informers (fst s)) t = Some i))
    \<and> ((\<forall>m. mset (visit m) = mset m) \<longrightarrow>
         distinct (running (snd (Start visit (f, w)))) \<and> set (running (snd (Start visit (f, w)))) = snd ` set (informers f))"
proof -
  have inv: "factory_inv (f, w)" using factory_steps_inv[OF assms factory_inv_new] by simp
  note I = factory_invD[OF inv]
  have "map_of (informers f) t = Some i \<Longrightarrow> infType (informers_made w ! i) = t" using I(6) map_of_SomeD by fastforce
  moreover have "map_of (informers f) t = Some i \<Longrightarrow> fst (InformerFor t newFunc (f, w)) = i" by (simp add: InformerFor_def)
  moreover have "map_of (informers f) t = Some i \<Longrightarrow> factory_step\<^sup>*\<^sup>* (f, w) s \<Longrightarrow> map_of (informers (fst s)) t = Some i"
    using factory_steps_inv[OF _ inv, of s] by (auto simp: map_le_def dom_def)
  moreover have "distinct (running (snd (Start visit (f, w)))) \<and> set (running (snd (Start visit (f, w)))) = snd ` set (informers f)"
    if "\<forall>m. mset (visit m) = mset m"
    using Start_inv[OF inv, of visit] that factory_invD(3)[of "fst (Start visit (f, w))" "snd (Start visit (f, w))"] by simp
  ultimately show ?thesis using I(3) by blast
qed

definition demo_factory :: factory_state where
  "demo_factory = snd (logicalNetworkInformer_Informer (factory_Alpha (NewSharedInformerFactory 30)) (NewSharedInformerFactory 30, new_world))"

theorem factory_once_witness:
  "factory_step\<^sup>*\<^sup>* (NewSharedInformerFactory 30, new_world) demo_factory
   \<and> infType (informers_made (snd demo_factory) ! 0) = T_LogicalNetwork \<and> set (running (snd (Start id demo_factory))) = {0}"
proof -
  have s: "factory_step (NewSharedInformerFactory 30, new_world) demo_factory"
  proof (rule factory_step.Ask)
    show "InformerFor T_LogicalNetwork (defaultInformer (factory_Alpha (NewSharedInformerFactory 30))) (NewSharedInformerFactory 30, new_world)
        = (fst (logicalNetworkInformer_Informer (factory_Alpha (NewSharedInformerFactory 30)) (NewSharedInformerFactory 30, new_world)), demo_factory)"
      by (simp add: demo_factory_def logicalNetworkInformer_Informer_def)
  qed (simp add: defaultInformer_def NewFilteredLogicalNetworkInformer_def)
  obtain f w where fw: "demo_factory = (f, w)" by (rule prod.exhaust)
  have i: "informers f = [(T_LogicalNetwork, 0)]"
    using fw by (auto simp: demo_factory_def logicalNetworkInformer_Informer_def InformerFor_def NewSharedInformerFactory_def
        NewSharedInformerFactoryWithOptions_def new_world_def Let_def)
  from s have r: "factory_step\<^sup>*\<^sup>* (NewSharedInformerFactory 30, new_world) (f, w)" unfolding fw by blast
  from factory_once[OF r, of T_LogicalNetwork 0 "defaultInformer (factory_Alpha f)" demo_factory id] r i show ?thesis unfolding fw by simp
qed

section \<open>Deep copies\<close>

text \<open>The cells \<open>C\<close> of the heap \<open>h'\<close> are new, and no later heap that differs from \<open>h'\<close> in them only shows a change of
  anything that was reached from a well-typed address of the earlier heap \<open>h\<close>.\<close>

definition apart :: "heap \<Rightarrow> heap \<Rightarrow> nat set \<Rightarrow> bool" where
  "apart h h' C \<longleftrightarrow> C \<inter> dom (cells h) = {}
     \<and> (\<forall>h'' k x. (\<forall>q. q \<notin> C \<longrightarrow> cells h'' q = cells h' q) \<longrightarrow> deep_ok depth h (k, Some x)
          \<longrightarrow> deep depth h'' (Some x) = deep depth h (Some x))"

lemma apart_fresh:
  assumes "heap_ok h" "C \<subseteq> {next_free h..}" "keeps_below (next_free h) h h'"
  shows "apart h h' C"
  unfolding apart_def
proof (intro conjI allI impI)
  show "C \<inter> dom (cells h) = {}" using assms(1,2) unfolding heap_ok_def by (meson atLeast_iff disjoint_iff linorder_not_less subsetD)
  fix h'' :: heap and k x assume w: "\<forall>q. q \<notin> C \<longrightarrow> cells h'' q = cells h' q" and m: "deep_ok depth h (k, Some x)"
  have s: "cells h'' q = cells h q" if "q < next_free h" for q
  proof -
    have "q \<notin> C" using assms(2) that by auto
    then show ?thesis using w assms(3) that by (simp add: keeps_below_def)
  qed
  show "deep depth h'' (Some x) = deep depth h (Some x)" by (rule deep_kept(1)[OF assms(1) m s])
qed

lemma copied_apart:
  assumes "heap_ok h" "copied depth h h' [(k, r)] [(k, r')]"
  shows "deep_ok depth h' (k, r') \<and> deep depth h' r' = deep depth h r \<and> apart h h' (deep_cells depth h' r')"
proof -
  have c: "keeps_below (next_free h) h h'" "deep_cells depth h' r' \<subseteq> {next_free h..<next_free h'}" using assms(2) by (simp_all add: copied_def)
  then have "deep_cells depth h' r' \<subseteq> {next_free h..}" by auto
  from apart_fresh[OF assms(1) this c(1)] assms(2) show ?thesis by (simp add: copied_def)
qed

text \<open>C26: the deep copies of a logical network and of a list of them are equal to the originals, with all that their
  addresses lead to: the elements of the list, their labels, annotations, finalizers and deletion data, their owner
  references and the initializers with the status and its causes. All that a copy reaches is new memory, and whatever is
  written to that memory later leaves everything that existed before as it was.\<close>

theorem DeepCopy_independent:
  assumes "heap_ok h" "deep_ok depth h (KNet, Some a)" "deep_ok depth h (KList, Some b)"
  shows "(\<exists>c h'. LogicalNetwork_DeepCopy (Some a) h = (Some c, h')
        \<and> deep_ok depth h' (KNet, Some c) \<and> deep depth h' (Some c) = deep depth h (Some a) \<and> apart h h' (deep_cells depth h' (Some c)))
    \<and> (\<exists>c h'. LogicalNetworkList_DeepCopy (Some b) h = (Some c, h')
        \<and> deep_ok depth h' (KList, Some c) \<and> deep depth h' (Some c) = deep depth h (Some b) \<and> apart h h' (deep_cells depth h' (Some c)))"
proof -
  have d: "depth = Suc 5" by (simp add: depth_def)
  obtain h1 where "LogicalNetwork_DeepCopy (Some a) h = (Some (next_free h), h1)" "copied depth h h1 [(KNet, Some a)] [(KNet, Some (next_free h))]"
    using LogicalNetwork_DeepCopy_law[OF assms(1), of 5 a] assms(2) unfolding d by blast
  moreover obtain h2 where "LogicalNetworkList_DeepCopy (Some b) h = (Some (next_free h), h2)" "copied depth h h2 [(KList, Some b)] [(KList, Some (next_free h))]"
    using LogicalNetworkList_DeepCopy_law[OF assms(1), of 5 b] assms(3) unfolding d by blast
  ultimately show ?thesis using copied_apart[OF assms(1)] by blast
qed

definition demo_hnet :: hnet where
  "demo_hnet = zero_net\<lparr>hnMeta := zero_meta\<lparr>hmName := ''red'', hmLabels := Some 0, hmOwnerReferences := Some 2, hmInitializers := Some 7\<rparr>\<rparr>"

definition demo_heap :: heap where
  "demo_heap = \<lparr>cells =
     [0 \<mapsto> CMap [(''a'', ''b'')], 1 \<mapsto> CBool True,
      2 \<mapsto> COwners [\<lparr>orAPIVersion = ''v1'', orKind = ''Node'', orName = ''n'', orUID = ''u'', orController = Some 1, orBlockOwnerDeletion = None\<rparr>],
      3 \<mapsto> CCauses [\<lparr>scType = ''t'', scMessage = ''m'', scField = ''f''\<rparr>],
      4 \<mapsto> CDetails \<lparr>sdName = ''d'', sdGroup = [], sdKind = [], sdUID = [], sdCauses = Some 3, sdRetryAfterSeconds = 0\<rparr>,
      5 \<mapsto> CStatus \<lparr>stTypeMeta = \<lparr>tmKind = [], APIVersion = []\<rparr>, stListMeta = \<lparr>lmSelfLink = [], lmResourceVersion = [], lmContinue = []\<rparr>,
            stStatus = ''Failure'', stMessage = [], stReason = [], stDetails = Some 4, stCode = 500\<rparr>,
      6 \<mapsto> CPending [''i''], 7 \<mapsto> CInitializers \<lparr>inPending = Some 6, inResult = Some 5\<rparr>,
      8 \<mapsto> CNet demo_hnet, 9 \<mapsto> CNets [demo_hnet], 10 \<mapsto> CList (zero_list\<lparr>hlItems := Some 9\<rparr>)],
     next_free = 11\<rparr>"

lemma demo_heap_ok: "heap_ok demo_heap" "deep_ok depth demo_heap (KNet, Some 8)" "deep_ok depth demo_heap (KList, Some 10)"
proof -
  have d: "dom (cells demo_heap) = {0, 1, 2, 3, 4, 5, 6, 7, 8, 9, 10}" by (auto simp: demo_heap_def)
  have c: "cells demo_heap p = Some (CMap m) \<Longrightarrow> m = [(''a'', ''b'')]" for p m by (simp add: demo_heap_def split: if_splits)
  show "heap_ok demo_heap" unfolding heap_ok_def d using c by (auto simp: demo_heap_def)
  note defs = depth_def demo_heap_def demo_hnet_def zero_net_def zero_meta_def zero_list_def net_refs_def meta_refs_def owner_refs_def
    initializers_refs_def status_refs_def details_refs_def list_refs_def eval_nat_numeral
  show "deep_ok depth demo_heap (KNet, Some 8)" "deep_ok depth demo_heap (KList, Some 10)" by (simp_all add: defs)
qed

theorem DeepCopy_independent_witness:
  "\<exists>c h'. LogicalNetworkList_DeepCopy (Some 10) demo_heap = (Some c, h') \<and> deep depth h' (Some c) = deep depth demo_heap (Some 10)
     \<and> apart demo_heap h' (deep_cells depth h' (Some c))"
  using DeepCopy_independent[OF demo_heap_ok] by blast

section \<open>The process\<close>

lemma serving_safe:
  assumes "serving h ipt tbl cn ex T s" "npc_shape T"
  shows "\<not> crashed s" "npc_shape (tbl (kern s))" "wq_inv (npcWorkqueue s)"
  using serving_inv[OF assms] by (auto simp: sys_inv_def sched_inv_def wq.shared_def)

text \<open>C20: in every state of the controller's program, from the call of \<open>Run\<close> on and whatever the order in which the
  factories start, the informers list and watch, queue and pop changes (the cached logical networks having a subnet
  with no comma, no prefix length 0 and no leading \<open>-\<close> or \<open>!\<close>), the listeners deliver notifications, the workers run
  and signals arrive: no goroutine panics; the listers read the snapshots of the informers' stores; each informer
  runs at most once, and a cache that \<open>WaitForCacheSync\<close> saw synchronised is that of a running informer whose queue
  \<open>HasSynced\<close>; the workers serve only after the base chain was created and both caches were synchronised, and their
  state is then one that a run of two workers on that table reaches, with the controller's chains in shape. The
  program ends only after a signal: with status 1 if and only if a second signal came; otherwise with status 0 after \<open>Run\<close>
  returned without an error, both caches having been synchronised, or with status 255 after \<open>Run\<close> returned an error, no
  worker having been started.\<close>

theorem process_safe:
  assumes "iptables_tool h ipt tbl cn ex" "\<forall>k. fst (New h k) = Ret ipt \<and> tbl (snd (New h k)) = tbl k"
    and "\<forall>ks. mset (visit ks) = mset ks" "\<forall>m. mset (mr m) = mset m" "npc_shape (tbl k)" "tbl k ForwardChain = Some fs"
    and "main_init (store_ops visit) mr t cfg kc hc k = Inl (Ret p0)"
    and "(process_step h (store_ops visit) subnets_ok)\<^sup>*\<^sup>* p0 p"
  shows "networkPoliciesLister (controller (sys p)) = snapshot as_NP (store_ops visit) (inf_store (rInformer (npRefl p)))
    \<and> logicalNwLister (controller (sys p)) = snapshot as_LN (store_ops visit) (inf_store (rInformer (lnRefl p)))
    \<and> distinct (running (snd (kubeFactory p))) \<and> distinct (running (snd (extFactory p)))
    \<and> (npSynced p \<longrightarrow> policiesSynced (parts p) \<in> set (running (snd (kubeFactory p))) \<and> HasSynced (rFifo (npRefl p)))
    \<and> (lnSynced p \<longrightarrow> networksSynced (parts p) \<in> set (running (snd (extFactory p))) \<and> HasSynced (rFifo (lnRefl p)))
    \<and> (mainPc p = MServe \<or> mainPc p = MReturning \<longrightarrow> npSynced p \<and> lnSynced p
         \<and> (\<exists>npc q k' ls. npc_env h ipt tbl cn ex npc \<and> queue_fresh q
              \<and> tbl k' = (tbl k)(GenieBaseNPCChain \<mapsto> [], ForwardChain \<mapsto> add_first (jump GenieBaseNPCChain) fs)
              \<and> npc_run h (npc_env h ipt tbl cn ex) (start_workers 2 npc q k') ls (sys p))
         \<and> \<not> crashed (sys p) \<and> npc_shape (tbl (kern (sys p))) \<and> wq_inv (npcWorkqueue (sys p)))
    \<and> (mainPc p = MExit n \<longrightarrow> stopCh (sys p)
         \<and> (n = 1 \<longleftrightarrow> sigPhase p = GotSecond)
         \<and> (sigPhase p \<noteq> GotSecond \<longrightarrow>
              (runRes p = Some (Ret ()) \<and> n = 0 \<and> npSynced p \<and> lnSynced p)
              \<or> ((\<exists>e. runRes p = Some (Err e)) \<and> n = 255 \<and> (\<forall>i. goroutines (sys p) i = Gone))))"
proof -
  have P: "npc_process h ipt tbl cn ex visit mr (tbl k) fs"
    using assms(1-6) by (simp add: npc_process_def npc_process_axioms_def map_order_def)
  have inv: "npc_process.proc_inv h ipt tbl cn ex visit mr (tbl k) fs p"
    by (rule npc_process.proc_steps[OF P assms(8) npc_process.proc_init(1)[OF P assms(7) refl]])
  have f: "factories_inv p" and i: "informers_inv p" and c: "caches_inv (store_ops visit) mr p" and m: "main_inv h ipt tbl cn ex (tbl k) fs p"
    using inv by (simp_all add: npc_process.proc_inv_def[OF P])
  have d: "distinct (running (snd (kubeFactory p)))" "distinct (running (snd (extFactory p)))"
    using f factory_invD(3)[of "fst (kubeFactory p)" "snd (kubeFactory p)"] factory_invD(3)[of "fst (extFactory p)" "snd (extFactory p)"]
    by (simp_all add: factories_inv_def)
  have s: "npSynced p \<and> lnSynced p \<and> serving h ipt tbl cn ex (based (tbl k) fs) (sys p)" if "mainPc p = MServe \<or> mainPc p = MReturning"
    using m that by (auto simp: main_inv_def)
  have e: "stopCh (sys p) \<and> (n = 1 \<longleftrightarrow> sigPhase p = GotSecond)
         \<and> (sigPhase p \<noteq> GotSecond \<longrightarrow>
              (runRes p = Some (Ret ()) \<and> n = 0 \<and> npSynced p \<and> lnSynced p)
              \<or> ((\<exists>e. runRes p = Some (Err e)) \<and> n = 255 \<and> (\<forall>i. goroutines (sys p) i = Gone)))" if "mainPc p = MExit n"
    using m that by (auto simp: main_inv_def exit_inv_def split: signal_phase.splits)
  note safe = serving_safe[OF _ npc_process.based_shape[OF P]]
  have sv: "npSynced p \<and> lnSynced p
         \<and> (\<exists>npc q k' ls. npc_env h ipt tbl cn ex npc \<and> queue_fresh q
              \<and> tbl k' = (tbl k)(GenieBaseNPCChain \<mapsto> [], ForwardChain \<mapsto> add_first (jump GenieBaseNPCChain) fs)
              \<and> npc_run h (npc_env h ipt tbl cn ex) (start_workers 2 npc q k') ls (sys p))
         \<and> \<not> crashed (sys p) \<and> npc_shape (tbl (kern (sys p))) \<and> wq_inv (npcWorkqueue (sys p))"
    if "mainPc p = MServe \<or> mainPc p = MReturning"
  proof -
    note v = s[OF that]
    obtain npc q k' ls where r: "npc_env h ipt tbl cn ex npc" "queue_fresh q" "tbl k' = based (tbl k) fs"
        "npc_run h (npc_env h ipt tbl cn ex) (start_workers 2 npc q k') ls (sys p)"
      using v unfolding serving_def by blast
    show ?thesis
      using v r safe[OF v[THEN conjunct2, THEN conjunct2]] by (auto simp: based_def)
  qed
  show ?thesis using f i c d sv e by (simp add: factories_inv_def informers_inv_def caches_inv_def)
qed

text \<open>A program that comes up on an empty packet filter.\<close>

definition demo_transport :: "unit transport" where
  "demo_transport = \<lparr>server_path = \<lambda>_. Inr ''/'', TransportFor = \<lambda>_. Inr (), createSerializers = \<lambda>_. Inr (), DefaultKubernetesUserAgent = ''npc'',
     NewDiscoveryClientForConfig = \<lambda>_ n. (Ret (), n)\<rparr>"

definition demo_config :: Config where
  "demo_config = \<lparr>cfgHost = ''localhost'', APIPath = [], cfgGroupVersion = None, NegotiatedSerializer = None, cfgContentType = [],
     cfgAcceptContentTypes = [], UserAgent = [], QPS = 0, Burst = 0, RateLimiter = None\<rparr>"

definition demo_main :: "ref_table process go_res + int" where
  "demo_main = main_init (store_ops id) id demo_transport (Inr demo_config) (\<lambda>_. None) False table_fwd"

interpretation demo_process: npc_process ref_host ref_ipt ref_tbl ref_cn ref_ex id id "ref_tbl table_fwd" "[]"
  by unfold_locales (simp_all add: New_ref, simp_all add: tbl_fwd npc_shape_def ForwardChain_def)

lemma demo_main_ret: "\<exists>p. demo_main = Inl (Ret p) \<and> mainPc p = MChain \<and> kern (sys p) = table_fwd \<and> kubeStartPending p \<and> extStartPending p"
  by (simp add: demo_main_def main_init_def SetupSignalHandler_def Clientset_NewForConfig_def demo_config_def demo_transport_def
      AlphaV1_NewForConfig_def setConfigDefaults_def RESTClientFor_def NewRESTClient_def NewTokenBucketRateLimiter_def Let_def go_simps
      DefaultQPS_def DefaultBurst_def start_workers_def split: prod.split)

context npc_process
begin

text \<open>A process in which nothing has started can reach the point where it serves: the factories start, both informers
  list, the base chain is created, and the caches are seen synchronised.\<close>

lemma reaches_serve:
  assumes inv: "proc_inv p" and pc: "mainPc p = MChain" "kubeStartPending p" "extStartPending p"
    and new: "npRefl p = new_reflector fresh_informer" "lnRefl p = new_reflector fresh_informer"
  shows "\<exists>p'. (process_step h ix subnets_ok)\<^sup>*\<^sup>* p p' \<and> mainPc p' = MServe"
proof -
  let ?st = "process_step h ix subnets_ok" and ?r = "(new_reflector fresh_informer)\<lparr>rFifo := no_item, rWatching := True\<rparr>"
  let ?p1 = "p\<lparr>kubeStartPending := False, kubeFactory := Start (\<lambda>m. m) (kubeFactory p)\<rparr>"
  let ?p2 = "?p1\<lparr>extStartPending := False, extFactory := Start (\<lambda>m. m) (extFactory ?p1)\<rparr>"
  let ?p3 = "?p2\<lparr>npRefl := ?r, sys := (sys ?p2)\<lparr>controller := read_caches ix (rInformer ?r) (rInformer (lnRefl ?p2)) (controller (sys ?p2))\<rparr>\<rparr>"
  let ?p4 = "?p3\<lparr>lnRefl := ?r, sys := (sys ?p3)\<lparr>controller := read_caches ix (rInformer (npRefl ?p3)) (rInformer ?r) (controller (sys ?p3))\<rparr>\<rparr>"
  obtain r k where ck: "CreateBaseChain h (kern (sys p)) = (r, k)" by (rule prod.exhaust)
  have "tbl (kern (sys p)) = T" using inv pc(1) by (simp add: proc_inv_def main_inv_def)
  then have r: "r = Ret ipt" by (rule base_chain(1)[OF _ ck])
  let ?p5 = "?p4\<lparr>mainPc := MWait, sys := (sys ?p4)\<lparr>kern := k, controller := (controller (sys ?p4))\<lparr>iptable := ipt\<rparr>\<rparr>\<rparr>"
  let ?p6 = "?p5\<lparr>npSynced := True\<rparr>"
  let ?p7 = "?p6\<lparr>lnSynced := True\<rparr>"
  have f: "factory_inv (kubeFactory p)" "factory_inv (extFactory p)"
    and l: "map_of (informers (fst (kubeFactory p))) T_NetworkPolicy = Some (policiesSynced (parts p))"
      "map_of (informers (fst (extFactory p))) T_LogicalNetwork = Some (networksSynced (parts p))"
      "policiesLister (parts p) = policiesSynced (parts p)" "networksLister (parts p) = networksSynced (parts p)"
    using inv by (simp_all add: proc_inv_def factories_inv_def)
  have run: "policiesSynced (parts p) \<in> set (running (snd (Start (\<lambda>m. m) (kubeFactory p))))"
      "networksSynced (parts p) \<in> set (running (snd (Start (\<lambda>m. m) (extFactory p))))"
    using Start_inv[OF f(1), of "\<lambda>m. m"] Start_inv[OF f(2), of "\<lambda>m. m"] imageI[OF map_of_SomeD[OF l(1)], of snd] imageI[OF map_of_SomeD[OF l(2)], of snd]
    by simp_all
  have ok: "subnets_ok (read_caches ix (rInformer ?r) (rInformer ?r) c)" for c
    using fresh_store(4)[of as_LN] by (simp add: read_caches_def subnets_ok_def new_reflector_def)
  have "?st p ?p1" using pc by (intro process_step.KubeStart) simp_all
  moreover have "?st ?p1 ?p2" using pc by (intro process_step.ExtStart) simp_all
  moreover have "?st ?p2 ?p3" using pc run l(3) new first_feed(1) by (intro process_step.NpFeed) simp_all
  moreover have "?st ?p3 ?p4" using pc run l(4) new first_feed(1) ok by (intro process_step.LnFeed) simp_all
  moreover have "?st ?p4 ?p5" using pc ck r by (intro process_step.Chain) simp_all
  moreover have "?st ?p5 ?p6" using run first_feed(2) by (intro process_step.NpListed) simp_all
  moreover have "?st ?p6 ?p7" using run first_feed(2) by (intro process_step.LnListed) simp_all
  moreover have "\<exists>p8. ?st ?p7 p8 \<and> mainPc p8 = MServe"
    by (rule exI, rule conjI, rule process_step.Synced) simp_all
  ultimately show ?thesis by (meson rtranclp.rtrancl_into_rtrancl rtranclp.rtrancl_refl)
qed

end

theorem process_safe_witness:
  "\<exists>p0 p. demo_main = Inl (Ret p0) \<and> (process_step ref_host (store_ops id) subnets_ok)\<^sup>*\<^sup>* p0 p
     \<and> mainPc p = MServe \<and> npSynced p \<and> npc_shape (ref_tbl (kern (sys p)))"
proof -
  obtain p0 where p0: "demo_main = Inl (Ret p0)" "mainPc p0 = MChain" "kubeStartPending p0" "extStartPending p0"
    using demo_main_ret by blast
  have init: "main_init (store_ops id) id demo_transport (Inr demo_config) (\<lambda>_. None) False table_fwd = Inl (Ret p0)"
    using p0(1) by (simp only: demo_main_def)
  obtain p where p: "(process_step ref_host (store_ops id) subnets_ok)\<^sup>*\<^sup>* p0 p" "mainPc p = MServe"
    using demo_process.reaches_serve[OF demo_process.proc_init(1)[OF init refl] p0(2-4) demo_process.proc_init(2,3)[OF init refl]] by blast
  note safe = process_safe[OF ref.iptables_tool_axioms _ _ _ demo_process.T_shape demo_process.T_forward init p(1)]
  have "npSynced p \<and> npc_shape (ref_tbl (kern (sys p)))"
    using safe p(2) by (simp add: New_ref)
  with p p0(1) show ?thesis by blast
qed

end
