(* ===== verification/InformerProperties.thy ===== *)
theory InformerProperties
  imports ReflectorFacts ProcessProperties
begin

text \<open>
  The properties of an informer with its reflector and its queue of changes: that the store converges to what
  the API server told, what \<open>HasSynced\<close> promises the start of the controller, and where a second list
  breaks the first promise.
\<close>

abbreviation registered :: "(string list \<Rightarrow> string list) \<Rightarrow> inf_state" where
  "registered visit \<equiv> AddEventHandler (store_ops visit) (new_informer ns_indexers)"

context map_order
begin

lemma registered_ok:
  "store_ok (inf_store (registered visit))" "all_as as (map_of (items (inf_store (registered visit))))" "pending_as as (inf_listeners (registered visit))"
  using new_informer_typed by (simp_all add: all_as_def)

lemmas ln_registered_run = ln_reflector[where ?s0.0 = "registered visit", OF _ registered_ok]
lemmas np_registered_run = np_reflector[where ?s0.0 = "registered visit", OF _ registered_ok]

end

section \<open>Convergence\<close>

text \<open>C22: whatever the reflector of the logical networks lists and watches, and whenever the loop of its
  controller pops and a resync runs in between, the store of the informer refines what the API server told: every
  change handed to \<open>HandleDeltas\<close> is of logical networks, an object with no queued change is stored as it was last
  told, and popping as many times as there are queued keys is possible and leaves exactly what was told. Of a second
  list this asks that no listed object has its deletion queued and that no unlisted one is queued before it is stored.\<close>

theorem informer_converges:
  assumes "\<forall>ks. mset (visit ks) = mset ks"
    and "reflect_run (relist_ok (store_ops visit)) as_LN (store_ops visit) (new_reflector (registered visit)) ls r"
  shows "list_all (delta_as as_LN) (popped ls)
    \<and> (\<forall>k. k \<notin> set (fQueue (rFifo r)) \<longrightarrow> map_of (items (inf_store (rInformer r))) k = told as_LN ls Map.empty k)
    \<and> (\<exists>dss r'. reflect_run (relist_ok (store_ops visit)) as_LN (store_ops visit) (new_reflector (registered visit)) (ls @ map Popped dss) r'
         \<and> length dss = length (fQueue (rFifo r)) \<and> fQueue (rFifo r') = []
         \<and> map_of (items (inf_store (rInformer r'))) = told as_LN ls Map.empty)"
proof -
  have mo: "map_order visit" using assms(1) by (simp add: map_order_def)
  note run = map_order.ln_registered_run[OF mo] and e = map_order.new_informer_typed(2)[OF mo]
  have i: "queue_inv as_LN ls r" "list_all (delta_as as_LN) (popped ls)" using run(2)[OF assms(2)] by simp_all
  have v: "view (rFifo r) (map_of (items (inf_store (rInformer r)))) = told as_LN ls Map.empty" using run(1)[OF assms(2)] unfolding e .
  have 1: "map_of (items (inf_store (rInformer r))) k = told as_LN ls Map.empty k" if "k \<notin> set (fQueue (rFifo r))" for k
    using that fifo_inv_items[OF queue_invD(1)[OF i(1)], of k] unfolding v[symmetric] by (simp add: view_def)
  obtain dss r' where d: "reflect_run (relist_ok (store_ops visit)) as_LN (store_ops visit) (new_reflector (registered visit)) (ls @ map Popped dss) r'"
    "fQueue (rFifo r') = []" "length dss = length (fQueue (rFifo r))"
    using run(3)[OF assms(2)] by (auto simp: relist_ok_def)
  have "map_of (items (inf_store (rInformer r'))) = told as_LN ls Map.empty"
    using run(1)[OF d(1)] view_drained[OF queue_invD(1), of as_LN "ls @ map Popped dss" r'] run(2)[OF d(1)] d(2) unfolding e by simp
  with i(2) 1 d show ?thesis by blast
qed

text \<open>The first list of an informer, with one object.\<close>

lemma first_list_run:
  assumes "as x \<noteq> None" "KeyOf x = Inr k" "Q (new_reflector (registered id)) (Listed [x])"
  shows "reflect_run Q as (store_ops id) (new_reflector (registered id)) [Listed [x]]
    (refl_at (one_item k \<lparr>deltaType = DSync, deltaObject = x\<rparr> 1) ((registered id)\<lparr>inf_started := True\<rparr>) [] True)"
proof -
  have n: "new_reflector (registered id) = refl_at NewDeltaFIFO ((registered id)\<lparr>inf_started := True\<rparr>) [] False"
    by (simp add: new_reflector_def refl_at_def)
  have l: "ix_ListKeys (store_ops id) (inf_store (registered id)) = []"
    by (simp add: cache_ops_def tsm_ListKeys_def AddEventHandler_def new_informer_def NewThreadSafeStore_def)
  have "fifo_Replace (store_ops id) (inf_store ((registered id)\<lparr>inf_started := True\<rparr>)) [x] NewDeltaFIFO
      = (Ret (), one_item k \<lparr>deltaType = DSync, deltaObject = x\<rparr> 1)"
    using assms(2) by (simp add: fifo_Replace_def l replace_item_def go_simps go_wrap_def set_Insert_def fifo_items)
  from reflect_run_Cons[OF reflect_run.Start _ step_at(1)[OF this]] assms(1,3) show ?thesis unfolding n by simp
qed

theorem informer_converges_witness:
  "\<exists>dss r. reflect_run (relist_ok (store_ops id)) as_LN (store_ops id) (new_reflector (registered id)) ([Listed [ObjLN demo_ln]] @ map Popped dss) r
     \<and> length dss = 1 \<and> map_of (items (inf_store (rInformer r))) = [''ns/red'' \<mapsto> ObjLN demo_ln]"
proof -
  have k: "KeyOf (ObjLN demo_ln) = Inr ''ns/red''"
    by (simp add: KeyOf_def MetaNamespaceKeyFunc_def Accessor_def namespace_key_def demo_ln_def meta_in_def)
  have t: "told as_LN [Listed [ObjLN demo_ln]] Map.empty = [''ns/red'' \<mapsto> ObjLN demo_ln]"
    by (simp add: told_def listed_def obj_key_def k)
  have q: "relist_ok (store_ops id) (new_reflector (registered id)) (Listed [ObjLN demo_ln])"
    by (simp add: relist_ok_def new_reflector_def fifo_items)
  have "as_LN (ObjLN demo_ln) \<noteq> None" by (simp add: as_LN_def)
  from informer_converges[OF _ first_list_run[where as = as_LN and Q = "relist_ok (store_ops id)", OF this k q]] show ?thesis
    unfolding t by (simp add: one_item_def) blast
qed

section \<open>HasSynced\<close>

text \<open>C23: \<open>HasSynced\<close>, which the start of the controller waits for, keeps its promise in every run of the
  informer of the network policies: when it holds, the changes of every object of the first list were handled; and
  once that list is there, if its objects have different keys, popping what is queued makes it hold. Nothing
  handed to \<open>HandleDeltas\<close> or to the event handlers on the way is of another type.\<close>

theorem informer_synced:
  assumes "\<forall>ks. mset (visit ks) = mset ks"
    and "reflect_run (\<lambda>_ _. True) as_NP (store_ops visit) (new_reflector (registered visit)) ls r"
  shows "list_all (delta_as as_NP) (popped ls) \<and> pending_as as_NP (inf_listeners (rInformer r))
    \<and> (HasSynced (rFifo r) \<longrightarrow> (\<exists>xs. first_list ls = Some xs \<and> obj_key ` set xs \<subseteq> delta_key ` set (popped ls)))
    \<and> (\<forall>xs. first_list ls = Some xs \<and> distinct (map obj_key xs) \<longrightarrow>
         (\<exists>dss r'. reflect_run (\<lambda>_ _. True) as_NP (store_ops visit) (new_reflector (registered visit)) (ls @ map Popped dss) r'
            \<and> length dss = length (fQueue (rFifo r)) \<and> HasSynced (rFifo r')))"
proof -
  have mo: "map_order visit" using assms(1) by (simp add: map_order_def)
  note run = map_order.np_registered_run[OF mo]
  have "\<exists>dss r'. reflect_run (\<lambda>_ _. True) as_NP (store_ops visit) (new_reflector (registered visit)) (ls @ map Popped dss) r'
      \<and> length dss = length (fQueue (rFifo r)) \<and> HasSynced (rFifo r')" if "first_list ls = Some xs" "distinct (map obj_key xs)" for xs
  proof -
    obtain dss r' where d: "reflect_run (\<lambda>_ _. True) as_NP (store_ops visit) (new_reflector (registered visit)) (ls @ map Popped dss) r'"
      "fQueue (rFifo r') = []" "length dss = length (fQueue (rFifo r))"
      using run(3)[OF assms(2)] by auto
    from run(5)[OF d(1) first_list_append[OF that(1)] that(2) d(2)] d show ?thesis by blast
  qed
  then show ?thesis using run(2)[OF assms(2)] run(4)[OF assms(2)] by blast
qed

theorem informer_synced_witness:
  "\<exists>dss r. reflect_run (\<lambda>_ _. True) as_NP (store_ops id) (new_reflector (registered id)) ([Listed [ObjNP (demo_policy ''pol'')]] @ map Popped dss) r
     \<and> length dss = 1 \<and> HasSynced (rFifo r)"
proof -
  have k: "KeyOf (ObjNP (demo_policy ''pol'')) = Inr (namespace_key (npMeta (demo_policy ''pol'')))"
    by (simp add: KeyOf_def MetaNamespaceKeyFunc_def Accessor_def)
  have "as_NP (ObjNP (demo_policy ''pol'')) \<noteq> None" by (simp add: as_NP_def)
  from informer_synced[OF _ first_list_run[where as = as_NP and Q = "\<lambda>_ _. True", OF this k TrueI]] show ?thesis
    by (simp add: one_item_def)
qed

section \<open>A second list\<close>

text \<open>C24: what the condition on a second list is for, by two schedules for any logical network. In \<open>ghost_run\<close> its addition is
  still queued when a second list no longer has it: it is stored when its addition is popped, although the API server does not
  have it. In \<open>lost_run\<close> its deletion is seen and still queued when a second list has it again: it is dropped from the store when
  its deletion is popped, although the API server has it. No change is queued at the end of either.\<close>

theorem relist_stale:
  assumes "\<forall>ks. mset (visit ks) = mset ks"
  shows "(\<exists>r. reflect_run (\<lambda>_ _. True) as_LN (store_ops visit) (new_reflector (registered visit)) (ghost_run (ObjLN x)) r \<and> fQueue (rFifo r) = []
      \<and> told as_LN (ghost_run (ObjLN x)) Map.empty = Map.empty
      \<and> map_of (items (inf_store (rInformer r))) = [obj_key (ObjLN x) \<mapsto> ObjLN x])
    \<and> (\<exists>r. reflect_run (\<lambda>_ _. True) as_LN (store_ops visit) (new_reflector (registered visit)) (lost_run (ObjLN x)) r \<and> fQueue (rFifo r) = []
      \<and> told as_LN (lost_run (ObjLN x)) Map.empty = [obj_key (ObjLN x) \<mapsto> ObjLN x]
      \<and> map_of (items (inf_store (rInformer r))) = Map.empty)"
proof -
  have mo: "map_order visit" using assms by (simp add: map_order_def)
  note n = map_order.new_informer_typed[OF mo]
  have x: "as_LN (ObjLN x) \<noteq> None" by (simp add: as_LN_def)
  have "told as_LN (ghost_run (ObjLN x)) Map.empty = Map.empty" "told as_LN (lost_run (ObjLN x)) Map.empty = [obj_key (ObjLN x) \<mapsto> ObjLN x]"
    by (simp_all add: told_def ghost_run_def lost_run_def listed_def)
  then show ?thesis using map_order.ln_relist[OF mo n x] by blast
qed

theorem relist_stale_witness:
  "\<exists>r. reflect_run (\<lambda>_ _. True) as_LN (store_ops id) (new_reflector (registered id)) (ghost_run (ObjLN demo_ln)) r \<and> fQueue (rFifo r) = []
     \<and> map_of (items (inf_store (rInformer r))) \<noteq> told as_LN (ghost_run (ObjLN demo_ln)) Map.empty"
proof -
  obtain r where "reflect_run (\<lambda>_ _. True) as_LN (store_ops id) (new_reflector (registered id)) (ghost_run (ObjLN demo_ln)) r" "fQueue (rFifo r) = []"
    "told as_LN (ghost_run (ObjLN demo_ln)) Map.empty = Map.empty" "map_of (items (inf_store (rInformer r))) = [obj_key (ObjLN demo_ln) \<mapsto> ObjLN demo_ln]"
    using relist_stale[of id demo_ln] by auto
  then show ?thesis by (intro exI[of _ r]) simp
qed

end
