(* ===== verification/Cadvisor.thy ===== *)
theory Cadvisor
  imports Libcni
begin

text \<open>
  \<^verbatim>\<open>genie/genie-cadvisor-client.go\<close> and \<^verbatim>\<open>utils/sort-map-values.go\<close>: the choice of the
  networking solution with the least load from cAdvisor's statistics. The order in which a \<open>range\<close>
  loop visits a map is the argument \<open>rng\<close>, and \<^verbatim>\<open>sort.Sort\<close> the argument \<open>srt\<close>, whose contract is
  the locale \<open>sort_pkg\<close>.
\<close>

section \<open>Sorting\<close>

text \<open>\<^verbatim>\<open>sort.Sort\<close> on a slice, given \<open>Less\<close>: a permutation in which no element is less than an
  earlier one. Ties may come out in any order.\<close>

locale sort_pkg =
  fixes srt :: "(string \<Rightarrow> string \<Rightarrow> bool) \<Rightarrow> string list \<Rightarrow> string list"
  assumes srt_perm: "mset (srt lt xs) = mset xs"
    and srt_sorted: "(\<And>x y. lt x y \<longleftrightarrow> (f x :: int) < f y) \<Longrightarrow> sorted_wrt (\<lambda>x y. \<not> lt y x) (srt lt xs)"
begin

text \<open>The first element of the result is a least one.\<close>

lemma srt_least:
  assumes "\<And>x y. lt x y \<longleftrightarrow> (f x :: int) < f y" "xs \<noteq> []"
  shows "hd (srt lt xs) \<in> set xs \<and> (\<forall>y \<in> set xs. f (hd (srt lt xs)) \<le> f y)"
proof -
  have s: "set (srt lt xs) = set xs" by (metis srt_perm set_mset_mset)
  then obtain z zs where z: "srt lt xs = z # zs" using assms(2) by (cases "srt lt xs") auto
  have "sorted_wrt (\<lambda>x y. \<not> lt y x) (z # zs)" using srt_sorted[of lt f xs] assms(1) z by metis
  then have "\<forall>y \<in> set zs. f z \<le> f y" using assms(1) by (simp add: not_less)
  then show ?thesis using s z by auto
qed

end

text \<open>Insertion sort, which \<^verbatim>\<open>sort.Sort\<close> uses for short slices.\<close>

fun go_insert :: "(string \<Rightarrow> string \<Rightarrow> bool) \<Rightarrow> string \<Rightarrow> string list \<Rightarrow> string list" where
  "go_insert lt x [] = [x]"
| "go_insert lt x (y # ys) = (if lt x y then x # y # ys else y # go_insert lt x ys)"

definition insertionSort :: "(string \<Rightarrow> string \<Rightarrow> bool) \<Rightarrow> string list \<Rightarrow> string list" where
  "insertionSort lt xs = fold (go_insert lt) xs []"

lemma mset_go_insert: "mset (go_insert lt x ys) = add_mset x (mset ys)"
  by (induction ys) auto

lemma mset_fold_insert: "mset (fold (go_insert lt) xs ys) = mset xs + mset ys"
  by (induction xs arbitrary: ys) (auto simp: mset_go_insert)

lemma set_go_insert: "set (go_insert lt x ys) = insert x (set ys)"
  by (induction ys) auto

lemma sorted_go_insert:
  assumes "\<And>x y. lt x y \<longleftrightarrow> (f x :: int) < f y" "sorted_wrt (\<lambda>x y. \<not> lt y x) ys"
  shows "sorted_wrt (\<lambda>x y. \<not> lt y x) (go_insert lt x ys)"
  using assms(2) by (induction ys) (auto simp: assms(1) set_go_insert not_less)

interpretation go_sort: sort_pkg insertionSort
proof
  show "mset (insertionSort lt xs) = mset xs" for lt xs
    by (simp add: insertionSort_def mset_fold_insert)
  have "sorted_wrt (\<lambda>x y. \<not> lt y x) (fold (go_insert lt) xs ys)"
    if "\<And>x y. lt x y \<longleftrightarrow> (f x :: int) < f y" "sorted_wrt (\<lambda>x y. \<not> lt y x) ys"
    for lt xs ys and f :: "string \<Rightarrow> int"
    using that(2) by (induction xs arbitrary: ys) (simp_all add: sorted_go_insert[of lt f, OF that(1)])
  then show "sorted_wrt (\<lambda>x y. \<not> lt y x) (insertionSort lt xs)"
    if "\<And>x y. lt x y \<longleftrightarrow> (f x :: int) < f y" for lt xs and f :: "string \<Rightarrow> int"
    using that unfolding insertionSort_def by fastforce
qed

section \<open>utils/sort-map-values.go\<close>

text \<open>\<open>m[k]\<close> of a map of numbers.\<close>

definition int_at :: "int gomap \<Rightarrow> string \<Rightarrow> int" where
  "int_at m k = (case map_of m k of None \<Rightarrow> 0 | Some v \<Rightarrow> v)"

record sortedMap =
  smM :: "int gomap"
  smS :: "string list"

definition sm_Len :: "sortedMap \<Rightarrow> nat" where
  "sm_Len sm = length (smM sm)"

definition sm_Less :: "sortedMap \<Rightarrow> string \<Rightarrow> string \<Rightarrow> bool" where
  "sm_Less sm a b = (int_at (smM sm) a < int_at (smM sm) b)"

definition SortedKeys ::
  "((string \<Rightarrow> string \<Rightarrow> bool) \<Rightarrow> string list \<Rightarrow> string list) \<Rightarrow> (int gomap \<Rightarrow> int gomap) \<Rightarrow> int gomap \<Rightarrow> string list" where
  "SortedKeys srt rng m =
     (let sm = \<lparr>smM = m, smS = map fst (rng m)\<rparr> in srt (sm_Less sm) (smS sm))"

section \<open>genie/genie-cadvisor-client.go\<close>

text \<open>The state of the loops of \<open>computeNetworkUsage\<close>: the usage per solution, the bytes last seen per
  interface, and the variable \<open>downlink\<close>, which keeps its value from one interface to the next.\<close>

record usage_state =
  usM :: "int gomap"
  usRx :: "(string \<times> 64 word) list"
  usDownlink :: int

definition usage_interface :: "interface_stats \<Rightarrow> usage_state \<Rightarrow> usage_state go_res" where
  "usage_interface intf st =
     (let name = fst intf; rxBytes = snd intf in
      if length name < 4 then Panic ''slice bounds out of range''
      else if map_of (usM st) (take 4 name) \<noteq> None then
        let downlink = (case map_of (usRx st) name of None \<Rightarrow> usDownlink st | Some oldrx \<Rightarrow> sint (rxBytes - oldrx))
        in Ret (st\<lparr>usRx := map_put name rxBytes (usRx st), usM := map_put (take 4 name) downlink (usM st), usDownlink := downlink\<rparr>)
      else Ret st)"

fun usage_interfaces :: "interface_stats list \<Rightarrow> usage_state \<Rightarrow> usage_state go_res" where
  "usage_interfaces [] st = Ret st"
| "usage_interfaces (i # is) st =
     (case usage_interface i st of Ret st' \<Rightarrow> usage_interfaces is st' | Err e \<Rightarrow> Err e | Panic p \<Rightarrow> Panic p)"

definition usage_start :: usage_state where
  "usage_start = \<lparr>usM = [(''flan'', 0), (''cali'', 0), (''weav'', 0)], usRx = [], usDownlink = 0\<rparr>"

definition full_name :: "string \<Rightarrow> string" where
  "full_name c =
     (if c = ''weav'' then ''weave'' else if c = ''flan'' then ''flannel'' else if c = ''cali'' then ''calico'' else c)"

definition computeNetworkUsage ::
  "((string \<Rightarrow> string \<Rightarrow> bool) \<Rightarrow> string list \<Rightarrow> string list) \<Rightarrow> (int gomap \<Rightarrow> int gomap) \<Rightarrow> container_stats list \<Rightarrow> string go_res" where
  "computeNetworkUsage srt rng cinfo =
     (case usage_interfaces (concat cinfo) usage_start of
        Err e \<Rightarrow> Err e
      | Panic p \<Rightarrow> Panic p
      | Ret st \<Rightarrow>
          (case map full_name (SortedKeys srt rng (usM st)) of
             [] \<Rightarrow> Panic ''index out of range''
           | c # _ \<Rightarrow> Ret c))"

definition containerInfoUrl :: "string \<Rightarrow> string \<Rightarrow> string" where
  "containerInfoUrl baseUrl name = baseUrl @ path_Join [''containers'', name]"

text \<open>\<open>postData\<close> is the JSON text of the value to post, or \<open>None\<close> for the nil interface.\<close>

definition httpGetJsonData :: "('s, 'c) node \<Rightarrow> string option \<Rightarrow> string \<Rightarrow> string \<Rightarrow> ('s, container_stats list) go" where
  "httpGetJsonData nd postData url infoName =
     go_bind (go_wrap (Errorf_v (''unable to get '' @ infoName @ '' from '' @ url @ '': ''))
                (case postData of Some body \<Rightarrow> http_Post nd url body | None \<Rightarrow> http_Get nd url)) (\<lambda>resp.
     case resp of
       None \<Rightarrow> go_err (ErrorString (''received empty response for '' @ infoName @ '' from '' @ url))
     | Some r \<Rightarrow>
         (case respBody r of
            Inl e \<Rightarrow> go_err (Errorf_v (''unable to read all '' @ infoName @ '' from '' @ url @ '': '') e)
          | Inr body \<Rightarrow>
              if StatusCode r \<noteq> 200
              then go_err (ErrorString (''request '' @ url @ '' failed with error: '' @ TrimSpace body))
              else of_sum (map_sum (Errorf_v (''unable to unmarshal '' @ infoName @ '' (Body: '' @ body @ '') from '' @ url @ '' with error: ''))
                             id (decode_stats nd body))))"

text \<open>The query is a nil pointer; as an argument of interface type it is not the nil interface, so that
  its JSON form \<^verbatim>\<open>null\<close> is posted.\<close>

definition GetDockerContainers :: "('s, 'c) node \<Rightarrow> string \<Rightarrow> ('s, container_stats list) go" where
  "GetDockerContainers nd url = httpGetJsonData nd (Some ''null'') (containerInfoUrl url ''/'') ''get all containers info''"

definition GetCNSOrderByNetworkBandwith ::
  "((string \<Rightarrow> string \<Rightarrow> bool) \<Rightarrow> string list \<Rightarrow> string list) \<Rightarrow> (int gomap \<Rightarrow> int gomap) \<Rightarrow> ('s, 'c) node \<Rightarrow> string \<Rightarrow> ('s, string) go" where
  "GetCNSOrderByNetworkBandwith srt rng nd cAdvisorURL =
     (if cAdvisorURL = [] then go_err (ErrorString ''cAdvisorURL is empty. Should be eg: http://127.0.0.1:4194'')
      else go_bind (GetDockerContainers nd (cAdvisorURL @ ''/api/v1.3/'')) (\<lambda>cinfo.
           of_res (computeNetworkUsage srt rng cinfo)))"

section \<open>Facts\<close>

lemma usage_interface_keys:
  "usage_interface i st = Ret st' \<Longrightarrow> dom (map_of (usM st')) = dom (map_of (usM st))"
  by (auto simp: usage_interface_def Let_def map_of_map_put split: if_splits option.splits)

lemma usage_interfaces_keys:
  "usage_interfaces is st = Ret st' \<Longrightarrow> dom (map_of (usM st')) = dom (map_of (usM st))"
proof (induction "is" arbitrary: st)
  case (Cons i "is")
  then obtain st1 where 1: "usage_interface i st = Ret st1" "usage_interfaces is st1 = Ret st'"
    by (auto split: go_res.splits)
  from usage_interface_keys[OF 1(1)] Cons.IH[OF 1(2)] show ?case by simp
qed simp

lemma usage_interfaces_outcome:
  "if list_all (\<lambda>i. 4 \<le> length (fst i)) is then \<exists>st'. usage_interfaces is st = Ret st'
   else \<exists>p. usage_interfaces is st = Panic p"
proof (induction "is" arbitrary: st)
  case (Cons i "is")
  show ?case
  proof (cases "4 \<le> length (fst i)")
    case True
    then have "\<exists>st1. usage_interface i st = Ret st1" by (simp add: usage_interface_def Let_def)
    then obtain st1 where "usage_interface i st = Ret st1" by blast
    then show ?thesis using Cons.IH[of st1] True by (simp split: if_splits)
  next
    case False
    then show ?thesis by (auto simp: usage_interface_def)
  qed
qed simp

lemma usage_start_keys: "dom (map_of (usM usage_start)) = {''flan'', ''cali'', ''weav''}"
  by (auto simp: usage_start_def split: if_splits)

lemma mset_keys: "mset (rng m) = mset m \<Longrightarrow> set (map fst (rng m)) = dom (map_of m)"
  by (metis dom_map_of_conv_image_fst image_set set_mset_mset)

context sort_pkg
begin

lemma SortedKeys_sorted:
  "mset (SortedKeys srt rng m) = mset (map fst (rng m)) \<and> sorted (map (int_at m) (SortedKeys srt rng m))"
proof -
  have "sorted_wrt (\<lambda>x y. \<not> sm_Less \<lparr>smM = m, smS = map fst (rng m)\<rparr> y x) (SortedKeys srt rng m)"
    unfolding SortedKeys_def Let_def by (rule srt_sorted[where f = "int_at m"]) (simp add: sm_Less_def)
  then have "sorted (map (int_at m) (SortedKeys srt rng m))"
    by (simp add: sorted_wrt_map sm_Less_def not_less)
  then show ?thesis by (simp add: SortedKeys_def srt_perm)
qed

lemma SortedKeys_least:
  assumes "mset (rng m) = mset m" "m \<noteq> []"
  shows "\<exists>c cs. SortedKeys srt rng m = c # cs \<and> c \<in> dom (map_of m) \<and> (\<forall>c' \<in> dom (map_of m). int_at m c \<le> int_at m c')"
proof -
  have s: "set (SortedKeys srt rng m) = dom (map_of m)"
    using SortedKeys_sorted[of rng m] mset_keys[of rng m, OF assms(1)] by (metis set_mset_mset)
  moreover have "dom (map_of m) \<noteq> {}" using assms(2) by (cases m) auto
  ultimately obtain c cs where c: "SortedKeys srt rng m = c # cs" by (cases "SortedKeys srt rng m") auto
  have "sorted (map (int_at m) (c # cs))" using SortedKeys_sorted[of rng m] c by simp
  then show ?thesis using s c by auto
qed

end

text \<open>The difference of two counters, as the signed number the program takes it for.\<close>

lemma sint_diff: "sint (x - y :: 64 word) = wrap64 (uint x - uint y)"
proof -
  have "uint (x - y) = take_bit 64 (uint x - uint y)" by (simp add: uint_word_ariths take_bit_eq_mod)
  then have "sint (x - y) = signed_take_bit 63 (uint x - uint y)" by (simp add: sint_uint signed_take_bit_take_bit)
  also have "\<dots> = wrap64 (uint x - uint y)"
    by (simp add: signed_take_bit_eq_take_bit_shift wrap64_def take_bit_eq_mod)
  finally show ?thesis .
qed

lemma wrap64_id: "- (2 ^ 63) \<le> n \<Longrightarrow> n < 2 ^ 63 \<Longrightarrow> wrap64 n = n"
  by (simp add: wrap64_def)

end
