(* ===== verification/Plugins.thy ===== *)
theory Plugins
  imports Libcni
begin

text \<open>
  \<^verbatim>\<open>plugins/bridge.go\<close>, \<^verbatim>\<open>plugins/macvlan.go\<close>, \<^verbatim>\<open>plugins/sriov.go\<close>: the default
  configurations, as the JSON values the structures stand for.
\<close>

definition BridgeNet :: string where "BridgeNet = ''bridge''"
definition DefaultIpamForBridge :: string where "DefaultIpamForBridge = ''host-local''"
definition DefaultSubnetForBridge :: string where "DefaultSubnetForBridge = ''10.10.0.1/16''"

definition GetBridgeConfig :: json where
  "GetBridgeConfig =
     JObj [(''name'', JStr ''mybridgenet''), (''type'', JStr BridgeNet),
           (''ipam'', JObj [(''type'', JStr DefaultIpamForBridge), (''subnet'', JStr DefaultSubnetForBridge)])]"

definition Macvlan :: string where "Macvlan = ''macvlan''"
definition DefaultIpamForMacvlan :: string where "DefaultIpamForMacvlan = ''host-local''"
definition DefaultSubnet :: string where "DefaultSubnet = ''10.10.0.0/16''"
definition DefaultMasterForMacvlan :: string where "DefaultMasterForMacvlan = ''eth0''"

definition GetDefaultNic :: "('s, 'c) node \<Rightarrow> ('s, string) go" where
  "GetDefaultNic nd =
     (let q = [CHR 0x27];
          cmd = ''route | grep '' @ q @ ''^default'' @ q @ '' | grep -o '' @ q @ ''[^ ]*$'' @ q
      in go_bind (sh_Output nd cmd) (\<lambda>output. go_ret (TrimRight output (CHR 0x0A))))"

definition macvlan_conf :: "string \<Rightarrow> json" where
  "macvlan_conf master =
     JObj [(''name'', JStr ''macvlannet''), (''type'', JStr Macvlan), (''master'', JStr master),
           (''ipam'', JObj [(''type'', JStr DefaultIpamForMacvlan), (''subnet'', JStr DefaultSubnet)])]"

definition GetMacvlanConfig :: "('s, 'c) node \<Rightarrow> ('s, json) go" where
  "GetMacvlanConfig nd =
     go_bind (go_try (GetDefaultNic nd)) (\<lambda>r.
     let master = (case r of Inr nic \<Rightarrow> if nic \<noteq> [] then nic else DefaultMasterForMacvlan | Inl _ \<Rightarrow> DefaultMasterForMacvlan)
     in go_ret (macvlan_conf master))"

definition SriovNet :: string where "SriovNet = ''sriov''"
definition DefaultIpamForSriov :: string where "DefaultIpamForSriov = ''fixipam''"
definition DefaultSubnetForSriov :: string where "DefaultSubnetForSriov = ''10.55.206.0/26''"
definition DefaultGatewayForSriov :: string where "DefaultGatewayForSriov = ''10.55.206.1''"

definition GetSriovConfig :: json where
  "GetSriovConfig =
     JObj [(''name'', JStr ''sriovnet''), (''type'', JStr SriovNet), (''master'', JStr ''eth0''),
           (''ipam'', JObj [(''type'', JStr DefaultIpamForSriov), (''subnet'', JStr DefaultSubnetForSriov),
              (''routes'', JArr [JObj [(''dst'', JStr ''0.0.0.0/0'')]]), (''gateway'', JStr DefaultGatewayForSriov)])]"

end
