(* ===== verification/Genie.thy ===== *)
theory Genie
  imports Cadvisor Plugins GenieCrd
begin

text \<open>
  \<^verbatim>\<open>genie/genie-controller.go\<close> and \<^verbatim>\<open>cni-genie.go\<close>: the CNI plugin that reads the annotations of
  a pod and delegates to the networking solutions they name. The record \<open>genie_env\<close> holds what every
  operation is given: the node, the order of a \<open>range\<close> loop over a map, and \<^verbatim>\<open>sort.Sort\<close>. Output to
  standard error is left out.
\<close>

record ('s, 'c) genie_env =
  gnode :: "('s, 'c) node"
  gsort :: "(string \<Rightarrow> string \<Rightarrow> bool) \<Rightarrow> string list \<Rightarrow> string list"
  grange :: "int gomap \<Rightarrow> int gomap"

definition MultiIPPreferencesAnnotation :: string where "MultiIPPreferencesAnnotation = ''multi-ip-preferences''"
definition DefaultNetDir :: string where "DefaultNetDir = ''/etc/cni/net.d''"
definition DefaultPluginDir :: string where "DefaultPluginDir = ''/opt/cni/bin''"

text \<open>\<^verbatim>\<open>fmt.Errorf\<close> with text after the error.\<close>

definition Errorf_vt :: "string \<Rightarrow> string \<Rightarrow> go_error \<Rightarrow> go_error" where
  "Errorf_vt msg tail e = ErrorString (msg @ error_text e @ tail)"

section \<open>Arguments and configuration\<close>

text \<open>\<open>CNIArgs\<close> has the fields of \<^verbatim>\<open>skel.CmdArgs\<close>, copied one by one.\<close>

definition PopulateCNIArgs :: "CNIArgs \<Rightarrow> CNIArgs" where
  "PopulateCNIArgs args =
     \<lparr>ContainerID = ContainerID args, Netns = Netns args, caIfName = caIfName args, caArgs = caArgs args,
      caPath = caPath args, StdinData = StdinData args\<rparr>"

definition ParseCNIConf :: "string \<Rightarrow> go_error + NetConf" where
  "ParseCNIConf confData =
     map_sum (Errorf_v ''failed to load netconf: '') id (Unmarshal_struct NetConf_fields confData zero_NetConf)"

definition loadArgs :: "('s, 'c) genie_env \<Rightarrow> CNIArgs \<Rightarrow> ('s, K8sArgs) go" where
  "loadArgs g cniArgs =
     of_res (LoadArgs (is_print (gnode g)) (parse_ip (gnode g)) (caArgs cniArgs)
       \<lparr>IgnoreUnknown = False, K8S_POD_NAME = [], K8S_POD_NAMESPACE = [], K8S_POD_INFRA_CONTAINER_ID = []\<rparr>)"

definition getIdentifiers :: "CNIArgs \<Rightarrow> K8sArgs \<Rightarrow> string \<times> string" where
  "getIdentifiers cniArgs k8sArgs =
     (if K8S_POD_NAMESPACE k8sArgs \<noteq> [] \<and> K8S_POD_NAME k8sArgs \<noteq> []
      then (K8S_POD_NAMESPACE k8sArgs @ ''.'' @ K8S_POD_NAME k8sArgs, ''k8s'')
      else (ContainerID cniArgs, ''cni''))"

definition runtimeConf :: "('s, 'c) genie_env \<Rightarrow> CNIArgs \<Rightarrow> string \<Rightarrow> ('s, RuntimeConf) go" where
  "runtimeConf g cniArgs iface =
     go_bind (loadArgs g cniArgs) (\<lambda>k8sArgs.
     let ignoreUnknown = (if IgnoreUnknown k8sArgs then ''1'' else ''0'')
     in go_ret \<lparr>rtContainerID = ContainerID cniArgs, rtNetNS = Netns cniArgs, rtIfName = iface,
          rtArgs = [(''IgnoreUnknown'', ignoreUnknown), (''K8S_POD_NAMESPACE'', K8S_POD_NAMESPACE k8sArgs),
            (''K8S_POD_NAME'', K8S_POD_NAME k8sArgs), (''K8S_POD_INFRA_CONTAINER_ID'', K8S_POD_INFRA_CONTAINER_ID k8sArgs)]\<rparr>)"

definition defaultPlugin :: "NetConf \<Rightarrow> string" where
  "defaultPlugin conf = (if DefaultPlugin conf = [] then ''weave'' else DefaultPlugin conf)"

section \<open>The API server\<close>

text \<open>The overrides: a non-empty value of the policy block, and for the server the kubernetes block over it.\<close>

definition client_overrides :: "NetConf \<Rightarrow> ConfigOverrides" where
  "client_overrides conf =
     (let root = Split (pcK8sAPIRoot (Policy conf)) ''/api/'' ! 0;
          server = (if kcK8sAPIRoot (Kubernetes conf) \<noteq> [] then kcK8sAPIRoot (Kubernetes conf) else root)
      in \<lparr>coServer = server, coClientCertificate = K8sClientCertificate (Policy conf), coClientKey = K8sClientKey (Policy conf),
          coCertificateAuthority = K8sCertificateAuthority (Policy conf), coToken = K8sAuthToken (Policy conf)\<rparr>)"

definition GetKubeClient :: "('s, 'c) genie_env \<Rightarrow> NetConf \<Rightarrow> ('s, 'c) go" where
  "GetKubeClient g conf = new_client (gnode g) (Kubeconfig (Kubernetes conf)) (client_overrides conf)"

definition GetPodDefinition :: "('s, 'c) genie_env \<Rightarrow> 'c \<Rightarrow> string \<Rightarrow> string \<Rightarrow> ('s, Pod) go" where
  "GetPodDefinition g client namespace name = pods_Get (gnode g) client namespace name"

definition getK8sPodAnnotations :: "('s, 'c) genie_env \<Rightarrow> 'c \<Rightarrow> K8sArgs \<Rightarrow> ('s, string gomap option) go" where
  "getK8sPodAnnotations g client k8sArgs =
     go_bind (GetPodDefinition g client (K8S_POD_NAMESPACE k8sArgs) (K8S_POD_NAME k8sArgs)) (\<lambda>pod.
     go_ret (podAnnotations pod))"

text \<open>An annotation whose lookup fails reads as empty.\<close>

definition pod_annotation :: "('s, 'c) genie_env \<Rightarrow> 'c \<Rightarrow> K8sArgs \<Rightarrow> string \<Rightarrow> ('s, string) go" where
  "pod_annotation g client k8sArgs key =
     go_bind (go_try (getK8sPodAnnotations g client k8sArgs)) (\<lambda>r.
     go_ret (case r of Inl _ \<Rightarrow> [] | Inr annot \<Rightarrow> map_get annot key))"

definition ParsePodAnnotationsForMultiIPPrefs :: "('s, 'c) genie_env \<Rightarrow> 'c \<Rightarrow> K8sArgs \<Rightarrow> ('s, string) go" where
  "ParsePodAnnotationsForMultiIPPrefs g client k8sArgs = pod_annotation g client k8sArgs MultiIPPreferencesAnnotation"

definition ParsePodAnnotationsForNetworks :: "('s, 'c) genie_env \<Rightarrow> 'c \<Rightarrow> K8sArgs \<Rightarrow> ('s, string) go" where
  "ParsePodAnnotationsForNetworks g client k8sArgs = pod_annotation g client k8sArgs ''networks''"

section \<open>Which plugins\<close>

definition plain_plugin :: "string \<Rightarrow> PluginInfo" where
  "plain_plugin name = \<lparr>PluginName = name, IfName = [], Subnet = [], Refer_nic = []\<rparr>"

definition cni_patch :: "string \<Rightarrow> string" where
  "cni_patch cns =
     (let q = [CHR 0x22] in ''{'' @ q @ ''metadata'' @ q @ '':{'' @ q @ ''annotations'' @ q @ '':{'' @ q @ ''cni'' @ q @ '':'' @ q @ cns @ q @ ''}}}'')"

text \<open>The branch without an annotation the plugin knows: the least loaded solution, written back to the
  pod. The last \<open>Get\<close> is for the log.\<close>

definition ideal_network :: "('s, 'c) genie_env \<Rightarrow> 'c \<Rightarrow> K8sArgs \<Rightarrow> ('s, PluginInfo list) go" where
  "ideal_network g client k8sArgs =
     (let nd = gnode g; ns = K8S_POD_NAMESPACE k8sArgs; name = K8S_POD_NAME k8sArgs;
          updating = go_wrap (Errorf_v ''CNI Genie Error updating pod = '')
      in
      go_bind (go_wrap (Errorf_v ''CNI Genie failed to retrieve CNS list from cAdvisor = '')
                 (GetCNSOrderByNetworkBandwith (gsort g) (grange g) nd ''http://127.0.0.1:4194'')) (\<lambda>cns.
      go_bind (updating (pods_Get nd client ns name)) (\<lambda>pod.
      go_bind (updating (pods_Patch nd client ns (podName pod) (cni_patch cns))) (\<lambda>_.
      go_bind (go_try (pods_Get nd client ns name)) (\<lambda>_.
      go_ret [plain_plugin cns])))))"

definition parseCNIAnnotations ::
  "('s, 'c) genie_env \<Rightarrow> string gomap option \<Rightarrow> 'c \<Rightarrow> K8sArgs \<Rightarrow> NetConf \<Rightarrow> ('s, PluginInfo list) go" where
  "parseCNIAnnotations g annot client k8sArgs conf =
     (if annot = None \<or> annot = Some [] then go_ret [plain_plugin (defaultPlugin conf)]
      else if TrimSpace (map_get annot ''cni'') \<noteq> [] then
        go_ret (map plain_plugin (Split (map_get annot ''cni'') '',''))
      else
        go_bind (ParsePodAnnotationsForNetworks g client k8sArgs) (\<lambda>networksAnnot.
        if networksAnnot \<noteq> [] then
          go_wrap (Errorf_vt ''CNI Genie GetPluginInfoFromNwAnnot err= '' [CHR 0x0A])
            (GetPluginInfoFromNwAnnot (gnode g) (TrimSpace (map_get annot ''networks'')) (K8S_POD_NAMESPACE k8sArgs) client)
        else ideal_network g client k8sArgs))"

definition ParsePodAnnotationsForCNI :: "('s, 'c) genie_env \<Rightarrow> 'c \<Rightarrow> K8sArgs \<Rightarrow> NetConf \<Rightarrow> ('s, PluginInfo list) go" where
  "ParsePodAnnotationsForCNI g client k8sArgs conf =
     go_bind (getK8sPodAnnotations g client k8sArgs) (\<lambda>annot. parseCNIAnnotations g annot client k8sArgs conf)"

section \<open>Configuration files of the delegates\<close>

definition ParseCNIConfFromFile :: "('s, 'c) genie_env \<Rightarrow> string \<Rightarrow> ('s, NetworkConfigList) go" where
  "ParseCNIConfFromFile g filename =
     go_bind
       (if HasSuffix filename ''.conflist'' then
          go_wrap (Errorf_v (''Error loading CNI config list file '' @ filename @ '': '')) (ConfListFromFile (gnode g) filename)
        else
          go_bind (go_wrap (Errorf_v (''Error loading CNI config file '' @ filename @ '': '')) (ConfFromFile (gnode g) filename)) (\<lambda>conf.
          go_bind (plugin_type conf) (\<lambda>t.
          if t = [] then go_err (ErrorString (''Error loading CNI config file '' @ filename @ '': no 'type'; perhaps this is a .conflist?''))
          else go_wrap (Errorf_v (''Error converting CNI config file '' @ filename @ '' to list: '')) (of_res (ConfListFromConf conf)))))
       (\<lambda>confList.
        if listPlugins confList = [] then go_err (ErrorString (''CNI config list '' @ filename @ '' has no networks''))
        else go_ret confList)"

definition unsupported :: "string \<Rightarrow> go_error" where
  "unsupported cniName = ErrorString (''CNI Genie Error user requested for unsupported plugin type '' @ cniName
     @ ''. Only supported are (Romana, weave, canal, calico, flannel, bridge, macvlan, sriov)'')"

definition checkPluginBinary :: "('s, 'c) genie_env \<Rightarrow> string \<Rightarrow> ('s, unit) go" where
  "checkPluginBinary g cniName s =
     (case ReadDir (gnode g) DefaultPluginDir s of
        DirEntries binaries \<Rightarrow>
          (if list_ex (\<lambda>(name, _). Contains name cniName) binaries then Ret () else Err (unsupported cniName), s)
      | DirMissing e \<Rightarrow> (Err (Errorf_v (''CNI Genie Error while checking binary file for plugin '' @ cniName @ '': '') e), s)
      | DirFailed e \<Rightarrow> (Err (Errorf_v (''CNI Genie Error while checking binary file for plugin '' @ cniName @ '': '') e), s))"

definition placeConfFile :: "('s, 'c) genie_env \<Rightarrow> json \<Rightarrow> string \<Rightarrow> ('s, string \<times> string) go" where
  "placeConfFile g obj cniName =
     (let dataBytes = json_MarshalIndent obj; confFile = DefaultNetDir @ ''/10-'' @ cniName @ ''.conf''
      in go_bind (go_wrap (Errorf_v (''CNI Genie Error while writing default conf file for plugin '' @ cniName @ '': ''))
                    (WriteFile (gnode g) confFile dataBytes)) (\<lambda>_.
         go_ret (confFile, dataBytes)))"

definition plugin_object :: "('s, 'c) genie_env \<Rightarrow> string \<Rightarrow> ('s, json) go" where
  "plugin_object g cniName =
     (if cniName = BridgeNet then go_ret GetBridgeConfig
      else if cniName = Macvlan then GetMacvlanConfig (gnode g)
      else if cniName = SriovNet then go_ret GetSriovConfig
      else go_err (unsupported cniName))"

definition createConfIfBinaryExists :: "('s, 'c) genie_env \<Rightarrow> string \<Rightarrow> ('s, NetworkConfigList) go" where
  "createConfIfBinaryExists g cniName =
     go_bind (checkPluginBinary g cniName) (\<lambda>_.
     go_bind (plugin_object g cniName) (\<lambda>pluginObj.
     go_bind (placeConfFile g pluginObj cniName) (\<lambda>(confFile, confBs).
     go_bind (of_sum (ConfFromBytes confBs)) (\<lambda>netConf.
     of_res (ConfListFromConf netConf)))))"

section \<open>Delegation\<close>

text \<open>The loop over the files: the first, in the order given, whose name contains the plugin's name and
  which parses. A file that does not parse is skipped.\<close>

fun first_conf :: "('s, 'c) genie_env \<Rightarrow> string \<Rightarrow> string list \<Rightarrow> ('s, NetworkConfigList option) go" where
  "first_conf g cniName [] = go_ret None"
| "first_conf g cniName (confFile # files) =
     (if Contains confFile cniName \<and> cniName \<noteq> [] then
        go_bind (go_try (ParseCNIConfFromFile g confFile)) (\<lambda>r.
        case r of
          Inl e \<Rightarrow> first_conf g cniName files
        | Inr conf \<Rightarrow> go_bind (plugin_type (hd (listPlugins conf))) (\<lambda>_. go_ret (Some conf)))
      else first_conf g cniName files)"

definition addNetwork :: "('s, 'c) genie_env \<Rightarrow> string \<Rightarrow> string \<Rightarrow> CNIArgs \<Rightarrow> ('s, cni_result option) go" where
  "addNetwork g intfName cniName cniArgs =
     go_bind (ConfFiles (gnode g) DefaultNetDir [''.conf'', ''.conflist'']) (\<lambda>files.
     go_bind (first_conf g cniName (sort files)) (\<lambda>found.
     go_bind (case found of Some conf \<Rightarrow> go_ret conf | None \<Rightarrow> createConfIfBinaryExists g cniName) (\<lambda>netConfigList.
     go_bind (go_wrap (Errorf_vt ''CNI Genie couldn't convert cniArgs to RuntimeConf: '' [CHR 0x0A]) (runtimeConf g cniArgs intfName)) (\<lambda>rtConf.
     AddNetworkList (gnode g) [DefaultPluginDir] netConfigList rtConf))))"

definition deleteNetwork :: "('s, 'c) genie_env \<Rightarrow> string \<Rightarrow> string \<Rightarrow> CNIArgs \<Rightarrow> ('s, unit) go" where
  "deleteNetwork g intfName cniName cniArgs =
     go_bind (ConfFiles (gnode g) DefaultNetDir [''.conf'']) (\<lambda>files.
     if files = [] then go_err (ErrorString (''No networks found in '' @ DefaultNetDir))
     else
       go_bind (first_conf g cniName (sort files)) (\<lambda>found.
       case found of
         None \<Rightarrow> go_ret ()
       | Some conf \<Rightarrow>
           go_bind (go_wrap (Errorf_vt ''CNI Genie couldn't convert cniArgs to RuntimeConf: '' [CHR 0x0A]) (runtimeConf g cniArgs intfName)) (\<lambda>rtConf.
           DelNetworkList (gnode g) [DefaultPluginDir] conf rtConf)))"

section \<open>The annotation with the addresses\<close>

text \<open>
  The decoding of the annotation ignores its error: a document that is no JSON leaves the zero value, a
  value of a wrong type leaves its field as it was.
\<close>

definition kept_string :: "json \<Rightarrow> string \<Rightarrow> string" where
  "kept_string v old = (case v of JStr s \<Rightarrow> s | _ \<Rightarrow> old)"

definition kept_int :: "json \<Rightarrow> int \<Rightarrow> int" where
  "kept_int v old = (case v of JNum lit \<Rightarrow> (case ParseInt64 lit of ParsedInt n \<Rightarrow> n | _ \<Rightarrow> old) | _ \<Rightarrow> old)"

definition kept_address :: "json \<Rightarrow> IPAddressPreferences" where
  "kept_address v =
     (let zero = \<lparr>apIp = [], apInterface = []\<rparr> in
      case v of
        JObj ms \<Rightarrow> fold (\<lambda>(k, x) a.
          if fold_key k = ''ip'' then a\<lparr>apIp := kept_string x (apIp a)\<rparr>
          else if fold_key k = ''interface'' then a\<lparr>apInterface := kept_string x (apInterface a)\<rparr> else a) ms zero
      | _ \<Rightarrow> zero)"

definition kept_ips :: "json \<Rightarrow> IPAddressPreferences gomap option \<Rightarrow> IPAddressPreferences gomap option" where
  "kept_ips v old =
     (case v of
        JObj ms \<Rightarrow> Some (fold (\<lambda>(k, x). map_put k (kept_address x)) ms (case old of None \<Rightarrow> [] | Some m \<Rightarrow> m))
      | JNull \<Rightarrow> None
      | _ \<Rightarrow> old)"

definition decode_preferences :: "string \<Rightarrow> MultiIPPreferences" where
  "decode_preferences annot =
     (let zero = \<lparr>MultiEntry = 0, Ips = None\<rparr> in
      case json_parse annot of
        Some (JObj ms) \<Rightarrow> fold (\<lambda>(k, x) p.
          if fold_key k = ''multi_entry'' then p\<lparr>MultiEntry := kept_int x (MultiEntry p)\<rparr>
          else if fold_key k = ''ips'' then p\<lparr>Ips := kept_ips x (Ips p)\<rparr> else p) ms zero
      | _ \<Rightarrow> zero)"

text \<open>\<open>json.Marshal\<close> with the tags \<^verbatim>\<open>omitempty\<close>.\<close>

definition address_json :: "IPAddressPreferences \<Rightarrow> json" where
  "address_json a =
     JObj ((if apIp a = [] then [] else [(''ip'', JStr (apIp a))])
           @ (if apInterface a = [] then [] else [(''interface'', JStr (apInterface a))]))"

definition preferences_json :: "MultiIPPreferences \<Rightarrow> json" where
  "preferences_json p =
     JObj ((if MultiEntry p = 0 then [] else [(''multi_entry'', JNum (Itoa (MultiEntry p)))])
           @ (case Ips p of
                None \<Rightarrow> []
              | Some m \<Rightarrow> if m = [] then []
                          else [(''ips'', JObj (map (\<lambda>(k, a). (k, address_json a)) (sort_key fst m)))]))"

definition annotation_patch :: "(string \<Rightarrow> bool) \<Rightarrow> string \<Rightarrow> string" where
  "annotation_patch isp value' =
     (let q = [CHR 0x22] in ''{'' @ q @ ''metadata'' @ q @ '':{'' @ q @ ''annotations'' @ q @ '':{'' @ q @ MultiIPPreferencesAnnotation @ q
        @ '':'' @ Quote isp value' @ ''}}}'')"

text \<open>The entry for an interface, with the places where the source panics.\<close>

definition add_address :: "string \<Rightarrow> string list \<Rightarrow> MultiIPPreferences \<Rightarrow> MultiIPPreferences go_res" where
  "add_address intfName addrs p =
     (case Split intfName ''eth'' of
        _ # idText # _ \<Rightarrow>
          (case addrs of
             [] \<Rightarrow> Panic ''index out of range''
           | ip # _ \<Rightarrow>
               (case Ips p of
                  None \<Rightarrow> Panic ''assignment to entry in nil map''
                | Some m \<Rightarrow>
                    Ret (p\<lparr>MultiEntry := wrap64 (MultiEntry p + 1),
                           Ips := Some (map_put (''ip'' @ Itoa (wrap64 (Atoi_value idText + 1)))
                                    \<lparr>apIp = ip, apInterface = intfName\<rparr> m)\<rparr>)))
      | _ \<Rightarrow> Panic ''index out of range'')"

definition UpdatePodDefinition ::
  "('s, 'c) genie_env \<Rightarrow> string \<Rightarrow> cni_result option \<Rightarrow> string \<Rightarrow> 'c \<Rightarrow> K8sArgs \<Rightarrow> ('s, string) go" where
  "UpdatePodDefinition g intfName result multiIPPrefAnnot client k8sArgs =
     (if multiIPPrefAnnot = [] then go_ret multiIPPrefAnnot
      else case result of
          None \<Rightarrow> go_panic ''invalid memory address or nil pointer dereference''
        | Some r \<Rightarrow>
            go_bind (go_wrap (Errorf_v ''CNI Genie Error when converting result to current version = '') (of_sum (NewResultFromResult r))) (\<lambda>addrs.
            go_bind (of_res (add_address intfName addrs (decode_preferences multiIPPrefAnnot))) (\<lambda>p.
            let tmp = json_Marshal (preferences_json p); ns = K8S_POD_NAMESPACE k8sArgs in
            go_bind (GetPodDefinition g client ns (K8S_POD_NAME k8sArgs)) (\<lambda>pod.
            go_bind (go_wrap (Errorf_v ''CNI Genie Error updating pod = '')
                       (pods_Patch (gnode g) client ns (podName pod) (annotation_patch (is_print (gnode g)) tmp))) (\<lambda>_.
            go_ret tmp)))))"

section \<open>Adding and deleting a pod\<close>

text \<open>What both operations do first: arguments, client, annotations.\<close>

definition pod_plugins :: "('s, 'c) genie_env \<Rightarrow> CNIArgs \<Rightarrow> NetConf \<Rightarrow> ('s, K8sArgs \<times> 'c \<times> PluginInfo list) go" where
  "pod_plugins g cniArgs conf =
     go_bind (go_wrap (Errorf_v ''CNI Genie internal error at loadArgs: '') (loadArgs g cniArgs)) (\<lambda>k8sArgs.
     go_bind (go_wrap (Errorf_v ''CNI Genie error at GetKubeClient: '') (GetKubeClient g conf)) (\<lambda>kubeClient.
     go_bind (go_wrap (Errorf_v ''CNI Genie error at ParsePodAnnotations: '') (ParsePodAnnotationsForCNI g kubeClient k8sArgs conf)) (\<lambda>annots.
     go_ret (k8sArgs, kubeClient, annots))))"

definition intf_name :: "nat \<times> PluginInfo \<Rightarrow> string" where
  "intf_name ip = (if IfName (snd ip) \<noteq> [] then IfName (snd ip) else ''eth'' @ Itoa (int (fst ip)))"

record add_state =
  asResult :: "cni_result option"
  asAnnot :: string
  asErr :: "go_error option"

definition add_pod_plugin ::
  "('s, 'c) genie_env \<Rightarrow> CNIArgs \<Rightarrow> 'c \<Rightarrow> K8sArgs \<Rightarrow> nat \<times> PluginInfo \<Rightarrow> add_state \<Rightarrow> ('s, add_state) go" where
  "add_pod_plugin g cniArgs client k8sArgs ip st =
     go_bind (go_try (addNetwork g (intf_name ip) (PluginName (snd ip)) cniArgs)) (\<lambda>r.
     let result = (case r of Inl _ \<Rightarrow> None | Inr x \<Rightarrow> x);
         err1 = (case r of Inl e \<Rightarrow> Some e | Inr _ \<Rightarrow> asErr st) in
     go_bind (go_try (UpdatePodDefinition g (intf_name ip) result (asAnnot st) client k8sArgs)) (\<lambda>u.
     go_ret \<lparr>asResult = result, asAnnot = (case u of Inl _ \<Rightarrow> asAnnot st | Inr a \<Rightarrow> a),
             asErr = (case u of Inl e \<Rightarrow> Some e | Inr _ \<Rightarrow> err1)\<rparr>))"

definition AddPodNetwork :: "('s, 'c) genie_env \<Rightarrow> CNIArgs \<Rightarrow> NetConf \<Rightarrow> ('s, cni_result option) go" where
  "AddPodNetwork g cniArgs conf =
     go_bind (pod_plugins g cniArgs conf) (\<lambda>(k8sArgs, kubeClient, annots).
     go_bind (ParsePodAnnotationsForMultiIPPrefs g kubeClient k8sArgs) (\<lambda>multiIPPrefAnnot.
     go_bind (go_fold (add_pod_plugin g cniArgs kubeClient k8sArgs) (enumerate 0 annots)
                \<lparr>asResult = None, asAnnot = multiIPPrefAnnot, asErr = None\<rparr>) (\<lambda>st.
     case asErr st of
       Some e \<Rightarrow> go_err (Errorf_v ''CNI Genie error at addNetwork: '' e)
     | None \<Rightarrow> go_ret (asResult st))))"

definition delete_pod_plugin ::
  "('s, 'c) genie_env \<Rightarrow> CNIArgs \<Rightarrow> nat \<times> PluginInfo \<Rightarrow> go_error option \<Rightarrow> ('s, go_error option) go" where
  "delete_pod_plugin g cniArgs ip newErr =
     go_bind (go_try (deleteNetwork g (intf_name ip) (PluginName (snd ip)) cniArgs)) (\<lambda>r.
     go_ret (case r of Inl e \<Rightarrow> Some e | Inr _ \<Rightarrow> newErr))"

definition DeletePodNetwork :: "('s, 'c) genie_env \<Rightarrow> CNIArgs \<Rightarrow> NetConf \<Rightarrow> ('s, unit) go" where
  "DeletePodNetwork g cniArgs conf =
     go_bind (pod_plugins g cniArgs conf) (\<lambda>(k8sArgs, kubeClient, annots).
     go_bind (go_fold (delete_pod_plugin g cniArgs) (enumerate 0 annots) None) (\<lambda>newErr.
     case newErr of
       Some e \<Rightarrow> go_err (Errorf_v ''CNI Genie error at deleteNetwork: '' e)
     | None \<Rightarrow> go_ret ()))"

section \<open>cni-genie.go\<close>

definition cmdAdd :: "('s, 'c) genie_env \<Rightarrow> CNIArgs \<Rightarrow> ('s, unit) go" where
  "cmdAdd g args =
     go_bind (go_wrap (Errorf_v ''failed to load netconf: '') (of_sum (ParseCNIConf (StdinData args)))) (\<lambda>conf.
     go_bind (go_wrap (Errorf_vt ''CNI Genie Add IP internal error: '' '', result: %!s(<nil>)'') (AddPodNetwork g (PopulateCNIArgs args) conf)) (\<lambda>result.
     case result of
       None \<Rightarrow> go_err (ErrorString ''CNI Genie Add IP internal error: <nil>, result: %!s(<nil>)'')
     | Some r \<Rightarrow> print_result (gnode g) r (ncCNIVersion conf)))"

definition cmdDel :: "('s, 'c) genie_env \<Rightarrow> CNIArgs \<Rightarrow> ('s, unit) go" where
  "cmdDel g args =
     go_bind (go_wrap (Errorf_v ''failed to load netconf: '') (of_sum (ParseCNIConf (StdinData args)))) (\<lambda>conf.
     go_wrap (Errorf_v ''CNI Genie release IP internal error: '') (DeletePodNetwork g (PopulateCNIArgs args) conf))"

end
