(* ===== verification/GenieFacts.thy ===== *)
theory GenieFacts
  imports Genie
begin

text \<open>
  Facts about the CNI plugin: the arguments it hands to its delegates, the interfaces it chooses, the
  configuration files it picks and writes, and the loops over the plugins of a pod.
\<close>

section \<open>Arguments\<close>

lemma Join_contains: "s \<in> set ss \<Longrightarrow> set s \<subseteq> set (Join ss sep)"
  by (induction ss sep rule: Join.induct) auto

lemma Split_chars: "sep \<noteq> [] \<Longrightarrow> p \<in> set (Split s sep) \<Longrightarrow> set p \<subseteq> set s"
  using Join_contains[of p "Split s sep" sep] by (simp add: Join_Split)

definition arg_text :: "string \<Rightarrow> bool" where
  "arg_text v \<longleftrightarrow> CHR '';'' \<notin> set v \<and> CHR ''='' \<notin> set v"

definition args_clean :: "K8sArgs \<Rightarrow> bool" where
  "args_clean a \<longleftrightarrow> arg_text (K8S_POD_NAME a) \<and> arg_text (K8S_POD_NAMESPACE a) \<and> arg_text (K8S_POD_INFRA_CONTAINER_ID a)"

lemma load_pair_clean:
  "load_pair isp ip k v a = Ret (Some a') \<Longrightarrow> arg_text v \<Longrightarrow> args_clean a \<Longrightarrow> args_clean a'"
  by (auto simp: load_pair_def args_clean_def split: if_splits option.splits)

lemma load_pairs_clean:
  assumes "load_pairs isp ip pairs u a = Ret (u', a')" "\<forall>p \<in> set pairs. CHR '';'' \<notin> set p" "args_clean a"
  shows "args_clean a'"
  using assms
proof (induction pairs arbitrary: u a)
  case (Cons pair pairs)
  obtain k v where kv: "Split pair ''='' = [k, v]"
    using Cons.prems(1) by (auto split: list.splits)
  have "CHR ''='' \<notin> set v" using Split_parts[of v pair "CHR ''=''"] kv by simp
  moreover have "CHR '';'' \<notin> set v" using Split_chars[of "''=''" v pair] kv Cons.prems(2) by auto
  ultimately have v: "arg_text v" by (simp add: arg_text_def)
  show ?case
  proof (cases "load_pair isp ip k v a")
    case (Ret o')
    show ?thesis
    proof (cases o')
      case None
      then show ?thesis using Cons Ret kv by simp
    next
      case (Some a1)
      then show ?thesis using Cons Ret kv load_pair_clean[OF _ v, of isp ip k a a1] by simp
    qed
  qed (use Cons.prems(1) kv in simp_all)
qed simp

lemma LoadArgs_clean:
  assumes "LoadArgs isp ip args a = Ret a'" "args_clean a"
  shows "args_clean a'"
proof (cases "args = []")
  case False
  then obtain u where "load_pairs isp ip (Split args '';'') [] a = Ret (u, a')"
    using assms(1) by (auto simp: LoadArgs_def split: go_res.splits if_splits)
  then show ?thesis using load_pairs_clean Split_parts[of _ args "CHR '';''"] assms(2) by blast
qed (use assms in \<open>simp add: LoadArgs_def\<close>)

definition zero_K8sArgs :: K8sArgs where
  "zero_K8sArgs = \<lparr>IgnoreUnknown = False, K8S_POD_NAME = [], K8S_POD_NAMESPACE = [], K8S_POD_INFRA_CONTAINER_ID = []\<rparr>"

lemma load_pairs_kv:
  assumes "CHR ''='' \<notin> set k" "CHR ''='' \<notin> set v" "load_pair isp ip k v a = Ret (Some a')" "load_pairs isp ip ps u a' = Ret r"
  shows "load_pairs isp ip ((k @ ''='' @ v) # ps) u a = Ret r"
  using assms Split_append[of "CHR ''=''" k v] Split_no_sep[of "CHR ''=''" v] by simp

lemma load_stringify:
  assumes "args_clean a"
  shows "LoadArgs isp ip (stringify [(''IgnoreUnknown'', if IgnoreUnknown a then ''1'' else ''0''),
      (''K8S_POD_NAMESPACE'', K8S_POD_NAMESPACE a), (''K8S_POD_NAME'', K8S_POD_NAME a),
      (''K8S_POD_INFRA_CONTAINER_ID'', K8S_POD_INFRA_CONTAINER_ID a)]) zero_K8sArgs = Ret a"
proof -
  let ?b = "if IgnoreUnknown a then ''1'' else ''0''"
  let ?kv = "[(''IgnoreUnknown'', ?b), (''K8S_POD_NAMESPACE'', K8S_POD_NAMESPACE a), (''K8S_POD_NAME'', K8S_POD_NAME a),
      (''K8S_POD_INFRA_CONTAINER_ID'', K8S_POD_INFRA_CONTAINER_ID a)]"
  let ?ps = "map (\<lambda>(k, v). k @ ''='' @ v) ?kv"
  have s: "stringify ?kv = Join ?ps '';''" by (simp add: stringify_def)
  have "\<forall>p \<in> set ?ps. CHR '';'' \<notin> set p" using assms by (auto simp: args_clean_def arg_text_def)
  then have sp: "Split (stringify ?kv) '';'' = ?ps" unfolding s by (intro Split_Join) simp_all
  have ne: "stringify ?kv \<noteq> []" by (simp add: s)
  have "UnmarshalText_bool ?b = Some (IgnoreUnknown a)"
    by (simp add: UnmarshalText_bool_def ascii_lower_def byte_def)
  then have "load_pairs isp ip ?ps [] zero_K8sArgs = Ret ([], a)"
    unfolding list.map prod.case using assms
    by (intro load_pairs_kv) (auto simp: load_pair_def args_clean_def arg_text_def zero_K8sArgs_def)
  then show ?thesis unfolding LoadArgs_def sp using ne by simp
qed

lemma runtimeConf_args:
  assumes "runtimeConf g a iface s = (Ret rt, s')"
  shows "\<exists>k. loadArgs g a s = (Ret k, s') \<and> args_clean k \<and> rtIfName rt = iface \<and> rtContainerID rt = ContainerID a \<and> rtNetNS rt = Netns a
    \<and> LoadArgs isp ip (stringify (rtArgs rt)) zero_K8sArgs = Ret k"
proof -
  obtain k where k: "LoadArgs (is_print (gnode g)) (parse_ip (gnode g)) (caArgs a) zero_K8sArgs = Ret k" and s: "s' = s"
    and rt: "rt = \<lparr>rtContainerID = ContainerID a, rtNetNS = Netns a, rtIfName = iface,
      rtArgs = [(''IgnoreUnknown'', if IgnoreUnknown k then ''1'' else ''0''), (''K8S_POD_NAMESPACE'', K8S_POD_NAMESPACE k),
        (''K8S_POD_NAME'', K8S_POD_NAME k), (''K8S_POD_INFRA_CONTAINER_ID'', K8S_POD_INFRA_CONTAINER_ID k)]\<rparr>"
    using assms by (auto simp: runtimeConf_def loadArgs_def of_res_def go_simps zero_K8sArgs_def[symmetric] Let_def split: go_res.splits)
  have c: "args_clean k" using LoadArgs_clean[OF k] by (simp add: zero_K8sArgs_def args_clean_def arg_text_def)
  show ?thesis
    using k s rt c load_stringify[OF c, of isp ip]
    by (auto simp: loadArgs_def of_res_def zero_K8sArgs_def[symmetric])
qed

section \<open>Network usage\<close>

text \<open>
  A reference for the loops of \<open>computeNetworkUsage\<close>, on the counted samples, the latest first: what the
  latest sample adds is the difference to the sample before it of the same interface, or, for an
  interface seen for the first time, whatever the sample before added. The usage of a solution is what
  its latest sample added.
\<close>

definition solutions :: "string set" where
  "solutions = {''flan'', ''cali'', ''weav''}"

fun downlink :: "interface_stats list \<Rightarrow> int" where
  "downlink [] = 0"
| "downlink ((name, rx) # earlier) =
     (case map_of earlier name of None \<Rightarrow> downlink earlier | Some old \<Rightarrow> sint (rx - old))"

definition usage_of :: "interface_stats list \<Rightarrow> string \<Rightarrow> int" where
  "usage_of samples c = downlink (dropWhile (\<lambda>i. take 4 (fst i) \<noteq> c) samples)"

definition counted :: "interface_stats list \<Rightarrow> interface_stats list" where
  "counted is = rev (filter (\<lambda>i. take 4 (fst i) \<in> solutions) is)"

definition usage_rel :: "interface_stats list \<Rightarrow> usage_state \<Rightarrow> bool" where
  "usage_rel samples st \<longleftrightarrow>
     dom (map_of (usM st)) = solutions \<and> map_of (usRx st) = map_of samples \<and> usDownlink st = downlink samples
     \<and> (\<forall>c \<in> solutions. int_at (usM st) c = usage_of samples c)"

lemma usage_rel_start: "usage_rel [] usage_start"
  using usage_start_keys by (auto simp: usage_rel_def usage_start_def int_at_def usage_of_def solutions_def)

lemma usage_rel_step:
  assumes "usage_rel (counted is) st" "4 \<le> length (fst i)"
  shows "\<exists>st'. usage_interface i st = Ret st' \<and> usage_rel (counted (is @ [i])) st'"
proof -
  obtain name rx where i: "i = (name, rx)" by (cases i)
  show ?thesis
  proof (cases "take 4 name \<in> solutions")
    case True
    then have "counted (is @ [i]) = i # counted is" by (simp add: counted_def i)
    moreover have "map_of (usM st) (take 4 name) \<noteq> None" using True assms(1) by (auto simp: usage_rel_def)
    ultimately show ?thesis
      using assms True
      by (auto simp: usage_interface_def Let_def i usage_rel_def map_of_map_put int_at_def usage_of_def split: option.splits)
  next
    case False
    then have "counted (is @ [i]) = counted is" by (simp add: counted_def i)
    moreover have "map_of (usM st) (take 4 name) = None" using False assms(1) by (auto simp: usage_rel_def)
    ultimately show ?thesis using assms by (simp add: usage_interface_def i)
  qed
qed

lemma usage_interfaces_append:
  "usage_interfaces (is @ js) st =
     (case usage_interfaces is st of Ret st' \<Rightarrow> usage_interfaces js st' | Err e \<Rightarrow> Err e | Panic p \<Rightarrow> Panic p)"
  by (induction "is" arbitrary: st) (simp_all split: go_res.split)

lemma usage_interfaces_rel:
  assumes "list_all (\<lambda>i. 4 \<le> length (fst i)) is"
  shows "\<exists>st. usage_interfaces is usage_start = Ret st \<and> usage_rel (counted is) st"
  using assms
proof (induction "is" rule: rev_induct)
  case Nil
  then show ?case using usage_rel_start by (simp add: counted_def)
next
  case (snoc i "is")
  then obtain st where st: "usage_interfaces is usage_start = Ret st" "usage_rel (counted is) st" by auto
  from snoc.prems have "4 \<le> length (fst i)" by simp
  from usage_rel_step[OF st(2) this] obtain st' where "usage_interface i st = Ret st'" "usage_rel (counted (is @ [i])) st'"
    by blast
  then show ?case using st(1) by (simp add: usage_interfaces_append)
qed

context sort_pkg
begin

lemma computeNetworkUsage_outcome:
  assumes rng: "\<And>m. mset (rng m) = mset m"
  shows "if list_all (\<lambda>i. 4 \<le> length (fst i)) (concat cinfo)
     then \<exists>c \<in> solutions. computeNetworkUsage srt rng cinfo = Ret (full_name c)
            \<and> (\<forall>c' \<in> solutions. usage_of (counted (concat cinfo)) c \<le> usage_of (counted (concat cinfo)) c')
     else \<exists>p. computeNetworkUsage srt rng cinfo = Panic p"
proof (cases "list_all (\<lambda>i. 4 \<le> length (fst i)) (concat cinfo)")
  case True
  then obtain st where st: "usage_interfaces (concat cinfo) usage_start = Ret st" and rel: "usage_rel (counted (concat cinfo)) st"
    using usage_interfaces_rel by blast
  have d: "dom (map_of (usM st)) = solutions" using rel by (simp add: usage_rel_def)
  have "solutions \<noteq> {}" by (simp add: solutions_def)
  then have "usM st \<noteq> []" using d by force
  from SortedKeys_least[of rng "usM st", OF rng this] obtain c cs where c: "SortedKeys srt rng (usM st) = c # cs" "c \<in> solutions"
      "\<forall>c' \<in> solutions. int_at (usM st) c \<le> int_at (usM st) c'"
    unfolding d by (elim exE conjE) (rule that)
  have "computeNetworkUsage srt rng cinfo = Ret (full_name c)" by (simp add: computeNetworkUsage_def st c(1))
  moreover have "int_at (usM st) c' = usage_of (counted (concat cinfo)) c'" if "c' \<in> solutions" for c'
    using rel that by (simp add: usage_rel_def)
  ultimately show ?thesis using True c(2,3) by (simp del: list_all_append) (metis)
next
  case False
  then obtain p where "usage_interfaces (concat cinfo) usage_start = Panic p"
    using usage_interfaces_outcome[of "concat cinfo" usage_start] by (auto split: if_splits)
  then show ?thesis using False by (simp add: computeNetworkUsage_def)
qed

end

section \<open>Interfaces of the networks annotation\<close>

text \<open>The names the loop gives: the one the entry asks for, otherwise the next of \<^verbatim>\<open>eth0\<close>, \<^verbatim>\<open>eth1\<close>, ...\<close>

fun assigned :: "nat \<Rightarrow> string list \<Rightarrow> string list" where
  "assigned n [] = []"
| "assigned n (e # es) = (if Contains e '':'' then (Split e '':'' ! 1) # assigned n es else nic n # assigned (Suc n) es)"

text \<open>Before the \<open>n\<close>-th automatic name the names below \<open>n\<close> are used, and the counter is not past \<open>n\<close>.\<close>

definition loop_at :: "nat \<Rightarrow> nw_loop \<Rightarrow> bool" where
  "loop_at n st \<longleftrightarrow> set (usedIntfMap st) = nic ` {..<n} \<and> nextI st \<le> n"

lemma find_nic_least: "set used = nic ` {..<n} \<Longrightarrow> i \<le> n \<Longrightarrow> find_nic used i = n"
proof (induction "n - i" arbitrary: i)
  case 0
  then show ?case by (subst find_nic.simps) (auto simp: nic_inj)
next
  case (Suc d)
  then have "nic i \<in> set used" by auto
  then show ?case using Suc.hyps(1)[of "i + 1"] Suc.hyps(2) Suc.prems by (subst find_nic.simps) simp
qed

lemma physical_keeps_IfName:
  "fst (GetPluginInfoFromPhysicalNw nd phy ns client info s) = Ret (info', err) \<Longrightarrow> IfName info' = IfName info"
  by (auto simp: GetPluginInfoFromPhysicalNw_def go_simps Let_def split: go_res.splits sum.splits if_splits)

lemma network_plugin_step:
  assumes "fst (network_plugin nd an ns client e st0 s) = Ret st'" "loop_at n st0"
  shows "\<exists>info. pluginInfoList st' = pluginInfoList st0 @ [info]
    \<and> (if Contains e '':'' then IfName info = Split e '':'' ! 1 \<and> loop_at n st' else IfName info = nic n \<and> loop_at (Suc n) st')"
proof -
  obtain networkName ifName st where c: "choose_interface e st0 = (networkName, ifName, st)" by (metis prod_cases3)
  obtain info where info: "st' = st\<lparr>pluginInfoList := pluginInfoList st @ [info]\<rparr>" "IfName info = ifName"
    using assms(1)
    by (auto simp: network_plugin_def c go_simps Let_def split: go_res.splits sum.splits if_splits
        dest!: physical_keeps_IfName)
  have "find_nic (usedIntfMap st0) (nextI st0) = n" using find_nic_least assms(2) by (simp add: loop_at_def)
  then show ?thesis
    using c info assms(2)
    by (auto simp: choose_interface_def Let_def loop_at_def lessThan_Suc split: if_splits)
qed

lemma network_plugins_assigned:
  assumes "fst (go_fold (network_plugin nd an ns client) es st0 s) = Ret st'" "loop_at n st0"
  shows "map IfName (pluginInfoList st') = map IfName (pluginInfoList st0) @ assigned n es"
  using assms
proof (induction es arbitrary: st0 s n)
  case Nil
  then show ?case by (simp add: go_simps)
next
  case (Cons e es)
  from Cons.prems(1) obtain st1 where st1: "fst (network_plugin nd an ns client e st0 s) = Ret st1"
      "fst (go_fold (network_plugin nd an ns client) es st1 (snd (network_plugin nd an ns client e st0 s))) = Ret st'"
    by (auto simp: go_bind_def split: go_res.splits)
  from network_plugin_step[OF st1(1) Cons.prems(2)] show ?case
    using Cons.IH[OF st1(2), of n] Cons.IH[OF st1(2), of "Suc n"] by (auto split: if_splits)
qed

lemma assigned_automatic: "list_all (\<lambda>e. \<not> Contains e '':'') es \<Longrightarrow> assigned n es = map nic [n..<n + length es]"
  by (induction es arbitrary: n) (auto simp: upt_conv_Cons simp del: upt_Suc)

lemma NwAnnot_assigned:
  assumes "GetPluginInfoFromNwAnnot nd an ns client s = (Ret infos, s')"
  shows "map IfName infos = assigned 0 (Split an '','')"
proof -
  let ?st0 = "\<lparr>usedIntfMap = [], nextI = 0, pluginInfoList = []\<rparr>"
  obtain st where st: "fst (go_fold (network_plugin nd an ns client) (Split an '','') ?st0 s) = Ret st" "infos = pluginInfoList st"
    using assms by (auto simp: GetPluginInfoFromNwAnnot_def go_simps split: go_res.splits)
  have "loop_at 0 ?st0" by (simp add: loop_at_def)
  from network_plugins_assigned[OF st(1) this] show ?thesis using st(2) by simp
qed

end
