(* ===== verification/GenieFiles.thy ===== *)
theory GenieFiles
  imports GenieFacts
begin

text \<open>
  Facts about the configuration files of the delegates: which file \<open>addNetwork\<close> and \<open>deleteNetwork\<close> pick,
  and that a default configuration written by \<open>createConfIfBinaryExists\<close> is one they can use.
\<close>

section \<open>The file that is picked\<close>

lemma ParseCNIConfFromFile_state:
  assumes "\<And>f. snd (ReadFile (gnode g) f s) = s"
  shows "snd (ParseCNIConfFromFile g f s) = s"
  using assms
  by (auto simp: ParseCNIConfFromFile_def ConfListFromFile_def ConfFromFile_def of_sum_def of_res_def plugin_type_def go_simps
      split: go_res.splits sum.splits option.splits)

text \<open>A file that is not skipped: its name fits and reading it is no error.\<close>

definition tried :: "('s, 'c) genie_env \<Rightarrow> string \<Rightarrow> 's \<Rightarrow> string \<Rightarrow> bool" where
  "tried g cniName s f \<longleftrightarrow>
     Contains f cniName \<and> cniName \<noteq> [] \<and> (case fst (ParseCNIConfFromFile g f s) of Err _ \<Rightarrow> False | _ \<Rightarrow> True)"

definition picked :: "('s, 'c) genie_env \<Rightarrow> string \<Rightarrow> 's \<Rightarrow> NetworkConfigList option go_res" where
  "picked g f s =
     (case fst (ParseCNIConfFromFile g f s) of
        Ret conf \<Rightarrow>
          (case Network (hd (listPlugins conf)) of
             None \<Rightarrow> Panic ''invalid memory address or nil pointer dereference''
           | Some _ \<Rightarrow> Ret (Some conf))
      | Err e \<Rightarrow> Err e
      | Panic p \<Rightarrow> Panic p)"

lemma first_conf_find:
  assumes reads: "\<And>f. snd (ReadFile (gnode g) f s) = s"
  shows "first_conf g cniName files s =
    (case find (tried g cniName s) files of None \<Rightarrow> (Ret None, s) | Some f \<Rightarrow> (picked g f s, s))"
proof (induction files)
  case Nil
  then show ?case by (simp add: go_simps)
next
  case (Cons f files)
  obtain r where r: "ParseCNIConfFromFile g f s = (r, s)"
    using ParseCNIConfFromFile_state[OF reads, of f] by (cases "ParseCNIConfFromFile g f s") simp
  show ?case
    using Cons.IH r by (cases r) (auto simp: tried_def picked_def plugin_type_def go_simps split: option.split)
qed

section \<open>Values without numbers\<close>

text \<open>No object has two members of one name.\<close>

fun keyed :: "json \<Rightarrow> bool" where
  "keyed (JArr vs) = list_all keyed vs"
| "keyed (JObj ms) = (distinct (map fst ms) \<and> list_all (\<lambda>(k, v). keyed v) ms)"
| "keyed _ = True"

lemma any_plain:
  shows "plain v \<Longrightarrow> keyed v \<Longrightarrow> any_of v = Inr v"
    and "list_all plain vs \<Longrightarrow> list_all keyed vs \<Longrightarrow> any_list vs = Inr vs"
    and "plain (JObj ms) \<Longrightarrow> list_all (\<lambda>(k, v). keyed v) ms \<Longrightarrow> distinct (map fst (acc @ ms)) \<Longrightarrow> any_members ms acc = Inr (acc @ ms)"
  by (induction v and vs and ms acc rule: any_of_any_list_any_members.induct) (auto simp: map_put_new)

lemma plain_sort_maps: "plain v \<Longrightarrow> plain (sort_maps v)"
  by (induction v rule: sort_maps.induct) (auto simp: list_all_iff)

lemma distinct_sort_key: "distinct (map fst (sort_key fst ms)) \<longleftrightarrow> distinct (map fst ms)"
  by (intro mset_eq_imp_distinct_iff) (simp only: mset_map mset_sort)

lemma keyed_sort_maps: "keyed v \<Longrightarrow> keyed (sort_maps v)"
proof (induction v rule: sort_maps.induct)
  case (2 ms)
  have "fst \<circ> (\<lambda>(k :: string, v). (k, sort_maps v)) = fst" by auto
  then have "distinct (map fst (sort_key fst (map (\<lambda>(k, v). (k, sort_maps v)) ms)))"
    using 2(2) by (simp add: distinct_sort_key)
  then show ?case using 2 by (auto simp: list_all_iff)
qed (auto simp: list_all_iff)

lemma map_of_sort_key:
  assumes "distinct (map fst ms)"
  shows "map_of (sort_key fst ms) = map_of ms"
proof -
  have "distinct (map fst (sort_key fst ms))" using assms by (simp add: distinct_sort_key)
  then show ?thesis using assms by (intro map_of_eqI) (auto simp: map_of_eq_Some_iff)
qed

text \<open>Decoding a number-free document, and the configuration list made from such a configuration.\<close>

lemma Unmarshal_plain:
  assumes "json_parse text' = Some (JObj ms)" "plain (JObj ms)" "keyed (JObj ms)"
  shows "Unmarshal_any_map text' = Inr (Some ms)"
  using assms any_plain(3)[of ms "[]"] by (simp add: Unmarshal_any_map_def)

lemma parse_Marshal_any: "plain v \<Longrightarrow> json_parse (Marshal_any v) = Some (sort_maps v)"
  by (simp add: Marshal_any_def json_parse_Marshal plain_sort_maps)

definition conf_list_json :: "string \<Rightarrow> string \<Rightarrow> json \<Rightarrow> json" where
  "conf_list_json name version raw = JObj [(''name'', JStr name), (''cniVersion'', JStr version), (''plugins'', JArr [raw])]"

lemma ascii_utf8: "list_all (\<lambda>c. byte c < 0x80) s \<Longrightarrow> valid_utf8 s"
  by (induction s) (simp_all add: valid_utf8.simps)

lemma ConfFromBytes_object:
  assumes "json_parse b = Some (JObj ms)" "put_struct CniNetConf_fields (JObj ms) zero_CniNetConf = Inr c"
  shows "ConfFromBytes b = Inr \<lparr>Network = Some c, confBytes = b\<rparr>"
  using assms by (simp add: ConfFromBytes_def)

lemma ConfListFromBytes_plain:
  assumes "plain v" "keyed v" "v = JObj ms" "map_of ms ''name'' = Some (JStr name)" "map_of ms ''cniVersion'' = Some (JStr version)"
    "map_of ms ''plugins'' = Some (JArr [raw])"
    and raw: "put_struct CniNetConf_fields (sort_maps (sort_maps raw)) zero_CniNetConf = Inr c" "raw = JObj rs"
  shows "ConfListFromBytes (Marshal_any v) =
    Inr \<lparr>listName = name, listVersion = version,
         listPlugins = [\<lparr>Network = Some c, confBytes = Marshal_any (sort_maps raw)\<rparr>], listBytes = Marshal_any v\<rparr>"
proof -
  let ?ms = "map (\<lambda>(k, v). (k, sort_maps v)) ms"
  have "json_parse (Marshal_any v) = Some (JObj (sort_key fst ?ms))" using parse_Marshal_any[OF assms(1)] assms(3) by simp
  moreover have "plain (JObj (sort_key fst ?ms))" "keyed (JObj (sort_key fst ?ms))"
    using plain_sort_maps[OF assms(1)] keyed_sort_maps[OF assms(2)] assms(3) by simp_all
  ultimately have un: "Unmarshal_any_map (Marshal_any v) = Inr (Some (sort_key fst ?ms))" by (rule Unmarshal_plain)
  have m: "map_of (sort_key fst ?ms) k = map_option sort_maps (map_of ms k)" for k
    using assms(2,3) by (subst map_of_sort_key) (simp_all add: distinct_sort_key map_of_map comp_def case_prod_beta)
  have "plain (JArr [raw])" using assms(1,3) map_of_SomeD[OF assms(6)] by (fastforce simp: list_all_iff)
  then have "json_parse (Marshal_any (sort_maps raw)) = Some (sort_maps (sort_maps raw))"
    by (intro parse_Marshal_any plain_sort_maps) simp
  then have "ConfFromBytes (Marshal_any (sort_maps raw)) = Inr \<lparr>Network = Some c, confBytes = Marshal_any (sort_maps raw)\<rparr>"
    using raw ConfFromBytes_object by simp
  then show ?thesis by (simp add: ConfListFromBytes_def un m assms(4-6))
qed

lemma ConfListFromConf_plain:
  assumes "json_parse b = Some raw" "raw = JObj ms" "plain raw" "keyed raw" "valid_utf8 (cnName n)" "valid_utf8 (cnVersion n)"
    and "put_struct CniNetConf_fields (sort_maps (sort_maps raw)) zero_CniNetConf = Inr c"
  shows "\<exists>lb pb. ConfListFromConf \<lparr>Network = Some n, confBytes = b\<rparr> =
    Ret \<lparr>listName = cnName n, listVersion = cnVersion n, listPlugins = [\<lparr>Network = Some c, confBytes = pb\<rparr>], listBytes = lb\<rparr>"
proof -
  have keys: "valid_utf8 ''name''" "valid_utf8 ''cniVersion''" "valid_utf8 ''plugins''"
    by (simp_all add: ascii_utf8 byte_def)
  let ?v = "conf_list_json (cnName n) (cnVersion n) raw"
  have v: "plain ?v" "keyed ?v" using assms(3-6) keys by (simp_all add: conf_list_json_def)
  have "Unmarshal_any_map b = Inr (Some ms)" using assms(1-4) Unmarshal_plain by blast
  moreover have "ConfListFromBytes (Marshal_any ?v) = Inr \<lparr>listName = cnName n, listVersion = cnVersion n,
      listPlugins = [\<lparr>Network = Some c, confBytes = Marshal_any (sort_maps raw)\<rparr>], listBytes = Marshal_any ?v\<rparr>"
    using assms(7,2) by (intro ConfListFromBytes_plain[OF v]) (auto simp: conf_list_json_def)
  ultimately show ?thesis using assms(2) by (simp add: ConfListFromConf_def conf_list_json_def)
qed

section \<open>The default configurations\<close>

definition conf_path :: "string \<Rightarrow> string" where
  "conf_path cniName = DefaultNetDir @ ''/10-'' @ cniName @ ''.conf''"

text \<open>A value that gives a usable configuration of the plugin \<open>t\<close>.\<close>

definition conf_value :: "string \<Rightarrow> json \<Rightarrow> bool" where
  "conf_value t v \<longleftrightarrow> plain v \<and> keyed v \<and> (\<exists>ms n c. v = JObj ms
     \<and> put_struct CniNetConf_fields v zero_CniNetConf = Inr n \<and> cnType n = t \<and> valid_utf8 (cnName n) \<and> valid_utf8 (cnVersion n)
     \<and> put_struct CniNetConf_fields (sort_maps (sort_maps v)) zero_CniNetConf = Inr c \<and> cnType c = t)"

lemma conf_keys:
  "fold_key ''name'' = ''name''" "fold_key ''type'' = ''type''" "fold_key ''master'' = ''master''" "fold_key ''ipam'' = ''ipam''"
  "fold_key ''subnet'' = ''subnet''" "fold_key ''gateway'' = ''gateway''" "fold_key ''routes'' = ''routes''"
  by code_simp+

lemmas conf_value_simps = conf_value_def ascii_utf8 byte_def put_struct_def CniNetConf_fields_def conf_keys field_def
  put_string_def zero_CniNetConf_def

declare fold_key.simps [simp del]

lemma conf_value_bridge: "conf_value BridgeNet GetBridgeConfig"
  by (simp add: conf_value_simps GetBridgeConfig_def BridgeNet_def DefaultIpamForBridge_def DefaultSubnetForBridge_def)

lemma conf_value_macvlan: "valid_utf8 m \<Longrightarrow> conf_value Macvlan (macvlan_conf m)"
  by (simp add: conf_value_simps macvlan_conf_def Macvlan_def DefaultIpamForMacvlan_def DefaultSubnet_def)

lemma conf_value_sriov: "conf_value SriovNet GetSriovConfig"
  by (simp add: conf_value_simps GetSriovConfig_def SriovNet_def DefaultIpamForSriov_def DefaultSubnetForSriov_def DefaultGatewayForSriov_def)

lemma plugin_object_value:
  assumes "plugin_object g cniName s = (Ret v, s1)" "\<And>s nic. fst (GetDefaultNic (gnode g) s) = Ret nic \<Longrightarrow> valid_utf8 nic"
  shows "conf_value cniName v"
proof -
  have "conf_value Macvlan v" if m: "GetMacvlanConfig (gnode g) s = (Ret v, s1)"
  proof -
    have "valid_utf8 DefaultMasterForMacvlan" by (simp add: DefaultMasterForMacvlan_def ascii_utf8 byte_def)
    then obtain nic where "valid_utf8 nic" "v = macvlan_conf nic"
      using m assms(2)[of s] by (auto simp: GetMacvlanConfig_def go_simps Let_def split: go_res.splits if_splits)
    then show ?thesis using conf_value_macvlan by simp
  qed
  then show ?thesis
    using assms(1) conf_value_bridge conf_value_sriov by (auto simp: plugin_object_def go_ret_def go_err_def split: if_splits)
qed

lemma conf_path_suffix: "\<not> HasSuffix (conf_path cniName) ''.conflist''"
  by (simp add: conf_path_def HasSuffix_def)

lemma conf_path_contains: "Contains (conf_path cniName) cniName"
  by (simp add: conf_path_def Contains_appendI1 Contains_appendI2)

lemma createConf_roundtrip:
  assumes binary: "checkPluginBinary g cniName s = (Ret (), s)"
    and obj: "plugin_object g cniName s = (Ret v, s1)" and val: "conf_value cniName v" and ne: "cniName \<noteq> []"
    and wr: "WriteFile (gnode g) (conf_path cniName) (json_MarshalIndent v) s1 = (Ret (), s2)"
    and rd: "ReadFile (gnode g) (conf_path cniName) s2 = (Ret (json_MarshalIndent v), s2)"
  shows "\<exists>l p n. createConfIfBinaryExists g cniName s = (Ret l, s2) \<and> ParseCNIConfFromFile g (conf_path cniName) s2 = (Ret l, s2)
    \<and> listPlugins l = [p] \<and> Network p = Some n \<and> cnType n = cniName"
proof -
  obtain ms n c where v: "v = JObj ms" "plain v" "keyed v" "put_struct CniNetConf_fields v zero_CniNetConf = Inr n"
      "cnType n = cniName" "valid_utf8 (cnName n)" "valid_utf8 (cnVersion n)"
      "put_struct CniNetConf_fields (sort_maps (sort_maps v)) zero_CniNetConf = Inr c" "cnType c = cniName"
    using val unfolding conf_value_def by blast
  have parse: "json_parse (json_MarshalIndent v) = Some v" using v(2) by (rule json_parse_MarshalIndent)
  then have conf: "ConfFromBytes (json_MarshalIndent v) = Inr \<lparr>Network = Some n, confBytes = json_MarshalIndent v\<rparr>"
    using ConfFromBytes_object v(1,4) by simp
  obtain lb pb where list: "ConfListFromConf \<lparr>Network = Some n, confBytes = json_MarshalIndent v\<rparr> =
      Ret \<lparr>listName = cnName n, listVersion = cnVersion n, listPlugins = [\<lparr>Network = Some c, confBytes = pb\<rparr>], listBytes = lb\<rparr>"
      (is "_ = Ret ?l")
    using ConfListFromConf_plain[OF parse v(1-3,6-8)] by blast
  have "createConfIfBinaryExists g cniName s = (Ret ?l, s2)"
    using wr by (simp add: createConfIfBinaryExists_def placeConfFile_def go_simps binary obj conf_path_def Let_def conf list of_sum_def of_res_def)
  moreover have "ParseCNIConfFromFile g (conf_path cniName) s2 = (Ret ?l, s2)"
    using v(5) ne by (simp add: ParseCNIConfFromFile_def conf_path_suffix ConfFromFile_def go_simps rd conf list of_sum_def of_res_def plugin_type_def)
  ultimately show ?thesis using v(9) by simp
qed

section \<open>Deleting only looks at .conf files\<close>

lemma deleteNetwork_unmatched:
  assumes "ConfFiles (gnode g) DefaultNetDir [''.conf''] s = (Ret files, s)" "files \<noteq> []"
    and "list_all (\<lambda>f. \<not> Contains f cniName) files"
  shows "deleteNetwork g intfName cniName cniArgs s = (Ret (), s)"
proof -
  have "first_conf g cniName fs s = (Ret None, s)" if "list_all (\<lambda>f. \<not> Contains f cniName) fs" for fs
    using that by (induction fs) (simp_all add: go_simps)
  then have "first_conf g cniName (sort files) s = (Ret None, s)" using assms(3) by (simp add: list_all_iff)
  then show ?thesis using assms(1,2) by (simp add: deleteNetwork_def go_bind_def go_ret_def)
qed

end
