(* ===== verification/GenieLoops.thy ===== *)
theory GenieLoops
  imports GenieFiles
begin

text \<open>
  Facts about the operations on a pod: the loops over its plugins against a reference that tries every
  plugin in turn, and what the operations can change of the node.
\<close>

section \<open>Trying every plugin\<close>

text \<open>The outcomes of the calls, in order, and the state after them; only a panic ends the sequence early.\<close>

fun attempts :: "('x \<Rightarrow> ('s, 'a) go) \<Rightarrow> 'x list \<Rightarrow> 's \<Rightarrow> 'a go_res list \<times> 's" where
  "attempts f [] s = ([], s)"
| "attempts f (x # xs) s =
     (case f x s of
        (Panic p, s') \<Rightarrow> ([Panic p], s')
      | (r, s') \<Rightarrow> (case attempts f xs s' of (rs, s'') \<Rightarrow> (r # rs, s'')))"

text \<open>What a loop that goes on after errors and returns the last one makes of the outcomes.\<close>

fun last_error :: "'a go_res list \<Rightarrow> go_error option \<Rightarrow> go_error option go_res" where
  "last_error [] e = Ret e"
| "last_error (Ret _ # rs) e = last_error rs e"
| "last_error (Err e' # rs) e = last_error rs (Some e')"
| "last_error (Panic p # rs) e = Panic p"

lemma last_error_success: "last_error rs None = Ret None \<longleftrightarrow> list_all (\<lambda>r. \<exists>x. r = Ret x) rs"
proof -
  have "last_error rs e = Ret None \<Longrightarrow> e = None" for rs :: "'a go_res list" and e
    by (induction rs e rule: last_error.induct) auto
  then show ?thesis by (induction rs "None :: go_error option" rule: last_error.induct) fastforce+
qed

lemma attempts_length:
  "list_all (\<lambda>r. \<nexists>p. r = Panic p) (fst (attempts f xs s)) \<Longrightarrow> length (fst (attempts f xs s)) = length xs"
proof (induction xs arbitrary: s)
  case (Cons x xs)
  obtain r s1 where "f x s = (r, s1)" by (cases "f x s")
  then show ?case using Cons.IH[of s1] Cons.prems by (cases r) (auto split: prod.splits)
qed simp

abbreviation plugin_delete :: "('s, 'c) genie_env \<Rightarrow> CNIArgs \<Rightarrow> nat \<times> PluginInfo \<Rightarrow> ('s, unit) go" where
  "plugin_delete g cniArgs ip \<equiv> deleteNetwork g (intf_name ip) (PluginName (snd ip)) cniArgs"

abbreviation plugin_add :: "('s, 'c) genie_env \<Rightarrow> CNIArgs \<Rightarrow> nat \<times> PluginInfo \<Rightarrow> ('s, cni_result option) go" where
  "plugin_add g cniArgs ip \<equiv> addNetwork g (intf_name ip) (PluginName (snd ip)) cniArgs"

lemma delete_loop:
  "go_fold (delete_pod_plugin g cniArgs) pis e s =
    (last_error (fst (attempts (plugin_delete g cniArgs) pis s)) e, snd (attempts (plugin_delete g cniArgs) pis s))"
proof (induction pis arbitrary: e s)
  case (Cons ip pis)
  obtain r s1 where r: "plugin_delete g cniArgs ip s = (r, s1)" by (cases "plugin_delete g cniArgs ip s")
  show ?case using Cons.IH r by (cases r) (auto simp: delete_pod_plugin_def go_simps split: prod.splits)
qed (simp add: go_ret_def)

text \<open>Without an annotation for addresses, the pod is not updated.\<close>

lemma add_loop:
  "go_fold (add_pod_plugin g cniArgs client k) pis \<lparr>asResult = x, asAnnot = [], asErr = e\<rparr> s =
    (let (rs, s') = attempts (plugin_add g cniArgs) pis s
     in (case last_error rs e of
           Ret e' \<Rightarrow> Ret \<lparr>asResult = (if rs = [] then x else case last rs of Ret y \<Rightarrow> y | _ \<Rightarrow> None), asAnnot = [], asErr = e'\<rparr>
         | Err e' \<Rightarrow> Err e' | Panic p \<Rightarrow> Panic p, s'))"
proof (induction pis arbitrary: x e s)
  case (Cons ip pis)
  obtain r s1 where r: "plugin_add g cniArgs ip s = (r, s1)" by (cases "plugin_add g cniArgs ip s")
  obtain rs s2 where rs: "attempts (plugin_add g cniArgs) pis s1 = (rs, s2)" by (cases "attempts (plugin_add g cniArgs) pis s1")
  show ?case
    using Cons.IH r rs
    by (cases r) (auto simp: add_pod_plugin_def UpdatePodDefinition_def go_simps Let_def split: go_res.splits)
qed (simp add: go_ret_def)

definition report :: "string \<Rightarrow> 'a \<Rightarrow> go_error option go_res \<Rightarrow> 'a go_res" where
  "report msg x r = (case r of Ret None \<Rightarrow> Ret x | Ret (Some e) \<Rightarrow> Err (Errorf_v msg e) | Err e \<Rightarrow> Err e | Panic p \<Rightarrow> Panic p)"

lemma DeletePodNetwork_loop:
  assumes "pod_plugins g cniArgs conf s = (Ret (k, client, infos), s1)" "attempts (plugin_delete g cniArgs) (enumerate 0 infos) s1 = (rs, s2)"
  shows "DeletePodNetwork g cniArgs conf s = (report ''CNI Genie error at deleteNetwork: '' () (last_error rs None), s2)"
  using assms
  by (auto simp: DeletePodNetwork_def go_bind_def delete_loop report_def go_ret_def go_err_def split: go_res.splits option.splits)

lemma AddPodNetwork_loop:
  assumes "pod_plugins g cniArgs conf s = (Ret (k, client, infos), s1)"
    and "ParsePodAnnotationsForMultiIPPrefs g client k s1 = (Ret [], s2)" "infos \<noteq> []"
    and at: "attempts (plugin_add g cniArgs) (enumerate 0 infos) s2 = (rs, s3)"
  shows "AddPodNetwork g cniArgs conf s =
    (report ''CNI Genie error at addNetwork: '' (case last rs of Ret y \<Rightarrow> y | _ \<Rightarrow> None) (last_error rs None), s3)"
proof -
  have "rs \<noteq> []" using at assms(3) by (cases infos) (auto split: prod.splits go_res.splits)
  then show ?thesis
    using assms
    by (auto simp: AddPodNetwork_def go_bind_def add_loop report_def go_ret_def go_err_def Let_def split: go_res.splits option.splits)
qed

lemma preferences_not_Nil: "json_Marshal (preferences_json p) \<noteq> []"
proof -
  have "json_Marshal (JObj ms) \<noteq> []" for ms by (cases "ms = []") (simp_all add: json_Marshal_def)
  then show ?thesis by (simp add: preferences_json_def)
qed

lemma UpdatePodDefinition_not_Nil:
  assumes "UpdatePodDefinition g n r annot client k s = (Ret annot', s')" "annot \<noteq> []"
  shows "annot' \<noteq> []"
proof -
  have "\<exists>p. annot' = json_Marshal (preferences_json p)"
    using assms by (auto simp: UpdatePodDefinition_def go_simps Let_def split: option.splits go_res.splits)
  then show ?thesis using preferences_not_Nil by auto
qed

lemma add_pod_plugin_not_Nil:
  assumes "add_pod_plugin g a client k ip st s = (Ret st', s')" "asAnnot st \<noteq> []"
  shows "asAnnot st' \<noteq> []"
proof -
  obtain r s1 where r: "go_try (plugin_add g a ip) s = (r, s1)" by (rule prod.exhaust)
  with assms(1) obtain x where x: "r = Ret x" by (cases r) (simp_all add: add_pod_plugin_def go_bind_def)
  let ?u = "UpdatePodDefinition g (intf_name ip) (case x of Inl _ \<Rightarrow> None | Inr x \<Rightarrow> x) (asAnnot st) client k s1"
  obtain u s2 where u: "?u = (u, s2)" by (rule prod.exhaust)
  have t: "go_try (UpdatePodDefinition g (intf_name ip) (case x of Inl _ \<Rightarrow> None | Inr x \<Rightarrow> x) (asAnnot st) client k) s1
      = (case u of Ret y \<Rightarrow> Ret (Inr y) | Err e \<Rightarrow> Ret (Inl e) | Panic m \<Rightarrow> Panic m, s2)"
    using u by (simp add: go_try_def split: go_res.split)
  show ?thesis
  proof (cases u)
    case (Ret annot)
    have "annot \<noteq> []" by (rule UpdatePodDefinition_not_Nil[OF u[unfolded Ret] assms(2)])
    with Ret assms(1) r x t show ?thesis by (auto simp: add_pod_plugin_def go_bind_def go_ret_def Let_def)
  next
    case (Err e)
    with assms r x t show ?thesis by (auto simp: add_pod_plugin_def go_bind_def go_ret_def Let_def)
  next
    case (Panic m)
    with assms(1) r x t show ?thesis by (simp add: add_pod_plugin_def go_bind_def Let_def)
  qed
qed

lemma add_loop_not_Nil:
  "go_fold (add_pod_plugin g a client k) todo st s = (Ret st', s') \<Longrightarrow> asAnnot st \<noteq> [] \<Longrightarrow> asAnnot st' \<noteq> []"
proof (induction todo arbitrary: st s)
  case Nil
  then show ?case by (simp add: go_ret_def)
next
  case (Cons ip todo)
  obtain r s1 where r: "add_pod_plugin g a client k ip st s = (r, s1)" by (rule prod.exhaust)
  with Cons.prems(1) obtain st1 where 1: "r = Ret st1" "go_fold (add_pod_plugin g a client k) todo st1 s1 = (Ret st', s')"
    by (cases r) (auto simp: go_bind_def)
  show ?case by (rule Cons.IH[OF 1(2) add_pod_plugin_not_Nil[OF _ Cons.prems(2)]]) (use r 1(1) in simp)
qed

lemma AddPodNetwork_nil_result:
  assumes "pod_plugins g cniArgs conf s = (Ret (k, client, before @ info # after), s1)"
    and "ParsePodAnnotationsForMultiIPPrefs g client k s1 = (Ret annot, s2)" "annot \<noteq> []"
    and fold: "go_fold (add_pod_plugin g cniArgs client k) (enumerate 0 before) \<lparr>asResult = None, asAnnot = annot, asErr = None\<rparr> s2 = (Ret st, s3)"
    and "plugin_add g cniArgs (length before, info) s3 = (Err e, s4)"
  shows "AddPodNetwork g cniArgs conf s = (Panic ''invalid memory address or nil pointer dereference'', s4)"
proof -
  have "asAnnot st \<noteq> []" using add_loop_not_Nil[OF fold] assms(3) by simp
  then have "add_pod_plugin g cniArgs client k (length before, info) st s3 = (Panic ''invalid memory address or nil pointer dereference'', s4)"
    using assms(5) by (simp add: add_pod_plugin_def UpdatePodDefinition_def go_simps)
  then show ?thesis
    using assms(1-4) by (simp add: AddPodNetwork_def go_bind_def enumerate_append_eq go_fold_append)
qed

section \<open>What the operations change\<close>

text \<open>An assertion on the node that no service and no program the plugin calls changes.\<close>

definition services_keep :: "('s \<Rightarrow> bool) \<Rightarrow> ('s, 'c) node \<Rightarrow> bool" where
  "services_keep I nd \<longleftrightarrow>
     (\<forall>k ov. keeps I (new_client nd k ov)) \<and> (\<forall>c ns n. keeps I (pods_Get nd c ns n)) \<and> (\<forall>c ns n p. keeps I (pods_Patch nd c ns n p))
     \<and> (\<forall>c p. keeps I (rest_GetRaw nd c p)) \<and> (\<forall>u. keeps I (http_Get nd u)) \<and> (\<forall>u b. keeps I (http_Post nd u b))
     \<and> (\<forall>f. keeps I (ReadFile nd f)) \<and> (\<forall>p b e. keeps I (exec_plugin nd p b e)) \<and> (\<forall>c. keeps I (sh_Output nd c))"

lemma keeps_of_sum [intro]: "keeps I (of_sum x)"
  by (auto simp: of_sum_def)

lemma keeps_of_res [intro]: "keeps I (of_res x)"
  by (simp add: keeps_def of_res_def)

lemma keeps_plugin_type [intro]: "keeps I (plugin_type c)"
  by (auto simp: plugin_type_def)

lemma keeps_FindInPath [intro]: "keeps I (FindInPath nd p ps)"
  by (auto simp: keeps_def FindInPath_def split: option.split)

lemma keeps_ConfFiles [intro]: "keeps I (ConfFiles nd d es)"
  by (auto simp: keeps_def ConfFiles_def split: dir_result.split)

lemma keeps_let_pair [intro]: "(\<And>x y. keeps I (f x y)) \<Longrightarrow> keeps I (case p of (x, y) \<Rightarrow> f x y)"
  by (cases p) simp

lemma keeps_ParseCNIConfFromFile: "services_keep I (gnode g) \<Longrightarrow> keeps I (ParseCNIConfFromFile g f)"
  unfolding ParseCNIConfFromFile_def ConfListFromFile_def ConfFromFile_def
  by (intro keeps_bind keeps_if keeps_wrap keeps_of_sum keeps_of_res keeps_plugin_type keeps_ret keeps_err)
     (simp_all add: services_keep_def)

lemma keeps_first_conf: "services_keep I (gnode g) \<Longrightarrow> keeps I (first_conf g n fs)"
  by (induction fs) (auto intro!: keeps_bind keeps_try keeps_ParseCNIConfFromFile)

lemma keeps_runtimeConf [intro]: "keeps I (runtimeConf g a i)"
  unfolding runtimeConf_def loadArgs_def Let_def by (intro keeps_bind keeps_of_res keeps_ret)

lemma keeps_DelNetworkList: "services_keep I nd \<Longrightarrow> keeps I (DelNetworkList nd ps l rt)"
  unfolding DelNetworkList_def del_plugin_def ExecPlugin_def
  by (intro keeps_each keeps_bind keeps_plugin_type keeps_FindInPath keeps_of_res keeps_ret) (simp add: services_keep_def)

lemma keeps_AddNetworkList: "services_keep I nd \<Longrightarrow> keeps I (AddNetworkList nd ps l rt)"
  unfolding AddNetworkList_def add_plugin_def ExecPlugin_def
  by (intro keeps_fold keeps_bind keeps_plugin_type keeps_FindInPath keeps_of_res keeps_of_sum keeps_ret) (simp add: services_keep_def)

lemma keeps_deleteNetwork: "services_keep I (gnode g) \<Longrightarrow> keeps I (deleteNetwork g i n a)"
  unfolding deleteNetwork_def
  by (intro keeps_bind keeps_ConfFiles keeps_if keeps_err keeps_first_conf keeps_case_option keeps_ret keeps_wrap keeps_runtimeConf
      keeps_DelNetworkList)

lemma keeps_pod_annotations: "services_keep I (gnode g) \<Longrightarrow> keeps I (getK8sPodAnnotations g c k)"
  unfolding getK8sPodAnnotations_def GetPodDefinition_def by (intro keeps_bind keeps_ret) (simp add: services_keep_def)

lemma keeps_pod_annotation: "services_keep I (gnode g) \<Longrightarrow> keeps I (pod_annotation g c k key)"
  unfolding pod_annotation_def by (intro keeps_bind keeps_try keeps_pod_annotations keeps_ret)

lemma keeps_NwAnnot: "services_keep I nd \<Longrightarrow> keeps I (GetPluginInfoFromNwAnnot nd an ns c)"
  unfolding GetPluginInfoFromNwAnnot_def network_plugin_def GetPluginInfoFromPhysicalNw_def Let_def
  by (intro keeps_bind keeps_fold keeps_ret keeps_let_pair keeps_try keeps_case_sum keeps_if keeps_err) (simp_all add: services_keep_def)

lemma keeps_ideal_network: "services_keep I (gnode g) \<Longrightarrow> keeps I (ideal_network g c k)"
  unfolding ideal_network_def GetCNSOrderByNetworkBandwith_def GetDockerContainers_def httpGetJsonData_def Let_def
  by (intro keeps_bind keeps_wrap keeps_if keeps_err keeps_case_option keeps_case_sum keeps_of_sum keeps_of_res keeps_try keeps_ret)
     (simp_all add: services_keep_def)

lemma keeps_pod_plugins: "services_keep I (gnode g) \<Longrightarrow> keeps I (pod_plugins g a conf)"
  unfolding pod_plugins_def loadArgs_def GetKubeClient_def ParsePodAnnotationsForCNI_def parseCNIAnnotations_def
    ParsePodAnnotationsForNetworks_def
  by (intro keeps_bind keeps_wrap keeps_of_res keeps_ret keeps_pod_annotations keeps_if keeps_pod_annotation keeps_NwAnnot keeps_ideal_network)
     (simp_all add: services_keep_def)

lemma keeps_cmdDel: "services_keep I (gnode g) \<Longrightarrow> keeps I (cmdDel g a)"
  unfolding cmdDel_def DeletePodNetwork_def delete_pod_plugin_def
  by (intro keeps_bind keeps_wrap keeps_of_sum keeps_pod_plugins keeps_let_pair keeps_fold keeps_try keeps_deleteNetwork keeps_ret
      keeps_case_option keeps_err)

lemma keeps_createConf:
  assumes "services_keep I (gnode g)" "\<And>n d. n \<in> {BridgeNet, Macvlan, SriovNet} \<Longrightarrow> keeps I (WriteFile (gnode g) (conf_path n) d)"
  shows "keeps I (createConfIfBinaryExists g cniName)"
proof -
  have "keeps I (checkPluginBinary g cniName)"
    by (auto simp: keeps_def checkPluginBinary_def split: dir_result.split)
  moreover have "keeps I (plugin_object g cniName)"
    using assms(1) unfolding plugin_object_def GetMacvlanConfig_def GetDefaultNic_def Let_def
    by (intro keeps_if keeps_ret keeps_err keeps_bind keeps_try) (simp add: services_keep_def)
  moreover have "cniName \<in> {BridgeNet, Macvlan, SriovNet}" if "fst (plugin_object g cniName s) = Ret v" for s v
    using that by (auto simp: plugin_object_def go_err_def split: if_splits)
  ultimately show ?thesis
    unfolding createConfIfBinaryExists_def placeConfFile_def conf_path_def[symmetric] Let_def
    by (intro keeps_bind keeps_bind_result[of I "plugin_object g cniName"] keeps_wrap keeps_ret keeps_let_pair keeps_of_sum keeps_of_res assms(2))
qed

lemma keeps_cmdAdd:
  assumes "services_keep I (gnode g)" "\<And>n d. n \<in> {BridgeNet, Macvlan, SriovNet} \<Longrightarrow> keeps I (WriteFile (gnode g) (conf_path n) d)"
    and "\<And>r v. keeps I (print_result (gnode g) r v)"
  shows "keeps I (cmdAdd g a)"
proof -
  have "keeps I (addNetwork g i n a')" for i n a'
    unfolding addNetwork_def using assms(1)
    by (intro keeps_bind keeps_ConfFiles keeps_first_conf keeps_case_option keeps_ret keeps_createConf assms(2) keeps_wrap keeps_runtimeConf
        keeps_AddNetworkList)
  moreover have "keeps I (UpdatePodDefinition g i r an c k)" for i r an c k
    unfolding UpdatePodDefinition_def GetPodDefinition_def Let_def using assms(1)
    by (intro keeps_if keeps_ret keeps_case_option keeps_panic keeps_bind keeps_wrap keeps_of_sum keeps_of_res) (simp_all add: services_keep_def)
  ultimately have "keeps I (AddPodNetwork g a' conf)" for a' conf
    unfolding AddPodNetwork_def add_pod_plugin_def ParsePodAnnotationsForMultiIPPrefs_def Let_def using assms(1)
    by (intro keeps_bind keeps_pod_plugins keeps_pod_annotation keeps_let_pair keeps_fold keeps_try keeps_ret keeps_case_option keeps_err)
  then show ?thesis
    unfolding cmdAdd_def by (intro keeps_bind keeps_wrap keeps_of_sum keeps_case_option keeps_err assms(3))
qed

end
