(* ===== verification/GenieAnnot.thy ===== *)
theory GenieAnnot
  imports GenieLoops
begin

text \<open>
  The annotation \<^verbatim>\<open>multi-ip-preferences\<close>: what \<open>UpdatePodDefinition\<close> writes is what it reads when it is called
  for the next plugin, so that the addresses of all plugins come together.
\<close>

section \<open>Numbers in documents\<close>

lemma digit_nat_digits: "list_all digit (nat_digits n)"
  using digit_val_nat_digits by (auto simp: list_all_iff digit_def)

lemma nat_digits_0: "nat_digits 0 = ''0''"
  by code_simp

lemma digit_char_zero: "k < 10 \<Longrightarrow> digit_char k = CHR ''0'' \<longleftrightarrow> k = 0"
proof -
  have "digit_val (CHR ''0'') = Some 0" "digit_char 0 = CHR ''0''" by code_simp+
  then show "k < 10 \<Longrightarrow> digit_char k = CHR ''0'' \<longleftrightarrow> k = 0" by (metis digit_val_char option.inject)
qed

lemma nat_digits_zero: "hd (nat_digits n) = CHR ''0'' \<longleftrightarrow> n = 0"
proof (induction n rule: nat_digits.induct)
  case (1 n)
  then show ?case
    by (cases "n < 10") (auto simp: nat_digits.simps[of n] digit_char_zero)
qed

lemma digits_nat_nat_digits: "digits_nat (nat_digits n) = int n"
proof (induction n rule: nat_digits.induct)
  case (1 n)
  have d: "(of_char (digit_char k) :: int) - 48 = int k" if "k < 10" for k
  proof -
    have "(of_char (digit_char k) :: nat) = 48 + k" using that by (simp add: digit_char_def)
    from arg_cong[OF this, of int] show ?thesis by (simp add: of_nat_of_char)
  qed
  show ?case
  proof (cases "n < 10")
    case True
    then show ?thesis using d by (simp add: nat_digits.simps[of n] digits_nat_def)
  next
    case False
    have "10 * int (n div 10) + int (n mod 10) = int n" by presburger
    then show ?thesis using False 1 d[of "n mod 10"] by (simp add: nat_digits.simps[of n] digits_nat_def)
  qed
qed

lemma Itoa_sign: "\<exists>sg n. Itoa z = sg @ nat_digits n \<and> (sg = [] \<and> z = int n \<or> sg = ''-'' \<and> z = - int n)"
  by (cases "z < 0") (auto simp: Itoa_def intro!: exI[of _ "nat \<bar>z\<bar>"])

lemma digits_no_sign: "\<exists>c t. nat_digits n = c # t \<and> c \<noteq> CHR ''-'' \<and> c \<noteq> CHR ''+'' \<and> digit c"
proof -
  obtain c t where c: "nat_digits n = c # t" using nat_digits_not_Nil by (meson neq_Nil_conv)
  then have "digit c" using digit_nat_digits[of n] by simp
  moreover have "\<not> digit (CHR ''-'')" "\<not> digit (CHR ''+'')" by code_simp+
  ultimately show ?thesis using c by auto
qed

lemma ParseInt64_Itoa: "- (2 ^ 63) \<le> z \<Longrightarrow> z < 2 ^ 63 \<Longrightarrow> ParseInt64 (Itoa z) = ParsedInt z"
proof -
  assume z: "- (2 ^ 63) \<le> z" "z < 2 ^ 63"
  obtain sg n where s: "Itoa z = sg @ nat_digits n" "sg = [] \<and> z = int n \<or> sg = ''-'' \<and> z = - int n" using Itoa_sign by blast
  obtain c t where c: "nat_digits n = c # t" "c \<noteq> CHR ''-''" "c \<noteq> CHR ''+''" using digits_no_sign by blast
  have "num_sign ''+-'' (Itoa z) = (sg, nat_digits n)" using s c by (auto simp: num_sign_def)
  then show ?thesis
    using s(2) z digit_nat_digits[of n] by (auto simp: ParseInt64_def Let_def digits_nat_nat_digits)
qed

definition stops :: "string \<Rightarrow> bool" where
  "stops t \<longleftrightarrow> (case t of [] \<Rightarrow> True | c # _ \<Rightarrow> c = CHR '','' \<or> c = CHR ''}'' \<or> c = CHR '']'')"

lemma num_lit_Itoa:
  assumes "stops t"
  shows "num_lit (Itoa z @ t) = Some (Itoa z, t)"
proof -
  obtain sg n where s: "Itoa z = sg @ nat_digits n" "sg = [] \<or> sg = ''-''" using Itoa_sign by blast
  obtain c u where c: "nat_digits n = c # u" "c \<noteq> CHR ''-''" "digit c" using digits_no_sign by blast
  have sg: "num_sign ''-'' (Itoa z @ t) = (sg, nat_digits n @ t)" using s c by (auto simp: num_sign_def)
  have nd: "\<not> digit (CHR '','')" "\<not> digit (CHR ''}'')" "\<not> digit (CHR '']'')" by code_simp+
  then have "takeWhile digit t = []" "dropWhile digit t = t" using assms by (auto simp: stops_def split: list.splits)
  then have tw: "takeWhile digit (nat_digits n @ t) = nat_digits n" "dropWhile digit (nat_digits n @ t) = t"
    using digit_nat_digits[of n] by (auto simp: list_all_iff takeWhile_append dropWhile_append)
  have "num_int (nat_digits n @ t) = Some (nat_digits n, t)"
  proof (cases "n = 0")
    case True
    then show ?thesis by (simp add: nat_digits_0 num_int_def)
  next
    case False
    then have "c \<noteq> CHR ''0''" using nat_digits_zero[of n] c(1) by simp
    then show ?thesis using tw c(1,3) by (simp add: num_int_def)
  qed
  moreover have "num_frac t = Some ([], t)" "num_exp t = Some ([], t)"
    using assms by (auto simp: stops_def num_frac_def num_exp_def split: list.splits)
  ultimately have "num_lit (Itoa z @ t) = Some (sg @ nat_digits n, t)" unfolding num_lit_def sg by simp
  then show ?thesis by (simp add: s(1))
qed

lemma parse_value_number:
  assumes "stops t"
  shows "parse_value (Suc n) (Itoa z @ t) = Some (JNum (Itoa z), t)"
proof -
  obtain sg k where s: "Itoa z = sg @ nat_digits k" "sg = [] \<or> sg = ''-''" using Itoa_sign by blast
  obtain c' u' where c': "nat_digits k = c' # u'" "digit c'" using digits_no_sign by blast
  then obtain c u where c: "Itoa z @ t = c # u" "c = CHR ''-'' \<or> digit c" using s by auto
  have "\<not> digit (CHR 0x20)" "\<not> digit (CHR 0x09)" "\<not> digit (CHR 0x0D)" "\<not> digit (CHR 0x0A)" "\<not> digit (CHR ''['')" "\<not> digit (CHR ''{'')"
    "\<not> digit (CHR 0x22)" "\<not> digit (CHR ''t'')" "\<not> digit (CHR ''f'')" "\<not> digit (CHR ''n'')"
    by code_simp+
  then have n: "c \<noteq> CHR 0x20" "c \<noteq> CHR 0x09" "c \<noteq> CHR 0x0D" "c \<noteq> CHR 0x0A" "c \<noteq> CHR ''[''" "c \<noteq> CHR ''{''"
    "c \<noteq> CHR 0x22" "c \<noteq> CHR ''t''" "c \<noteq> CHR ''f''" "c \<noteq> CHR ''n''"
    using c(2) by auto
  then have "skip_ws (Itoa z @ t) = c # u" using c(1) by (simp add: skip_ws_def is_ws_def)
  moreover have "atom (c # u) = Some (JNum (Itoa z), t)"
    using n num_lit_Itoa[OF assms, of z] c(1) by (simp add: atom_def)
  ultimately show ?thesis using n by simp
qed

section \<open>The annotation\<close>

definition address_ok :: "IPAddressPreferences \<Rightarrow> bool" where
  "address_ok a \<longleftrightarrow> valid_utf8 (apIp a) \<and> valid_utf8 (apInterface a)"

text \<open>Preferences the annotation can carry.\<close>

definition prefs_ok :: "MultiIPPreferences \<Rightarrow> bool" where
  "prefs_ok p \<longleftrightarrow> - (2 ^ 63) \<le> MultiEntry p \<and> MultiEntry p < 2 ^ 63
     \<and> (case Ips p of None \<Rightarrow> False
        | Some m \<Rightarrow> distinct (map fst m) \<and> list_all (\<lambda>(k, a). valid_utf8 k \<and> address_ok a) m)"

lemma pref_keys:
  "fold_key ''multi_entry'' = ''multi_entry''" "fold_key ''ips'' = ''ips''" "fold_key ''ip'' = ''ip''" "fold_key ''interface'' = ''interface''"
  "valid_utf8 ''multi_entry''" "valid_utf8 ''ips''" "valid_utf8 ''ip''" "valid_utf8 ''interface''"
  by code_simp+

lemma kept_address_json: "kept_address (address_json a) = a"
  by (cases a) (simp add: address_json_def kept_address_def kept_string_def pref_keys Let_def)

lemma plain_address_json: "address_ok a \<Longrightarrow> plain (address_json a)"
  by (simp add: address_json_def address_ok_def pref_keys)

lemma kept_members:
  "distinct (map fst (acc @ m)) \<Longrightarrow>
   fold (\<lambda>(k, x). map_put k (kept_address x)) (map (\<lambda>(k, a). (k, address_json a)) m) acc = acc @ m"
  by (induction m arbitrary: acc) (auto simp: map_put_new kept_address_json)

lemma kept_ips_json:
  "distinct (map fst m) \<Longrightarrow> kept_ips (JObj (map (\<lambda>(k, a). (k, address_json a)) m)) None = Some m"
  using kept_members[of "[]" m] by (simp add: kept_ips_def)

lemma parse_prefs:
  assumes "plain (JObj ms)"
  shows "json_parse (json_Marshal (JObj ((''multi_entry'', JNum (Itoa z)) # ms))) = Some (JObj ((''multi_entry'', JNum (Itoa z)) # ms))"
proof -
  let ?f = "\<lambda>(k, v). encode_string k @ '':'' @ render (\<lambda>_. []) '':'' (Suc 0) v"
  let ?key = "encode_string ''multi_entry''"
  let ?v = "JObj ((''multi_entry'', JNum (Itoa z)) # ms)"
  have key: "member_key (?key @ '':'' @ u) = Some (''multi_entry'', u)" for u by (rule member_key_encode[OF pref_keys(5)])
  have "\<exists>n t. json_Marshal ?v = ''{'' @ ?key @ t \<and> parse_members n (?key @ t) = Some ((''multi_entry'', JNum (Itoa z)) # ms, [])"
  proof (cases "ms = []")
    case True
    have "parse_members (Suc (Suc 0)) (?key @ '':'' @ Itoa z @ ''}'') = Some ([(''multi_entry'', JNum (Itoa z))], [])"
      using key[of "Itoa z @ ''}''"] parse_value_number[of "''}''" 0 z] by (simp add: stops_def del: parse_value.simps)
    moreover have "json_Marshal ?v = ''{'' @ ?key @ '':'' @ Itoa z @ ''}''" by (simp add: json_Marshal_def True)
    ultimately show ?thesis using True by blast
  next
    case False
    let ?rest = "Join (map ?f ms) '','' @ [] @ ''}''"
    have "valid_utf8 k \<and> parses parse_value (render (\<lambda>_. []) '':'' (Suc 0) v) v t" if "(k, v) \<in> set ms" for k v t
      using assms that by (auto simp: list_all_iff intro!: parses_render[where b = "[]"])
    then have "parses parse_members ?rest ms []"
      using parses_members[OF False, of "render (\<lambda>_. []) '':'' (Suc 0)" "[]" "[]" "[]" "[]"] by simp
    then obtain n where n: "parse_members n ?rest = Some (ms, [])" by (auto simp: parses_def)
    then obtain m where m: "n = Suc m" by (cases n) auto
    have "parse_members (Suc n) (?key @ '':'' @ Itoa z @ '','' @ ?rest) = Some ((''multi_entry'', JNum (Itoa z)) # ms, [])"
      using key[of "Itoa z @ '','' @ ?rest"] parse_value_number[of "'','' @ ?rest" m z] n
      by (simp add: stops_def m del: parse_value.simps parse_members.simps(2) add: parse_members.simps(2)[of "Suc m"])
    moreover have "json_Marshal ?v = ''{'' @ ?key @ '':'' @ Itoa z @ '','' @ ?rest" by (simp add: json_Marshal_def Join_Cons False)
    ultimately show ?thesis by blast
  qed
  then obtain n t where nt: "json_Marshal ?v = ''{'' @ ?key @ t" "parse_members n (?key @ t) = Some ((''multi_entry'', JNum (Itoa z)) # ms, [])"
    by blast
  obtain u where "?key @ t = CHR 0x22 # u" by (simp add: encode_string_def)
  with nt have "parse_value (Suc n) (json_Marshal ?v @ []) = Some (?v, [])" by (simp add: skip_ws_def is_ws_def)
  then show ?thesis by (intro json_parse_rendered parsesI)
qed

text \<open>What is written is what the next call reads.\<close>

lemma preferences_roundtrip:
  assumes "prefs_ok p" "Ips p = Some m" "m \<noteq> []"
  shows "decode_preferences (json_Marshal (preferences_json p)) = p\<lparr>Ips := Some (sort_key fst m)\<rparr>"
proof -
  let ?sorted = "map (\<lambda>(k, a). (k, address_json a)) (sort_key fst m)"
  have d: "distinct (map fst (sort_key fst m))" using assms(1,2) by (simp add: prefs_ok_def distinct_sort_key)
  have pl: "plain (JObj [(''ips'', JObj ?sorted)])"
    using assms(1,2) by (auto simp: prefs_ok_def list_all_iff pref_keys intro: plain_address_json)
  show ?thesis
  proof (cases "MultiEntry p = 0")
    case True
    then have "preferences_json p = JObj [(''ips'', JObj ?sorted)]" using assms(2,3) by (simp add: preferences_json_def)
    then show ?thesis using json_parse_Marshal[OF pl] True kept_ips_json[OF d]
      by (simp add: decode_preferences_def pref_keys)
  next
    case False
    then have "preferences_json p = JObj [(''multi_entry'', JNum (Itoa (MultiEntry p))), (''ips'', JObj ?sorted)]"
      using assms(2,3) by (simp add: preferences_json_def)
    then show ?thesis
      using parse_prefs[OF pl, of "MultiEntry p"] kept_ips_json[OF d] assms(1) ParseInt64_Itoa
      by (simp add: decode_preferences_def pref_keys kept_int_def prefs_ok_def)
  qed
qed

lemma wrap64_range: "- (2 ^ 63) \<le> wrap64 n" "wrap64 n < 2 ^ 63"
  by (simp_all add: wrap64_def)

lemma map_put_not_Nil [simp]: "map_put k v m \<noteq> []"
  by (induction k v m rule: map_put.induct) auto

lemma map_put_all: "list_all P m \<Longrightarrow> P (k, v) \<Longrightarrow> list_all P (map_put k v m)"
  by (induction k v m rule: map_put.induct) auto

lemma Itoa_utf8: "valid_utf8 (''ip'' @ Itoa z)"
proof -
  have "c \<in> set (nat_digits n) \<Longrightarrow> byte c < 0x80" for c n
    using digit_val_nat_digits[of c n] by (auto simp: digit_val_def byte_def Let_def split: if_splits)
  then show ?thesis by (intro ascii_utf8) (auto simp: Itoa_def list_all_iff byte_def)
qed

lemma add_address_ok:
  assumes "add_address intfName addrs p = Ret p'" "prefs_ok p" "valid_utf8 intfName" "list_all valid_utf8 addrs"
  shows "prefs_ok p' \<and> (\<exists>m'. Ips p' = Some m' \<and> m' \<noteq> [])"
proof -
  obtain z ip m where p': "p' = p\<lparr>MultiEntry := wrap64 (MultiEntry p + 1),
      Ips := Some (map_put (''ip'' @ Itoa z) \<lparr>apIp = ip, apInterface = intfName\<rparr> m)\<rparr>" "Ips p = Some m" "ip \<in> set addrs"
    using assms(1) by (auto simp: add_address_def split: list.splits option.splits)
  have "valid_utf8 ip" using p'(3) assms(4) by (simp add: list_all_iff)
  then show ?thesis
    using assms(2,3) p' wrap64_range Itoa_utf8[of z]
    by (auto simp: prefs_ok_def address_ok_def intro!: distinct_map_put map_put_all)
qed

lemma UpdatePodDefinition_ret:
  assumes "UpdatePodDefinition g intfName (Some r) annot client k s = (Ret annot', s')" "annot \<noteq> []"
  obtains addrs p where "NewResultFromResult r = Inr addrs" "add_address intfName addrs (decode_preferences annot) = Ret p"
    "annot' = json_Marshal (preferences_json p)"
  using assms by (auto simp: UpdatePodDefinition_def of_sum_def of_res_def go_simps Let_def split: go_res.splits sum.splits)

lemma UpdatePodDefinition_patches:
  assumes u: "UpdatePodDefinition g intfName (Some r) annot client k s = (Ret annot', s')" "annot \<noteq> []"
  shows "\<exists>pod s1 pod'. GetPodDefinition g client (K8S_POD_NAMESPACE k) (K8S_POD_NAME k) s = (Ret pod, s1)
    \<and> pods_Patch (gnode g) client (K8S_POD_NAMESPACE k) (podName pod) (annotation_patch (is_print (gnode g)) annot') s1 = (Ret pod', s')"
proof -
  from u obtain addrs p where p: "NewResultFromResult r = Inr addrs" "add_address intfName addrs (decode_preferences annot) = Ret p"
      "annot' = json_Marshal (preferences_json p)" by (rule UpdatePodDefinition_ret)
  obtain gr s1 where gr: "GetPodDefinition g client (K8S_POD_NAMESPACE k) (K8S_POD_NAME k) s = (gr, s1)" by (rule prod.exhaust)
  with u p obtain pod where pod: "gr = Ret pod"
    by (cases gr) (simp_all add: UpdatePodDefinition_def of_sum_def of_res_def go_bind_def go_wrap_def go_ret_def Let_def)
  obtain pr s2 where "pods_Patch (gnode g) client (K8S_POD_NAMESPACE k) (podName pod) (annotation_patch (is_print (gnode g)) annot') s1 = (pr, s2)"
    by (rule prod.exhaust)
  with u p gr pod show ?thesis
    by (cases pr) (simp_all add: UpdatePodDefinition_def of_sum_def of_res_def go_bind_def go_wrap_def go_ret_def Let_def)
qed

lemma UpdatePodDefinition_decodes:
  assumes u: "UpdatePodDefinition g intfName (Some r) annot client k s = (Ret annot', s')" "annot \<noteq> []"
    and "prefs_ok (decode_preferences annot)" "valid_utf8 intfName" "\<And>addrs. NewResultFromResult r = Inr addrs \<Longrightarrow> list_all valid_utf8 addrs"
  shows "\<exists>ip more x idText xs old new.
       NewResultFromResult r = Inr (ip # more) \<and> Split intfName ''eth'' = x # idText # xs
       \<and> Ips (decode_preferences annot) = Some old \<and> Ips (decode_preferences annot') = Some new
       \<and> map_of new = (map_of old)(''ip'' @ Itoa (wrap64 (Atoi_value idText + 1)) \<mapsto> \<lparr>apIp = ip, apInterface = intfName\<rparr>)
       \<and> MultiEntry (decode_preferences annot') = wrap64 (MultiEntry (decode_preferences annot) + 1)
       \<and> prefs_ok (decode_preferences annot')"
proof -
  from u obtain addrs p where p: "NewResultFromResult r = Inr addrs" "add_address intfName addrs (decode_preferences annot) = Ret p"
      "annot' = json_Marshal (preferences_json p)" by (rule UpdatePodDefinition_ret)
  from add_address_ok[OF p(2) assms(3,4) assms(5)[OF p(1)]] obtain m where m: "prefs_ok p" "Ips p = Some m" "m \<noteq> []" by blast
  have d: "decode_preferences annot' = p\<lparr>Ips := Some (sort_key fst m)\<rparr>" unfolding p(3) by (rule preferences_roundtrip[OF m])
  then have ok: "prefs_ok (decode_preferences annot')" using m by (simp add: prefs_ok_def distinct_sort_key list_all_iff)
  have s: "map_of (sort_key fst m) = map_of m"
    using m(1,2) by (simp add: prefs_ok_def map_of_inject_set distinct_sort_key)
  obtain ip more x idText xs old where a: "addrs = ip # more" "Split intfName ''eth'' = x # idText # xs" "Ips (decode_preferences annot) = Some old"
      "p = (decode_preferences annot)\<lparr>MultiEntry := wrap64 (MultiEntry (decode_preferences annot) + 1),
         Ips := Some (map_put (''ip'' @ Itoa (wrap64 (Atoi_value idText + 1))) \<lparr>apIp = ip, apInterface = intfName\<rparr> old)\<rparr>"
    using p(2) by (auto simp: add_address_def split: list.splits option.splits)
  then have "map_of m = (map_of old)(''ip'' @ Itoa (wrap64 (Atoi_value idText + 1)) \<mapsto> \<lparr>apIp = ip, apInterface = intfName\<rparr>)"
    using m(2) by (auto simp: map_of_map_put)
  with a p(1) d ok s show ?thesis by auto
qed

end
