(* ===== verification/GenieDemo.thy ===== *)
theory GenieDemo
  imports GenieAnnot
begin

text \<open>
  A node on which the theorems about the CNI plugin are instantiated: a directory of configuration files,
  one of plugin programs, the objects of an API server with a single pod, and a record of the programs
  that were run and the patches that were sent.
\<close>

record demo_state =
  dFiles :: "string gomap"
  dPrograms :: "string list"
  dAnnots :: "string gomap option"
  dObjects :: "string gomap"
  dRuns :: "(string \<times> string list) list"
  dPatches :: "string list"

definition quoted :: "string \<Rightarrow> string" where
  "quoted s = map (\<lambda>c. if c = CHR ''~'' then CHR 0x22 else c) s"

definition found :: "string gomap \<Rightarrow> string \<Rightarrow> string go_res" where
  "found m k = (case map_of m k of Some v \<Rightarrow> Ret v | None \<Rightarrow> Err (ErrorString ''not found''))"

definition demo_node :: "(demo_state, unit) node" where
  "demo_node =
     \<lparr>new_client = \<lambda>_ _. go_ret (),
      pods_Get = \<lambda>_ _ n s. (Ret \<lparr>podName = n, podAnnotations = dAnnots s\<rparr>, s),
      pods_Patch = \<lambda>_ _ n p s. (Ret \<lparr>podName = n, podAnnotations = dAnnots s\<rparr>, s\<lparr>dPatches := p # dPatches s\<rparr>),
      rest_GetRaw = \<lambda>_ p s. (found (dObjects s) p, s),
      http_Get = \<lambda>_. go_err (ErrorString ''refused''),
      http_Post = \<lambda>_ _. go_ret (Some \<lparr>StatusCode = 200, respBody = Inr []\<rparr>),
      ReadDir = \<lambda>d s. if d = DefaultNetDir then DirEntries (map (\<lambda>(f, _). (drop 15 f, False)) (dFiles s))
                      else DirEntries (map (\<lambda>b. (b, False)) (dPrograms s)),
      ReadFile = \<lambda>f s. (found (dFiles s) f, s),
      WriteFile = \<lambda>f d s. (Ret (), s\<lparr>dFiles := map_put f d (dFiles s)\<rparr>),
      is_regular = \<lambda>p s. p \<in> set (map ((@) ''/opt/cni/bin/'') (dPrograms s)),
      exec_plugin = \<lambda>p b e s. (Ret ''{}'', s\<lparr>dRuns := (p, e) # dRuns s\<rparr>),
      sh_Output = \<lambda>_. go_ret (''eth1'' @ [CHR 0x0A]),
      print_result = \<lambda>_ _. go_ret (),
      is_print = \<lambda>_. True,
      parse_ip = \<lambda>_. True,
      decode_meta = \<lambda>_. None,
      decode_stats = \<lambda>_. Inr [],
      decode_result = \<lambda>_ _. Inr (ResultCurrent [''10.0.0.2/24''] (JObj [])),
      Environ = [''PATH=/bin'', ''CNI_COMMAND=ADD'', ''CNI_IFNAME=eth9'', ''CNI_PATH=/opt/cni/bin'', ''CNI_ARGS=K8S_POD_NAME=other'']\<rparr>"

definition demo_env :: "(demo_state, unit) genie_env" where
  "demo_env = \<lparr>gnode = demo_node, gsort = insertionSort, grange = id\<rparr>"

definition demo_args :: CNIArgs where
  "demo_args = \<lparr>ContainerID = ''c1'', Netns = ''/ns'', caIfName = ''eth0'', caArgs = ''IgnoreUnknown=1;K8S_POD_NAMESPACE=red;K8S_POD_NAME=web'',
     caPath = ''/opt/cni/bin'', StdinData = ''{}''\<rparr>"

definition demo_k8s :: K8sArgs where
  "demo_k8s = \<lparr>IgnoreUnknown = True, K8S_POD_NAME = ''web'', K8S_POD_NAMESPACE = ''red'', K8S_POD_INFRA_CONTAINER_ID = []\<rparr>"

text \<open>Two configurations: one for weave, one list for flannel; no program is installed.\<close>

definition demo_state :: demo_state where
  "demo_state =
     \<lparr>dFiles = [(''/etc/cni/net.d/10-weave.conf'', quoted ''{~name~:~w~,~type~:~weave~}''),
        (''/etc/cni/net.d/20-flannel.conflist'', quoted ''{~name~:~f~,~plugins~:[{~type~:~flannel~}]}'')],
      dPrograms = [''weave''], dAnnots = Some [(''cni'', ''weave,flannel'')],
      dObjects = [(''/apis/alpha.network.k8s.io/v1/namespaces/red/logicalnetworks/a'', quoted ''{~spec~:{~physicalNet~:~p~,~plugin~:~weave~}}''),
        (''/apis/alpha.network.k8s.io/v1/namespaces/red/logicalnetworks/b'', quoted ''{~spec~:{~physicalNet~:~p~,~plugin~:~flannel~}}'')],
      dRuns = [], dPatches = []\<rparr>"

text \<open>The same node with a pod that asks for several addresses and for a plugin there is none of.\<close>

definition demo_multi :: demo_state where
  "demo_multi = demo_state\<lparr>dAnnots := Some [(''cni'', ''ghost,weave''), (''multi-ip-preferences'', ''{}'')]\<rparr>"

lemma demo_reads: "snd (ReadFile (gnode demo_env) f s) = s"
  by (simp add: demo_env_def demo_node_def)

lemma demo_files:
  "ConfFiles demo_node DefaultNetDir [''.conf''] demo_state = (Ret [''/etc/cni/net.d/10-weave.conf''], demo_state)"
  "ConfFiles demo_node DefaultNetDir [''.conf'', ''.conflist''] demo_state =
    (Ret [''/etc/cni/net.d/10-weave.conf'', ''/etc/cni/net.d/20-flannel.conflist''], demo_state)"
  by code_simp+

lemma demo_plugins:
  "pod_plugins demo_env demo_args zero_NetConf demo_state = (Ret (demo_k8s, (), [plain_plugin ''weave'', plain_plugin ''flannel'']), demo_state)"
  by code_simp

lemma demo_flannel:
  "\<exists>l n. fst (ParseCNIConfFromFile demo_env ''/etc/cni/net.d/20-flannel.conflist'' demo_state) = Ret l \<and> Network (hd (listPlugins l)) = Some n"
proof -
  have "case fst (ParseCNIConfFromFile demo_env ''/etc/cni/net.d/20-flannel.conflist'' demo_state) of
      Ret l \<Rightarrow> (case Network (hd (listPlugins l)) of Some n \<Rightarrow> True | None \<Rightarrow> False) | _ \<Rightarrow> False"
    by code_simp
  then show ?thesis by (auto split: go_res.splits option.splits)
qed

lemma demo_services: "services_keep (\<lambda>s. dFiles s = fs) (gnode demo_env)"
  by (simp add: services_keep_def demo_env_def demo_node_def keeps_def go_simps)

end
