(* ===== verification/PluginMain.thy ===== *)
theory PluginMain
  imports Genie
begin

text \<open>
  The program of the CNI plugin around its two commands: \<open>main\<close> of \<^verbatim>\<open>cni-genie.go\<close> and what it calls of the
  vendored CNI library, \<^verbatim>\<open>skel.PluginMain\<close> with the reading of the environment, and the check of the
  version of the configuration. The record \<open>process_io\<close> is what the process is given: its environment, what
  reading its standard input gives, writing to its standard output, and \<^verbatim>\<open>fmt.Sprintf\<close> of a text that is
  taken as a format without arguments. The exit status is the result; a panic is one of the model.
\<close>

record 's process_io =
  Getenv :: "string \<Rightarrow> string"
  ReadStdin :: "go_error + string"
  WriteStdout :: "string \<Rightarrow> ('s, unit) go"
  Sprintf0 :: "string \<Rightarrow> string"

section \<open>skel.go: the environment\<close>

text \<open>The variables, each with the commands that require it.\<close>

definition skel_vars :: "(string \<times> string list) list" where
  "skel_vars =
     [(''CNI_COMMAND'', [''ADD'', ''DEL'']), (''CNI_CONTAINERID'', []), (''CNI_NETNS'', [''ADD'']),
      (''CNI_IFNAME'', [''ADD'', ''DEL'']), (''CNI_ARGS'', []), (''CNI_PATH'', [''ADD'', ''DEL''])]"

definition missing_vars :: "(string \<Rightarrow> string) \<Rightarrow> string list" where
  "missing_vars getenv =
     map fst (filter (\<lambda>(name, reqForCmd). getenv name = [] \<and> (getenv ''CNI_COMMAND'' \<in> set reqForCmd \<or> name = ''CNI_COMMAND'')) skel_vars)"

definition getCmdArgsFromEnv :: "(string \<Rightarrow> string) \<Rightarrow> go_error + string \<Rightarrow> go_error + string \<times> CNIArgs" where
  "getCmdArgsFromEnv getenv stdin =
     (if missing_vars getenv \<noteq> [] then Inl (ErrorString ''required env variables missing'')
      else (case stdin of
         Inl e \<Rightarrow> Inl (Errorf_v ''error reading from stdin: '' e)
       | Inr stdinData \<Rightarrow>
           Inr (getenv ''CNI_COMMAND'',
                \<lparr>ContainerID = getenv ''CNI_CONTAINERID'', Netns = getenv ''CNI_NETNS'', caIfName = getenv ''CNI_IFNAME'',
                 caArgs = getenv ''CNI_ARGS'', caPath = getenv ''CNI_PATH'', StdinData = stdinData\<rparr>)))"

text \<open>What \<^verbatim>\<open>os.Getenv\<close> returns in a process that was started with the given environment: the first entry of a name counts.\<close>

definition env_lookup :: "string list \<Rightarrow> string \<Rightarrow> string" where
  "env_lookup env name = (case find (\<lambda>e. env_key e = Some name) env of None \<Rightarrow> [] | Some e \<Rightarrow> drop (length name + 1) e)"

section \<open>The version package\<close>

record pluginInfo =
  piCNIVersion :: string
  piSupportedVersions :: "string list"

definition Current :: string where "Current = ''0.3.1''"

text \<open>\<^verbatim>\<open>version.All\<close>.\<close>

definition version_All :: pluginInfo where
  "version_All = \<lparr>piCNIVersion = Current, piSupportedVersions = [''0.1.0'', ''0.2.0'', ''0.3.0'', ''0.3.1'']\<rparr>"

text \<open>\<open>Encode\<close>: the encoder ends a value with a new line.\<close>

definition pluginInfo_Encode :: "'s process_io \<Rightarrow> pluginInfo \<Rightarrow> ('s, unit) go" where
  "pluginInfo_Encode io p =
     WriteStdout io (json_Marshal (JObj
       ([(''cniVersion'', JStr (piCNIVersion p))]
        @ (if piSupportedVersions p = [] then [] else [(''supportedVersions'', JArr (map JStr (piSupportedVersions p)))]))) @ [CHR 0x0A])"

record conf_version =
  cvCNIVersion :: string

definition conf_version_fields :: "(string \<times> conf_version setter) list" where
  "conf_version_fields = [(''cniversion'', field put_string cvCNIVersion cvCNIVersion_update)]"

definition ConfigDecoder_Decode :: "string \<Rightarrow> go_error + string" where
  "ConfigDecoder_Decode jsonBytes =
     (case Unmarshal_struct conf_version_fields jsonBytes \<lparr>cvCNIVersion = []\<rparr> of
        Inl e \<Rightarrow> Inl (Errorf_v ''decoding version from network config: '' e)
      | Inr conf \<Rightarrow> Inr (if cvCNIVersion conf = [] then ''0.1.0'' else cvCNIVersion conf))"

text \<open>\<open>CheckRaw\<close>; the incompatibility is known by its details.\<close>

definition CheckRaw :: "(string \<Rightarrow> bool) \<Rightarrow> string \<Rightarrow> string list \<Rightarrow> string option" where
  "CheckRaw isPrint configVersion supportedVersions =
     (if configVersion \<in> set supportedVersions then None
      else Some (''config is '' @ Quote isPrint configVersion @ '', plugin supports ['' @ Join (map (Quote isPrint) supportedVersions) '' '' @ '']''))"

section \<open>skel.go: the commands\<close>

record types_Error =
  Code :: int
  Msg :: string
  Details :: string

text \<open>The error of a command: the commands of the plugin return errors of \<^verbatim>\<open>fmt.Errorf\<close> and of the output of a result,
  which are no \<^verbatim>\<open>*types.Error\<close>; the check of the version returns one.\<close>

datatype cmd_error = TypedError types_Error | PlainError go_error

definition createTypedError :: "string \<Rightarrow> types_Error" where
  "createTypedError msg = \<lparr>Code = 100, Msg = msg, Details = []\<rparr>"

definition checkVersionAndCall ::
  "(string \<Rightarrow> bool) \<Rightarrow> pluginInfo \<Rightarrow> (CNIArgs \<Rightarrow> ('s, unit) go) \<Rightarrow> CNIArgs \<Rightarrow> ('s, cmd_error option) go" where
  "checkVersionAndCall isPrint pluginVersionInfo toCall cmdArgs =
     (case ConfigDecoder_Decode (StdinData cmdArgs) of
        Inl e \<Rightarrow> go_ret (Some (PlainError e))
      | Inr configVersion \<Rightarrow>
          (case CheckRaw isPrint configVersion (piSupportedVersions pluginVersionInfo) of
             Some details \<Rightarrow> go_ret (Some (TypedError \<lparr>Code = 1, Msg = ''incompatible CNI versions'', Details = details\<rparr>))
           | None \<Rightarrow>
               go_bind (go_try (toCall cmdArgs)) (\<lambda>r.
               go_ret (case r of Inl e \<Rightarrow> Some (PlainError e) | Inr _ \<Rightarrow> None))))"

definition typed_error :: "'s process_io \<Rightarrow> cmd_error option \<Rightarrow> types_Error option" where
  "typed_error io err =
     (case err of
        None \<Rightarrow> None
      | Some (TypedError e) \<Rightarrow> Some e
      | Some (PlainError e) \<Rightarrow> Some (createTypedError (Sprintf0 io (error_text e))))"

definition pluginMain ::
  "'s process_io \<Rightarrow> (string \<Rightarrow> bool) \<Rightarrow> (CNIArgs \<Rightarrow> ('s, unit) go) \<Rightarrow> (CNIArgs \<Rightarrow> ('s, unit) go) \<Rightarrow> pluginInfo \<Rightarrow> ('s, types_Error option) go" where
  "pluginMain io isPrint add del versionInfo =
     (case getCmdArgsFromEnv (Getenv io) (ReadStdin io) of
        Inl e \<Rightarrow> go_ret (Some (createTypedError (Sprintf0 io (error_text e))))
      | Inr (cmd, cmdArgs) \<Rightarrow>
          if cmd = ''ADD'' then go_bind (checkVersionAndCall isPrint versionInfo add cmdArgs) (\<lambda>err. go_ret (typed_error io err))
          else if cmd = ''DEL'' then go_bind (checkVersionAndCall isPrint versionInfo del cmdArgs) (\<lambda>err. go_ret (typed_error io err))
          else if cmd = ''VERSION'' then
            go_bind (go_try (pluginInfo_Encode io versionInfo)) (\<lambda>r.
            go_ret (typed_error io (case r of Inl e \<Rightarrow> Some (PlainError e) | Inr _ \<Rightarrow> None)))
          else go_ret (Some (createTypedError (''unknown CNI_COMMAND: '' @ cmd))))"

text \<open>\<open>Print\<close> of an error: indented by four blanks, the details left out when they are empty.\<close>

definition Error_text :: "types_Error \<Rightarrow> string" where
  "Error_text e =
     render (\<lambda>d. CHR 0x0A # replicate (4 * d) (CHR 0x20)) '': '' 0
       (JObj ([(''code'', JNum (Itoa (Code e))), (''msg'', JStr (Msg e))] @ (if Details e = [] then [] else [(''details'', JStr (Details e))])))"

definition PluginMain ::
  "'s process_io \<Rightarrow> (string \<Rightarrow> bool) \<Rightarrow> (CNIArgs \<Rightarrow> ('s, unit) go) \<Rightarrow> (CNIArgs \<Rightarrow> ('s, unit) go) \<Rightarrow> pluginInfo \<Rightarrow> ('s, int) go" where
  "PluginMain io isPrint add del versionInfo =
     go_bind (pluginMain io isPrint add del versionInfo) (\<lambda>r.
     case r of
       None \<Rightarrow> go_ret 0
     | Some e \<Rightarrow> go_bind (go_log (WriteStdout io (Error_text e))) (\<lambda>_. go_ret 1))"

definition plugin_main :: "('s, 'c) genie_env \<Rightarrow> 's process_io \<Rightarrow> ('s, int) go" where
  "plugin_main g io = PluginMain io (is_print (gnode g)) (cmdAdd g) (cmdDel g) version_All"

section \<open>Facts\<close>

text \<open>In the environment a process is started with, the last entry for a name is found.\<close>

lemma find_put_env:
  "env_key kv = Some k \<Longrightarrow> find (\<lambda>e. env_key e = Some n) (put_env kv out) = (if k = n then Some kv else find (\<lambda>e. env_key e = Some n) out)"
  by (induction out) auto

lemma find_dedup_step:
  "find (\<lambda>e. env_key e = Some n) (if env_key kv = None then out @ [kv] else put_env kv out)
    = (if env_key kv = Some n then Some kv else find (\<lambda>e. env_key e = Some n) out)"
proof (cases "env_key kv")
  case None
  have "find P (out @ [kv]) = find P out" if "\<not> P kv" for P using that by (induction out) simp_all
  with None show ?thesis by simp
next
  case (Some k)
  then show ?thesis using find_put_env[OF Some, of n out] by simp
qed

lemma find_dedupEnv:
  "find (\<lambda>e. env_key e = Some n) (dedupEnv (env @ [kv]))
    = (if env_key kv = Some n then Some kv else find (\<lambda>e. env_key e = Some n) (dedupEnv env))"
  unfolding dedupEnv_def fold_append by (simp only: comp_def fold.simps id_apply find_dedup_step)

text \<open>So a delegate that reads its environment with the same library gets what \<open>AsEnv\<close> wrote, whatever the plugin inherited.\<close>

lemma env_lookup_AsEnv [simp]:
  "env_lookup (dedupEnv (AsEnv env action rt paths)) ''CNI_COMMAND'' = action"
  "env_lookup (dedupEnv (AsEnv env action rt paths)) ''CNI_CONTAINERID'' = rtContainerID rt"
  "env_lookup (dedupEnv (AsEnv env action rt paths)) ''CNI_NETNS'' = rtNetNS rt"
  "env_lookup (dedupEnv (AsEnv env action rt paths)) ''CNI_ARGS'' = stringify (rtArgs rt)"
  "env_lookup (dedupEnv (AsEnv env action rt paths)) ''CNI_IFNAME'' = rtIfName rt"
  "env_lookup (dedupEnv (AsEnv env action rt paths)) ''CNI_PATH'' = Join paths '':''"
proof -
  have a: "AsEnv env action rt paths = (((((env @ [''CNI_COMMAND'' @ CHR ''='' # action]) @ [''CNI_CONTAINERID'' @ CHR ''='' # rtContainerID rt])
      @ [''CNI_NETNS'' @ CHR ''='' # rtNetNS rt]) @ [''CNI_ARGS'' @ CHR ''='' # stringify (rtArgs rt)]) @ [''CNI_IFNAME'' @ CHR ''='' # rtIfName rt])
      @ [''CNI_PATH'' @ CHR ''='' # Join paths '':'']"
    by (simp add: AsEnv_def)
  show "env_lookup (dedupEnv (AsEnv env action rt paths)) ''CNI_COMMAND'' = action"
    "env_lookup (dedupEnv (AsEnv env action rt paths)) ''CNI_CONTAINERID'' = rtContainerID rt"
    "env_lookup (dedupEnv (AsEnv env action rt paths)) ''CNI_NETNS'' = rtNetNS rt"
    "env_lookup (dedupEnv (AsEnv env action rt paths)) ''CNI_ARGS'' = stringify (rtArgs rt)"
    "env_lookup (dedupEnv (AsEnv env action rt paths)) ''CNI_IFNAME'' = rtIfName rt"
    "env_lookup (dedupEnv (AsEnv env action rt paths)) ''CNI_PATH'' = Join paths '':''"
    unfolding env_lookup_def a find_dedupEnv by (simp_all add: env_key_def)
qed

lemma AsEnv_args:
  assumes "rtIfName rt \<noteq> []" "Join paths '':'' \<noteq> []" "action = ''ADD'' \<and> rtNetNS rt \<noteq> [] \<or> action = ''DEL''"
  shows "getCmdArgsFromEnv (env_lookup (dedupEnv (AsEnv env action rt paths))) (Inr conf) =
    Inr (action, \<lparr>ContainerID = rtContainerID rt, Netns = rtNetNS rt, caIfName = rtIfName rt, caArgs = stringify (rtArgs rt),
                  caPath = Join paths '':'', StdinData = conf\<rparr>)"
  using assms by (auto simp: getCmdArgsFromEnv_def missing_vars_def skel_vars_def)

text \<open>The environment and the configuration the process was given let it run a command.\<close>

definition accepted :: "'s process_io \<Rightarrow> pluginInfo \<Rightarrow> (string \<times> CNIArgs) option" where
  "accepted io info =
     (case getCmdArgsFromEnv (Getenv io) (ReadStdin io) of
        Inl _ \<Rightarrow> None
      | Inr (cmd, a) \<Rightarrow>
          if cmd = ''VERSION'' then Some (cmd, a)
          else if cmd \<in> {''ADD'', ''DEL''} then
            (case ConfigDecoder_Decode (StdinData a) of
               Inl _ \<Rightarrow> None
             | Inr v \<Rightarrow> if v \<in> set (piSupportedVersions info) then Some (cmd, a) else None)
          else None)"

definition command :: "'s process_io \<Rightarrow> (CNIArgs \<Rightarrow> ('s, unit) go) \<Rightarrow> (CNIArgs \<Rightarrow> ('s, unit) go) \<Rightarrow> pluginInfo \<Rightarrow> string \<times> CNIArgs \<Rightarrow> ('s, unit) go" where
  "command io add del info = (\<lambda>(cmd, a). if cmd = ''VERSION'' then pluginInfo_Encode io info else if cmd = ''ADD'' then add a else del a)"

text \<open>\<open>pluginMain\<close> by what it accepts: a refused call does nothing and returns an error, an accepted one runs its command.\<close>

lemma pluginMain_accepted:
  "(case accepted io info of
      None \<Rightarrow> \<exists>e. pluginMain io ip add del info = go_ret (Some e)
    | Some c \<Rightarrow> pluginMain io ip add del info = go_bind (go_try (command io add del info c)) (\<lambda>r.
        go_ret (typed_error io (case r of Inl e \<Rightarrow> Some (PlainError e) | Inr _ \<Rightarrow> None))))"
proof (cases "getCmdArgsFromEnv (Getenv io) (ReadStdin io)")
  case (Inl e)
  then show ?thesis by (auto simp: accepted_def pluginMain_def)
next
  case (Inr ca)
  obtain cmd a where ca: "ca = (cmd, a)" by (rule prod.exhaust)
  show ?thesis
    using Inr ca by (auto simp: accepted_def pluginMain_def command_def checkVersionAndCall_def CheckRaw_def typed_error_def go_bind_assoc split: sum.split)
qed

end
