(* ===== verification/GenieProperties.thy ===== *)
theory GenieProperties
  imports GenieDemo PluginMain
begin

text \<open>
  The properties of the CNI plugin, each with an instance on a concrete node.
\<close>

section \<open>Arguments of the delegates\<close>

text \<open>C34: The arguments \<open>runtimeConf\<close> hands to a delegate carry what the plugin itself was given: the delegate is started with
  the environment of the plugin, which has the plugin's own variables of the specification, and the new variables after
  it; whatever that environment is, a delegate that reads its own with the same library finds the command, the
  container, the network namespace, the interface asked for, the search path and its configuration, and its
  \<^verbatim>\<open>CNI_ARGS\<close> give the structure the plugin read from its own.\<close>

theorem delegate_arguments:
  assumes "runtimeConf g a iface s = (Ret rt, s')" "iface \<noteq> []" "Join paths '':'' \<noteq> []"
    and "cmd = ''ADD'' \<and> Netns a \<noteq> [] \<or> cmd = ''DEL''"
  shows "\<exists>k args. loadArgs g a s = (Ret k, s')
    \<and> getCmdArgsFromEnv (env_lookup (dedupEnv (AsEnv environ cmd rt paths))) (Inr conf) = Inr (cmd, args)
    \<and> LoadArgs isp ip (caArgs args) zero_K8sArgs = Ret k
    \<and> caIfName args = iface \<and> ContainerID args = ContainerID a \<and> Netns args = Netns a
    \<and> caPath args = Join paths '':'' \<and> StdinData args = conf"
proof -
  obtain k where k: "loadArgs g a s = (Ret k, s')" "LoadArgs isp ip (stringify (rtArgs rt)) zero_K8sArgs = Ret k"
      "rtIfName rt = iface" "rtContainerID rt = ContainerID a" "rtNetNS rt = Netns a"
    using runtimeConf_args[OF assms(1), of isp ip] by blast
  show ?thesis using k AsEnv_args[of rt paths cmd environ conf] assms(2-4) by simp
qed

definition demo_rt :: RuntimeConf where
  "demo_rt = \<lparr>rtContainerID = ''c1'', rtNetNS = ''/ns'', rtIfName = ''eth0'',
     rtArgs = [(''IgnoreUnknown'', ''1''), (''K8S_POD_NAMESPACE'', ''red''), (''K8S_POD_NAME'', ''web''), (''K8S_POD_INFRA_CONTAINER_ID'', [])]\<rparr>"

lemma demo_runtime: "runtimeConf demo_env demo_args ''eth0'' demo_state = (Ret demo_rt, demo_state)"
  by code_simp

theorem delegate_arguments_witness:
  "\<exists>k args. loadArgs demo_env demo_args demo_state = (Ret k, demo_state)
    \<and> getCmdArgsFromEnv (env_lookup (dedupEnv (AsEnv (Environ demo_node) ''ADD'' demo_rt [DefaultPluginDir]))) (Inr ''{}'') = Inr (''ADD'', args)
    \<and> LoadArgs (\<lambda>_. True) (\<lambda>_. True) (caArgs args) zero_K8sArgs = Ret k \<and> caIfName args = ''eth0''"
proof -
  have "Netns demo_args \<noteq> []" "Join [DefaultPluginDir] '':'' \<noteq> []" by (simp_all add: demo_args_def DefaultPluginDir_def)
  then show ?thesis
    using delegate_arguments[OF demo_runtime, of "[DefaultPluginDir]" "''ADD''" "Environ demo_node" "''{}''" "\<lambda>_. True" "\<lambda>_. True"] by auto
qed

section \<open>The least loaded solution\<close>

text \<open>C36: \<open>computeNetworkUsage\<close> returns the name of a solution with the least usage, where the usage is that of
  the reference \<open>usage_of\<close>; it panics exactly when some interface has a name shorter than four bytes.\<close>

theorem computeNetworkUsage_least:
  assumes "sort_pkg srt" "\<And>m. mset (rng m) = mset m"
  shows "if list_all (\<lambda>i. 4 \<le> length (fst i)) (concat cinfo)
     then \<exists>c \<in> solutions. computeNetworkUsage srt rng cinfo = Ret (full_name c)
            \<and> (\<forall>c' \<in> solutions. usage_of (counted (concat cinfo)) c \<le> usage_of (counted (concat cinfo)) c')
     else \<exists>p. computeNetworkUsage srt rng cinfo = Panic p"
  by (rule sort_pkg.computeNetworkUsage_outcome[of srt rng, OF assms(1) assms(2)])

theorem computeNetworkUsage_least_witness:
  "\<exists>c \<in> solutions. computeNetworkUsage insertionSort id [[(''cali1'', 5)], [(''cali1'', 9), (''eth0'', 7)]] = Ret (full_name c)"
  using computeNetworkUsage_least[OF go_sort.sort_pkg_axioms, of id "[[(''cali1'', 5)], [(''cali1'', 9), (''eth0'', 7)]]"] by auto

text \<open>\<open>SortedKeys\<close> returns every key of the map once, in increasing order of the values.\<close>

theorem SortedKeys_correct:
  assumes "sort_pkg srt" "mset (rng m) = mset m" "distinct (map fst m)"
  shows "set (SortedKeys srt rng m) = dom (map_of m) \<and> distinct (SortedKeys srt rng m) \<and> sorted (map (int_at m) (SortedKeys srt rng m))"
proof -
  have m: "mset (SortedKeys srt rng m) = mset (map fst (rng m))" "sorted (map (int_at m) (SortedKeys srt rng m))"
    using sort_pkg.SortedKeys_sorted[OF assms(1), of rng m] by simp_all
  have "mset (map fst (rng m)) = mset (map fst m)" using assms(2) by (simp only: mset_map)
  with m(1) have "mset (SortedKeys srt rng m) = mset (map fst m)" by simp
  then have "set (SortedKeys srt rng m) = set (map fst m)" "distinct (SortedKeys srt rng m)"
    using assms(3) by (metis set_mset_mset, metis mset_eq_imp_distinct_iff)
  then show ?thesis using m(2) by (simp add: dom_map_of_conv_image_fst)
qed

theorem SortedKeys_correct_witness:
  "set (SortedKeys insertionSort rev [(''flan'', 7), (''cali'', 3)]) = dom (map_of [(''flan'', 7 :: int), (''cali'', 3)])"
  using SortedKeys_correct[OF go_sort.sort_pkg_axioms, of rev "[(''flan'', 7), (''cali'', 3)]"] by simp

text \<open>The usage recorded for an interface seen before is the difference of the two unsigned 64-bit counters
  taken as a signed number: the true difference when it is below \<open>2^63\<close>, and wrapped otherwise, also when the
  counter was reset.\<close>

theorem usage_interface_difference:
  assumes "4 \<le> length n" "map_of (usM st) (take 4 n) = Some u" "map_of (usRx st) n = Some old"
  shows "\<exists>st'. usage_interface (n, rx) st = Ret st' \<and> int_at (usM st') (take 4 n) = wrap64 (uint rx - uint old)
    \<and> map_of (usRx st') n = Some rx \<and> (uint old \<le> uint rx \<longrightarrow> uint rx - uint old < 2 ^ 63 \<longrightarrow> int_at (usM st') (take 4 n) = uint rx - uint old)"
proof -
  have "wrap64 (uint rx - uint old) = uint rx - uint old" if "uint old \<le> uint rx" "uint rx - uint old < 2 ^ 63"
    using that by (intro wrap64_id) simp_all
  then show ?thesis
    using assms by (auto simp: usage_interface_def Let_def map_of_map_put int_at_def sint_diff)
qed

theorem usage_interface_difference_witness:
  "\<exists>st'. usage_interface (''cali1'', 9) \<lparr>usM = [(''cali'', 0)], usRx = [(''cali1'', 5)], usDownlink = 0\<rparr> = Ret st'
    \<and> int_at (usM st') ''cali'' = wrap64 (uint (9 :: 64 word) - uint (5 :: 64 word))"
  using usage_interface_difference[of "''cali1''" "\<lparr>usM = [(''cali'', 0)], usRx = [(''cali1'', 5)], usDownlink = 0\<rparr>" 0 5 9] by auto

section \<open>The plugins of a pod\<close>

text \<open>C35: When the annotation \<^verbatim>\<open>networks\<close> is resolved, the plugins are in the order of its entries: an entry with
  a colon gets the interface it names, the others get \<^verbatim>\<open>eth0\<close>, \<^verbatim>\<open>eth1\<close>, ... in turn, so that
  without explicit names the interfaces of a pod are distinct.\<close>

theorem networks_annotation_interfaces:
  assumes "GetPluginInfoFromNwAnnot nd an ns client s = (Ret infos, s')"
  shows "map IfName infos = assigned 0 (Split an '','')
    \<and> (list_all (\<lambda>e. \<not> Contains e '':'') (Split an '','') \<longrightarrow> map IfName infos = map nic [0..<length infos] \<and> distinct (map IfName infos))"
proof -
  have a: "map IfName infos = assigned 0 (Split an '','')" by (rule NwAnnot_assigned[OF assms])
  have "map IfName infos = map nic [0..<length infos] \<and> distinct (map IfName infos)"
    if "list_all (\<lambda>e. \<not> Contains e '':'') (Split an '','')"
  proof -
    have "map IfName infos = map nic [0..<length (Split an '','')]" using assigned_automatic[OF that, of 0] a by simp
    moreover from this have "length infos = length (Split an '','')" by (metis length_map length_upt diff_zero)
    ultimately show ?thesis by (simp add: distinct_map inj_on_def nic_inj)
  qed
  then show ?thesis using a by blast
qed

lemma demo_resolved: "\<exists>infos. GetPluginInfoFromNwAnnot demo_node ''a,b'' ''red'' () demo_state = (Ret infos, demo_state)"
proof -
  have "GetPluginInfoFromNwAnnot demo_node ''a,b'' ''red'' () demo_state =
    (Ret [\<lparr>PluginName = ''weave'', IfName = ''eth0'', Subnet = [], Refer_nic = []\<rparr>,
          \<lparr>PluginName = ''flannel'', IfName = ''eth1'', Subnet = [], Refer_nic = []\<rparr>], demo_state)"
    by code_simp
  then show ?thesis by blast
qed

theorem networks_annotation_interfaces_witness:
  "\<exists>infos. GetPluginInfoFromNwAnnot demo_node ''a,b'' ''red'' () demo_state = (Ret infos, demo_state)
    \<and> map IfName infos = assigned 0 (Split ''a,b'' '','')"
proof -
  obtain infos where "GetPluginInfoFromNwAnnot demo_node ''a,b'' ''red'' () demo_state = (Ret infos, demo_state)"
    using demo_resolved by blast
  with networks_annotation_interfaces[OF this] show ?thesis by blast
qed

text \<open>An interface name an entry asks for is not remembered: an entry \<^verbatim>\<open>x:eth0\<close> before one without a name
  gives both the interface \<^verbatim>\<open>eth0\<close>.\<close>

theorem explicit_interface_clash:
  assumes "GetPluginInfoFromNwAnnot nd (x @ '':eth0,'' @ y) ns client s = (Ret infos, s')"
    and "CHR '':'' \<notin> set (x @ y)" "CHR '','' \<notin> set (x @ y)"
  shows "map IfName infos = [''eth0'', ''eth0'']"
proof -
  have "Split ((x @ '':eth0'') @ CHR '','' # y) '','' = [x @ '':eth0'', y]"
    using Split_append[of "CHR '',''" "x @ '':eth0''" y] Split_no_sep[of "CHR '',''" y] assms(3) by simp
  moreover have "Split (x @ CHR '':'' # ''eth0'') '':'' = [x, ''eth0'']"
    using Split_append[of "CHR '':''" x "''eth0''"] Split_no_sep[of "CHR '':''" "''eth0''"] assms(2) by simp
  moreover have "Contains (x @ '':eth0'') '':''" "\<not> Contains y '':''"
    using assms(2) by (auto simp: Contains_iff)
  moreover have "nic 0 = ''eth0''" by code_simp
  ultimately show ?thesis using NwAnnot_assigned[OF assms(1)] by simp
qed

theorem explicit_interface_clash_witness:
  "\<exists>infos. GetPluginInfoFromNwAnnot demo_node (''a'' @ '':eth0,'' @ ''b'') ''red'' () demo_state = (Ret infos, demo_state)
    \<and> map IfName infos = [''eth0'', ''eth0'']"
proof -
  have "GetPluginInfoFromNwAnnot demo_node (''a'' @ '':eth0,'' @ ''b'') ''red'' () demo_state =
    (Ret [\<lparr>PluginName = ''weave'', IfName = ''eth0'', Subnet = [], Refer_nic = []\<rparr>,
          \<lparr>PluginName = ''flannel'', IfName = ''eth0'', Subnet = [], Refer_nic = []\<rparr>], demo_state)"
    by code_simp
  from this explicit_interface_clash[OF this] show ?thesis by auto
qed

text \<open>A non-blank annotation \<^verbatim>\<open>cni\<close> names the plugins of the pod, in its order and as it is written, whatever
  other annotations there are; the plugins get the interfaces \<^verbatim>\<open>eth0\<close>, \<^verbatim>\<open>eth1\<close>, ... and nothing is asked
  of the API server.\<close>

theorem cni_annotation_plugins:
  assumes "TrimSpace (map_get annot ''cni'') \<noteq> []"
  shows "\<exists>infos. parseCNIAnnotations g annot client k conf s = (Ret infos, s)
    \<and> Join (map PluginName infos) '','' = map_get annot ''cni'' \<and> map intf_name (enumerate 0 infos) = map nic [0..<length infos]"
proof -
  have trim: "TrimSpace [] = []" by code_simp
  then obtain al where al: "annot = Some al" using assms by (cases annot) (auto simp: map_get_def)
  moreover have "al \<noteq> []" using assms trim al by (intro notI) (simp add: map_get_def)
  moreover have "map PluginName (map plain_plugin xs) = xs" for xs by (simp add: plain_plugin_def comp_def)
  moreover have "map intf_name (enumerate n (map plain_plugin xs)) = map nic [n..<n + length xs]" for n xs
    by (induction xs arbitrary: n) (simp_all add: intf_name_def plain_plugin_def nic_def upt_conv_Cons del: upt_Suc)
  ultimately show ?thesis
    using assms by (simp add: parseCNIAnnotations_def go_ret_def Join_Split)
qed

theorem cni_annotation_plugins_witness:
  "\<exists>infos. parseCNIAnnotations demo_env (Some [(''cni'', ''weave,flannel'')]) () demo_k8s zero_NetConf demo_state = (Ret infos, demo_state)
    \<and> Join (map PluginName infos) '','' = ''weave,flannel''"
proof -
  have "TrimSpace (map_get (Some [(''cni'', ''weave,flannel'')]) ''cni'') \<noteq> []" by code_simp
  from cni_annotation_plugins[OF this, of demo_env "()" demo_k8s zero_NetConf demo_state] show ?thesis by (auto simp: map_get_def)
qed

section \<open>Configuration files\<close>

text \<open>C31: \<open>addNetwork\<close> runs the delegates of the first file, in the order of the names, whose name contains that
  of the plugin and that reads as a configuration; when there is none, those of a default configuration.\<close>

theorem addNetwork_first_file:
  assumes "\<And>f. snd (ReadFile (gnode g) f s) = s"
    and "ConfFiles (gnode g) DefaultNetDir [''.conf'', ''.conflist''] s = (Ret files, s)"
  shows "addNetwork g intfName cniName a s =
    (let run = (\<lambda>l. go_bind (go_wrap (Errorf_vt ''CNI Genie couldn't convert cniArgs to RuntimeConf: '' [CHR 0x0A]) (runtimeConf g a intfName))
                      (\<lambda>rt. AddNetworkList (gnode g) [DefaultPluginDir] l rt))
     in case find (tried g cniName s) (sort files) of
          None \<Rightarrow> go_bind (createConfIfBinaryExists g cniName) run s
        | Some f \<Rightarrow>
            (case fst (ParseCNIConfFromFile g f s) of
               Ret l \<Rightarrow> if Network (hd (listPlugins l)) = None then (Panic ''invalid memory address or nil pointer dereference'', s) else run l s
             | Err e \<Rightarrow> (Err e, s)
             | Panic p \<Rightarrow> (Panic p, s)))"
  using assms(2) first_conf_find[of g s cniName "sort files", OF assms(1)]
  by (auto simp: addNetwork_def go_bind_def go_ret_def picked_def Let_def split: option.splits go_res.splits)

theorem addNetwork_first_file_witness:
  "addNetwork demo_env ''eth0'' ''ghost'' demo_args demo_state =
    go_bind (createConfIfBinaryExists demo_env ''ghost'')
      (\<lambda>l. go_bind (go_wrap (Errorf_vt ''CNI Genie couldn't convert cniArgs to RuntimeConf: '' [CHR 0x0A]) (runtimeConf demo_env demo_args ''eth0''))
             (\<lambda>rt. AddNetworkList demo_node [DefaultPluginDir] l rt)) demo_state"
proof -
  have "find (tried demo_env ''ghost'' demo_state) (sort [''/etc/cni/net.d/10-weave.conf'', ''/etc/cni/net.d/20-flannel.conflist'']) = None"
    by (simp add: find_None_iff tried_def)
  with addNetwork_first_file[of demo_env demo_state, OF demo_reads] demo_files(2) show ?thesis
    by (simp add: demo_env_def)
qed

text \<open>C32: The default configuration \<open>createConfIfBinaryExists\<close> writes for bridge, macvlan or sriov is one that
  \<open>addNetwork\<close> and \<open>deleteNetwork\<close> pick up and read as the very list that was used to add the pod: a single
  plugin of the type that was asked for.\<close>

theorem default_conf_roundtrip:
  assumes "checkPluginBinary g cniName s = (Ret (), s)" "plugin_object g cniName s = (Ret v, s1)"
    and "\<And>s nic. fst (GetDefaultNic (gnode g) s) = Ret nic \<Longrightarrow> valid_utf8 nic"
    and "WriteFile (gnode g) (conf_path cniName) (json_MarshalIndent v) s1 = (Ret (), s2)"
    and "ReadFile (gnode g) (conf_path cniName) s2 = (Ret (json_MarshalIndent v), s2)"
  shows "\<exists>l p n. createConfIfBinaryExists g cniName s = (Ret l, s2) \<and> ParseCNIConfFromFile g (conf_path cniName) s2 = (Ret l, s2)
    \<and> tried g cniName s2 (conf_path cniName) \<and> listPlugins l = [p] \<and> Network p = Some n \<and> cnType n = cniName"
proof -
  have ne: "cniName \<noteq> []"
    using assms(2) by (auto simp: plugin_object_def go_err_def BridgeNet_def Macvlan_def SriovNet_def split: if_splits)
  have "conf_value cniName v" using assms(2,3) by (rule plugin_object_value)
  from createConf_roundtrip[OF assms(1,2) this ne assms(4,5)] show ?thesis
    using ne conf_path_contains by (auto simp: tried_def)
qed

theorem default_conf_roundtrip_witness:
  "\<exists>l p n s2. createConfIfBinaryExists demo_env ''macvlan'' (demo_state\<lparr>dPrograms := [''macvlan'']\<rparr>) = (Ret l, s2)
    \<and> ParseCNIConfFromFile demo_env (conf_path ''macvlan'') s2 = (Ret l, s2) \<and> listPlugins l = [p] \<and> Network p = Some n \<and> cnType n = ''macvlan''"
proof -
  let ?s = "demo_state\<lparr>dPrograms := [''macvlan'']\<rparr>" and ?v = "macvlan_conf ''eth1''"
  let ?s2 = "?s\<lparr>dFiles := map_put (conf_path ''macvlan'') (json_MarshalIndent ?v) (dFiles ?s)\<rparr>"
  have nic: "GetDefaultNic (gnode demo_env) s = (Ret ''eth1'', s)" for s
    by (simp add: GetDefaultNic_def demo_env_def demo_node_def go_simps Let_def TrimRight_def)
  have "checkPluginBinary demo_env ''macvlan'' ?s = (Ret (), ?s)"
    by (simp add: checkPluginBinary_def demo_env_def demo_node_def DefaultPluginDir_def DefaultNetDir_def)
  moreover have "plugin_object demo_env ''macvlan'' ?s = (Ret ?v, ?s)"
    using nic[of ?s] by (simp add: plugin_object_def BridgeNet_def Macvlan_def GetMacvlanConfig_def go_simps Let_def)
  moreover have "valid_utf8 n" if "fst (GetDefaultNic (gnode demo_env) s) = Ret n" for s n
    using that nic[of s] by (auto simp: ascii_utf8 byte_def)
  moreover have "WriteFile (gnode demo_env) (conf_path ''macvlan'') (json_MarshalIndent ?v) ?s = (Ret (), ?s2)"
    by (simp add: demo_env_def demo_node_def)
  moreover have "ReadFile (gnode demo_env) (conf_path ''macvlan'') ?s2 = (Ret (json_MarshalIndent ?v), ?s2)"
    by (simp add: demo_env_def demo_node_def found_def map_of_map_put)
  ultimately show ?thesis using default_conf_roundtrip[of demo_env "''macvlan''" ?s ?v ?s ?s2] by blast
qed

text \<open>C40: \<open>deleteNetwork\<close> only looks at \<^verbatim>\<open>.conf\<close> files: when no name of one contains that of the plugin, but a \<^verbatim>\<open>.conflist\<close>
  file \<open>f\<close> is the first that fits, \<open>addNetwork\<close> runs the delegates of \<open>f\<close>, and \<open>deleteNetwork\<close> runs none: it reports
  success if there is any \<^verbatim>\<open>.conf\<close> file, and otherwise that no networks were found.\<close>

theorem deleteNetwork_ignores_lists:
  assumes "\<And>f. snd (ReadFile (gnode g) f s) = s"
    and "ConfFiles (gnode g) DefaultNetDir [''.conf''] s = (Ret files, s)" "list_all (\<lambda>f. \<not> Contains f cniName) files"
    and "ConfFiles (gnode g) DefaultNetDir [''.conf'', ''.conflist''] s = (Ret both, s)"
    and "sort both = before @ f # after" "list_all (\<lambda>f. \<not> Contains f cniName) before" "HasSuffix f ''.conflist''"
    and "Contains f cniName" "cniName \<noteq> []" "fst (ParseCNIConfFromFile g f s) = Ret l" "Network (hd (listPlugins l)) = Some n"
  shows "addNetwork g intfName cniName a s =
      go_bind (go_wrap (Errorf_vt ''CNI Genie couldn't convert cniArgs to RuntimeConf: '' [CHR 0x0A]) (runtimeConf g a intfName))
        (\<lambda>rt. AddNetworkList (gnode g) [DefaultPluginDir] l rt) s
    \<and> deleteNetwork g intfName cniName a s =
      (if files = [] then Err (ErrorString (''No networks found in '' @ DefaultNetDir)) else Ret (), s)"
proof -
  have "find (tried g cniName s) (before @ xs) = find (tried g cniName s) xs" for xs
    using assms(6) by (induction before) (simp_all add: tried_def)
  then have f: "find (tried g cniName s) (sort both) = Some f" using assms(5,8-10) by (simp add: tried_def)
  have "first_conf g cniName (sort both) s = (Ret (Some l), s)"
    using first_conf_find[of g s cniName "sort both", OF assms(1)] f assms(10,11) by (simp add: picked_def)
  then have "addNetwork g intfName cniName a s =
      go_bind (go_wrap (Errorf_vt ''CNI Genie couldn't convert cniArgs to RuntimeConf: '' [CHR 0x0A]) (runtimeConf g a intfName))
        (\<lambda>rt. AddNetworkList (gnode g) [DefaultPluginDir] l rt) s"
    using assms(4) by (simp add: addNetwork_def go_bind_def go_ret_def)
  moreover have "deleteNetwork g intfName cniName a s = (Ret (), s)" if "files \<noteq> []"
    by (rule deleteNetwork_unmatched[OF assms(2) that assms(3)])
  ultimately show ?thesis using assms(2) by (auto simp: deleteNetwork_def go_bind_def go_err_def)
qed

theorem deleteNetwork_ignores_lists_witness:
  "deleteNetwork demo_env ''eth1'' ''flannel'' demo_args demo_state = (Ret (), demo_state)
    \<and> (\<exists>l. fst (ParseCNIConfFromFile demo_env ''/etc/cni/net.d/20-flannel.conflist'' demo_state) = Ret l
         \<and> addNetwork demo_env ''eth1'' ''flannel'' demo_args demo_state =
             go_bind (go_wrap (Errorf_vt ''CNI Genie couldn't convert cniArgs to RuntimeConf: '' [CHR 0x0A]) (runtimeConf demo_env demo_args ''eth1''))
               (\<lambda>rt. AddNetworkList demo_node [DefaultPluginDir] l rt) demo_state)"
proof -
  let ?f = "''/etc/cni/net.d/20-flannel.conflist''" and ?w = "''/etc/cni/net.d/10-weave.conf''"
  obtain l n where l: "fst (ParseCNIConfFromFile demo_env ?f demo_state) = Ret l" "Network (hd (listPlugins l)) = Some n"
    using demo_flannel by blast
  have d: "gnode demo_env = demo_node" by (simp add: demo_env_def)
  have c: "list_all (\<lambda>f. \<not> Contains f ''flannel'') [?w]" "sort [?w, ?f] = [?w] @ ?f # []" "HasSuffix ?f ''.conflist''" "Contains ?f ''flannel''"
    by code_simp+
  from deleteNetwork_ignores_lists[of demo_env demo_state "[?w]" "''flannel''" "[?w, ?f]" "[?w]" ?f "[]" l n "''eth1''" demo_args,
      unfolded d, OF demo_reads[unfolded d] demo_files(1) c(1) demo_files(2) c(2) c(1) c(3,4) _ l]
  show ?thesis using l(1) by auto
qed

section \<open>Adding and deleting a pod\<close>

text \<open>C30: \<open>DeletePodNetwork\<close> tries every plugin of the pod in order, whatever the others return (only a panic ends
  it early), succeeds exactly when all succeed, and otherwise reports the error of the last that failed.\<close>

theorem DeletePodNetwork_attempts:
  assumes "pod_plugins g a conf s = (Ret (k, client, infos), s1)"
    and "attempts (\<lambda>ip. deleteNetwork g (intf_name ip) (PluginName (snd ip)) a) (enumerate 0 infos) s1 = (rs, s2)"
  shows "DeletePodNetwork g a conf s = (report ''CNI Genie error at deleteNetwork: '' () (last_error rs None), s2)
    \<and> (fst (DeletePodNetwork g a conf s) = Ret () \<longleftrightarrow> list_all (\<lambda>r. \<exists>x. r = Ret x) rs)
    \<and> (list_all (\<lambda>r. \<nexists>p. r = Panic p) rs \<longrightarrow> length rs = length infos)"
proof -
  have d: "DeletePodNetwork g a conf s = (report ''CNI Genie error at deleteNetwork: '' () (last_error rs None), s2)"
    using assms by (rule DeletePodNetwork_loop)
  have "report msg () r = Ret () \<longleftrightarrow> r = Ret None" for msg r
    by (simp add: report_def split: go_res.split option.split)
  moreover have "list_all (\<lambda>r. \<nexists>p. r = Panic p) rs \<longrightarrow> length rs = length infos"
    using attempts_length[of "\<lambda>ip. deleteNetwork g (intf_name ip) (PluginName (snd ip)) a" "enumerate 0 infos" s1] assms(2) by simp
  ultimately show ?thesis using d last_error_success[of rs] by simp
qed

theorem DeletePodNetwork_attempts_witness:
  "\<exists>rs s2. attempts (\<lambda>ip. deleteNetwork demo_env (intf_name ip) (PluginName (snd ip)) demo_args)
        (enumerate 0 [plain_plugin ''weave'', plain_plugin ''flannel'']) demo_state = (rs, s2)
    \<and> DeletePodNetwork demo_env demo_args zero_NetConf demo_state = (report ''CNI Genie error at deleteNetwork: '' () (last_error rs None), s2)"
proof -
  obtain rs s2 where "attempts (\<lambda>ip. deleteNetwork demo_env (intf_name ip) (PluginName (snd ip)) demo_args)
      (enumerate 0 [plain_plugin ''weave'', plain_plugin ''flannel'']) demo_state = (rs, s2)"
    by (rule prod.exhaust)
  with DeletePodNetwork_attempts[OF demo_plugins this] show ?thesis by blast
qed

text \<open>C29: Without the annotation for several addresses \<open>AddPodNetwork\<close> tries every plugin in order, succeeds exactly
  when all succeed, and then returns the result of the last one; otherwise it reports the error of the last
  that failed, and the networks that were added stay.\<close>

theorem AddPodNetwork_attempts:
  assumes "pod_plugins g a conf s = (Ret (k, client, infos), s1)" "ParsePodAnnotationsForMultiIPPrefs g client k s1 = (Ret [], s2)"
    and "infos \<noteq> []"
    and "attempts (\<lambda>ip. addNetwork g (intf_name ip) (PluginName (snd ip)) a) (enumerate 0 infos) s2 = (rs, s3)"
  shows "AddPodNetwork g a conf s =
      (report ''CNI Genie error at addNetwork: '' (case last rs of Ret y \<Rightarrow> y | _ \<Rightarrow> None) (last_error rs None), s3)
    \<and> ((\<exists>y. fst (AddPodNetwork g a conf s) = Ret y) \<longleftrightarrow> list_all (\<lambda>r. \<exists>x. r = Ret x) rs)
    \<and> (list_all (\<lambda>r. \<nexists>p. r = Panic p) rs \<longrightarrow> length rs = length infos)"
proof -
  have d: "AddPodNetwork g a conf s =
      (report ''CNI Genie error at addNetwork: '' (case last rs of Ret y \<Rightarrow> y | _ \<Rightarrow> None) (last_error rs None), s3)"
    using assms by (rule AddPodNetwork_loop)
  have r: "(\<exists>y. report msg x r = Ret y) \<longleftrightarrow> r = Ret None" for msg r and x :: "cni_result option"
    by (auto simp: report_def split: go_res.split option.split)
  have "(\<exists>y. fst (AddPodNetwork g a conf s) = Ret y) \<longleftrightarrow> list_all (\<lambda>r. \<exists>x. r = Ret x) rs"
    unfolding d fst_conv r by (rule last_error_success)
  moreover have "list_all (\<lambda>r. \<nexists>p. r = Panic p) rs \<longrightarrow> length rs = length infos"
    using attempts_length[of "\<lambda>ip. addNetwork g (intf_name ip) (PluginName (snd ip)) a" "enumerate 0 infos" s2] assms(4) by simp
  ultimately show ?thesis using d by blast
qed

theorem AddPodNetwork_attempts_witness:
  "\<exists>rs s3. attempts (\<lambda>ip. addNetwork demo_env (intf_name ip) (PluginName (snd ip)) demo_args)
        (enumerate 0 [plain_plugin ''weave'', plain_plugin ''flannel'']) demo_state = (rs, s3)
    \<and> AddPodNetwork demo_env demo_args zero_NetConf demo_state =
        (report ''CNI Genie error at addNetwork: '' (case last rs of Ret y \<Rightarrow> y | _ \<Rightarrow> None) (last_error rs None), s3)"
proof -
  obtain rs s3 where at: "attempts (\<lambda>ip. addNetwork demo_env (intf_name ip) (PluginName (snd ip)) demo_args)
      (enumerate 0 [plain_plugin ''weave'', plain_plugin ''flannel'']) demo_state = (rs, s3)"
    by (rule prod.exhaust)
  have "ParsePodAnnotationsForMultiIPPrefs demo_env () demo_k8s demo_state = (Ret [], demo_state)" by code_simp
  from AddPodNetwork_attempts[OF demo_plugins this _ at] at show ?thesis by blast
qed

text \<open>C39: With the annotation for several addresses, a plugin that fails, at whatever position, is followed by an update of
  the pod with no result, and the process panics: neither the plugins after it are tried nor is the error reported. The plugins
  before it are those the loop got through.\<close>

theorem AddPodNetwork_nil_panic:
  assumes "pod_plugins g a conf s = (Ret (k, client, before @ info # after), s1)"
    and "ParsePodAnnotationsForMultiIPPrefs g client k s1 = (Ret annot, s2)" "annot \<noteq> []"
    and "go_fold (add_pod_plugin g a client k) (enumerate 0 before) \<lparr>asResult = None, asAnnot = annot, asErr = None\<rparr> s2 = (Ret st, s3)"
    and "addNetwork g (intf_name (length before, info)) (PluginName info) a s3 = (Err e, s4)"
  shows "AddPodNetwork g a conf s = (Panic ''invalid memory address or nil pointer dereference'', s4)"
  using AddPodNetwork_nil_result[OF assms(1-4)] assms(5) by simp

theorem AddPodNetwork_nil_panic_witness:
  "AddPodNetwork demo_env demo_args zero_NetConf demo_multi = (Panic ''invalid memory address or nil pointer dereference'', demo_multi)"
proof -
  have 1: "pod_plugins demo_env demo_args zero_NetConf demo_multi = (Ret (demo_k8s, (), [] @ plain_plugin ''ghost'' # [plain_plugin ''weave'']), demo_multi)"
    by code_simp
  have 2: "ParsePodAnnotationsForMultiIPPrefs demo_env () demo_k8s demo_multi = (Ret ''{}'', demo_multi)" by code_simp
  have 3: "go_fold (add_pod_plugin demo_env demo_args () demo_k8s) (enumerate 0 []) \<lparr>asResult = None, asAnnot = ''{}'', asErr = None\<rparr> demo_multi =
      (Ret \<lparr>asResult = None, asAnnot = ''{}'', asErr = None\<rparr>, demo_multi)"
    by (simp add: go_ret_def)
  have 4: "addNetwork demo_env (intf_name (length [], plain_plugin ''ghost'')) (PluginName (plain_plugin ''ghost'')) demo_args demo_multi =
      (Err (unsupported ''ghost''), demo_multi)"
    by code_simp
  show ?thesis using AddPodNetwork_nil_panic[OF 1 2 _ 3 4] by simp
qed

text \<open>C33: The addresses of several plugins come together: what \<open>UpdatePodDefinition\<close> returns, decoded by the call for
  the next plugin, is what the previous annotation held with the count increased by one, and the first address of this
  plugin and its interface entered under \<^verbatim>\<open>ip\<close> and the number after \<^verbatim>\<open>eth\<close> plus one, the other entries as they
  were. The same text is what the patch of the pod sets the annotation to.\<close>

theorem UpdatePodDefinition_accumulates:
  assumes "UpdatePodDefinition g intfName (Some r) annot client k s = (Ret annot', s')" "annot \<noteq> []"
    and "prefs_ok (decode_preferences annot)" "valid_utf8 intfName" "\<And>addrs. NewResultFromResult r = Inr addrs \<Longrightarrow> list_all valid_utf8 addrs"
  shows "(\<exists>ip more x idText xs old new.
       NewResultFromResult r = Inr (ip # more) \<and> Split intfName ''eth'' = x # idText # xs
       \<and> Ips (decode_preferences annot) = Some old \<and> Ips (decode_preferences annot') = Some new
       \<and> map_of new = (map_of old)(''ip'' @ Itoa (wrap64 (Atoi_value idText + 1)) \<mapsto> \<lparr>apIp = ip, apInterface = intfName\<rparr>)
       \<and> MultiEntry (decode_preferences annot') = wrap64 (MultiEntry (decode_preferences annot) + 1)
       \<and> prefs_ok (decode_preferences annot'))
    \<and> (\<exists>pod s1 pod'. GetPodDefinition g client (K8S_POD_NAMESPACE k) (K8S_POD_NAME k) s = (Ret pod, s1)
       \<and> pods_Patch (gnode g) client (K8S_POD_NAMESPACE k) (podName pod)
           (quoted ''{~metadata~:{~annotations~:{~multi-ip-preferences~:'' @ Quote (is_print (gnode g)) annot' @ ''}}}'') s1 = (Ret pod', s'))"
proof -
  have q: "annotation_patch isp t = quoted ''{~metadata~:{~annotations~:{~multi-ip-preferences~:'' @ Quote isp t @ ''}}}''" for isp t
    by (simp add: annotation_patch_def quoted_def MultiIPPreferencesAnnotation_def)
  show ?thesis using UpdatePodDefinition_decodes[OF assms(1-4)] UpdatePodDefinition_patches[OF assms(1,2)] assms(5) unfolding q by blast
qed

theorem UpdatePodDefinition_accumulates_witness:
  "\<exists>annot' s' new. UpdatePodDefinition demo_env ''eth0'' (Some (ResultCurrent [''10.0.0.2''] JNull)) (quoted ''{~ips~:{}}'') () demo_k8s demo_state = (Ret annot', s')
    \<and> MultiEntry (decode_preferences annot') = 1 \<and> Ips (decode_preferences annot') = Some new
    \<and> map_of new = [''ip1'' \<mapsto> \<lparr>apIp = ''10.0.0.2'', apInterface = ''eth0''\<rparr>]"
proof -
  let ?annot = "quoted ''{~multi_entry~:1,~ips~:{~ip1~:{~ip~:~10.0.0.2~,~interface~:~eth0~}}}''"
  have u: "fst (UpdatePodDefinition demo_env ''eth0'' (Some (ResultCurrent [''10.0.0.2''] JNull)) (quoted ''{~ips~:{}}'') () demo_k8s demo_state) = Ret ?annot"
    by code_simp
  have d: "decode_preferences (quoted ''{~ips~:{}}'') = \<lparr>MultiEntry = 0, Ips = Some []\<rparr>" by code_simp
  have e: "Split ''eth0'' ''eth'' = [[], ''0'']" "''ip'' @ Itoa (wrap64 (Atoi_value ''0'' + 1)) = ''ip1''" "wrap64 (0 + 1) = 1" by code_simp+
  have "valid_utf8 ''eth0''" "valid_utf8 ''10.0.0.2''" by code_simp+
  moreover have "prefs_ok (decode_preferences (quoted ''{~ips~:{}}''))" by (simp add: d prefs_ok_def)
  moreover have "quoted ''{~ips~:{}}'' \<noteq> []" by code_simp
  ultimately show ?thesis
    using UpdatePodDefinition_accumulates[of demo_env "''eth0''" "ResultCurrent [''10.0.0.2''] JNull" "quoted ''{~ips~:{}}''" "()" demo_k8s demo_state ?annot] u d e
    by (auto simp: NewResultFromResult_def prod_eq_iff)
qed

section \<open>The program\<close>

text \<open>C37: A call with a required variable missing, an unknown command, a configuration that is no JSON object or one of
  a version the plugin does not support does nothing but print an error object, and exits with status 1. Any other call runs
  its command, and the exit status is 0 exactly when that reports no error, and 1, after an error object was printed, when it
  does.\<close>

theorem plugin_main_outcome:
  assumes "\<forall>t s p. fst (WriteStdout io t s) \<noteq> Panic p"
  shows "case accepted io version_All of
      None \<Rightarrow> \<exists>e. plugin_main g io s = (Ret 1, snd (WriteStdout io (Error_text e) s))
    | Some c \<Rightarrow>
        (case command io (cmdAdd g) (cmdDel g) version_All c s of
           (Ret _, s') \<Rightarrow> plugin_main g io s = (Ret 0, s')
         | (Err err, s') \<Rightarrow> plugin_main g io s =
             (Ret 1, snd (WriteStdout io (Error_text (createTypedError (Sprintf0 io (error_text err)))) s'))
         | (Panic p, s') \<Rightarrow> plugin_main g io s = (Panic p, s'))"
proof -
  have w: "go_bind (go_log (WriteStdout io t)) (\<lambda>_. go_ret 1) s = (Ret (1 :: int), snd (WriteStdout io t s))" for t s
    using assms by (auto simp: go_simps split: go_res.split)
  show ?thesis
  proof (cases "accepted io version_All")
    case None
    then obtain e where "pluginMain io (is_print (gnode g)) (cmdAdd g) (cmdDel g) version_All = go_ret (Some e)"
      using pluginMain_accepted[where io = io and info = version_All and ip = "is_print (gnode g)" and add = "cmdAdd g" and del = "cmdDel g"] by auto
    then show ?thesis using None w by (auto simp: plugin_main_def PluginMain_def)
  next
    case (Some c)
    obtain r s' where r: "command io (cmdAdd g) (cmdDel g) version_All c s = (r, s')" by (rule prod.exhaust)
    show ?thesis
      using Some r w pluginMain_accepted[where io = io and info = version_All and ip = "is_print (gnode g)" and add = "cmdAdd g" and del = "cmdDel g"]
      by (cases r) (simp_all add: plugin_main_def PluginMain_def go_bind_def go_try_def go_ret_def typed_error_def)
  qed
qed

text \<open>A process that is called for a version of the specification that is not supported.\<close>

definition demo_io :: "demo_state process_io" where
  "demo_io =
     \<lparr>Getenv = env_lookup [''CNI_COMMAND=ADD'', ''CNI_NETNS=/ns'', ''CNI_IFNAME=eth0'', ''CNI_PATH=/opt/cni/bin'',
        ''CNI_ARGS=IgnoreUnknown=1;K8S_POD_NAMESPACE=red;K8S_POD_NAME=web''],
      ReadStdin = Inr (quoted ''{~cniVersion~:~0.9.9~}''), WriteStdout = \<lambda>_. go_ret (), Sprintf0 = id\<rparr>"

theorem plugin_main_outcome_witness:
  "accepted demo_io version_All = None \<and> plugin_main demo_env demo_io demo_state = (Ret 1, demo_state)"
proof -
  have a: "accepted demo_io version_All = None" by code_simp
  have "\<forall>t s p. fst (WriteStdout demo_io t s) \<noteq> Panic p" by (simp add: demo_io_def go_ret_def)
  from plugin_main_outcome[OF this, of demo_env demo_state] a show ?thesis by (auto simp: demo_io_def go_ret_def)
qed

text \<open>C38: The program writes no file but the default configurations of bridge, macvlan and sriov, and these only for the
  command \<^verbatim>\<open>ADD\<close>: an assertion that services, programs and the standard output leave true, and for that command these three
  files too, is true after it.\<close>

theorem plugin_main_writes_only_defaults:
  assumes "services_keep I (gnode g)" "\<forall>t. keeps I (WriteStdout io t)" "\<forall>r v. keeps I (print_result (gnode g) r v)"
    and "Getenv io ''CNI_COMMAND'' = ''ADD'' \<longrightarrow> (\<forall>n \<in> {BridgeNet, Macvlan, SriovNet}. \<forall>d. keeps I (WriteFile (gnode g) (conf_path n) d))"
    and "I s"
  shows "I (snd (plugin_main g io s))"
proof -
  let ?cmd = "command io (cmdAdd g) (cmdDel g) version_All"
  have c: "keeps I (?cmd (k, a))" if "accepted io version_All = Some (k, a)" for k a
  proof -
    have k: "k = Getenv io ''CNI_COMMAND''" "k \<in> {''VERSION'', ''ADD'', ''DEL''}"
      using that by (auto simp: accepted_def getCmdArgsFromEnv_def split: sum.splits if_splits)
    have "k = ''ADD'' \<Longrightarrow> keeps I (cmdAdd g a)"
      by (rule keeps_cmdAdd) (use assms k(1) in auto)
    then show ?thesis
      using k(2) assms(2) keeps_cmdDel[OF assms(1)] by (auto simp: command_def pluginInfo_Encode_def)
  qed
  have "keeps I (pluginMain io (is_print (gnode g)) (cmdAdd g) (cmdDel g) version_All)"
    using pluginMain_accepted[where io = io and info = version_All and ip = "is_print (gnode g)" and add = "cmdAdd g" and del = "cmdDel g"] c
    by (cases "accepted io version_All") (auto intro!: keeps_bind keeps_try)
  then have "keeps I (plugin_main g io)"
    unfolding plugin_main_def PluginMain_def using assms(2) by (intro keeps_bind keeps_case_option keeps_log keeps_ret) auto
  then show ?thesis using assms(5) by (rule keepsD)
qed

theorem plugin_main_writes_only_defaults_witness:
  "map_of (dFiles (snd (plugin_main demo_env demo_io demo_state))) ''/etc/cni/net.d/10-weave.conf'' =
   map_of (dFiles demo_state) ''/etc/cni/net.d/10-weave.conf''"
proof -
  let ?f = "''/etc/cni/net.d/10-weave.conf''"
  let ?I = "\<lambda>s. map_of (dFiles s) ?f = map_of (dFiles demo_state) ?f"
  have "services_keep ?I (gnode demo_env)"
    by (simp add: services_keep_def demo_env_def demo_node_def keeps_def go_simps)
  moreover have "keeps ?I (WriteFile (gnode demo_env) (conf_path n) d)" if "n \<in> {BridgeNet, Macvlan, SriovNet}" for n d
  proof -
    have "conf_path n \<noteq> ?f" using that by (auto simp: conf_path_def DefaultNetDir_def BridgeNet_def Macvlan_def SriovNet_def)
    then show ?thesis by (simp add: keeps_def demo_env_def demo_node_def map_of_map_put)
  qed
  moreover have "keeps ?I (print_result (gnode demo_env) r v)" "keeps ?I (WriteStdout demo_io t)" for r v t
    by (simp_all add: keeps_def demo_env_def demo_node_def demo_io_def go_simps)
  ultimately show ?thesis using plugin_main_writes_only_defaults[of ?I demo_env demo_io demo_state] by blast
qed

end
