(* ===== verification/Spec2Isabelle.thy ===== *)
theory Spec2Isabelle
  imports InformerProperties GenieProperties
begin

text \<open>
  \<^bold>\<open>CNI-Genie\<close>: a verification library for the two programs of the repository.

  \<^bold>\<open>The programs.\<close>
  The \<^emph>\<open>network policy controller\<close> (\<^verbatim>\<open>src/controllers/network-policy-controller\<close>) watches network policies and logical
  networks through informers. Its event handlers write changes as JSON items into a work queue; workers take
  the items and run \<open>syncHandler\<close>, which keeps the \<^verbatim>\<open>iptables\<close> filter table in step: a base chain reached from
  \<^verbatim>\<open>FORWARD\<close>, a chain per logical network that is reached by its subnet and ends in \<^verbatim>\<open>REJECT\<close>, and a chain per
  policy that accepts its peers. It is built on generated code (\<^verbatim>\<open>src/controllers/logicalnetwork-pkg\<close>,
  \<^verbatim>\<open>src/utils/logicalnetwork.deepcopy.go\<close>): a client for logical networks, informers with their factory, listers and
  deep copies. The \<^emph>\<open>CNI plugin\<close> (\<^verbatim>\<open>src/cni-genie.go\<close>, \<^verbatim>\<open>src/genie\<close>, \<^verbatim>\<open>src/plugins\<close>) is called for
  every pod that is added or deleted; it reads the pod's annotations, resolves them to networking solutions,
  and delegates to the CNI plugins these name, one after the other.

  \<^bold>\<open>Conventions.\<close>
  A Go call is a function from a state to a result (\<open>Ret\<close>, \<open>Err\<close> or \<open>Panic\<close>) and a state (\<open>Prelude\<close>, type \<open>go\<close>);
  \<open>go_bind\<close> is the early return on an error, \<open>go_try\<close> a call whose error is looked at, \<open>go_wrap\<close> the
  \<^verbatim>\<open>fmt.Errorf\<close> around one, \<open>go_fold\<close> a loop. A Go string is its list of bytes. A map is an association list
  in the order of insertion, and where the order of a \<^verbatim>\<open>range\<close> loop matters it is an argument. What runs outside the
  repository is an argument: the packet filter is the record \<open>host\<close> of \<open>GoIptables\<close>, the API server, the
  file system and the programs of a node are the record \<open>node\<close> of \<open>Libcni\<close>, the codecs and the exchange of a request
  are the record \<open>api\<close> and the parts a client is built from the record \<open>transport\<close> of \<open>RestClient\<close>. Goroutines are
  step relations (\<open>npc_step\<close>, \<open>factory_step\<close>, \<open>reflect_step\<close>, \<open>process_step\<close>); what runs under a lock is one step. A handler
  is a step too, but one that records which other handlers were inside \<open>syncHandler\<close> at the same time: those may do anything to the
  packet filter, so that the mutex is what makes a run safe. Logging is left out.

  \<^bold>\<open>Theories of the controller.\<close>
  \<^item> \<open>GoIptables\<close> translates the vendored \<^verbatim>\<open>go-iptables\<close> client, \<open>FilterTable\<close> says what the commands do to a
    table and proves the client's operations against it, \<open>RefHost\<close> is an executable packet filter that satisfies it;
    the contract is the locale the controller's theorems are proved in.
  \<^item> \<open>Md5\<close> computes chain names, \<open>Json\<close> is \<^verbatim>\<open>encoding/json\<close>, \<open>JsonFacts\<close> shows that fuel as long as the text is
    enough and that what is encoded is read back.
  \<^item> \<open>NpcIptables\<close> is \<^verbatim>\<open>iptables/iptables.go\<close>, \<open>NetworkPolicy\<close> the handlers and \<open>syncHandler\<close> of
    \<^verbatim>\<open>networkpolicycontroller.go\<close>, over the listers and types of \<open>Types\<close>.
  \<^item> \<open>NpcSpec\<close> states the abstract step of a work item on a table; \<open>NpcIptablesFacts\<close>, \<open>NpcShape\<close>,
    \<open>NpcHandlers\<close> and \<open>NpcRefine\<close> show that \<open>syncHandler\<close> refines it on every branch and keeps the chains in shape,
    \<open>NpcAuthority\<close> that every rule it adds is called for, \<open>NpcFunctional\<close> and \<open>Verdict\<close> what a run means for packets.
    \<open>NpcProperties\<close> collects the properties.
  \<^item> \<open>WorkQueue\<close> is \<^verbatim>\<open>workqueue.Type\<close> with its invariant, \<open>Events\<close> the event handlers, \<open>Controller\<close> \<^verbatim>\<open>Run\<close>, the workers,
    and the step relation \<open>npc_step\<close> of the whole system: notifications, changes of the caches, the stop signal and the
    steps of every worker into and out of \<open>Get\<close>, the mutex, the handler and \<open>Done\<close>. \<open>ControllerFacts\<close> has the
    invariants by induction on runs, \<open>ControllerProperties\<close> the properties: safety, serialisability, no lost item,
    progress, termination of a worker.

  \<^bold>\<open>Theories of the generated code and of the program around the controller.\<close>
  \<^item> \<open>CacheStore\<close> is the store of an informer with its indices and the listing functions
    (\<^verbatim>\<open>client-go/tools/cache\<close>); \<open>CacheStoreFacts\<close> proves the laws of its interface, the locale \<open>indexer_laws\<close>: the
    contents after every operation, and that an index holds exactly the keys of the objects with its value. The order in
    which a Go map is visited is the argument of the locale \<open>map_order\<close>.
  \<^item> \<open>Listers\<close>: the listers, proved once for a type of objects in the locale \<open>typed_indexer\<close> and used for both types; they
    return what the handlers of \<open>NetworkPolicy\<close> read from a snapshot. \<open>SharedInformer\<close>: how an informer turns changes
    into store operations and notifications. \<open>DeltaFifo\<close>: the queue of changes of \<^verbatim>\<open>delta_fifo.go\<close>, the reflector of
    \<^verbatim>\<open>reflector.go\<close> that fills it, and the goroutines of an informer as the step relation \<open>reflect_step\<close>.
    \<open>DeltaFifoFacts\<close>: every operation of the queue against its view, what the store will hold once the queue is drained;
    \<open>ReflectorFacts\<close>: the invariant of runs; \<open>InformerProperties\<close>: the store converges to what the API server told,
    what \<open>HasSynced\<close> promises, and the second lists that break convergence. The process of \<open>Startup\<close> runs both informers by
    these steps.
  \<^item> \<open>RestClient\<close>: the requests of the client library, the generated client of \<^verbatim>\<open>typed/network/v1\<close> and the clientset;
    \<open>RestFacts\<close>: the paths of requests; \<open>RestProperties\<close>: what the client addresses, and what the plugin's own
    requests address.
  \<^item> \<open>Informers\<close>: the informer factory, \<^verbatim>\<open>informers/externalversions\<close>, with its invariant. \<open>DeepCopy\<close>:
    \<^verbatim>\<open>logicalnetwork.deepcopy.go\<close> over an explicit memory, with the copies of the metadata down to the last pointer; the contract
    of a copy is the locale \<open>copier\<close>, interpreted for every struct. No chain of addresses is longer than \<open>depth\<close>.
  \<^item> \<open>Startup\<close>: \<^verbatim>\<open>main.go\<close>, \<^verbatim>\<open>signals\<close>, \<open>NewNpcController\<close>, and the process as one step relation: the factories that start, the
    steps of the informers (\<open>reflect_step\<close>), the listeners, the main goroutine with what \<open>Run\<close> returned, the workers and the signals. \<open>StartupFacts\<close>: the invariant of the process
    in the locale \<open>npc_process\<close>; while it serves, its state is one that a run of \<open>npc_step\<close> reaches, so that the
    properties of the controller hold of the program. \<open>ProcessProperties\<close> collects the properties.

  \<^bold>\<open>Theories of the plugin.\<close>
  \<^item> \<open>Float64\<close> and \<open>JsonRender\<close>: decoding into \<^verbatim>\<open>interface{}\<close>, \<^verbatim>\<open>Marshal\<close> and \<^verbatim>\<open>MarshalIndent\<close>, and that what they print is
    read back. \<open>GenieBase\<close>: string and number functions, decoding into structures, \<^verbatim>\<open>utils/types.go\<close>.
  \<^item> \<open>Libcni\<close>: the node, and the parts of the vendored CNI library the plugin calls (arguments, configuration files, running
    delegates with their environment). \<open>Plugins\<close>: the default configurations of \<^verbatim>\<open>src/plugins\<close>.
  \<^item> \<open>Cadvisor\<close>: \<^verbatim>\<open>genie-cadvisor-client.go\<close> and \<^verbatim>\<open>sort-map-values.go\<close>; the contract of \<^verbatim>\<open>sort.Sort\<close> is the locale
    \<open>sort_pkg\<close>, interpreted by insertion sort. \<open>GenieCrd\<close>: \<^verbatim>\<open>genie-crd-processor.go\<close>. \<open>Genie\<close>:
    \<^verbatim>\<open>genie-controller.go\<close> and \<^verbatim>\<open>cni-genie.go\<close>, function by function. \<open>PluginMain\<close>: the program, from the environment
    of the process to its exit status, through \<^verbatim>\<open>skel.PluginMain\<close> of the CNI library.
  \<^item> \<open>GenieFacts\<close> (arguments, usage against a reference on the list of samples, interfaces of annotations), \<open>GenieFiles\<close> (which
    configuration file is picked, default configurations), \<open>GenieLoops\<close> (the loops over plugins against a reference that
    tries each, what may be written), \<open>GenieAnnot\<close> (the annotation with the addresses), \<open>GenieDemo\<close> (a concrete node for
    the witnesses), \<open>GenieProperties\<close> (the properties).

  \<^bold>\<open>Termination and fuel.\<close>
  Every definition is total. The JSON parser takes the length of its text as fuel, and more fuel does not change a result
  (\<open>JsonFacts\<close>); the search for a free interface name terminates because finitely many names are used (\<open>GenieCrd\<close>);
  a worker's loop terminates because every round takes an item out of a queue it does not add to (\<open>Controller\<close>). A
  \<^verbatim>\<open>Get\<close> on an empty queue waits: it is a step that is not enabled, and \<open>run_progress\<close> says when one is.

  \<^bold>\<open>Not modelled.\<close>
  Of the generated code the registration of the types with the scheme, which serves the codecs; of the informers
  the lists and events the API server sends, and the timers of watches and resyncs (both come at any time); the parsing of flags and of the kubeconfig; \<^verbatim>\<open>genie-monitor.go\<close>, whose code is commented out; the
  conversion and output of results, a field of the node, and \<^verbatim>\<open>fmt.Sprintf\<close> of an error message as a format; of the vendored libraries what the two programs do not call; the metrics of the queue; log output. The handlers of one item read
  one snapshot of the caches. Unicode tables, the syntax of addresses, the decoding of Kubernetes metadata, of cAdvisor's
  statistics and of plugin results are fields of the node.
\<close>

end
